(* ===== verification/Prelude.thy ===== *)
theory Prelude
  imports Main "HOL-Library.Word"
begin

unbundle bit_operations_syntax

text \<open>
  Shared material of the development.
  \<^item> The machine integer types of the source as words: \<open>u8\<close> to \<open>u128\<close> and
    \<open>usize\<close> (64 bits: the host modelled is a 64-bit little-endian one). A signed
    integer is the word with the same bits, read with \<^const>\<open>sint\<close>.
  \<^item> The ways a Rust function can end: \<open>Ok\<close>, \<open>Err\<close> and \<open>Panic\<close>
    (a failed assertion, an \<open>unwrap\<close> of \<open>None\<close>, an index out of range), with
    the \<open>?\<close> operator as \<open>and_then\<close>.
  \<^item> Rust's integer primitives that are not HOL constants: masked shifts, checked
    arithmetic, truncating division, bit counting, byte order conversion.
  \<^item> Host memory as a function from addresses to bytes, with reads and writes of byte
    ranges.
  Arithmetic is that of a release build: \<open>+\<close>, \<open>-\<close> and \<open>*\<close> wrap, and a
  shift uses its amount modulo the width.
\<close>

named_theorems res_simps \<open>rules that run the result type\<close>
named_theorems word_bit_simps \<open>bits of the word operations of this development\<close>
named_theorems mem_simps \<open>reads and writes of host memory\<close>

type_synonym u8 = "8 word"
type_synonym u16 = "16 word"
type_synonym u32 = "32 word"
type_synonym u64 = "64 word"
type_synonym u128 = "128 word"
type_synonym usize = "64 word"

section \<open>Results\<close>

datatype ('a, 'e) res = Ok 'a | Err 'e | Panic

fun and_then :: "('a, 'e) res \<Rightarrow> ('a \<Rightarrow> ('b, 'e) res) \<Rightarrow> ('b, 'e) res" where
  "and_then (Ok x) f = f x"
| "and_then (Err e) f = Err e"
| "and_then Panic f = Panic"

definition ok_or :: "'a option \<Rightarrow> 'e \<Rightarrow> ('a, 'e) res" where
  "ok_or x e = (case x of Some v \<Rightarrow> Ok v | None \<Rightarrow> Err e)"

definition unwrap :: "'a option \<Rightarrow> ('a, 'e) res" where
  "unwrap x = (case x of Some v \<Rightarrow> Ok v | None \<Rightarrow> Panic)"

definition rust_assert :: "bool \<Rightarrow> (unit, 'e) res" where
  "rust_assert b = (if b then Ok () else Panic)"

lemma and_then_Ok_iff [res_simps]:
  "and_then r f = Ok y \<longleftrightarrow> (\<exists>x. r = Ok x \<and> f x = Ok y)"
  by (cases r) auto

lemma and_then_Err_iff [res_simps]:
  "and_then r f = Err e \<longleftrightarrow> r = Err e \<or> (\<exists>x. r = Ok x \<and> f x = Err e)"
  by (cases r) auto

lemma and_then_Panic_iff [res_simps]:
  "and_then r f = Panic \<longleftrightarrow> r = Panic \<or> (\<exists>x. r = Ok x \<and> f x = Panic)"
  by (cases r) auto

lemma and_then_assoc: "and_then (and_then r f) g = and_then r (\<lambda>x. and_then (f x) g)"
  by (cases r) auto

lemma ok_or_simps [simp]: "ok_or (Some x) e = Ok x" "ok_or None e = Err e"
  by (simp_all add: ok_or_def)

lemma unwrap_simps [simp]: "unwrap (Some x) = Ok x" "unwrap None = Panic"
  by (simp_all add: unwrap_def)

lemma rust_assert_simps [simp]: "rust_assert True = Ok ()" "rust_assert False = Panic"
  by (simp_all add: rust_assert_def)

section \<open>Integer primitives\<close>

text \<open>Shifts take their amount modulo the width, as \<open>wrapping_shl\<close> and a release
  build's \<open><<\<close> do.\<close>

definition wrapping_shl :: "'a::len word \<Rightarrow> nat \<Rightarrow> 'a word" where
  "wrapping_shl a n = push_bit (n mod LENGTH('a)) a"

definition wrapping_shr :: "'a::len word \<Rightarrow> nat \<Rightarrow> 'a word" where
  "wrapping_shr a n = drop_bit (n mod LENGTH('a)) a"

definition wrapping_sshr :: "'a::len word \<Rightarrow> nat \<Rightarrow> 'a word" where
  "wrapping_sshr a n = signed_drop_bit (n mod LENGTH('a)) a"

definition checked_add :: "'a::len word \<Rightarrow> 'a word \<Rightarrow> 'a word option" where
  "checked_add a b = (if 2 ^ LENGTH('a) \<le> uint a + uint b then None else Some (a + b))"

definition checked_sub :: "'a::len word \<Rightarrow> 'a word \<Rightarrow> 'a word option" where
  "checked_sub a b = (if b \<le> a then Some (a - b) else None)"

text \<open>Unsigned division and remainder are \<open>None\<close> on a zero divisor only.\<close>

definition checked_div_u :: "'a::len word \<Rightarrow> 'a word \<Rightarrow> 'a word option" where
  "checked_div_u a b = (if b = 0 then None else Some (a div b))"

definition checked_rem_u :: "'a::len word \<Rightarrow> 'a word \<Rightarrow> 'a word option" where
  "checked_rem_u a b = (if b = 0 then None else Some (a mod b))"

text \<open>Signed division truncates towards zero.\<close>

definition trunc_div :: "int \<Rightarrow> int \<Rightarrow> int" where
  "trunc_div n d = sgn (n * d) * (\<bar>n\<bar> div \<bar>d\<bar>)"

definition trunc_rem :: "int \<Rightarrow> int \<Rightarrow> int" where
  "trunc_rem a b = a - trunc_div a b * b"

definition int_min :: "'a::len word" where
  "int_min = push_bit (LENGTH('a) - 1) 1"

definition checked_div_s :: "'a::len word \<Rightarrow> 'a word \<Rightarrow> 'a word option" where
  "checked_div_s a b =
     (if b = 0 \<or> (a = int_min \<and> b = -1) then None
      else Some (word_of_int (trunc_div (sint a) (sint b))))"

definition checked_rem_s :: "'a::len word \<Rightarrow> 'a word \<Rightarrow> 'a word option" where
  "checked_rem_s a b =
     (if b = 0 \<or> (a = int_min \<and> b = -1) then None
      else Some (word_of_int (trunc_rem (sint a) (sint b))))"

definition wrapping_abs :: "'a::len word \<Rightarrow> 'a word" where
  "wrapping_abs a = (if sint a < 0 then - a else a)"

text \<open>\<open>min\<close> and \<open>max\<close> of signed integers.\<close>

definition min_s :: "'a::len word \<Rightarrow> 'a word \<Rightarrow> 'a word" where
  "min_s a b = (if sint b < sint a then b else a)"

definition max_s :: "'a::len word \<Rightarrow> 'a word \<Rightarrow> 'a word" where
  "max_s a b = (if sint b < sint a then a else b)"

definition trailing_zeros :: "'a::len word \<Rightarrow> nat" where
  "trailing_zeros w = length (takeWhile (\<lambda>i. \<not> bit w i) [0..<LENGTH('a)])"

definition leading_zeros :: "'a::len word \<Rightarrow> nat" where
  "leading_zeros w = length (takeWhile (\<lambda>i. \<not> bit w i) (rev [0..<LENGTH('a)]))"

definition count_ones :: "'a::len word \<Rightarrow> nat" where
  "count_ones w = length (filter (bit w) [0..<LENGTH('a)])"

section \<open>Bytes\<close>

text \<open>\<open>to_le_bytes\<close> and \<open>from_le_bytes\<close>; \<open>n\<close> is the size of the type in
  bytes.\<close>

definition to_le_bytes :: "nat \<Rightarrow> 'a::len word \<Rightarrow> u8 list" where
  "to_le_bytes n w = map (\<lambda>i. ucast (drop_bit (8 * i) w)) [0..<n]"

fun from_le_bytes :: "u8 list \<Rightarrow> 'a::len word" where
  "from_le_bytes [] = 0"
| "from_le_bytes (b # bs) = ucast b OR push_bit 8 (from_le_bytes bs)"

definition swap_bytes :: "nat \<Rightarrow> 'a::len word \<Rightarrow> 'a word" where
  "swap_bytes n w = from_le_bytes (rev (to_le_bytes n w))"

lemma length_to_le_bytes [simp]: "length (to_le_bytes n w) = n"
  by (simp add: to_le_bytes_def)

lemma bit_from_le_bytes [word_bit_simps]:
  "bit (from_le_bytes bs :: 'a::len word) k \<longleftrightarrow>
     k < LENGTH('a) \<and> k div 8 < length bs \<and> bit (bs ! (k div 8)) (k mod 8)"
proof (induction bs arbitrary: k)
  case Nil
  then show ?case by simp
next
  case (Cons b bs)
  show ?case
  proof (cases "k < 8")
    case True
    then show ?thesis
      by (auto simp: bit_simps)
  next
    case False
    then have "k div 8 = Suc ((k - 8) div 8)" "(k - 8) mod 8 = k mod 8"
      by (simp_all add: le_div_geq le_mod_geq)
    with False show ?thesis
      by (auto simp: bit_simps Cons.IH dest: bit_imp_le_length)
  qed
qed

lemma bit_to_le_bytes [word_bit_simps]:
  "i < n \<Longrightarrow> bit (to_le_bytes n w ! i) j \<longleftrightarrow> j < 8 \<and> bit w (8 * i + j)"
  by (auto simp: to_le_bytes_def bit_simps)

lemma from_to_le_bytes [simp]:
  assumes "LENGTH('a) = 8 * n"
  shows "from_le_bytes (to_le_bytes n w) = (w :: 'a::len word)"
proof (rule bit_word_eqI)
  fix k assume k: "k < LENGTH('a)"
  with assms have "k div 8 < n" by (simp add: less_mult_imp_div_less mult.commute)
  then show "bit (from_le_bytes (to_le_bytes n w) :: 'a word) k = bit w k"
    using k by (simp add: word_bit_simps)
qed

lemma to_from_le_bytes [simp]:
  assumes "length bs = n" and "8 * n \<le> LENGTH('a)"
  shows "to_le_bytes n (from_le_bytes bs :: 'a::len word) = bs"
proof (rule nth_equalityI)
  show "length (to_le_bytes n (from_le_bytes bs :: 'a word)) = length bs"
    using assms by simp
  fix i assume "i < length (to_le_bytes n (from_le_bytes bs :: 'a word))"
  then have i: "i < n" by simp
  show "to_le_bytes n (from_le_bytes bs :: 'a word) ! i = bs ! i"
  proof (rule bit_word_eqI)
    fix j assume "j < LENGTH(8)"
    then have "j < 8" by simp
    then have "8 * i + j < LENGTH('a)" using i assms by simp
    then show "bit (to_le_bytes n (from_le_bytes bs :: 'a word) ! i) j = bit (bs ! i) j"
      using i assms \<open>j < 8\<close> by (simp add: word_bit_simps)
  qed
qed

section \<open>Host memory\<close>

type_synonym memory = "u64 \<Rightarrow> u8"

definition mem_read :: "memory \<Rightarrow> u64 \<Rightarrow> nat \<Rightarrow> u8 list" where
  "mem_read m a n = map (\<lambda>i. m (a + of_nat i)) [0..<n]"

definition mem_write :: "memory \<Rightarrow> u64 \<Rightarrow> u8 list \<Rightarrow> memory" where
  "mem_write m a bs = (\<lambda>x. if unat (x - a) < length bs then bs ! unat (x - a) else m x)"

lemma length_mem_read [simp]: "length (mem_read m a n) = n"
  by (simp add: mem_read_def)

lemma mem_read_nth [mem_simps]: "i < n \<Longrightarrow> mem_read m a n ! i = m (a + of_nat i)"
  by (simp add: mem_read_def)

lemma mem_read_append: "mem_read m a (n + k) = mem_read m a n @ mem_read m (a + of_nat n) k"
  by (rule nth_equalityI) (auto simp: mem_simps nth_append algebra_simps of_nat_diff)

lemma unat_less_u64: "unat (x :: u64) < 2 ^ 64"
  using unsigned_less [of x, where ?'a = nat] by simp

lemma unat_of_nat_u64 [mem_simps]: "i < 2 ^ 64 \<Longrightarrow> unat (of_nat i :: u64) = i"
  by (simp add: unat_of_nat take_bit_nat_eq_self)

lemma mem_read_write_same [mem_simps]:
  assumes "length bs \<le> 2 ^ 64"
  shows "mem_read (mem_write m a bs) a (length bs) = bs"
proof (rule nth_equalityI)
  show "length (mem_read (mem_write m a bs) a (length bs)) = length bs" by simp
  fix i assume "i < length (mem_read (mem_write m a bs) a (length bs))"
  then have "i < length bs" and "i < 2 ^ 64" using assms by auto
  then show "mem_read (mem_write m a bs) a (length bs) ! i = bs ! i"
    by (simp add: mem_read_def mem_write_def unat_of_nat_u64)
qed

text \<open>Two byte ranges are apart when neither start lies within the other's length,
  going upwards with wrap-around.\<close>

definition apart :: "u64 \<Rightarrow> nat \<Rightarrow> u64 \<Rightarrow> nat \<Rightarrow> bool" where
  "apart a n b k \<longleftrightarrow> n \<le> unat (b - a) \<and> k \<le> unat (a - b)"

lemma mem_read_write_apart:
  assumes "apart a n b (length bs)"
  shows "mem_read (mem_write m b bs) a n = mem_read m a n"
proof (rule nth_equalityI)
  show "length (mem_read (mem_write m b bs) a n) = length (mem_read m a n)" by simp
  fix i assume "i < length (mem_read (mem_write m b bs) a n)"
  then have i: "i < n" by simp
  have "length bs \<le> unat (a + of_nat i - b)"
  proof -
    have n: "n \<le> unat (b - a)" and k: "length bs \<le> unat (a - b)"
      using assms by (auto simp: apart_def)
    have "unat (b - a) < 2 ^ 64" by (rule unat_less_u64)
    then have oi: "unat (of_nat i :: u64) = i" using i n by (simp add: unat_of_nat_u64)
    show ?thesis
    proof (cases "a = b")
      case True
      then show ?thesis using n i by simp
    next
      case False
      then have "unat (a - b) + unat (b - a) = 2 ^ 64"
        using unat_sub_if' [of a b] unat_sub_if' [of b a] unat_less_u64 [of a] unat_less_u64 [of b]
        by (auto simp: word_unat_eq_iff split: if_splits)
      then have lt: "unat (a - b) + i < 2 ^ 64" using n i by linarith
      have "a + of_nat i - b = (a - b) + of_nat i" by simp
      then have "unat (a + of_nat i - b) = (unat (a - b) + unat (of_nat i :: u64)) mod 2 ^ 64"
        by (simp only: unat_word_ariths) simp
      then have "unat (a + of_nat i - b) = unat (a - b) + i"
        using lt oi by simp
      then show ?thesis using k by simp
    qed
  qed
  then show "mem_read (mem_write m b bs) a n ! i = mem_read m a n ! i"
    using i by (simp add: mem_read_def mem_write_def)
qed

text \<open>Typed accesses: a value of \<open>n\<close> bytes in the host's little-endian order.\<close>

definition read_ne :: "nat \<Rightarrow> memory \<Rightarrow> u64 \<Rightarrow> 'a::len word" where
  "read_ne n m a = from_le_bytes (mem_read m a n)"

definition write_ne :: "nat \<Rightarrow> memory \<Rightarrow> u64 \<Rightarrow> 'a::len word \<Rightarrow> memory" where
  "write_ne n m a w = mem_write m a (to_le_bytes n w)"

lemma read_write_ne_same [mem_simps]:
  assumes "LENGTH('a) = 8 * n" and "n \<le> 2 ^ 64"
  shows "read_ne n (write_ne n m a w) a = (w :: 'a::len word)"
  using assms mem_read_write_same [of "to_le_bytes n w" m a]
  by (simp add: read_ne_def write_ne_def)

lemma read_write_ne_apart:
  "apart a n b k \<Longrightarrow> read_ne n (write_ne k m b w) a = read_ne n m a"
  by (simp add: read_ne_def write_ne_def mem_read_write_apart)

text \<open>Ranges given by offsets from a common base.\<close>

lemma apart_sym: "apart a n b k \<longleftrightarrow> apart b k a n"
  by (auto simp: apart_def)

lemma unat_neg_of_nat: "0 < d \<Longrightarrow> d < 2 ^ 64 \<Longrightarrow> unat (- of_nat d :: u64) = 2 ^ 64 - d"
  using unat_sub_if' [of "0 :: u64" "of_nat d"] by (simp add: unat_of_nat_u64)

lemma apart_offsets:
  assumes "p + n \<le> q" "q + k \<le> 2 ^ 63" "p < q"
  shows "apart (a + of_nat p) n (a + of_nat q) k"
proof -
  have eq: "(a + of_nat q) - (a + of_nat p) = (of_nat (q - p) :: u64)"
    using assms by (simp add: of_nat_diff)
  have "unat (of_nat (q - p) :: u64) = q - p"
    using assms by (intro unat_of_nat_u64) simp
  moreover have "k \<le> unat ((a + of_nat p) - (a + of_nat q) :: u64)"
  proof -
    have "(a + of_nat p) - (a + of_nat q) = - (of_nat (q - p) :: u64)"
      by (subst eq [symmetric]) simp
    moreover have "unat (- (of_nat (q - p)) :: u64) = 2 ^ 64 - (q - p)"
      using assms by (intro unat_neg_of_nat) simp_all
    ultimately show ?thesis using assms by simp
  qed
  ultimately show ?thesis unfolding apart_def eq using assms by simp
qed

lemma mem_read_subrange:
  assumes "mem_read m a N = mem_read m' a N" "q + n \<le> N"
  shows "mem_read m (a + of_nat q) n = mem_read m' (a + of_nat q) n"
proof (rule nth_equalityI)
  fix i assume "i < length (mem_read m (a + of_nat q) n)"
  then have i: "i < n" by simp
  then have "mem_read m a N ! (q + i) = mem_read m' a N ! (q + i)" using assms by simp
  then show "mem_read m (a + of_nat q) n ! i = mem_read m' (a + of_nat q) n ! i"
    using i assms(2) by (simp add: mem_simps add.assoc)
qed simp

lemma read_ne_subrange:
  assumes "mem_read m a N = mem_read m' a N" "q + n \<le> N"
  shows "read_ne n m (a + of_nat q) = read_ne n m' (a + of_nat q)"
  unfolding read_ne_def mem_read_subrange [OF assms] ..

section \<open>Signed integers\<close>

lemma sint_word_of_int:
  assumes "- (2 ^ (LENGTH('a) - 1)) \<le> x" "x < 2 ^ (LENGTH('a) - 1)"
  shows "sint (word_of_int x :: 'a::len word) = x"
proof -
  have "(2 :: int) ^ LENGTH('a) = 2 * 2 ^ (LENGTH('a) - 1)" by (metis len_gt_0 power_minus_mult mult.commute)
  then have "(x + 2 ^ (LENGTH('a) - 1)) mod 2 ^ LENGTH('a) = x + 2 ^ (LENGTH('a) - 1)" using assms by simp
  then show ?thesis unfolding int_word_sint by simp
qed

lemma sint_eqI: "sint (a :: 'a::len word) = sint b \<Longrightarrow> a = b"
  by (metis of_int_sint scast_id)

lemma sint_int_min: "sint (int_min :: 'a::len word) = - (2 ^ (LENGTH('a) - 1))"
proof -
  have "(2 :: 'a word) ^ (LENGTH('a) - 1) + 2 ^ (LENGTH('a) - 1) = 2 ^ LENGTH('a)"
    by (metis len_gt_0 mult_2 power_minus_mult mult.commute)
  then have eq: "(int_min :: 'a word) = word_of_int (- (2 ^ (LENGTH('a) - 1)))"
    by (simp add: int_min_def eq_neg_iff_add_eq_0)
  show ?thesis unfolding eq by (rule sint_word_of_int) (simp_all add: order.strict_trans [of _ 0])
qed

lemma trunc_div_rem:
  assumes "d \<noteq> 0"
  shows "n = trunc_div n d * d + trunc_rem n d" "\<bar>trunc_rem n d\<bar> < \<bar>d\<bar>" "trunc_rem n d = 0 \<or> sgn (trunc_rem n d) = sgn n"
proof -
  show "n = trunc_div n d * d + trunc_rem n d" by (simp add: trunc_rem_def)
  have "trunc_div n d * d = sgn n * (\<bar>n\<bar> div \<bar>d\<bar> * \<bar>d\<bar>)"
    by (simp add: trunc_div_def sgn_mult mult.assoc mult.left_commute abs_sgn [of d] )
  then have r: "trunc_rem n d = sgn n * (\<bar>n\<bar> mod \<bar>d\<bar>)"
    by (simp add: trunc_rem_def minus_div_mult_eq_mod [symmetric] right_diff_distrib mult_sgn_abs)
  have "0 \<le> \<bar>n\<bar> mod \<bar>d\<bar>" "\<bar>n\<bar> mod \<bar>d\<bar> < \<bar>d\<bar>" using assms by simp_all
  then show "\<bar>trunc_rem n d\<bar> < \<bar>d\<bar>" "trunc_rem n d = 0 \<or> sgn (trunc_rem n d) = sgn n"
    unfolding r by (auto simp: abs_mult sgn_mult abs_sgn_eq split: if_splits)
qed

lemma trunc_div_fits:
  assumes "d \<noteq> 0" "\<not> (n = - B \<and> d = -1)" "- B \<le> n" "n < B"
  shows "- B \<le> trunc_div n d" "trunc_div n d < B"
proof -
  have "- B \<le> trunc_div n d \<and> trunc_div n d < B"
  proof (cases "\<bar>d\<bar> = 1")
    case True
    then have "d = 1 \<or> d = -1" by linarith
    then show ?thesis using assms by (auto simp: trunc_div_def sgn_mult mult_sgn_abs)
  next
    case False
    have "\<bar>trunc_div n d\<bar> \<le> \<bar>n\<bar> div \<bar>d\<bar>"
      by (auto simp: trunc_div_def abs_mult sgn_mult abs_sgn_eq pos_imp_zdiv_nonneg_iff)
    also have "\<dots> \<le> \<bar>n\<bar> div 2" using False assms(1) by (intro zdiv_mono2) auto
    also have "\<dots> < B" using assms(3,4) by linarith
    finally show ?thesis by linarith
  qed
  then show "- B \<le> trunc_div n d" "trunc_div n d < B" by simp_all
qed

lemma int_div_less: "(n :: int) < e * m \<Longrightarrow> 0 < m \<Longrightarrow> n div m < e"
proof (rule ccontr)
  assume "n < e * m" "0 < m" "\<not> n div m < e"
  then have "e * m \<le> n div m * m" by (intro mult_right_mono) simp_all
  also have "\<dots> \<le> n" using \<open>0 < m\<close> by (simp add: minus_mod_eq_div_mult [symmetric])
  finally show False using \<open>n < e * m\<close> by simp
qed

lemma checked_add_unat:
  fixes a b :: "'a::len word"
  shows "checked_add a b = (if unat a + unat b < 2 ^ LENGTH('a) then Some (a + b) else None)"
proof -
  have "2 ^ LENGTH('a) \<le> uint a + uint b \<longleftrightarrow> int (2 ^ LENGTH('a)) \<le> int (unat a + unat b)" by simp
  then show ?thesis unfolding of_nat_le_iff by (simp add: checked_add_def)
qed

end
