(* ===== verification/Scalar_Bitset.thy ===== *)
theory Scalar_Bitset
  imports Prelude
begin

unbundle bit_operations_syntax

text \<open>
  \<open>cranelift/bitset/src/scalar.rs\<close>: \<open>ScalarBitSet<T>\<close>, a set of small numbers in
  the bits of one integer. Element numbers are \<open>u8\<close> in the source and \<open>nat\<close> here;
  every operation that takes one asserts that it is below the capacity first. The abstract
  value of a bitset is the set of its one bits, \<open>elements\<close>; the lemmas state every
  operation over it. \<open>bs_iter\<close> is the list the iterator yields, by repeated
  \<open>pop_min\<close>.
\<close>

type_synonym 'a ScalarBitSet = "'a word"

definition bs_new :: "'a::len ScalarBitSet" where
  "bs_new = 0"

definition bs_capacity :: "'a::len ScalarBitSet \<Rightarrow> nat" where
  "bs_capacity s = LENGTH('a) div 8 * 8"

definition bs_from_range :: "nat \<Rightarrow> nat \<Rightarrow> ('a::len ScalarBitSet, unit) res" where
  "bs_from_range lo hi =
     and_then (rust_assert (lo \<le> hi)) (\<lambda>_.
     and_then (rust_assert (hi \<le> bs_capacity (bs_new :: 'a word))) (\<lambda>_.
       let one = 1;
           hi_rng = (if hi \<ge> 1
                     then wrapping_shl one (hi - 1) + (wrapping_shl one (hi - 1) - one)
                     else 0);
           lo_rng = wrapping_shl one lo - one
       in Ok (hi_rng - lo_rng)))"

definition bs_len :: "'a::len ScalarBitSet \<Rightarrow> nat" where
  "bs_len s = count_ones s"

definition bs_is_empty :: "'a::len ScalarBitSet \<Rightarrow> bool" where
  "bs_is_empty s \<longleftrightarrow> s = 0"

definition bs_contains :: "'a::len ScalarBitSet \<Rightarrow> nat \<Rightarrow> (bool, unit) res" where
  "bs_contains s i =
     and_then (rust_assert (i < bs_capacity s)) (\<lambda>_. Ok (s AND wrapping_shl 1 i \<noteq> 0))"

definition bs_insert :: "'a::len ScalarBitSet \<Rightarrow> nat \<Rightarrow> (bool \<times> 'a ScalarBitSet, unit) res" where
  "bs_insert s i =
     and_then (bs_contains s i) (\<lambda>c. Ok (\<not> c, s OR wrapping_shl 1 i))"

definition bs_remove :: "'a::len ScalarBitSet \<Rightarrow> nat \<Rightarrow> (bool \<times> 'a ScalarBitSet, unit) res" where
  "bs_remove s i =
     and_then (bs_contains s i) (\<lambda>was_present. Ok (was_present, s AND NOT (wrapping_shl 1 i)))"

definition bs_clear :: "'a::len ScalarBitSet \<Rightarrow> 'a ScalarBitSet" where
  "bs_clear s = 0"

definition bs_min :: "'a::len ScalarBitSet \<Rightarrow> nat option" where
  "bs_min s = (if s = 0 then None else Some (trailing_zeros s))"

definition bs_max :: "'a::len ScalarBitSet \<Rightarrow> nat option" where
  "bs_max s = (if s = 0 then None else Some (bs_capacity s - leading_zeros s - 1))"

definition bs_pop_min :: "'a::len ScalarBitSet \<Rightarrow> (nat option \<times> 'a ScalarBitSet, unit) res" where
  "bs_pop_min s =
     (case bs_min s of
        None \<Rightarrow> Ok (None, s)
      | Some m \<Rightarrow> and_then (bs_remove s m) (\<lambda>(_, s'). Ok (Some m, s')))"

definition bs_pop_max :: "'a::len ScalarBitSet \<Rightarrow> (nat option \<times> 'a ScalarBitSet, unit) res" where
  "bs_pop_max s =
     (case bs_max s of
        None \<Rightarrow> Ok (None, s)
      | Some m \<Rightarrow> and_then (bs_remove s m) (\<lambda>(_, s'). Ok (Some m, s')))"

section \<open>The set of elements\<close>

definition elements :: "'a::len ScalarBitSet \<Rightarrow> nat set" where
  "elements s = {i. bit s i}"

text \<open>The source instantiates \<open>T\<close> with whole-byte integers only.\<close>

definition byte_sized :: "'a::len word \<Rightarrow> bool" where
  "byte_sized s \<longleftrightarrow> 8 dvd LENGTH('a)"

lemma byte_sized_lengths [simp]:
  "byte_sized (s8 :: u8)" "byte_sized (s16 :: u16)" "byte_sized (s32 :: u32)"
  "byte_sized (s64 :: u64)" "byte_sized (s128 :: u128)"
  by (simp_all add: byte_sized_def)

lemma bs_capacity_eq [simp]:
  "byte_sized (s :: 'a::len word) \<Longrightarrow> bs_capacity s = LENGTH('a)"
  by (simp add: bs_capacity_def byte_sized_def)

lemma elements_less: "i \<in> elements (s :: 'a::len word) \<Longrightarrow> i < LENGTH('a)"
  by (auto simp: elements_def dest: bit_imp_le_length)

lemma finite_elements [simp]: "finite (elements (s :: 'a::len word))"
  by (rule finite_subset [of _ "{..<LENGTH('a)}"]) (auto dest: elements_less)

lemma elements_new [simp]: "elements bs_new = {}"
  by (simp add: elements_def bs_new_def)

lemma elements_eq_iff: "elements s = elements t \<longleftrightarrow> s = t"
  by (auto simp: elements_def set_eq_iff intro: bit_word_eqI)

lemma elements_empty_iff: "elements s = {} \<longleftrightarrow> s = 0"
  using elements_eq_iff [of s 0] by (simp add: elements_def)

lemma elements_filter: "elements s = set (filter (bit s) [0..<LENGTH('a)])"
  for s :: "'a::len word"
  by (auto simp: elements_def dest: bit_imp_le_length)

lemma card_elements: "card (elements s) = count_ones s"
  unfolding elements_filter count_ones_def by (rule distinct_card) simp

lemma bit_shl_one: "i < LENGTH('a) \<Longrightarrow> bit (wrapping_shl 1 i :: 'a::len word) j \<longleftrightarrow> j = i"
  by (auto simp: wrapping_shl_def bit_simps)

lemma and_shl_one: "i < LENGTH('a) \<Longrightarrow> (s AND wrapping_shl 1 i \<noteq> 0) = bit (s :: 'a::len word) i"
  by (auto simp: bit_shl_one bit_simps simp flip: elements_empty_iff simp: elements_def)

lemma bs_contains_spec:
  "byte_sized s \<Longrightarrow>
     bs_contains s i = (if i < LENGTH('a) then Ok (i \<in> elements s) else Panic)"
  for s :: "'a::len word"
  by (simp add: bs_contains_def and_shl_one elements_def)

lemma elements_or_shl:
  "i < LENGTH('a) \<Longrightarrow> elements (s OR wrapping_shl 1 i) = insert i (elements (s :: 'a::len word))"
  by (auto simp: elements_def bit_shl_one bit_simps)

lemma elements_and_not_shl:
  "i < LENGTH('a) \<Longrightarrow> elements (s AND NOT (wrapping_shl 1 i)) = elements (s :: 'a::len word) - {i}"
  by (auto simp: elements_def bit_shl_one bit_simps bit_not_iff dest: bit_imp_le_length)

lemma bs_insert_spec:
  assumes "byte_sized (s :: 'a::len word)" "i < LENGTH('a)"
  obtains s' where "bs_insert s i = Ok (i \<notin> elements s, s')" "elements s' = insert i (elements s)"
  using assms by (auto simp: bs_insert_def bs_contains_spec elements_or_shl)

lemma bs_remove_spec:
  assumes "byte_sized (s :: 'a::len word)" "i < LENGTH('a)"
  obtains s' where "bs_remove s i = Ok (i \<in> elements s, s')" "elements s' = elements s - {i}"
  using assms by (auto simp: bs_remove_def bs_contains_spec elements_and_not_shl)

section \<open>Smallest and largest element\<close>

lemma takeWhile_upt_first:
  assumes "i < n" "P i"
  shows "P (length (takeWhile (\<lambda>i. \<not> P i) [0..<n]))"
    and "length (takeWhile (\<lambda>i. \<not> P i) [0..<n]) \<le> i"
proof -
  let ?m = "length (takeWhile (\<lambda>i. \<not> P i) [0..<n])"
  have le: "?m \<le> i"
  proof (rule ccontr)
    assume "\<not> ?m \<le> i"
    then have "takeWhile (\<lambda>i. \<not> P i) [0..<n] ! i = i" "i < ?m"
      using assms by (auto simp: takeWhile_nth)
    then have "i \<in> set (takeWhile (\<lambda>i. \<not> P i) [0..<n])" by (metis nth_mem)
    then show False using assms set_takeWhileD by fastforce
  qed
  then show "?m \<le> i" .
  have "?m < length [0..<n]" using le assms by simp
  from nth_length_takeWhile [OF this] show "P ?m" using le assms by simp
qed

lemma takeWhile_upt_last:
  assumes "i < n" "P i"
  defines "m \<equiv> n - length (takeWhile (\<lambda>i. \<not> P i) (rev [0..<n])) - 1"
  shows "P m" and "i \<le> m" and "m < n"
proof -
  let ?k = "length (takeWhile (\<lambda>i. \<not> P i) (rev [0..<n]))"
  have nth: "rev [0..<n] ! j = n - Suc j" if "j < n" for j
    using that by (simp add: rev_nth)
  have le: "?k \<le> n - Suc i"
  proof (rule ccontr)
    assume "\<not> ?k \<le> n - Suc i"
    then have "takeWhile (\<lambda>i. \<not> P i) (rev [0..<n]) ! (n - Suc i) = i" "n - Suc i < ?k"
      using assms nth [of "n - Suc i"] by (auto simp: takeWhile_nth)
    then have "i \<in> set (takeWhile (\<lambda>i. \<not> P i) (rev [0..<n]))" by (metis nth_mem)
    then show False using assms set_takeWhileD by fastforce
  qed
  then have k: "?k < n" using assms by simp
  then have "?k < length (rev [0..<n])" by simp
  from nth_length_takeWhile [OF this] show "P m"
    using k nth [of ?k] by (simp add: m_def)
  show "i \<le> m" "m < n" using le k assms by (simp_all add: m_def)
qed

lemma bs_min_spec: "bs_min s = (if elements s = {} then None else Some (Min (elements s)))"
proof (cases "elements s = {}")
  case False
  have "trailing_zeros s = Min (elements s)"
  proof (rule sym, rule Min_eqI)
    obtain i where "i < LENGTH('a)" "bit s i" using False
      by (auto simp: elements_def dest: bit_imp_le_length)
    then show "trailing_zeros s \<in> elements s"
      by (simp add: trailing_zeros_def elements_def takeWhile_upt_first)
    show "trailing_zeros s \<le> j" if "j \<in> elements s" for j
      using that elements_less [OF that] takeWhile_upt_first(2) [of j "LENGTH('a)" "bit s"]
      by (simp add: trailing_zeros_def elements_def)
  qed simp
  with False show ?thesis by (simp add: bs_min_def elements_empty_iff)
qed (simp add: bs_min_def elements_empty_iff)

lemma bs_max_spec:
  "byte_sized s \<Longrightarrow> bs_max s = (if elements s = {} then None else Some (Max (elements s)))"
proof (cases "elements s = {}")
  case False
  assume sized: "byte_sized s"
  have "LENGTH('a) - leading_zeros s - 1 = Max (elements s)"
  proof (rule sym, rule Max_eqI)
    obtain i where "i < LENGTH('a)" "bit s i" using False
      by (auto simp: elements_def dest: bit_imp_le_length)
    then show "LENGTH('a) - leading_zeros s - 1 \<in> elements s"
      using takeWhile_upt_last(1) [of i "LENGTH('a)" "bit s"]
      by (simp add: leading_zeros_def elements_def)
    show "j \<le> LENGTH('a) - leading_zeros s - 1" if "j \<in> elements s" for j
      using that elements_less [OF that] takeWhile_upt_last(2) [of j "LENGTH('a)" "bit s"]
      by (simp add: leading_zeros_def elements_def)
  qed simp
  with False sized show ?thesis by (simp add: bs_max_def elements_empty_iff)
qed (simp add: bs_max_def elements_empty_iff)

section \<open>Draining a set\<close>

text \<open>A \<open>for\<close> loop over an iterator that pops one element per step: the list of what it
  yields. The fuel bounds the number of steps; \<open>drain\<close> is \<open>None\<close> when it runs out.\<close>

fun drain :: "('s \<Rightarrow> (nat option \<times> 's, 'e) res) \<Rightarrow> nat \<Rightarrow> 's \<Rightarrow> nat list option" where
  "drain pop 0 s = None"
| "drain pop (Suc fuel) s =
     (case pop s of
        Ok (Some x, s') \<Rightarrow> map_option (Cons x) (drain pop fuel s')
      | Ok (None, s') \<Rightarrow> Some []
      | _ \<Rightarrow> None)"

text \<open>The contract of such a pop operation: it takes the extreme element in the order
  \<open>le\<close>.\<close>

locale popping_set =
  fixes elems :: "'s \<Rightarrow> nat set" and inv :: "'s \<Rightarrow> bool"
    and pop :: "'s \<Rightarrow> (nat option \<times> 's, 'e) res" and le :: "nat \<Rightarrow> nat \<Rightarrow> bool"
  assumes finite_elems: "inv s \<Longrightarrow> finite (elems s)"
    and pop_empty: "inv s \<Longrightarrow> elems s = {} \<Longrightarrow> \<exists>s'. pop s = Ok (None, s')"
    and pop_nonempty: "inv s \<Longrightarrow> elems s \<noteq> {} \<Longrightarrow>
      \<exists>x s'. pop s = Ok (Some x, s') \<and> x \<in> elems s \<and> (\<forall>y\<in>elems s. le x y) \<and>
             inv s' \<and> elems s' = elems s - {x}"
begin

lemma drain_list:
  assumes "inv s" "card (elems s) < fuel"
  shows "\<exists>xs. drain pop fuel s = Some xs \<and> set xs = elems s \<and> distinct xs \<and> sorted_wrt le xs"
  using assms
proof (induction fuel arbitrary: s)
  case 0
  then show ?case by simp
next
  case (Suc fuel)
  show ?case
  proof (cases "elems s = {}")
    case True
    then show ?thesis using pop_empty [OF Suc.prems(1)] by auto
  next
    case False
    then obtain x s' where p: "pop s = Ok (Some x, s')" "x \<in> elems s" "\<forall>y\<in>elems s. le x y"
        "inv s'" "elems s' = elems s - {x}"
      using pop_nonempty [OF Suc.prems(1)] by blast
    have "0 < card (elems s)"
      using p(2) finite_elems [OF Suc.prems(1)] card_gt_0_iff by blast
    then have "card (elems s') < fuel"
      using p Suc.prems(2) by (simp add: card_Diff_singleton)
    then obtain xs where "drain pop fuel s' = Some xs" "set xs = elems s'" "distinct xs"
        "sorted_wrt le xs"
      using Suc.IH [OF p(4)] by blast
    with p show ?thesis by (intro exI [of _ "x # xs"]) auto
  qed
qed

end

definition bs_iter :: "'a::len ScalarBitSet \<Rightarrow> nat list option" where
  "bs_iter s = drain bs_pop_min (Suc (bs_capacity s)) s"

definition bs_iter_rev :: "'a::len ScalarBitSet \<Rightarrow> nat list option" where
  "bs_iter_rev s = drain bs_pop_max (Suc (bs_capacity s)) s"

lemma bs_remove_extreme:
  assumes "byte_sized (s :: 'a::len word)" "m \<in> elements s"
  shows "\<exists>s'. bs_remove s m = Ok (True, s') \<and> elements s' = elements s - {m}"
  using bs_remove_spec [OF assms(1) elements_less [OF assms(2)]] assms(2) by metis

lemma bs_pop_min_nonempty:
  assumes "byte_sized (s :: 'a::len word)" "elements s \<noteq> {}"
  shows "\<exists>s'. bs_pop_min s = Ok (Some (Min (elements s)), s') \<and>
           elements s' = elements s - {Min (elements s)}"
proof -
  have "Min (elements s) \<in> elements s" using assms by (intro Min_in) auto
  from bs_remove_extreme [OF assms(1) this] show ?thesis
    using assms(2) by (auto simp: bs_pop_min_def bs_min_spec)
qed

lemma bs_pop_max_nonempty:
  assumes "byte_sized (s :: 'a::len word)" "elements s \<noteq> {}"
  shows "\<exists>s'. bs_pop_max s = Ok (Some (Max (elements s)), s') \<and>
           elements s' = elements s - {Max (elements s)}"
proof -
  have "Max (elements s) \<in> elements s" using assms by (intro Max_in) auto
  from bs_remove_extreme [OF assms(1) this] show ?thesis
    using assms by (auto simp: bs_pop_max_def bs_max_spec)
qed

lemma byte_sized_cong: "byte_sized (s :: 'a::len word) \<Longrightarrow> byte_sized (t :: 'a word)"
  by (simp add: byte_sized_def)

interpretation sbs_min: popping_set elements byte_sized bs_pop_min "(\<le>)"
proof
  fix s :: "'a::len word" assume s: "byte_sized s" "elements s \<noteq> {}"
  obtain s' where "bs_pop_min s = Ok (Some (Min (elements s)), s')"
      "elements s' = elements s - {Min (elements s)}"
    using bs_pop_min_nonempty [OF s] by blast
  moreover have "Min (elements s) \<in> elements s" "\<forall>y\<in>elements s. Min (elements s) \<le> y"
    using s by (auto intro: Min_in)
  ultimately show "\<exists>x s'. bs_pop_min s = Ok (Some x, s') \<and> x \<in> elements s \<and>
      (\<forall>y\<in>elements s. x \<le> y) \<and> byte_sized s' \<and> elements s' = elements s - {x}"
    using byte_sized_cong [OF s(1)] by blast
qed (simp_all add: bs_pop_min_def bs_min_spec)

interpretation sbs_max: popping_set elements byte_sized bs_pop_max "(\<ge>)"
proof
  fix s :: "'a::len word" assume s: "byte_sized s" "elements s \<noteq> {}"
  obtain s' where "bs_pop_max s = Ok (Some (Max (elements s)), s')"
      "elements s' = elements s - {Max (elements s)}"
    using bs_pop_max_nonempty [OF s] by blast
  moreover have "Max (elements s) \<in> elements s" "\<forall>y\<in>elements s. Max (elements s) \<ge> y"
    using s by (auto intro: Max_in)
  ultimately show "\<exists>x s'. bs_pop_max s = Ok (Some x, s') \<and> x \<in> elements s \<and>
      (\<forall>y\<in>elements s. x \<ge> y) \<and> byte_sized s' \<and> elements s' = elements s - {x}"
    using byte_sized_cong [OF s(1)] by blast
qed (simp_all add: bs_pop_max_def bs_max_spec)

section \<open>Properties\<close>

lemma bs_card_bound: "byte_sized s \<Longrightarrow> card (elements s) < Suc (bs_capacity s)"
  for s :: "'a::len word"
  using card_mono [of "{..<LENGTH('a)}" "elements s"] by (force dest: elements_less)

lemma bs_iter_eq:
  assumes "byte_sized (s :: 'a::len word)"
  shows "bs_iter s = Some (sorted_list_of_set (elements s))"
proof -
  obtain xs where xs: "bs_iter s = Some xs" "set xs = elements s" "distinct xs" "sorted xs"
    using sbs_min.drain_list [OF assms bs_card_bound [OF assms]] by (auto simp: bs_iter_def)
  then have "sorted_list_of_set (set xs) = xs"
    by (intro sorted_list_of_set.idem_if_sorted_distinct)
  with xs show ?thesis by simp
qed

lemma bs_iter_rev_eq:
  assumes "byte_sized (s :: 'a::len word)"
  shows "bs_iter_rev s = Some (rev (sorted_list_of_set (elements s)))"
proof -
  obtain xs where xs: "bs_iter_rev s = Some xs" "set xs = elements s" "distinct xs"
      "sorted_wrt (\<ge>) xs"
    using sbs_max.drain_list [OF assms bs_card_bound [OF assms]] by (auto simp: bs_iter_rev_def)
  then have "sorted_list_of_set (set (rev xs)) = rev xs"
    by (intro sorted_list_of_set.idem_if_sorted_distinct) (simp_all add: sorted_wrt_rev)
  with xs show ?thesis by simp
qed

text \<open>Iterating a scalar bitset ends within capacity + 1 steps, never panics, and yields
  exactly the set's elements: in ascending order from the front (\<open>pop_min\<close>), in
  descending order from the back (\<open>pop_max\<close>).\<close>

theorem scalar_iter_sorted:
  assumes "byte_sized (s :: 'a::len word)"
  shows "bs_iter s = Some (sorted_list_of_set (elements s)) \<and>
         bs_iter_rev s = Some (rev (sorted_list_of_set (elements s)))"
  using bs_iter_eq [OF assms] bs_iter_rev_eq [OF assms] by simp

theorem scalar_iter_sorted_witness:
  "byte_sized (0x8005 :: u16) \<and>
   bs_iter (0x8005 :: u16) = Some (sorted_list_of_set (elements (0x8005 :: u16)))"
  using scalar_iter_sorted [of "0x8005 :: u16"] by simp

lemma shl_one_eq: "n < LENGTH('a) \<Longrightarrow> wrapping_shl (1 :: 'a::len word) n = 2 ^ n"
  by (simp add: wrapping_shl_def)

lemma range_mask: "n \<le> LENGTH('a) \<Longrightarrow>
    (if n \<ge> 1 then wrapping_shl 1 (n - 1) + (wrapping_shl 1 (n - 1) - 1) else 0) =
    (mask n :: 'a::len word)"
  by (cases n) (auto simp: shl_one_eq mask_eq_exp_minus_1)

lemma mask_diff:
  assumes "lo \<le> hi"
  shows "elements (mask hi - mask lo :: 'a::len word) = {i. lo \<le> i \<and> i < hi \<and> i < LENGTH('a)}"
proof -
  have "NOT (mask hi) AND mask lo = (0 :: 'a word)"
    using assms by (auto simp: bit_eq_iff bit_simps)
  then have "mask hi - mask lo = (mask hi AND NOT (mask lo) :: 'a word)"
    by (rule disjunctive_diff_eq_and_not)
  then show ?thesis by (auto simp: elements_def bit_simps)
qed

text \<open>C38: \<open>from_range lo hi\<close> panics exactly when the bounds are out of order or above the capacity, and builds exactly
  the set \<open>[lo, hi)\<close> for every pair it accepts but one: at \<open>lo = hi = capacity\<close>, whose range is empty, the shift by the
  capacity wraps in a release build and the result is the full set.\<close>

theorem scalar_from_range_spec:
  assumes "byte_sized (w :: 'a::len word)"
  shows "\<exists>s :: 'a word. bs_from_range lo hi = (if lo \<le> hi \<and> hi \<le> LENGTH('a) then Ok s else Panic) \<and>
    (lo \<le> hi \<and> hi \<le> LENGTH('a) \<longrightarrow> elements s = (if lo < LENGTH('a) then {lo..<hi} else {0..<LENGTH('a)}))"
proof -
  have cap: "bs_capacity (bs_new :: 'a word) = LENGTH('a)"
    using assms(1) by (simp add: byte_sized_def bs_capacity_def)
  define l :: "'a word" where "l = (if lo < LENGTH('a) then mask lo else 0)"
  have l: "wrapping_shl 1 lo - 1 = l" if "lo \<le> LENGTH('a)"
  proof (cases "lo < LENGTH('a)")
    case True
    then show ?thesis using shl_one_eq [OF True] by (simp add: l_def mask_eq_exp_minus_1)
  next
    case False
    then show ?thesis using that by (simp add: l_def wrapping_shl_def)
  qed
  have "elements (mask hi - l) = (if lo < LENGTH('a) then {lo..<hi} else {0..<LENGTH('a)})" if "lo \<le> hi" "hi \<le> LENGTH('a)"
  proof (cases "lo < LENGTH('a)")
    case True
    have "elements (mask hi - mask lo :: 'a word) = {lo..<hi}" unfolding mask_diff [OF that(1)] using that(2) by auto
    then show ?thesis using True by (simp add: l_def)
  next
    case False
    then have "hi = LENGTH('a)" using that by simp
    have "elements (mask hi - mask 0 :: 'a word) = {0..<hi}" unfolding mask_diff [OF le0] using that(2) by auto
    then show ?thesis using False \<open>hi = _\<close> by (simp add: l_def)
  qed
  moreover have "bs_from_range lo hi = (if lo \<le> hi \<and> hi \<le> LENGTH('a) then Ok (mask hi - l) else Panic)"
  proof (cases "lo \<le> hi \<and> hi \<le> LENGTH('a)")
    case True
    then have "hi \<le> LENGTH('a)" "lo \<le> LENGTH('a)" by simp_all
    then show ?thesis unfolding bs_from_range_def Let_def cap range_mask [OF \<open>hi \<le> LENGTH('a)\<close>] l [OF \<open>lo \<le> LENGTH('a)\<close>] using True by simp
  next
    case False
    then show ?thesis unfolding bs_from_range_def cap by (auto simp: rust_assert_def)
  qed
  ultimately show ?thesis by blast
qed

theorem scalar_from_range_spec_witness:
  "byte_sized (0 :: u64) \<and> (\<exists>s :: u64. bs_from_range 3 6 = Ok s \<and> elements s = {3..<6}) \<and>
   (\<exists>s :: u64. bs_from_range 64 64 = Ok s \<and> elements s = {0..<64})"
  using scalar_from_range_spec [of "0 :: u64" 3 6] scalar_from_range_spec [of "0 :: u64" 64 64] by simp

end
