(* ===== verification/Pulley_Regs.thy ===== *)
theory Pulley_Regs
  imports Scalar_Bitset
begin

unbundle bit_operations_syntax

text \<open>
  \<open>pulley/src/regs.rs\<close> and \<open>pulley/src/imms.rs\<close>: the three register classes, the
  packed operand words of the instruction encoding, and the immediates.
  A register class is an enumeration with \<open>to_u8\<close> (its discriminant) and \<open>new\<close> (the
  checked inverse); the trait \<open>Reg\<close> is the locale \<open>reg\<close>, interpreted for the three
  classes. \<open>new_unchecked\<close>, a transmute of the index, is the lookup in the list of all
  registers. The \<open>unwrap\<close>s of the \<open>from_bits\<close> functions are kept as possible
  panics, and shown not to happen.
\<close>

section \<open>Registers\<close>

datatype (plugins only: code) XReg =
    X0 | X1 | X2 | X3 | X4 | X5 | X6 | X7 | X8 | X9
  | X10 | X11 | X12 | X13 | X14 | X15 | X16 | X17 | X18 | X19
  | X20 | X21 | X22 | X23 | X24 | X25 | X26 | X27 | X28 | X29
  | Sp | Spilltmp0

datatype (plugins only: code) FReg =
    F0 | F1 | F2 | F3 | F4 | F5 | F6 | F7 | F8 | F9
  | F10 | F11 | F12 | F13 | F14 | F15 | F16 | F17 | F18 | F19
  | F20 | F21 | F22 | F23 | F24 | F25 | F26 | F27 | F28 | F29
  | F30 | F31

datatype (plugins only: code) VReg =
    V0 | V1 | V2 | V3 | V4 | V5 | V6 | V7 | V8 | V9
  | V10 | V11 | V12 | V13 | V14 | V15 | V16 | V17 | V18 | V19
  | V20 | V21 | V22 | V23 | V24 | V25 | V26 | V27 | V28 | V29
  | V30 | V31

primrec XReg_to_u8 :: "XReg \<Rightarrow> u8" where
  "XReg_to_u8 X0 = 0" | "XReg_to_u8 X1 = 1" | "XReg_to_u8 X2 = 2" | "XReg_to_u8 X3 = 3"
| "XReg_to_u8 X4 = 4" | "XReg_to_u8 X5 = 5" | "XReg_to_u8 X6 = 6" | "XReg_to_u8 X7 = 7"
| "XReg_to_u8 X8 = 8" | "XReg_to_u8 X9 = 9" | "XReg_to_u8 X10 = 10" | "XReg_to_u8 X11 = 11"
| "XReg_to_u8 X12 = 12" | "XReg_to_u8 X13 = 13" | "XReg_to_u8 X14 = 14" | "XReg_to_u8 X15 = 15"
| "XReg_to_u8 X16 = 16" | "XReg_to_u8 X17 = 17" | "XReg_to_u8 X18 = 18" | "XReg_to_u8 X19 = 19"
| "XReg_to_u8 X20 = 20" | "XReg_to_u8 X21 = 21" | "XReg_to_u8 X22 = 22" | "XReg_to_u8 X23 = 23"
| "XReg_to_u8 X24 = 24" | "XReg_to_u8 X25 = 25" | "XReg_to_u8 X26 = 26" | "XReg_to_u8 X27 = 27"
| "XReg_to_u8 X28 = 28" | "XReg_to_u8 X29 = 29" | "XReg_to_u8 Sp = 30" | "XReg_to_u8 Spilltmp0 = 31"

primrec FReg_to_u8 :: "FReg \<Rightarrow> u8" where
  "FReg_to_u8 F0 = 0" | "FReg_to_u8 F1 = 1" | "FReg_to_u8 F2 = 2" | "FReg_to_u8 F3 = 3"
| "FReg_to_u8 F4 = 4" | "FReg_to_u8 F5 = 5" | "FReg_to_u8 F6 = 6" | "FReg_to_u8 F7 = 7"
| "FReg_to_u8 F8 = 8" | "FReg_to_u8 F9 = 9" | "FReg_to_u8 F10 = 10" | "FReg_to_u8 F11 = 11"
| "FReg_to_u8 F12 = 12" | "FReg_to_u8 F13 = 13" | "FReg_to_u8 F14 = 14" | "FReg_to_u8 F15 = 15"
| "FReg_to_u8 F16 = 16" | "FReg_to_u8 F17 = 17" | "FReg_to_u8 F18 = 18" | "FReg_to_u8 F19 = 19"
| "FReg_to_u8 F20 = 20" | "FReg_to_u8 F21 = 21" | "FReg_to_u8 F22 = 22" | "FReg_to_u8 F23 = 23"
| "FReg_to_u8 F24 = 24" | "FReg_to_u8 F25 = 25" | "FReg_to_u8 F26 = 26" | "FReg_to_u8 F27 = 27"
| "FReg_to_u8 F28 = 28" | "FReg_to_u8 F29 = 29" | "FReg_to_u8 F30 = 30" | "FReg_to_u8 F31 = 31"

primrec VReg_to_u8 :: "VReg \<Rightarrow> u8" where
  "VReg_to_u8 V0 = 0" | "VReg_to_u8 V1 = 1" | "VReg_to_u8 V2 = 2" | "VReg_to_u8 V3 = 3"
| "VReg_to_u8 V4 = 4" | "VReg_to_u8 V5 = 5" | "VReg_to_u8 V6 = 6" | "VReg_to_u8 V7 = 7"
| "VReg_to_u8 V8 = 8" | "VReg_to_u8 V9 = 9" | "VReg_to_u8 V10 = 10" | "VReg_to_u8 V11 = 11"
| "VReg_to_u8 V12 = 12" | "VReg_to_u8 V13 = 13" | "VReg_to_u8 V14 = 14" | "VReg_to_u8 V15 = 15"
| "VReg_to_u8 V16 = 16" | "VReg_to_u8 V17 = 17" | "VReg_to_u8 V18 = 18" | "VReg_to_u8 V19 = 19"
| "VReg_to_u8 V20 = 20" | "VReg_to_u8 V21 = 21" | "VReg_to_u8 V22 = 22" | "VReg_to_u8 V23 = 23"
| "VReg_to_u8 V24 = 24" | "VReg_to_u8 V25 = 25" | "VReg_to_u8 V26 = 26" | "VReg_to_u8 V27 = 27"
| "VReg_to_u8 V28 = 28" | "VReg_to_u8 V29 = 29" | "VReg_to_u8 V30 = 30" | "VReg_to_u8 V31 = 31"

definition XReg_all :: "XReg list" where
  "XReg_all = [X0, X1, X2, X3, X4, X5, X6, X7, X8, X9,
     X10, X11, X12, X13, X14, X15, X16, X17, X18, X19,
     X20, X21, X22, X23, X24, X25, X26, X27, X28, X29,
     Sp, Spilltmp0]"

definition FReg_all :: "FReg list" where
  "FReg_all = [F0, F1, F2, F3, F4, F5, F6, F7, F8, F9,
     F10, F11, F12, F13, F14, F15, F16, F17, F18, F19,
     F20, F21, F22, F23, F24, F25, F26, F27, F28, F29,
     F30, F31]"

definition VReg_all :: "VReg list" where
  "VReg_all = [V0, V1, V2, V3, V4, V5, V6, V7, V8, V9,
     V10, V11, V12, V13, V14, V15, V16, V17, V18, V19,
     V20, V21, V22, V23, V24, V25, V26, V27, V28, V29,
     V30, V31]"

text \<open>\<open>Reg::new\<close>: \<open>RANGE\<close> is \<open>0..32\<close> in all three classes.\<close>

definition XReg_new :: "u8 \<Rightarrow> XReg option" where
  "XReg_new index = (if index < 32 then Some (XReg_all ! unat index) else None)"

definition FReg_new :: "u8 \<Rightarrow> FReg option" where
  "FReg_new index = (if index < 32 then Some (FReg_all ! unat index) else None)"

definition VReg_new :: "u8 \<Rightarrow> VReg option" where
  "VReg_new index = (if index < 32 then Some (VReg_all ! unat index) else None)"

definition XReg_is_special :: "XReg \<Rightarrow> bool" where
  "XReg_is_special r = (case r of Sp \<Rightarrow> True | Spilltmp0 \<Rightarrow> True | _ \<Rightarrow> False)"

definition XReg_SPECIAL_START :: u8 where
  "XReg_SPECIAL_START = XReg_to_u8 Sp"

section \<open>Immediates and packed operands\<close>

text \<open>A pc-relative offset is an \<open>i32\<close>.\<close>

datatype PcRelOffset = PcRelOffset (offset_i32: u32)

datatype U6 = U6 (u8_of_U6: u8)

definition U6_new :: "u8 \<Rightarrow> U6 option" where
  "U6_new val = (if drop_bit 2 (push_bit 2 val) = val then Some (U6 val) else None)"

record ('d, 's1, 's2) BinaryOperands =
  bo_dst :: 'd
  bo_src1 :: 's1
  bo_src2 :: 's2

definition BinaryOperands_to_bits ::
  "('d \<Rightarrow> u8) \<Rightarrow> ('s1 \<Rightarrow> u8) \<Rightarrow> ('s2 \<Rightarrow> u8) \<Rightarrow> ('d, 's1, 's2) BinaryOperands \<Rightarrow> u16" where
  "BinaryOperands_to_bits dto s1to s2to self =
     (let dst = dto (bo_dst self); src1 = s1to (bo_src1 self); src2 = s2to (bo_src2 self)
      in ucast dst OR push_bit 5 (ucast src1) OR push_bit 10 (ucast src2))"

definition BinaryOperands_from_bits ::
  "(u8 \<Rightarrow> 'd option) \<Rightarrow> (u8 \<Rightarrow> 's1 option) \<Rightarrow> (u8 \<Rightarrow> 's2 option) \<Rightarrow> u16 \<Rightarrow>
     (('d, 's1, 's2) BinaryOperands, 'e) res" where
  "BinaryOperands_from_bits dnew s1new s2new bits =
     and_then (unwrap (dnew (ucast (bits AND 0b11111)))) (\<lambda>d.
     and_then (unwrap (s1new (ucast (drop_bit 5 bits AND 0b11111)))) (\<lambda>s1.
     and_then (unwrap (s2new (ucast (drop_bit 10 bits AND 0b11111)))) (\<lambda>s2.
       Ok \<lparr>bo_dst = d, bo_src1 = s1, bo_src2 = s2\<rparr>)))"

definition BinaryOperandsU6_to_bits ::
  "('d \<Rightarrow> u8) \<Rightarrow> ('s1 \<Rightarrow> u8) \<Rightarrow> ('d, 's1, U6) BinaryOperands \<Rightarrow> u16" where
  "BinaryOperandsU6_to_bits dto s1to self =
     (let dst = dto (bo_dst self); src1 = s1to (bo_src1 self); src2 = u8_of_U6 (bo_src2 self)
      in ucast dst OR push_bit 5 (ucast src1) OR push_bit 10 (ucast src2))"

definition BinaryOperandsU6_from_bits ::
  "(u8 \<Rightarrow> 'd option) \<Rightarrow> (u8 \<Rightarrow> 's1 option) \<Rightarrow> u16 \<Rightarrow> (('d, 's1, U6) BinaryOperands, 'e) res" where
  "BinaryOperandsU6_from_bits dnew s1new bits =
     and_then (unwrap (dnew (ucast (bits AND 0b11111)))) (\<lambda>d.
     and_then (unwrap (s1new (ucast (drop_bit 5 bits AND 0b11111)))) (\<lambda>s1.
     and_then (unwrap (U6_new (ucast (drop_bit 10 bits AND 0b111111)))) (\<lambda>s2.
       Ok \<lparr>bo_dst = d, bo_src1 = s1, bo_src2 = s2\<rparr>)))"

record AddrO32 =
  o32_addr :: XReg
  o32_offset :: u32

record AddrZ =
  z_addr :: XReg
  z_offset :: u32

record AddrG32 =
  g32_host_heap_base :: XReg
  g32_host_heap_bound :: XReg
  g32_wasm_addr :: XReg
  g32_offset :: u16

record AddrG32Bne =
  bne_host_heap_base :: XReg
  bne_host_heap_bound_addr :: XReg
  bne_host_heap_bound_offset :: u8
  bne_wasm_addr :: XReg
  bne_offset :: u8

definition AddrG32_from_bits :: "u32 \<Rightarrow> (AddrG32, 'e) res" where
  "AddrG32_from_bits bits =
     and_then (unwrap (XReg_new (ucast (drop_bit 26 bits AND 0b11111)))) (\<lambda>host_heap_base.
     and_then (unwrap (XReg_new (ucast (drop_bit 21 bits AND 0b11111)))) (\<lambda>bound_reg.
     and_then (unwrap (XReg_new (ucast (drop_bit 16 bits AND 0b11111)))) (\<lambda>wasm_addr.
       Ok \<lparr>g32_host_heap_base = host_heap_base, g32_host_heap_bound = bound_reg,
           g32_wasm_addr = wasm_addr, g32_offset = ucast bits\<rparr>)))"

definition AddrG32_to_bits :: "AddrG32 \<Rightarrow> u32" where
  "AddrG32_to_bits self =
     ucast (g32_offset self)
     OR push_bit 16 (ucast (XReg_to_u8 (g32_wasm_addr self)))
     OR push_bit 21 (ucast (XReg_to_u8 (g32_host_heap_bound self)))
     OR push_bit 26 (ucast (XReg_to_u8 (g32_host_heap_base self)))"

definition AddrG32Bne_from_bits :: "u32 \<Rightarrow> (AddrG32Bne, 'e) res" where
  "AddrG32Bne_from_bits bits =
     and_then (unwrap (XReg_new (ucast (drop_bit 26 bits AND 0b11111)))) (\<lambda>host_heap_base.
     and_then (unwrap (XReg_new (ucast (drop_bit 21 bits AND 0b11111)))) (\<lambda>bound_reg.
     and_then (unwrap (XReg_new (ucast (drop_bit 16 bits AND 0b11111)))) (\<lambda>wasm_addr.
       Ok \<lparr>bne_host_heap_base = host_heap_base, bne_host_heap_bound_addr = bound_reg,
           bne_host_heap_bound_offset = ucast (drop_bit 8 bits),
           bne_wasm_addr = wasm_addr, bne_offset = ucast bits\<rparr>)))"

definition AddrG32Bne_to_bits :: "AddrG32Bne \<Rightarrow> u32" where
  "AddrG32Bne_to_bits self =
     ucast (bne_offset self)
     OR push_bit 8 (ucast (bne_host_heap_bound_offset self))
     OR push_bit 16 (ucast (XReg_to_u8 (bne_wasm_addr self)))
     OR push_bit 21 (ucast (XReg_to_u8 (bne_host_heap_bound_addr self)))
     OR push_bit 26 (ucast (XReg_to_u8 (bne_host_heap_base self)))"

text \<open>\<open>UpperRegSet<R>\<close> is a 16-bit bitset of the registers 16 to 31; iterating it yields
  \<open>R::new(i + 16).unwrap()\<close> for every element, in ascending order.\<close>

datatype UpperRegSet = UpperRegSet (upper_bitset: "16 ScalarBitSet")

fun unwrap_all :: "'a option list \<Rightarrow> ('a list, 'e) res" where
  "unwrap_all [] = Ok []"
| "unwrap_all (x # xs) = and_then (unwrap x) (\<lambda>y. and_then (unwrap_all xs) (\<lambda>ys. Ok (y # ys)))"

definition UpperRegSet_into_iter :: "(u8 \<Rightarrow> 'r option) \<Rightarrow> UpperRegSet \<Rightarrow> ('r list, 'e) res" where
  "UpperRegSet_into_iter new self =
     and_then (unwrap (bs_iter (upper_bitset self)))
       (\<lambda>is. unwrap_all (map (\<lambda>i. new (of_nat i + 16)) is))"

section \<open>The register trait\<close>

locale reg =
  fixes to_u8 :: "'r \<Rightarrow> u8" and new :: "u8 \<Rightarrow> 'r option"
  assumes new_to_u8: "new (to_u8 r) = Some r"
    and to_u8_less: "to_u8 r < 32"
    and to_u8_new: "new i = Some r \<Longrightarrow> to_u8 r = i"
    and new_in_range: "i < 32 \<Longrightarrow> \<exists>r. new i = Some r"
    and new_out_of_range: "\<not> i < 32 \<Longrightarrow> new i = None"
begin

lemma to_u8_inj: "to_u8 r = to_u8 r' \<longleftrightarrow> r = r'"
  using new_to_u8 by (metis option.inject)

lemma new_Some_iff: "new i = Some r \<longleftrightarrow> to_u8 r = i"
  using new_to_u8 to_u8_new by blast

end

lemma to_u8_nth:
  assumes "list_all (\<lambda>k. to_u8 (all ! k) = (of_nat k :: u8)) [0..<32]" "i < (32 :: u8)"
  shows "to_u8 (all ! unat i) = i"
proof -
  have "unat i < 32" using assms(2) by (simp add: word_less_nat_alt)
  then show ?thesis using assms(1) by (auto simp: list_all_iff)
qed

interpretation xr: reg XReg_to_u8 XReg_new
proof
  show "XReg_new (XReg_to_u8 r) = Some r" for r
    by (cases r) (simp_all add: XReg_new_def XReg_all_def)
  show "XReg_to_u8 r < 32" for r by (cases r) simp_all
  have all: "list_all (\<lambda>k. XReg_to_u8 (XReg_all ! k) = of_nat k) [0..<32]" by code_simp
  show "XReg_new i = Some r \<Longrightarrow> XReg_to_u8 r = i" for i r
    using to_u8_nth [OF all] by (auto simp: XReg_new_def split: if_splits)
qed (auto simp: XReg_new_def)

interpretation fr: reg FReg_to_u8 FReg_new
proof
  show "FReg_new (FReg_to_u8 r) = Some r" for r
    by (cases r) (simp_all add: FReg_new_def FReg_all_def)
  show "FReg_to_u8 r < 32" for r by (cases r) simp_all
  have all: "list_all (\<lambda>k. FReg_to_u8 (FReg_all ! k) = of_nat k) [0..<32]" by code_simp
  show "FReg_new i = Some r \<Longrightarrow> FReg_to_u8 r = i" for i r
    using to_u8_nth [OF all] by (auto simp: FReg_new_def split: if_splits)
qed (auto simp: FReg_new_def)

interpretation vr: reg VReg_to_u8 VReg_new
proof
  show "VReg_new (VReg_to_u8 r) = Some r" for r
    by (cases r) (simp_all add: VReg_new_def VReg_all_def)
  show "VReg_to_u8 r < 32" for r by (cases r) simp_all
  have all: "list_all (\<lambda>k. VReg_to_u8 (VReg_all ! k) = of_nat k) [0..<32]" by code_simp
  show "VReg_new i = Some r \<Longrightarrow> VReg_to_u8 r = i" for i r
    using to_u8_nth [OF all] by (auto simp: VReg_new_def split: if_splits)
qed (auto simp: VReg_new_def)

section \<open>Round trips of the packed operands\<close>

lemma bit_small:
  assumes "unat (w :: 'a::len word) < 2 ^ n" "bit w k"
  shows "k < n"
proof -
  have "take_bit n (unat w) = unat w" using assms(1) by (simp add: take_bit_nat_eq_self)
  moreover have "bit (unat w) k" using assms(2) by (simp add: bit_unsigned_iff bit_imp_le_length)
  ultimately show ?thesis by (metis bit_take_bit_iff)
qed

lemma bit_lt32: "w < 32 \<Longrightarrow> bit (w :: u8) k \<Longrightarrow> k < 5"
  using bit_small [of w 5 k] by (simp add: word_less_nat_alt)

lemma bit_lt64: "w < 64 \<Longrightarrow> bit (w :: u8) k \<Longrightarrow> k < 6"
  using bit_small [of w 6 k] by (simp add: word_less_nat_alt)

lemma field_masks: "(0b11111 :: 'a::len word) = mask 5" "(0b111111 :: 'a::len word) = mask 6"
  by (simp_all add: mask_eq_exp_minus_1)

lemma ucast_mask5_less: "(ucast (w AND 0b11111) :: u8) < 32" for w :: "'a::len word"
proof -
  have "ucast (w AND 0b11111) = (take_bit 5 (ucast w) :: u8)"
    by (rule bit_word_eqI) (auto simp: field_masks bit_simps dest: bit_imp_le_length)
  then have "unat (ucast (w AND 0b11111) :: u8) < 2 ^ 5"
    by (simp add: unsigned_take_bit_eq del: power_numeral)
  then show ?thesis by (simp add: word_less_nat_alt)
qed

lemma ucast_mask6_less: "(ucast (w AND 0b111111) :: u8) < 64" for w :: "'a::len word"
proof -
  have "ucast (w AND 0b111111) = (take_bit 6 (ucast w) :: u8)"
    by (rule bit_word_eqI) (auto simp: field_masks bit_simps dest: bit_imp_le_length)
  then have "unat (ucast (w AND 0b111111) :: u8) < 2 ^ 6"
    by (simp add: unsigned_take_bit_eq del: power_numeral)
  then show ?thesis by (simp add: word_less_nat_alt)
qed

lemma U6_new_Some_iff: "U6_new v = Some u \<longleftrightarrow> v < 64 \<and> u = U6 v"
proof -
  have "drop_bit 2 (push_bit 2 v) = take_bit 6 v"
    by (rule bit_word_eqI) (auto simp: bit_simps dest: bit_imp_le_length)
  moreover have "take_bit 6 v = v \<longleftrightarrow> v < 64"
  proof
    assume "take_bit 6 v = v"
    then have "unat v < 2 ^ 6" by (metis unsigned_take_bit_eq take_bit_nat_less_exp)
    then show "v < 64" by (simp add: word_less_nat_alt)
  next
    assume "v < 64"
    then show "take_bit 6 v = v"
      by (intro bit_word_eqI) (auto simp: bit_simps dest: bit_lt64)
  qed
  ultimately show ?thesis by (auto simp: U6_new_def)
qed

locale three_regs =
  d: reg dto dnew + s1: reg s1to s1new + s2: reg s2to s2new
  for dto :: "'d \<Rightarrow> u8" and dnew and s1to :: "'s1 \<Rightarrow> u8" and s1new
    and s2to :: "'s2 \<Rightarrow> u8" and s2new
begin

lemma field_dst:
  "ucast (BinaryOperands_to_bits dto s1to s2to bo AND 0b11111) = dto (bo_dst bo)"
  unfolding BinaryOperands_to_bits_def Let_def field_masks
  by (rule bit_word_eqI) (auto simp: bit_simps dest: bit_lt32 [OF d.to_u8_less])

lemma field_src1:
  "ucast (drop_bit 5 (BinaryOperands_to_bits dto s1to s2to bo) AND 0b11111) = s1to (bo_src1 bo)"
  unfolding BinaryOperands_to_bits_def Let_def field_masks
  by (rule bit_word_eqI)
     (auto simp: bit_simps dest: bit_lt32 [OF d.to_u8_less] bit_lt32 [OF s1.to_u8_less])

lemma field_src2:
  "ucast (drop_bit 10 (BinaryOperands_to_bits dto s1to s2to bo) AND 0b11111) = s2to (bo_src2 bo)"
  unfolding BinaryOperands_to_bits_def Let_def field_masks
  by (rule bit_word_eqI)
     (auto simp: bit_simps dest: bit_lt32 [OF d.to_u8_less] bit_lt32 [OF s1.to_u8_less]
        bit_lt32 [OF s2.to_u8_less])

lemma from_to_bits:
  "BinaryOperands_from_bits dnew s1new s2new (BinaryOperands_to_bits dto s1to s2to bo) = Ok bo"
  unfolding BinaryOperands_from_bits_def field_dst field_src1 field_src2
  by (simp add: d.new_to_u8 s1.new_to_u8 s2.new_to_u8)

lemma to_from_bits:
  "\<exists>bo. BinaryOperands_from_bits dnew s1new s2new bits = Ok bo \<and>
        BinaryOperands_to_bits dto s1to s2to bo = bits AND 0x7FFF"
proof -
  obtain d s1 s2 where n: "dnew (ucast (bits AND 0b11111)) = Some d"
      "s1new (ucast (drop_bit 5 bits AND 0b11111)) = Some s1"
      "s2new (ucast (drop_bit 10 bits AND 0b11111)) = Some s2"
    using d.new_in_range s1.new_in_range s2.new_in_range ucast_mask5_less by metis
  then have "dto d = ucast (bits AND 0b11111)" "s1to s1 = ucast (drop_bit 5 bits AND 0b11111)"
      "s2to s2 = ucast (drop_bit 10 bits AND 0b11111)"
    by (simp_all add: d.new_Some_iff s1.new_Some_iff s2.new_Some_iff)
  then have "BinaryOperands_to_bits dto s1to s2to \<lparr>bo_dst = d, bo_src1 = s1, bo_src2 = s2\<rparr> =
      bits AND mask 15"
    unfolding BinaryOperands_to_bits_def Let_def field_masks
    by (intro bit_word_eqI, rename_tac n, case_tac "n < 5"; case_tac "n < 10") (auto simp: bit_simps)
  then show ?thesis
    using n by (simp add: BinaryOperands_from_bits_def mask_eq_exp_minus_1)
qed

end

interpretation xxx: three_regs XReg_to_u8 XReg_new XReg_to_u8 XReg_new XReg_to_u8 XReg_new ..
interpretation fff: three_regs FReg_to_u8 FReg_new FReg_to_u8 FReg_new FReg_to_u8 FReg_new ..
interpretation vvv: three_regs VReg_to_u8 VReg_new VReg_to_u8 VReg_new VReg_to_u8 VReg_new ..
interpretation vvx: three_regs VReg_to_u8 VReg_new VReg_to_u8 VReg_new XReg_to_u8 XReg_new ..
interpretation vvf: three_regs VReg_to_u8 VReg_new VReg_to_u8 VReg_new FReg_to_u8 FReg_new ..

text \<open>The 6-bit immediate form. A \<open>U6\<close> made by \<open>U6::new\<close> is below 64.\<close>

definition wf_U6 :: "U6 \<Rightarrow> bool" where
  "wf_U6 u \<longleftrightarrow> u8_of_U6 u < 64"

locale two_regs =
  d: reg dto dnew + s1: reg s1to s1new
  for dto :: "'d \<Rightarrow> u8" and dnew and s1to :: "'s1 \<Rightarrow> u8" and s1new
begin

lemma u6_field_dst:
  "ucast (BinaryOperandsU6_to_bits dto s1to bo AND 0b11111) = dto (bo_dst bo)"
  unfolding BinaryOperandsU6_to_bits_def Let_def field_masks
  by (rule bit_word_eqI) (auto simp: bit_simps dest: bit_lt32 [OF d.to_u8_less])

lemma u6_field_src1:
  "ucast (drop_bit 5 (BinaryOperandsU6_to_bits dto s1to bo) AND 0b11111) = s1to (bo_src1 bo)"
  unfolding BinaryOperandsU6_to_bits_def Let_def field_masks
  by (rule bit_word_eqI)
     (auto simp: bit_simps dest: bit_lt32 [OF d.to_u8_less] bit_lt32 [OF s1.to_u8_less])

lemma u6_field_src2:
  "wf_U6 (bo_src2 bo) \<Longrightarrow>
     ucast (drop_bit 10 (BinaryOperandsU6_to_bits dto s1to bo) AND 0b111111) = u8_of_U6 (bo_src2 bo)"
  unfolding BinaryOperandsU6_to_bits_def Let_def field_masks wf_U6_def
  by (rule bit_word_eqI)
     (auto simp: bit_simps dest: bit_lt32 [OF d.to_u8_less] bit_lt32 [OF s1.to_u8_less] bit_lt64)

lemma u6_from_to_bits:
  assumes "wf_U6 (bo_src2 bo)"
  shows "BinaryOperandsU6_from_bits dnew s1new (BinaryOperandsU6_to_bits dto s1to bo) = Ok bo"
proof -
  have "U6_new (u8_of_U6 (bo_src2 bo)) = Some (bo_src2 bo)"
    using assms by (simp add: U6_new_Some_iff wf_U6_def)
  then show ?thesis
    unfolding BinaryOperandsU6_from_bits_def u6_field_dst u6_field_src1 u6_field_src2 [OF assms]
    by (simp add: d.new_to_u8 s1.new_to_u8)
qed

lemma u6_to_from_bits:
  "\<exists>bo. BinaryOperandsU6_from_bits dnew s1new bits = Ok bo \<and> wf_U6 (bo_src2 bo) \<and>
        BinaryOperandsU6_to_bits dto s1to bo = bits"
proof -
  obtain d s1 where n: "dnew (ucast (bits AND 0b11111)) = Some d"
      "s1new (ucast (drop_bit 5 bits AND 0b11111)) = Some s1"
    using d.new_in_range s1.new_in_range ucast_mask5_less by metis
  define u where "u = U6 (ucast (drop_bit 10 bits AND 0b111111))"
  have u: "U6_new (ucast (drop_bit 10 bits AND 0b111111)) = Some u"
    by (simp add: U6_new_Some_iff u_def ucast_mask6_less)
  have "dto d = ucast (bits AND 0b11111)" "s1to s1 = ucast (drop_bit 5 bits AND 0b11111)"
    using n by (simp_all add: d.new_Some_iff s1.new_Some_iff)
  then have "BinaryOperandsU6_to_bits dto s1to \<lparr>bo_dst = d, bo_src1 = s1, bo_src2 = u\<rparr> = bits"
    unfolding BinaryOperandsU6_to_bits_def Let_def field_masks u_def
    by (intro bit_word_eqI, rename_tac n, case_tac "n < 5"; case_tac "n < 10") (auto simp: bit_simps)
  then show ?thesis
    using n u by (simp add: BinaryOperandsU6_from_bits_def wf_U6_def u_def ucast_mask6_less)
qed

end

interpretation xx: two_regs XReg_to_u8 XReg_new XReg_to_u8 XReg_new ..

section \<open>Address operands\<close>

lemma G32_fields:
  "ucast (drop_bit 26 (AddrG32_to_bits a) AND 0b11111) = XReg_to_u8 (g32_host_heap_base a)"
  "ucast (drop_bit 21 (AddrG32_to_bits a) AND 0b11111) = XReg_to_u8 (g32_host_heap_bound a)"
  "ucast (drop_bit 16 (AddrG32_to_bits a) AND 0b11111) = XReg_to_u8 (g32_wasm_addr a)"
  "ucast (AddrG32_to_bits a) = g32_offset a"
  unfolding AddrG32_to_bits_def field_masks
  by (rule bit_word_eqI; auto simp: bit_simps dest: bit_lt32 [OF xr.to_u8_less] bit_imp_le_length)+

lemma G32Bne_fields:
  "ucast (drop_bit 26 (AddrG32Bne_to_bits a) AND 0b11111) = XReg_to_u8 (bne_host_heap_base a)"
  "ucast (drop_bit 21 (AddrG32Bne_to_bits a) AND 0b11111) = XReg_to_u8 (bne_host_heap_bound_addr a)"
  "ucast (drop_bit 16 (AddrG32Bne_to_bits a) AND 0b11111) = XReg_to_u8 (bne_wasm_addr a)"
  "ucast (drop_bit 8 (AddrG32Bne_to_bits a)) = bne_host_heap_bound_offset a"
  "ucast (AddrG32Bne_to_bits a) = bne_offset a"
  unfolding AddrG32Bne_to_bits_def field_masks
  by (rule bit_word_eqI; auto simp: bit_simps dest: bit_lt32 [OF xr.to_u8_less] bit_imp_le_length)+

lemma AddrG32_from_to_bits: "AddrG32_from_bits (AddrG32_to_bits a) = Ok a"
  unfolding AddrG32_from_bits_def G32_fields by (simp add: xr.new_to_u8)

lemma AddrG32Bne_from_to_bits: "AddrG32Bne_from_bits (AddrG32Bne_to_bits a) = Ok a"
  unfolding AddrG32Bne_from_bits_def G32Bne_fields by (simp add: xr.new_to_u8)

lemma XReg_new_field: "\<exists>r. XReg_new (ucast (w AND 0b11111)) = Some r \<and> XReg_to_u8 r = ucast (w AND 0b11111)"
  using xr.new_in_range [OF ucast_mask5_less] xr.new_Some_iff by metis

lemma AddrG32_to_from_bits:
  "\<exists>a. AddrG32_from_bits bits = Ok a \<and> AddrG32_to_bits a = bits AND 0x7FFFFFFF"
proof -
  obtain r1 r2 r3 where r: "XReg_new (ucast (drop_bit 26 bits AND 0b11111)) = Some r1"
      "XReg_new (ucast (drop_bit 21 bits AND 0b11111)) = Some r2"
      "XReg_new (ucast (drop_bit 16 bits AND 0b11111)) = Some r3"
    and t: "XReg_to_u8 r1 = ucast (drop_bit 26 bits AND 0b11111)"
      "XReg_to_u8 r2 = ucast (drop_bit 21 bits AND 0b11111)"
      "XReg_to_u8 r3 = ucast (drop_bit 16 bits AND 0b11111)"
    using XReg_new_field by metis
  have "AddrG32_to_bits \<lparr>g32_host_heap_base = r1, g32_host_heap_bound = r2, g32_wasm_addr = r3,
      g32_offset = ucast bits\<rparr> = bits AND mask 31"
    unfolding AddrG32_to_bits_def field_masks
    by (intro bit_word_eqI, rename_tac n, case_tac "n < 16"; case_tac "n < 21"; case_tac "n < 26")
       (auto simp: t field_masks bit_simps)
  with r show ?thesis
    by (simp add: AddrG32_from_bits_def mask_eq_exp_minus_1)
qed

lemma AddrG32Bne_to_from_bits:
  "\<exists>a. AddrG32Bne_from_bits bits = Ok a \<and> AddrG32Bne_to_bits a = bits AND 0x7FFFFFFF"
proof -
  obtain r1 r2 r3 where r: "XReg_new (ucast (drop_bit 26 bits AND 0b11111)) = Some r1"
      "XReg_new (ucast (drop_bit 21 bits AND 0b11111)) = Some r2"
      "XReg_new (ucast (drop_bit 16 bits AND 0b11111)) = Some r3"
    and t: "XReg_to_u8 r1 = ucast (drop_bit 26 bits AND 0b11111)"
      "XReg_to_u8 r2 = ucast (drop_bit 21 bits AND 0b11111)"
      "XReg_to_u8 r3 = ucast (drop_bit 16 bits AND 0b11111)"
    using XReg_new_field by metis
  have "AddrG32Bne_to_bits \<lparr>bne_host_heap_base = r1, bne_host_heap_bound_addr = r2,
      bne_host_heap_bound_offset = ucast (drop_bit 8 bits), bne_wasm_addr = r3, bne_offset = ucast bits\<rparr> =
      bits AND mask 31"
    unfolding AddrG32Bne_to_bits_def field_masks
    by (intro bit_word_eqI, rename_tac n, case_tac "n < 8"; case_tac "n < 16"; case_tac "n < 21"; case_tac "n < 26")
       (auto simp: t field_masks bit_simps)
  with r show ?thesis
    by (simp add: AddrG32Bne_from_bits_def mask_eq_exp_minus_1)
qed

text \<open>A packed format: what \<open>ok\<close> values are packed to is unpacked to the same value, and every word is
  unpacked, without a panic, to an \<open>ok\<close> value whose packing is the word reduced to the bits of \<open>m\<close>.\<close>

definition packed ::
  "('a \<Rightarrow> 'w::len word) \<Rightarrow> ('w word \<Rightarrow> ('a, 'e) res) \<Rightarrow> 'w word \<Rightarrow> ('a \<Rightarrow> bool) \<Rightarrow> bool" where
  "packed to_bits from_bits m ok \<longleftrightarrow>
     (\<forall>a. ok a \<longrightarrow> from_bits (to_bits a) = Ok a) \<and>
     (\<forall>w. \<exists>a. from_bits w = Ok a \<and> ok a \<and> to_bits a = w AND m)"

lemma u6_to_from_all:
  "\<exists>bo. BinaryOperandsU6_from_bits XReg_new XReg_new bits = Ok bo \<and> u8_of_U6 (bo_src2 bo) < 64 \<and>
     BinaryOperandsU6_to_bits XReg_to_u8 XReg_to_u8 bo = bits AND 0xFFFF"
proof -
  have "(0xFFFF :: u16) = - 1" by simp
  then have "bits AND 0xFFFF = bits" by (simp only: and.right_neutral)
  then show ?thesis using xx.u6_to_from_bits [of bits] by (simp add: wf_U6_def)
qed

section \<open>Upper register sets\<close>

lemma unwrap_all_Ok: "(\<And>x. x \<in> set xs \<Longrightarrow> x \<noteq> None) \<Longrightarrow> unwrap_all xs = Ok (map the xs)"
  by (induction xs) force+

context reg
begin

lemma upper_into_iter:
  "\<exists>rs. UpperRegSet_into_iter new s = Ok rs \<and>
     map to_u8 rs = map (\<lambda>i. of_nat i + 16) (sorted_list_of_set (elements (upper_bitset s)))"
proof -
  let ?is = "sorted_list_of_set (elements (upper_bitset s))"
  have it: "bs_iter (upper_bitset s) = Some ?is"
    by (simp add: bs_iter_eq)
  have "i < 16" if "i \<in> set ?is" for i
    using that elements_less [of i "upper_bitset s"] by simp
  moreover have "(of_nat i + 16 :: u8) < 32" if "i < 16" for i
    using that by (simp add: word_less_nat_alt unat_word_ariths unat_of_nat)
  ultimately have ex: "\<exists>r. new (of_nat i + 16) = Some r" if "i \<in> set ?is" for i
    using that new_in_range by blast
  let ?rs = "map (\<lambda>i. the (new (of_nat i + 16))) ?is"
  have "unwrap_all (map (\<lambda>i. new (of_nat i + 16)) ?is) = Ok ?rs"
    using ex by (subst unwrap_all_Ok) (auto simp: comp_def)
  moreover have "map to_u8 ?rs = map (\<lambda>i. of_nat i + 16) ?is"
    unfolding map_map comp_def
  proof (rule map_cong [OF refl])
    fix i assume "i \<in> set ?is"
    then obtain r where "new (of_nat i + 16) = Some r" using ex by blast
    then show "to_u8 (the (new (of_nat i + 16))) = of_nat i + 16"
      by (simp add: to_u8_new)
  qed
  ultimately show ?thesis using it by (auto simp: UpperRegSet_into_iter_def)
qed

end

section \<open>Properties\<close>

text \<open>C37: The packed operands lose nothing but what the format leaves out, for every combination of register classes the
  instructions use. Three registers (x, f or v throughout, or two v registers with an x or an f register) in 16 bits
  are unpacked as they were packed; unpacking never panics, whatever the 16 bits are, and packing the result again
  gives the 16 bits with the topmost one cleared. Two x registers with a 6-bit immediate are unpacked as they were packed
  whenever the immediate is below 64, as unpacking always leaves it; the topmost bit is part of the immediate, so packing
  again gives all 16 bits. The two bounds-checked address operands are unpacked from 32 bits as they were packed, unpacking
  never panics, and packing again gives the 32 bits with the topmost one cleared.\<close>

theorem packed_operands_roundtrip:
  "packed (BinaryOperands_to_bits XReg_to_u8 XReg_to_u8 XReg_to_u8)
     (BinaryOperands_from_bits XReg_new XReg_new XReg_new) 0x7FFF (\<lambda>_. True) \<and>
   packed (BinaryOperands_to_bits FReg_to_u8 FReg_to_u8 FReg_to_u8)
     (BinaryOperands_from_bits FReg_new FReg_new FReg_new) 0x7FFF (\<lambda>_. True) \<and>
   packed (BinaryOperands_to_bits VReg_to_u8 VReg_to_u8 VReg_to_u8)
     (BinaryOperands_from_bits VReg_new VReg_new VReg_new) 0x7FFF (\<lambda>_. True) \<and>
   packed (BinaryOperands_to_bits VReg_to_u8 VReg_to_u8 XReg_to_u8)
     (BinaryOperands_from_bits VReg_new VReg_new XReg_new) 0x7FFF (\<lambda>_. True) \<and>
   packed (BinaryOperands_to_bits VReg_to_u8 VReg_to_u8 FReg_to_u8)
     (BinaryOperands_from_bits VReg_new VReg_new FReg_new) 0x7FFF (\<lambda>_. True) \<and>
   packed (BinaryOperandsU6_to_bits XReg_to_u8 XReg_to_u8)
     (BinaryOperandsU6_from_bits XReg_new XReg_new) 0xFFFF (\<lambda>bo. u8_of_U6 (bo_src2 bo) < 64) \<and>
   packed AddrG32_to_bits AddrG32_from_bits 0x7FFFFFFF (\<lambda>_. True) \<and>
   packed AddrG32Bne_to_bits AddrG32Bne_from_bits 0x7FFFFFFF (\<lambda>_. True)"
  unfolding packed_def
  using xxx.from_to_bits xxx.to_from_bits fff.from_to_bits fff.to_from_bits vvv.from_to_bits vvv.to_from_bits
    vvx.from_to_bits vvx.to_from_bits vvf.from_to_bits vvf.to_from_bits xx.u6_from_to_bits u6_to_from_all
    AddrG32_from_to_bits AddrG32_to_from_bits AddrG32Bne_from_to_bits AddrG32Bne_to_from_bits
  by (intro conjI allI impI) (simp_all add: wf_U6_def)

end
