(* ===== verification/Pulley_ISA.thy ===== *)
theory Pulley_ISA
  imports Pulley_Regs
begin

text \<open>
  The instruction set of \<open>pulley/src/lib.rs\<close>. In the source the two lists
  \<open>for_each_op!\<close> and \<open>for_each_extended_op!\<close> are passed to macros that generate
  the opcodes (\<open>opcode.rs\<close>), the materialised instructions (\<open>op.rs\<close>), the encoder
  and the decoder. Here the two lists are lists of entries (snake-case name, camel-case
  name, operand types) and the macros are functions of such a list. An operand type is a
  value of \<open>field_ty\<close>, an operand a value of \<open>operand\<close>; an opcode is named by its
  camel-case name, and its number is its position in the list.
\<close>

section \<open>Operands\<close>

datatype field_ty =
    T_u8 | T_u16 | T_u32 | T_u64 | T_u128 | T_i8 | T_i16 | T_i32 | T_i64
  | T_XReg | T_FReg | T_VReg | T_PcRelOffset
  | T_BinX | T_BinXU6 | T_BinF | T_BinV | T_BinVVX | T_BinVVF
  | T_UpperRegSet | T_AddrO32 | T_AddrZ | T_AddrG32 | T_AddrG32Bne

datatype operand =
    O_u8 u8 | O_u16 u16 | O_u32 u32 | O_u64 u64 | O_u128 u128
  | O_i8 u8 | O_i16 u16 | O_i32 u32 | O_i64 u64
  | O_XReg XReg | O_FReg FReg | O_VReg VReg | O_PcRelOffset PcRelOffset
  | O_BinX "(XReg, XReg, XReg) BinaryOperands"
  | O_BinXU6 "(XReg, XReg, U6) BinaryOperands"
  | O_BinF "(FReg, FReg, FReg) BinaryOperands"
  | O_BinV "(VReg, VReg, VReg) BinaryOperands"
  | O_BinVVX "(VReg, VReg, XReg) BinaryOperands"
  | O_BinVVF "(VReg, VReg, FReg) BinaryOperands"
  | O_UpperRegSet UpperRegSet
  | O_AddrO32 AddrO32 | O_AddrZ AddrZ | O_AddrG32 AddrG32 | O_AddrG32Bne AddrG32Bne

fun ty_of :: "operand \<Rightarrow> field_ty" where
  "ty_of (O_u8 _) = T_u8" | "ty_of (O_u16 _) = T_u16" | "ty_of (O_u32 _) = T_u32"
| "ty_of (O_u64 _) = T_u64" | "ty_of (O_u128 _) = T_u128" | "ty_of (O_i8 _) = T_i8"
| "ty_of (O_i16 _) = T_i16" | "ty_of (O_i32 _) = T_i32" | "ty_of (O_i64 _) = T_i64"
| "ty_of (O_XReg _) = T_XReg" | "ty_of (O_FReg _) = T_FReg" | "ty_of (O_VReg _) = T_VReg"
| "ty_of (O_PcRelOffset _) = T_PcRelOffset"
| "ty_of (O_BinX _) = T_BinX" | "ty_of (O_BinXU6 _) = T_BinXU6" | "ty_of (O_BinF _) = T_BinF"
| "ty_of (O_BinV _) = T_BinV" | "ty_of (O_BinVVX _) = T_BinVVX" | "ty_of (O_BinVVF _) = T_BinVVF"
| "ty_of (O_UpperRegSet _) = T_UpperRegSet"
| "ty_of (O_AddrO32 _) = T_AddrO32" | "ty_of (O_AddrZ _) = T_AddrZ"
| "ty_of (O_AddrG32 _) = T_AddrG32" | "ty_of (O_AddrG32Bne _) = T_AddrG32Bne"

text \<open>The values of the operand types: only a 6-bit immediate carries a condition, the one
  \<open>U6::new\<close> establishes.\<close>

fun wf_operand :: "operand \<Rightarrow> bool" where
  "wf_operand (O_BinXU6 bo) = wf_U6 (bo_src2 bo)"
| "wf_operand _ = True"

section \<open>The instruction tables\<close>

type_synonym op_spec = "string \<times> string \<times> field_ty list"

abbreviation snake_name :: "op_spec \<Rightarrow> string" where "snake_name \<equiv> fst"
abbreviation camel_name :: "op_spec \<Rightarrow> string" where "camel_name s \<equiv> fst (snd s)"
abbreviation field_tys :: "op_spec \<Rightarrow> field_ty list" where "field_tys s \<equiv> snd (snd s)"

definition ops_control :: "op_spec list" where
  "ops_control = [
     (''nop'', ''Nop'', []),
     (''ret'', ''Ret'', []),
     (''call'', ''Call'', [T_PcRelOffset]),
     (''call1'', ''Call1'', [T_XReg, T_PcRelOffset]),
     (''call2'', ''Call2'', [T_XReg, T_XReg, T_PcRelOffset]),
     (''call3'', ''Call3'', [T_XReg, T_XReg, T_XReg, T_PcRelOffset]),
     (''call4'', ''Call4'', [T_XReg, T_XReg, T_XReg, T_XReg, T_PcRelOffset]),
     (''call_indirect'', ''CallIndirect'', [T_XReg]),
     (''jump'', ''Jump'', [T_PcRelOffset]),
     (''xjump'', ''XJump'', [T_XReg]),
     (''br_if32'', ''BrIf'', [T_XReg, T_PcRelOffset]),
     (''br_if_not32'', ''BrIfNot'', [T_XReg, T_PcRelOffset]),
     (''br_if_xeq32'', ''BrIfXeq32'', [T_XReg, T_XReg, T_PcRelOffset]),
     (''br_if_xneq32'', ''BrIfXneq32'', [T_XReg, T_XReg, T_PcRelOffset]),
     (''br_if_xslt32'', ''BrIfXslt32'', [T_XReg, T_XReg, T_PcRelOffset]),
     (''br_if_xslteq32'', ''BrIfXslteq32'', [T_XReg, T_XReg, T_PcRelOffset]),
     (''br_if_xult32'', ''BrIfXult32'', [T_XReg, T_XReg, T_PcRelOffset]),
     (''br_if_xulteq32'', ''BrIfXulteq32'', [T_XReg, T_XReg, T_PcRelOffset]),
     (''br_if_xeq64'', ''BrIfXeq64'', [T_XReg, T_XReg, T_PcRelOffset]),
     (''br_if_xneq64'', ''BrIfXneq64'', [T_XReg, T_XReg, T_PcRelOffset]),
     (''br_if_xslt64'', ''BrIfXslt64'', [T_XReg, T_XReg, T_PcRelOffset]),
     (''br_if_xslteq64'', ''BrIfXslteq64'', [T_XReg, T_XReg, T_PcRelOffset]),
     (''br_if_xult64'', ''BrIfXult64'', [T_XReg, T_XReg, T_PcRelOffset]),
     (''br_if_xulteq64'', ''BrIfXulteq64'', [T_XReg, T_XReg, T_PcRelOffset])]"

definition ops_br_imm :: "op_spec list" where
  "ops_br_imm = [
     (''br_if_xeq32_i8'', ''BrIfXeq32I8'', [T_XReg, T_i8, T_PcRelOffset]),
     (''br_if_xeq32_i32'', ''BrIfXeq32I32'', [T_XReg, T_i32, T_PcRelOffset]),
     (''br_if_xneq32_i8'', ''BrIfXneq32I8'', [T_XReg, T_i8, T_PcRelOffset]),
     (''br_if_xneq32_i32'', ''BrIfXneq32I32'', [T_XReg, T_i32, T_PcRelOffset]),
     (''br_if_xslt32_i8'', ''BrIfXslt32I8'', [T_XReg, T_i8, T_PcRelOffset]),
     (''br_if_xslt32_i32'', ''BrIfXslt32I32'', [T_XReg, T_i32, T_PcRelOffset]),
     (''br_if_xsgt32_i8'', ''BrIfXsgt32I8'', [T_XReg, T_i8, T_PcRelOffset]),
     (''br_if_xsgt32_i32'', ''BrIfXsgt32I32'', [T_XReg, T_i32, T_PcRelOffset]),
     (''br_if_xslteq32_i8'', ''BrIfXslteq32I8'', [T_XReg, T_i8, T_PcRelOffset]),
     (''br_if_xslteq32_i32'', ''BrIfXslteq32I32'', [T_XReg, T_i32, T_PcRelOffset]),
     (''br_if_xsgteq32_i8'', ''BrIfXsgteq32I8'', [T_XReg, T_i8, T_PcRelOffset]),
     (''br_if_xsgteq32_i32'', ''BrIfXsgteq32I32'', [T_XReg, T_i32, T_PcRelOffset]),
     (''br_if_xult32_u8'', ''BrIfXult32U8'', [T_XReg, T_u8, T_PcRelOffset]),
     (''br_if_xult32_u32'', ''BrIfXult32U32'', [T_XReg, T_u32, T_PcRelOffset]),
     (''br_if_xulteq32_u8'', ''BrIfXulteq32U8'', [T_XReg, T_u8, T_PcRelOffset]),
     (''br_if_xulteq32_u32'', ''BrIfXulteq32U32'', [T_XReg, T_u32, T_PcRelOffset]),
     (''br_if_xugt32_u8'', ''BrIfXugt32U8'', [T_XReg, T_u8, T_PcRelOffset]),
     (''br_if_xugt32_u32'', ''BrIfXugt32U32'', [T_XReg, T_u32, T_PcRelOffset]),
     (''br_if_xugteq32_u8'', ''BrIfXugteq32U8'', [T_XReg, T_u8, T_PcRelOffset]),
     (''br_if_xugteq32_u32'', ''BrIfXugteq32U32'', [T_XReg, T_u32, T_PcRelOffset]),
     (''br_if_xeq64_i8'', ''BrIfXeq64I8'', [T_XReg, T_i8, T_PcRelOffset]),
     (''br_if_xeq64_i32'', ''BrIfXeq64I32'', [T_XReg, T_i32, T_PcRelOffset]),
     (''br_if_xneq64_i8'', ''BrIfXneq64I8'', [T_XReg, T_i8, T_PcRelOffset]),
     (''br_if_xneq64_i32'', ''BrIfXneq64I32'', [T_XReg, T_i32, T_PcRelOffset]),
     (''br_if_xslt64_i8'', ''BrIfXslt64I8'', [T_XReg, T_i8, T_PcRelOffset]),
     (''br_if_xslt64_i32'', ''BrIfXslt64I32'', [T_XReg, T_i32, T_PcRelOffset]),
     (''br_if_xsgt64_i8'', ''BrIfXsgt64I8'', [T_XReg, T_i8, T_PcRelOffset]),
     (''br_if_xsgt64_i32'', ''BrIfXsgt64I32'', [T_XReg, T_i32, T_PcRelOffset]),
     (''br_if_xslteq64_i8'', ''BrIfXslteq64I8'', [T_XReg, T_i8, T_PcRelOffset]),
     (''br_if_xslteq64_i32'', ''BrIfXslteq64I32'', [T_XReg, T_i32, T_PcRelOffset]),
     (''br_if_xsgteq64_i8'', ''BrIfXsgteq64I8'', [T_XReg, T_i8, T_PcRelOffset]),
     (''br_if_xsgteq64_i32'', ''BrIfXsgteq64I32'', [T_XReg, T_i32, T_PcRelOffset]),
     (''br_if_xult64_u8'', ''BrIfXult64U8'', [T_XReg, T_u8, T_PcRelOffset]),
     (''br_if_xult64_u32'', ''BrIfXult64U32'', [T_XReg, T_u32, T_PcRelOffset]),
     (''br_if_xulteq64_u8'', ''BrIfXulteq64U8'', [T_XReg, T_u8, T_PcRelOffset]),
     (''br_if_xulteq64_u32'', ''BrIfXulteq64U32'', [T_XReg, T_u32, T_PcRelOffset]),
     (''br_if_xugt64_u8'', ''BrIfXugt64U8'', [T_XReg, T_u8, T_PcRelOffset]),
     (''br_if_xugt64_u32'', ''BrIfXugt64U32'', [T_XReg, T_u32, T_PcRelOffset]),
     (''br_if_xugteq64_u8'', ''BrIfXugteq64U8'', [T_XReg, T_u8, T_PcRelOffset]),
     (''br_if_xugteq64_u32'', ''BrIfXugteq64U32'', [T_XReg, T_u32, T_PcRelOffset]),
     (''br_table32'', ''BrTable32'', [T_XReg, T_u32])]"

definition ops_x_arith :: "op_spec list" where
  "ops_x_arith = [
     (''xmov'', ''Xmov'', [T_XReg, T_XReg]),
     (''xzero'', ''Xzero'', [T_XReg]),
     (''xone'', ''Xone'', [T_XReg]),
     (''xconst8'', ''Xconst8'', [T_XReg, T_i8]),
     (''xconst16'', ''Xconst16'', [T_XReg, T_i16]),
     (''xconst32'', ''Xconst32'', [T_XReg, T_i32]),
     (''xconst64'', ''Xconst64'', [T_XReg, T_i64]),
     (''xadd32'', ''Xadd32'', [T_BinX]),
     (''xadd32_u8'', ''Xadd32U8'', [T_XReg, T_XReg, T_u8]),
     (''xadd32_u32'', ''Xadd32U32'', [T_XReg, T_XReg, T_u32]),
     (''xadd64'', ''Xadd64'', [T_BinX]),
     (''xadd64_u8'', ''Xadd64U8'', [T_XReg, T_XReg, T_u8]),
     (''xadd64_u32'', ''Xadd64U32'', [T_XReg, T_XReg, T_u32]),
     (''xmadd32'', ''Xmadd32'', [T_XReg, T_XReg, T_XReg, T_XReg]),
     (''xmadd64'', ''Xmadd64'', [T_XReg, T_XReg, T_XReg, T_XReg]),
     (''xsub32'', ''Xsub32'', [T_BinX]),
     (''xsub32_u8'', ''Xsub32U8'', [T_XReg, T_XReg, T_u8]),
     (''xsub32_u32'', ''Xsub32U32'', [T_XReg, T_XReg, T_u32]),
     (''xsub64'', ''Xsub64'', [T_BinX]),
     (''xsub64_u8'', ''Xsub64U8'', [T_XReg, T_XReg, T_u8]),
     (''xsub64_u32'', ''Xsub64U32'', [T_XReg, T_XReg, T_u32]),
     (''xmul32'', ''XMul32'', [T_BinX]),
     (''xmul32_s8'', ''Xmul32S8'', [T_XReg, T_XReg, T_i8]),
     (''xmul32_s32'', ''Xmul32S32'', [T_XReg, T_XReg, T_i32]),
     (''xmul64'', ''XMul64'', [T_BinX]),
     (''xmul64_s8'', ''Xmul64S8'', [T_XReg, T_XReg, T_i8]),
     (''xmul64_s32'', ''Xmul64S32'', [T_XReg, T_XReg, T_i32])]"

definition ops_x_bits :: "op_spec list" where
  "ops_x_bits = [
     (''xctz32'', ''Xctz32'', [T_XReg, T_XReg]),
     (''xctz64'', ''Xctz64'', [T_XReg, T_XReg]),
     (''xclz32'', ''Xclz32'', [T_XReg, T_XReg]),
     (''xclz64'', ''Xclz64'', [T_XReg, T_XReg]),
     (''xpopcnt32'', ''Xpopcnt32'', [T_XReg, T_XReg]),
     (''xpopcnt64'', ''Xpopcnt64'', [T_XReg, T_XReg]),
     (''xrotl32'', ''Xrotl32'', [T_BinX]),
     (''xrotl64'', ''Xrotl64'', [T_BinX]),
     (''xrotr32'', ''Xrotr32'', [T_BinX]),
     (''xrotr64'', ''Xrotr64'', [T_BinX]),
     (''xshl32'', ''Xshl32'', [T_BinX]),
     (''xshr32_s'', ''Xshr32S'', [T_BinX]),
     (''xshr32_u'', ''Xshr32U'', [T_BinX]),
     (''xshl64'', ''Xshl64'', [T_BinX]),
     (''xshr64_s'', ''Xshr64S'', [T_BinX]),
     (''xshr64_u'', ''Xshr64U'', [T_BinX]),
     (''xshl32_u6'', ''Xshl32U6'', [T_BinXU6]),
     (''xshr32_s_u6'', ''Xshr32SU6'', [T_BinXU6]),
     (''xshr32_u_u6'', ''Xshr32UU6'', [T_BinXU6]),
     (''xshl64_u6'', ''Xshl64U6'', [T_BinXU6]),
     (''xshr64_s_u6'', ''Xshr64SU6'', [T_BinXU6]),
     (''xshr64_u_u6'', ''Xshr64UU6'', [T_BinXU6]),
     (''xneg32'', ''Xneg32'', [T_XReg, T_XReg]),
     (''xneg64'', ''Xneg64'', [T_XReg, T_XReg]),
     (''xeq64'', ''Xeq64'', [T_BinX]),
     (''xneq64'', ''Xneq64'', [T_BinX]),
     (''xslt64'', ''Xslt64'', [T_BinX]),
     (''xslteq64'', ''Xslteq64'', [T_BinX]),
     (''xult64'', ''Xult64'', [T_BinX]),
     (''xulteq64'', ''Xulteq64'', [T_BinX]),
     (''xeq32'', ''Xeq32'', [T_BinX]),
     (''xneq32'', ''Xneq32'', [T_BinX]),
     (''xslt32'', ''Xslt32'', [T_BinX]),
     (''xslteq32'', ''Xslteq32'', [T_BinX]),
     (''xult32'', ''Xult32'', [T_BinX]),
     (''xulteq32'', ''Xulteq32'', [T_BinX])]"

definition ops_x_mem :: "op_spec list" where
  "ops_x_mem = [
     (''xload8_u32_o32'', ''XLoad8U32O32'', [T_XReg, T_AddrO32]),
     (''xload8_s32_o32'', ''XLoad8S32O32'', [T_XReg, T_AddrO32]),
     (''xload16le_u32_o32'', ''XLoad16LeU32O32'', [T_XReg, T_AddrO32]),
     (''xload16le_s32_o32'', ''XLoad16LeS32O32'', [T_XReg, T_AddrO32]),
     (''xload32le_o32'', ''XLoad32LeO32'', [T_XReg, T_AddrO32]),
     (''xload64le_o32'', ''XLoad64LeO32'', [T_XReg, T_AddrO32]),
     (''xstore8_o32'', ''XStore8O32'', [T_AddrO32, T_XReg]),
     (''xstore16le_o32'', ''XStore16LeO32'', [T_AddrO32, T_XReg]),
     (''xstore32le_o32'', ''XStore32LeO32'', [T_AddrO32, T_XReg]),
     (''xstore64le_o32'', ''XStore64LeO32'', [T_AddrO32, T_XReg]),
     (''xload8_u32_z'', ''XLoad8U32Z'', [T_XReg, T_AddrZ]),
     (''xload8_s32_z'', ''XLoad8S32Z'', [T_XReg, T_AddrZ]),
     (''xload16le_u32_z'', ''XLoad16LeU32Z'', [T_XReg, T_AddrZ]),
     (''xload16le_s32_z'', ''XLoad16LeS32Z'', [T_XReg, T_AddrZ]),
     (''xload32le_z'', ''XLoad32LeZ'', [T_XReg, T_AddrZ]),
     (''xload64le_z'', ''XLoad64LeZ'', [T_XReg, T_AddrZ]),
     (''xstore8_z'', ''XStore8Z'', [T_AddrZ, T_XReg]),
     (''xstore16le_z'', ''XStore16LeZ'', [T_AddrZ, T_XReg]),
     (''xstore32le_z'', ''XStore32LeZ'', [T_AddrZ, T_XReg]),
     (''xstore64le_z'', ''XStore64LeZ'', [T_AddrZ, T_XReg]),
     (''xload8_u32_g32'', ''XLoad8U32G32'', [T_XReg, T_AddrG32]),
     (''xload8_s32_g32'', ''XLoad8S32G32'', [T_XReg, T_AddrG32]),
     (''xload16le_u32_g32'', ''XLoad16LeU32G32'', [T_XReg, T_AddrG32]),
     (''xload16le_s32_g32'', ''XLoad16LeS32G32'', [T_XReg, T_AddrG32]),
     (''xload32le_g32'', ''XLoad32LeG32'', [T_XReg, T_AddrG32]),
     (''xload64le_g32'', ''XLoad64LeG32'', [T_XReg, T_AddrG32]),
     (''xstore8_g32'', ''XStore8G32'', [T_AddrG32, T_XReg]),
     (''xstore16le_g32'', ''XStore16LeG32'', [T_AddrG32, T_XReg]),
     (''xstore32le_g32'', ''XStore32LeG32'', [T_AddrG32, T_XReg]),
     (''xstore64le_g32'', ''XStore64LeG32'', [T_AddrG32, T_XReg]),
     (''xload8_u32_g32bne'', ''XLoad8U32G32Bne'', [T_XReg, T_AddrG32Bne]),
     (''xload8_s32_g32bne'', ''XLoad8S32G32Bne'', [T_XReg, T_AddrG32Bne]),
     (''xload16le_u32_g32bne'', ''XLoad16LeU32G32Bne'', [T_XReg, T_AddrG32Bne]),
     (''xload16le_s32_g32bne'', ''XLoad16LeS32G32Bne'', [T_XReg, T_AddrG32Bne]),
     (''xload32le_g32bne'', ''XLoad32LeG32Bne'', [T_XReg, T_AddrG32Bne]),
     (''xload64le_g32bne'', ''XLoad64LeG32Bne'', [T_XReg, T_AddrG32Bne]),
     (''xstore8_g32bne'', ''XStore8G32Bne'', [T_AddrG32Bne, T_XReg]),
     (''xstore16le_g32bne'', ''XStore16LeG32Bne'', [T_AddrG32Bne, T_XReg]),
     (''xstore32le_g32bne'', ''XStore32LeG32Bne'', [T_AddrG32Bne, T_XReg]),
     (''xstore64le_g32bne'', ''XStore64LeG32Bne'', [T_AddrG32Bne, T_XReg])]"

definition ops_frame_logic :: "op_spec list" where
  "ops_frame_logic = [
     (''push_frame'', ''PushFrame'', []),
     (''pop_frame'', ''PopFrame'', []),
     (''push_frame_save'', ''PushFrameSave'', [T_u16, T_UpperRegSet]),
     (''pop_frame_restore'', ''PopFrameRestore'', [T_u16, T_UpperRegSet]),
     (''stack_alloc32'', ''StackAlloc32'', [T_u32]),
     (''stack_free32'', ''StackFree32'', [T_u32]),
     (''zext8'', ''Zext8'', [T_XReg, T_XReg]),
     (''zext16'', ''Zext16'', [T_XReg, T_XReg]),
     (''zext32'', ''Zext32'', [T_XReg, T_XReg]),
     (''sext8'', ''Sext8'', [T_XReg, T_XReg]),
     (''sext16'', ''Sext16'', [T_XReg, T_XReg]),
     (''sext32'', ''Sext32'', [T_XReg, T_XReg]),
     (''xabs32'', ''XAbs32'', [T_XReg, T_XReg]),
     (''xabs64'', ''XAbs64'', [T_XReg, T_XReg]),
     (''xdiv32_s'', ''XDiv32S'', [T_BinX]),
     (''xdiv64_s'', ''XDiv64S'', [T_BinX]),
     (''xdiv32_u'', ''XDiv32U'', [T_BinX]),
     (''xdiv64_u'', ''XDiv64U'', [T_BinX]),
     (''xrem32_s'', ''XRem32S'', [T_BinX]),
     (''xrem64_s'', ''XRem64S'', [T_BinX]),
     (''xrem32_u'', ''XRem32U'', [T_BinX]),
     (''xrem64_u'', ''XRem64U'', [T_BinX]),
     (''xband32'', ''XBand32'', [T_BinX]),
     (''xband32_s8'', ''Xband32S8'', [T_XReg, T_XReg, T_i8]),
     (''xband32_s32'', ''Xband32S32'', [T_XReg, T_XReg, T_i32]),
     (''xband64'', ''XBand64'', [T_BinX]),
     (''xband64_s8'', ''Xband64S8'', [T_XReg, T_XReg, T_i8]),
     (''xband64_s32'', ''Xband64S32'', [T_XReg, T_XReg, T_i32]),
     (''xbor32'', ''XBor32'', [T_BinX]),
     (''xbor32_s8'', ''Xbor32S8'', [T_XReg, T_XReg, T_i8]),
     (''xbor32_s32'', ''Xbor32S32'', [T_XReg, T_XReg, T_i32]),
     (''xbor64'', ''XBor64'', [T_BinX]),
     (''xbor64_s8'', ''Xbor64S8'', [T_XReg, T_XReg, T_i8]),
     (''xbor64_s32'', ''Xbor64S32'', [T_XReg, T_XReg, T_i32]),
     (''xbxor32'', ''XBxor32'', [T_BinX]),
     (''xbxor32_s8'', ''Xbxor32S8'', [T_XReg, T_XReg, T_i8]),
     (''xbxor32_s32'', ''Xbxor32S32'', [T_XReg, T_XReg, T_i32]),
     (''xbxor64'', ''XBxor64'', [T_BinX]),
     (''xbxor64_s8'', ''Xbxor64S8'', [T_XReg, T_XReg, T_i8]),
     (''xbxor64_s32'', ''Xbxor64S32'', [T_XReg, T_XReg, T_i32]),
     (''xbnot32'', ''XBnot32'', [T_XReg, T_XReg]),
     (''xbnot64'', ''XBnot64'', [T_XReg, T_XReg]),
     (''xmin32_u'', ''Xmin32U'', [T_BinX]),
     (''xmin32_s'', ''Xmin32S'', [T_BinX]),
     (''xmax32_u'', ''Xmax32U'', [T_BinX]),
     (''xmax32_s'', ''Xmax32S'', [T_BinX]),
     (''xmin64_u'', ''Xmin64U'', [T_BinX]),
     (''xmin64_s'', ''Xmin64S'', [T_BinX]),
     (''xmax64_u'', ''Xmax64U'', [T_BinX]),
     (''xmax64_s'', ''Xmax64S'', [T_BinX]),
     (''xselect32'', ''XSelect32'', [T_XReg, T_XReg, T_XReg, T_XReg]),
     (''xselect64'', ''XSelect64'', [T_XReg, T_XReg, T_XReg, T_XReg])]"

definition ext_misc :: "op_spec list" where
  "ext_misc = [
     (''trap'', ''Trap'', []),
     (''call_indirect_host'', ''CallIndirectHost'', [T_u8]),
     (''xpcadd'', ''Xpcadd'', [T_XReg, T_PcRelOffset]),
     (''xmov_fp'', ''XmovFp'', [T_XReg]),
     (''xmov_lr'', ''XmovLr'', [T_XReg]),
     (''bswap32'', ''Bswap32'', [T_XReg, T_XReg]),
     (''bswap64'', ''Bswap64'', [T_XReg, T_XReg]),
     (''xadd32_uoverflow_trap'', ''Xadd32UoverflowTrap'', [T_BinX]),
     (''xadd64_uoverflow_trap'', ''Xadd64UoverflowTrap'', [T_BinX]),
     (''xmulhi64_s'', ''XMulHi64S'', [T_BinX]),
     (''xmulhi64_u'', ''XMulHi64U'', [T_BinX]),
     (''xbmask32'', ''Xbmask32'', [T_XReg, T_XReg]),
     (''xbmask64'', ''Xbmask64'', [T_XReg, T_XReg])]"

definition ext_mem :: "op_spec list" where
  "ext_mem = [
     (''xload16be_u32_o32'', ''XLoad16BeU32O32'', [T_XReg, T_AddrO32]),
     (''xload16be_s32_o32'', ''XLoad16BeS32O32'', [T_XReg, T_AddrO32]),
     (''xload32be_o32'', ''XLoad32BeO32'', [T_XReg, T_AddrO32]),
     (''xload64be_o32'', ''XLoad64BeO32'', [T_XReg, T_AddrO32]),
     (''xstore16be_o32'', ''XStore16BeO32'', [T_AddrO32, T_XReg]),
     (''xstore32be_o32'', ''XStore32BeO32'', [T_AddrO32, T_XReg]),
     (''xstore64be_o32'', ''XStore64BeO32'', [T_AddrO32, T_XReg]),
     (''fload32be_o32'', ''Fload32BeO32'', [T_FReg, T_AddrO32]),
     (''fload64be_o32'', ''Fload64BeO32'', [T_FReg, T_AddrO32]),
     (''fstore32be_o32'', ''Fstore32BeO32'', [T_AddrO32, T_FReg]),
     (''fstore64be_o32'', ''Fstore64BeO32'', [T_AddrO32, T_FReg]),
     (''fload32le_o32'', ''Fload32LeO32'', [T_FReg, T_AddrO32]),
     (''fload64le_o32'', ''Fload64LeO32'', [T_FReg, T_AddrO32]),
     (''fstore32le_o32'', ''Fstore32LeO32'', [T_AddrO32, T_FReg]),
     (''fstore64le_o32'', ''Fstore64LeO32'', [T_AddrO32, T_FReg]),
     (''fload32le_z'', ''Fload32LeZ'', [T_FReg, T_AddrZ]),
     (''fload64le_z'', ''Fload64LeZ'', [T_FReg, T_AddrZ]),
     (''fstore32le_z'', ''Fstore32LeZ'', [T_AddrZ, T_FReg]),
     (''fstore64le_z'', ''Fstore64LeZ'', [T_AddrZ, T_FReg]),
     (''fload32le_g32'', ''Fload32LeG32'', [T_FReg, T_AddrG32]),
     (''fload64le_g32'', ''Fload64LeG32'', [T_FReg, T_AddrG32]),
     (''fstore32le_g32'', ''Fstore32LeG32'', [T_AddrG32, T_FReg]),
     (''fstore64le_g32'', ''Fstore64LeG32'', [T_AddrG32, T_FReg]),
     (''vload128le_o32'', ''VLoad128O32'', [T_VReg, T_AddrO32]),
     (''vstore128le_o32'', ''Vstore128LeO32'', [T_AddrO32, T_VReg]),
     (''vload128le_z'', ''VLoad128LeZ'', [T_VReg, T_AddrZ]),
     (''vstore128le_z'', ''Vstore128LeZ'', [T_AddrZ, T_VReg]),
     (''vload128le_g32'', ''VLoad128G32'', [T_VReg, T_AddrG32]),
     (''vstore128le_g32'', ''Vstore128LeG32'', [T_AddrG32, T_VReg])]"

definition ext_float_conv :: "op_spec list" where
  "ext_float_conv = [
     (''fmov'', ''Fmov'', [T_FReg, T_FReg]),
     (''vmov'', ''Vmov'', [T_VReg, T_VReg]),
     (''bitcast_int_from_float_32'', ''BitcastIntFromFloat32'', [T_XReg, T_FReg]),
     (''bitcast_int_from_float_64'', ''BitcastIntFromFloat64'', [T_XReg, T_FReg]),
     (''bitcast_float_from_int_32'', ''BitcastFloatFromInt32'', [T_FReg, T_XReg]),
     (''bitcast_float_from_int_64'', ''BitcastFloatFromInt64'', [T_FReg, T_XReg]),
     (''fconst32'', ''FConst32'', [T_FReg, T_u32]),
     (''fconst64'', ''FConst64'', [T_FReg, T_u64]),
     (''feq32'', ''Feq32'', [T_XReg, T_FReg, T_FReg]),
     (''fneq32'', ''Fneq32'', [T_XReg, T_FReg, T_FReg]),
     (''flt32'', ''Flt32'', [T_XReg, T_FReg, T_FReg]),
     (''flteq32'', ''Flteq32'', [T_XReg, T_FReg, T_FReg]),
     (''feq64'', ''Feq64'', [T_XReg, T_FReg, T_FReg]),
     (''fneq64'', ''Fneq64'', [T_XReg, T_FReg, T_FReg]),
     (''flt64'', ''Flt64'', [T_XReg, T_FReg, T_FReg]),
     (''flteq64'', ''Flteq64'', [T_XReg, T_FReg, T_FReg]),
     (''fselect32'', ''FSelect32'', [T_FReg, T_XReg, T_FReg, T_FReg]),
     (''fselect64'', ''FSelect64'', [T_FReg, T_XReg, T_FReg, T_FReg]),
     (''f32_from_f64'', ''F32FromF64'', [T_FReg, T_FReg]),
     (''f64_from_f32'', ''F64FromF32'', [T_FReg, T_FReg]),
     (''f32_from_x32_s'', ''F32FromX32S'', [T_FReg, T_XReg]),
     (''f32_from_x32_u'', ''F32FromX32U'', [T_FReg, T_XReg]),
     (''f32_from_x64_s'', ''F32FromX64S'', [T_FReg, T_XReg]),
     (''f32_from_x64_u'', ''F32FromX64U'', [T_FReg, T_XReg]),
     (''f64_from_x32_s'', ''F64FromX32S'', [T_FReg, T_XReg]),
     (''f64_from_x32_u'', ''F64FromX32U'', [T_FReg, T_XReg]),
     (''f64_from_x64_s'', ''F64FromX64S'', [T_FReg, T_XReg]),
     (''f64_from_x64_u'', ''F64FromX64U'', [T_FReg, T_XReg]),
     (''x32_from_f32_s'', ''X32FromF32S'', [T_XReg, T_FReg]),
     (''x32_from_f32_u'', ''X32FromF32U'', [T_XReg, T_FReg]),
     (''x32_from_f64_s'', ''X32FromF64S'', [T_XReg, T_FReg]),
     (''x32_from_f64_u'', ''X32FromF64U'', [T_XReg, T_FReg]),
     (''x64_from_f32_s'', ''X64FromF32S'', [T_XReg, T_FReg]),
     (''x64_from_f32_u'', ''X64FromF32U'', [T_XReg, T_FReg]),
     (''x64_from_f64_s'', ''X64FromF64S'', [T_XReg, T_FReg]),
     (''x64_from_f64_u'', ''X64FromF64U'', [T_XReg, T_FReg]),
     (''x32_from_f32_s_sat'', ''X32FromF32SSat'', [T_XReg, T_FReg]),
     (''x32_from_f32_u_sat'', ''X32FromF32USat'', [T_XReg, T_FReg]),
     (''x32_from_f64_s_sat'', ''X32FromF64SSat'', [T_XReg, T_FReg]),
     (''x32_from_f64_u_sat'', ''X32FromF64USat'', [T_XReg, T_FReg]),
     (''x64_from_f32_s_sat'', ''X64FromF32SSat'', [T_XReg, T_FReg]),
     (''x64_from_f32_u_sat'', ''X64FromF32USat'', [T_XReg, T_FReg]),
     (''x64_from_f64_s_sat'', ''X64FromF64SSat'', [T_XReg, T_FReg]),
     (''x64_from_f64_u_sat'', ''X64FromF64USat'', [T_XReg, T_FReg])]"

definition ext_float_arith :: "op_spec list" where
  "ext_float_arith = [
     (''fcopysign32'', ''FCopySign32'', [T_BinF]),
     (''fcopysign64'', ''FCopySign64'', [T_BinF]),
     (''fadd32'', ''Fadd32'', [T_BinF]),
     (''fsub32'', ''Fsub32'', [T_BinF]),
     (''vsubf32x4'', ''Vsubf32x4'', [T_BinV]),
     (''fmul32'', ''Fmul32'', [T_BinF]),
     (''vmulf32x4'', ''Vmulf32x4'', [T_BinV]),
     (''fdiv32'', ''Fdiv32'', [T_BinF]),
     (''vdivf32x4'', ''Vdivf32x4'', [T_BinV]),
     (''fmaximum32'', ''Fmaximum32'', [T_BinF]),
     (''fminimum32'', ''Fminimum32'', [T_BinF]),
     (''ftrunc32'', ''Ftrunc32'', [T_FReg, T_FReg]),
     (''vtrunc32x4'', ''Vtrunc32x4'', [T_VReg, T_VReg]),
     (''vtrunc64x2'', ''Vtrunc64x2'', [T_VReg, T_VReg]),
     (''ffloor32'', ''Ffloor32'', [T_FReg, T_FReg]),
     (''vfloor32x4'', ''Vfloor32x4'', [T_VReg, T_VReg]),
     (''vfloor64x2'', ''Vfloor64x2'', [T_VReg, T_VReg]),
     (''fceil32'', ''Fceil32'', [T_FReg, T_FReg]),
     (''vceil32x4'', ''Vceil32x4'', [T_VReg, T_VReg]),
     (''vceil64x2'', ''Vceil64x2'', [T_VReg, T_VReg]),
     (''fnearest32'', ''Fnearest32'', [T_FReg, T_FReg]),
     (''fsqrt32'', ''Fsqrt32'', [T_FReg, T_FReg]),
     (''vsqrt32x4'', ''Vsqrt32x4'', [T_VReg, T_VReg]),
     (''vsqrt64x2'', ''Vsqrt64x2'', [T_VReg, T_VReg]),
     (''fneg32'', ''Fneg32'', [T_FReg, T_FReg]),
     (''vnegf32x4'', ''Vnegf32x4'', [T_VReg, T_VReg]),
     (''fabs32'', ''Fabs32'', [T_FReg, T_FReg]),
     (''fadd64'', ''Fadd64'', [T_BinF]),
     (''fsub64'', ''Fsub64'', [T_BinF]),
     (''fmul64'', ''Fmul64'', [T_BinF]),
     (''fdiv64'', ''Fdiv64'', [T_BinF]),
     (''vdivf64x2'', ''VDivF64x2'', [T_BinV]),
     (''fmaximum64'', ''Fmaximum64'', [T_BinF]),
     (''fminimum64'', ''Fminimum64'', [T_BinF]),
     (''ftrunc64'', ''Ftrunc64'', [T_FReg, T_FReg]),
     (''ffloor64'', ''Ffloor64'', [T_FReg, T_FReg]),
     (''fceil64'', ''Fceil64'', [T_FReg, T_FReg]),
     (''fnearest64'', ''Fnearest64'', [T_FReg, T_FReg]),
     (''vnearest32x4'', ''Vnearest32x4'', [T_VReg, T_VReg]),
     (''vnearest64x2'', ''Vnearest64x2'', [T_VReg, T_VReg]),
     (''fsqrt64'', ''Fsqrt64'', [T_FReg, T_FReg]),
     (''fneg64'', ''Fneg64'', [T_FReg, T_FReg]),
     (''fabs64'', ''Fabs64'', [T_FReg, T_FReg])]"

definition ext_vec_arith :: "op_spec list" where
  "ext_vec_arith = [
     (''vconst128'', ''Vconst128'', [T_VReg, T_u128]),
     (''vaddi8x16'', ''VAddI8x16'', [T_BinV]),
     (''vaddi16x8'', ''VAddI16x8'', [T_BinV]),
     (''vaddi32x4'', ''VAddI32x4'', [T_BinV]),
     (''vaddi64x2'', ''VAddI64x2'', [T_BinV]),
     (''vaddf32x4'', ''VAddF32x4'', [T_BinV]),
     (''vaddf64x2'', ''VAddF64x2'', [T_BinV]),
     (''vaddi8x16_sat'', ''VAddI8x16Sat'', [T_BinV]),
     (''vaddu8x16_sat'', ''VAddU8x16Sat'', [T_BinV]),
     (''vaddi16x8_sat'', ''VAddI16x8Sat'', [T_BinV]),
     (''vaddu16x8_sat'', ''VAddU16x8Sat'', [T_BinV]),
     (''vaddpairwisei16x8_s'', ''VAddpairwiseI16x8S'', [T_BinV]),
     (''vaddpairwisei32x4_s'', ''VAddpairwiseI32x4S'', [T_BinV]),
     (''vshli8x16'', ''VShlI8x16'', [T_BinVVX]),
     (''vshli16x8'', ''VShlI16x8'', [T_BinVVX]),
     (''vshli32x4'', ''VShlI32x4'', [T_BinVVX]),
     (''vshli64x2'', ''VShlI64x2'', [T_BinVVX]),
     (''vshri8x16_s'', ''VShrI8x16S'', [T_BinVVX]),
     (''vshri16x8_s'', ''VShrI16x8S'', [T_BinVVX]),
     (''vshri32x4_s'', ''VShrI32x4S'', [T_BinVVX]),
     (''vshri64x2_s'', ''VShrI64x2S'', [T_BinVVX]),
     (''vshri8x16_u'', ''VShrI8x16U'', [T_BinVVX]),
     (''vshri16x8_u'', ''VShrI16x8U'', [T_BinVVX]),
     (''vshri32x4_u'', ''VShrI32x4U'', [T_BinVVX]),
     (''vshri64x2_u'', ''VShrI64x2U'', [T_BinVVX]),
     (''vsplatx8'', ''VSplatX8'', [T_VReg, T_XReg]),
     (''vsplatx16'', ''VSplatX16'', [T_VReg, T_XReg]),
     (''vsplatx32'', ''VSplatX32'', [T_VReg, T_XReg]),
     (''vsplatx64'', ''VSplatX64'', [T_VReg, T_XReg]),
     (''vsplatf32'', ''VSplatF32'', [T_VReg, T_FReg]),
     (''vsplatf64'', ''VSplatF64'', [T_VReg, T_FReg]),
     (''vload8x8_s_z'', ''VLoad8x8SZ'', [T_VReg, T_AddrZ]),
     (''vload8x8_u_z'', ''VLoad8x8UZ'', [T_VReg, T_AddrZ]),
     (''vload16x4le_s_z'', ''VLoad16x4LeSZ'', [T_VReg, T_AddrZ]),
     (''vload16x4le_u_z'', ''VLoad16x4LeUZ'', [T_VReg, T_AddrZ]),
     (''vload32x2le_s_z'', ''VLoad32x2LeSZ'', [T_VReg, T_AddrZ]),
     (''vload32x2le_u_z'', ''VLoad32x2LeUZ'', [T_VReg, T_AddrZ]),
     (''vband128'', ''VBand128'', [T_BinV]),
     (''vbor128'', ''VBor128'', [T_BinV]),
     (''vbxor128'', ''VBxor128'', [T_BinV]),
     (''vbnot128'', ''VBnot128'', [T_VReg, T_VReg]),
     (''vbitselect128'', ''VBitselect128'', [T_VReg, T_VReg, T_VReg, T_VReg]),
     (''vbitmask8x16'', ''Vbitmask8x16'', [T_XReg, T_VReg]),
     (''vbitmask16x8'', ''Vbitmask16x8'', [T_XReg, T_VReg]),
     (''vbitmask32x4'', ''Vbitmask32x4'', [T_XReg, T_VReg]),
     (''vbitmask64x2'', ''Vbitmask64x2'', [T_XReg, T_VReg]),
     (''valltrue8x16'', ''Valltrue8x16'', [T_XReg, T_VReg]),
     (''valltrue16x8'', ''Valltrue16x8'', [T_XReg, T_VReg]),
     (''valltrue32x4'', ''Valltrue32x4'', [T_XReg, T_VReg]),
     (''valltrue64x2'', ''Valltrue64x2'', [T_XReg, T_VReg]),
     (''vanytrue8x16'', ''Vanytrue8x16'', [T_XReg, T_VReg]),
     (''vanytrue16x8'', ''Vanytrue16x8'', [T_XReg, T_VReg]),
     (''vanytrue32x4'', ''Vanytrue32x4'', [T_XReg, T_VReg]),
     (''vanytrue64x2'', ''Vanytrue64x2'', [T_XReg, T_VReg])]"

definition ext_vec_conv :: "op_spec list" where
  "ext_vec_conv = [
     (''vf32x4_from_i32x4_s'', ''VF32x4FromI32x4S'', [T_VReg, T_VReg]),
     (''vf32x4_from_i32x4_u'', ''VF32x4FromI32x4U'', [T_VReg, T_VReg]),
     (''vf64x2_from_i64x2_s'', ''VF64x2FromI64x2S'', [T_VReg, T_VReg]),
     (''vf64x2_from_i64x2_u'', ''VF64x2FromI64x2U'', [T_VReg, T_VReg]),
     (''vi32x4_from_f32x4_s'', ''VI32x4FromF32x4S'', [T_VReg, T_VReg]),
     (''vi32x4_from_f32x4_u'', ''VI32x4FromF32x4U'', [T_VReg, T_VReg]),
     (''vi64x2_from_f64x2_s'', ''VI64x2FromF64x2S'', [T_VReg, T_VReg]),
     (''vi64x2_from_f64x2_u'', ''VI64x2FromF64x2U'', [T_VReg, T_VReg]),
     (''vwidenlow8x16_s'', ''VWidenLow8x16S'', [T_VReg, T_VReg]),
     (''vwidenlow8x16_u'', ''VWidenLow8x16U'', [T_VReg, T_VReg]),
     (''vwidenlow16x8_s'', ''VWidenLow16x8S'', [T_VReg, T_VReg]),
     (''vwidenlow16x8_u'', ''VWidenLow16x8U'', [T_VReg, T_VReg]),
     (''vwidenlow32x4_s'', ''VWidenLow32x4S'', [T_VReg, T_VReg]),
     (''vwidenlow32x4_u'', ''VWidenLow32x4U'', [T_VReg, T_VReg]),
     (''vwidenhigh8x16_s'', ''VWidenHigh8x16S'', [T_VReg, T_VReg]),
     (''vwidenhigh8x16_u'', ''VWidenHigh8x16U'', [T_VReg, T_VReg]),
     (''vwidenhigh16x8_s'', ''VWidenHigh16x8S'', [T_VReg, T_VReg]),
     (''vwidenhigh16x8_u'', ''VWidenHigh16x8U'', [T_VReg, T_VReg]),
     (''vwidenhigh32x4_s'', ''VWidenHigh32x4S'', [T_VReg, T_VReg]),
     (''vwidenhigh32x4_u'', ''VWidenHigh32x4U'', [T_VReg, T_VReg]),
     (''vnarrow16x8_s'', ''Vnarrow16x8S'', [T_BinV]),
     (''vnarrow16x8_u'', ''Vnarrow16x8U'', [T_BinV]),
     (''vnarrow32x4_s'', ''Vnarrow32x4S'', [T_BinV]),
     (''vnarrow32x4_u'', ''Vnarrow32x4U'', [T_BinV]),
     (''vnarrow64x2_s'', ''Vnarrow64x2S'', [T_BinV]),
     (''vnarrow64x2_u'', ''Vnarrow64x2U'', [T_BinV]),
     (''vunarrow64x2_u'', ''Vunarrow64x2U'', [T_BinV]),
     (''vfpromotelow'', ''VFpromoteLow'', [T_VReg, T_VReg]),
     (''vfdemote'', ''VFdemote'', [T_VReg, T_VReg]),
     (''vsubi8x16'', ''VSubI8x16'', [T_BinV]),
     (''vsubi16x8'', ''VSubI16x8'', [T_BinV]),
     (''vsubi32x4'', ''VSubI32x4'', [T_BinV]),
     (''vsubi64x2'', ''VSubI64x2'', [T_BinV]),
     (''vsubf64x2'', ''VSubF64x2'', [T_BinV]),
     (''vsubi8x16_sat'', ''VSubI8x16Sat'', [T_BinV]),
     (''vsubu8x16_sat'', ''VSubU8x16Sat'', [T_BinV]),
     (''vsubi16x8_sat'', ''VSubI16x8Sat'', [T_BinV]),
     (''vsubu16x8_sat'', ''VSubU16x8Sat'', [T_BinV]),
     (''vmuli8x16'', ''VMulI8x16'', [T_BinV]),
     (''vmuli16x8'', ''VMulI16x8'', [T_BinV]),
     (''vmuli32x4'', ''VMulI32x4'', [T_BinV]),
     (''vmuli64x2'', ''VMulI64x2'', [T_BinV]),
     (''vmulf64x2'', ''VMulF64x2'', [T_BinV]),
     (''vqmulrsi16x8'', ''VQmulrsI16x8'', [T_BinV]),
     (''vpopcnt8x16'', ''VPopcnt8x16'', [T_VReg, T_VReg]),
     (''xextractv8x16'', ''XExtractV8x16'', [T_XReg, T_VReg, T_u8]),
     (''xextractv16x8'', ''XExtractV16x8'', [T_XReg, T_VReg, T_u8]),
     (''xextractv32x4'', ''XExtractV32x4'', [T_XReg, T_VReg, T_u8]),
     (''xextractv64x2'', ''XExtractV64x2'', [T_XReg, T_VReg, T_u8]),
     (''fextractv32x4'', ''FExtractV32x4'', [T_FReg, T_VReg, T_u8]),
     (''fextractv64x2'', ''FExtractV64x2'', [T_FReg, T_VReg, T_u8]),
     (''vinsertx8'', ''VInsertX8'', [T_BinVVX, T_u8]),
     (''vinsertx16'', ''VInsertX16'', [T_BinVVX, T_u8]),
     (''vinsertx32'', ''VInsertX32'', [T_BinVVX, T_u8]),
     (''vinsertx64'', ''VInsertX64'', [T_BinVVX, T_u8]),
     (''vinsertf32'', ''VInsertF32'', [T_BinVVF, T_u8]),
     (''vinsertf64'', ''VInsertF64'', [T_BinVVF, T_u8])]"

definition ext_vec_cmp :: "op_spec list" where
  "ext_vec_cmp = [
     (''veq8x16'', ''Veq8x16'', [T_BinV]),
     (''vneq8x16'', ''Vneq8x16'', [T_BinV]),
     (''vslt8x16'', ''Vslt8x16'', [T_BinV]),
     (''vslteq8x16'', ''Vslteq8x16'', [T_BinV]),
     (''vult8x16'', ''Vult8x16'', [T_BinV]),
     (''vulteq8x16'', ''Vulteq8x16'', [T_BinV]),
     (''veq16x8'', ''Veq16x8'', [T_BinV]),
     (''vneq16x8'', ''Vneq16x8'', [T_BinV]),
     (''vslt16x8'', ''Vslt16x8'', [T_BinV]),
     (''vslteq16x8'', ''Vslteq16x8'', [T_BinV]),
     (''vult16x8'', ''Vult16x8'', [T_BinV]),
     (''vulteq16x8'', ''Vulteq16x8'', [T_BinV]),
     (''veq32x4'', ''Veq32x4'', [T_BinV]),
     (''vneq32x4'', ''Vneq32x4'', [T_BinV]),
     (''vslt32x4'', ''Vslt32x4'', [T_BinV]),
     (''vslteq32x4'', ''Vslteq32x4'', [T_BinV]),
     (''vult32x4'', ''Vult32x4'', [T_BinV]),
     (''vulteq32x4'', ''Vulteq32x4'', [T_BinV]),
     (''veq64x2'', ''Veq64x2'', [T_BinV]),
     (''vneq64x2'', ''Vneq64x2'', [T_BinV]),
     (''vslt64x2'', ''Vslt64x2'', [T_BinV]),
     (''vslteq64x2'', ''Vslteq64x2'', [T_BinV]),
     (''vult64x2'', ''Vult64x2'', [T_BinV]),
     (''vulteq64x2'', ''Vulteq64x2'', [T_BinV]),
     (''vneg8x16'', ''Vneg8x16'', [T_VReg, T_VReg]),
     (''vneg16x8'', ''Vneg16x8'', [T_VReg, T_VReg]),
     (''vneg32x4'', ''Vneg32x4'', [T_VReg, T_VReg]),
     (''vneg64x2'', ''Vneg64x2'', [T_VReg, T_VReg]),
     (''vnegf64x2'', ''VnegF64x2'', [T_VReg, T_VReg]),
     (''vmin8x16_s'', ''Vmin8x16S'', [T_BinV]),
     (''vmin8x16_u'', ''Vmin8x16U'', [T_BinV]),
     (''vmin16x8_s'', ''Vmin16x8S'', [T_BinV]),
     (''vmin16x8_u'', ''Vmin16x8U'', [T_BinV]),
     (''vmax8x16_s'', ''Vmax8x16S'', [T_BinV]),
     (''vmax8x16_u'', ''Vmax8x16U'', [T_BinV]),
     (''vmax16x8_s'', ''Vmax16x8S'', [T_BinV]),
     (''vmax16x8_u'', ''Vmax16x8U'', [T_BinV]),
     (''vmin32x4_s'', ''Vmin32x4S'', [T_BinV]),
     (''vmin32x4_u'', ''Vmin32x4U'', [T_BinV]),
     (''vmax32x4_s'', ''Vmax32x4S'', [T_BinV]),
     (''vmax32x4_u'', ''Vmax32x4U'', [T_BinV]),
     (''vabs8x16'', ''Vabs8x16'', [T_VReg, T_VReg]),
     (''vabs16x8'', ''Vabs16x8'', [T_VReg, T_VReg]),
     (''vabs32x4'', ''Vabs32x4'', [T_VReg, T_VReg]),
     (''vabs64x2'', ''Vabs64x2'', [T_VReg, T_VReg]),
     (''vabsf32x4'', ''Vabsf32x4'', [T_VReg, T_VReg]),
     (''vabsf64x2'', ''Vabsf64x2'', [T_VReg, T_VReg]),
     (''vmaximumf32x4'', ''Vmaximumf32x4'', [T_BinV]),
     (''vmaximumf64x2'', ''Vmaximumf64x2'', [T_BinV]),
     (''vminimumf32x4'', ''Vminimumf32x4'', [T_BinV]),
     (''vminimumf64x2'', ''Vminimumf64x2'', [T_BinV]),
     (''vshuffle'', ''VShuffle'', [T_VReg, T_VReg, T_VReg, T_u128]),
     (''vswizzlei8x16'', ''Vswizzlei8x16'', [T_BinV]),
     (''vavground8x16'', ''Vavground8x16'', [T_BinV]),
     (''vavground16x8'', ''Vavground16x8'', [T_BinV]),
     (''veqf32x4'', ''VeqF32x4'', [T_BinV]),
     (''vneqf32x4'', ''VneqF32x4'', [T_BinV]),
     (''vltf32x4'', ''VltF32x4'', [T_BinV]),
     (''vlteqf32x4'', ''VlteqF32x4'', [T_BinV]),
     (''veqf64x2'', ''VeqF64x2'', [T_BinV]),
     (''vneqf64x2'', ''VneqF64x2'', [T_BinV]),
     (''vltf64x2'', ''VltF64x2'', [T_BinV]),
     (''vlteqf64x2'', ''VlteqF64x2'', [T_BinV]),
     (''vfma32x4'', ''Vfma32x4'', [T_VReg, T_VReg, T_VReg, T_VReg]),
     (''vfma64x2'', ''Vfma64x2'', [T_VReg, T_VReg, T_VReg, T_VReg]),
     (''vselect'', ''Vselect'', [T_VReg, T_XReg, T_VReg, T_VReg])]"

definition ext_wide :: "op_spec list" where
  "ext_wide = [
     (''xadd128'', ''Xadd128'', [T_XReg, T_XReg, T_XReg, T_XReg, T_XReg, T_XReg]),
     (''xsub128'', ''Xsub128'', [T_XReg, T_XReg, T_XReg, T_XReg, T_XReg, T_XReg]),
     (''xwidemul64_s'', ''Xwidemul64S'', [T_XReg, T_XReg, T_XReg, T_XReg]),
     (''xwidemul64_u'', ''Xwidemul64U'', [T_XReg, T_XReg, T_XReg, T_XReg]),
     (''xload16be_u32_z'', ''XLoad16BeU32Z'', [T_XReg, T_AddrZ]),
     (''xload16be_s32_z'', ''XLoad16BeS32Z'', [T_XReg, T_AddrZ]),
     (''xload32be_z'', ''XLoad32BeZ'', [T_XReg, T_AddrZ]),
     (''xload64be_z'', ''XLoad64BeZ'', [T_XReg, T_AddrZ]),
     (''xstore16be_z'', ''XStore16BeZ'', [T_AddrZ, T_XReg]),
     (''xstore32be_z'', ''XStore32BeZ'', [T_AddrZ, T_XReg]),
     (''xstore64be_z'', ''XStore64BeZ'', [T_AddrZ, T_XReg]),
     (''fload32be_z'', ''Fload32BeZ'', [T_FReg, T_AddrZ]),
     (''fload64be_z'', ''Fload64BeZ'', [T_FReg, T_AddrZ]),
     (''fstore32be_z'', ''Fstore32BeZ'', [T_AddrZ, T_FReg]),
     (''fstore64be_z'', ''Fstore64BeZ'', [T_AddrZ, T_FReg]),
     (''vload128be_z'', ''VLoad128BeZ'', [T_VReg, T_AddrZ]),
     (''vstore128be_z'', ''Vstore128BeZ'', [T_AddrZ, T_VReg])]"

definition for_each_op :: "op_spec list" where
  "for_each_op = ops_control @ ops_br_imm @ ops_x_arith @ ops_x_bits @ ops_x_mem @ ops_frame_logic"

definition for_each_extended_op :: "op_spec list" where
  "for_each_extended_op = ext_misc @ ext_mem @ ext_float_conv @ ext_float_arith @ 
     ext_vec_arith @ ext_vec_conv @ ext_vec_cmp @ ext_wide"

lemmas op_chunks = ops_control_def ops_br_imm_def ops_x_arith_def ops_x_bits_def ops_x_mem_def ops_frame_logic_def
lemmas extended_op_chunks = ext_misc_def ext_mem_def ext_float_conv_def ext_float_arith_def ext_vec_arith_def ext_vec_conv_def ext_vec_cmp_def ext_wide_def

section \<open>Opcodes\<close>

text \<open>\<open>enum Opcode\<close>: one variant per entry in the order of the list, then
  \<open>ExtendedOp\<close>.\<close>

definition Opcode_variants :: "string list" where
  "Opcode_variants = map camel_name for_each_op @ [''ExtendedOp'']"

definition ExtendedOpcode_variants :: "string list" where
  "ExtendedOpcode_variants = map camel_name for_each_extended_op"

fun index_of :: "'a \<Rightarrow> 'a list \<Rightarrow> nat" where
  "index_of x [] = 0"
| "index_of x (y # ys) = (if x = y then 0 else Suc (index_of x ys))"

text \<open>\<open>Opcode::name as u8\<close>, \<open>ExtendedOpcode::name as u16\<close>.\<close>

definition Opcode_as_u8 :: "string \<Rightarrow> u8" where
  "Opcode_as_u8 name = of_nat (index_of name Opcode_variants)"

definition ExtendedOpcode_as_u16 :: "string \<Rightarrow> u16" where
  "ExtendedOpcode_as_u16 name = of_nat (index_of name ExtendedOpcode_variants)"

definition Opcode_MAX :: u8 where
  "Opcode_MAX = Opcode_as_u8 ''ExtendedOp''"

definition ExtendedOpcode_MAX :: u16 where
  "ExtendedOpcode_MAX = of_nat (length for_each_extended_op) + 0 - 1"

definition Opcode_new :: "u8 \<Rightarrow> string option" where
  "Opcode_new byte = (if byte \<le> Opcode_MAX then Some (Opcode_variants ! unat byte) else None)"

definition ExtendedOpcode_new :: "u16 \<Rightarrow> string option" where
  "ExtendedOpcode_new bytes =
     (if bytes \<le> ExtendedOpcode_MAX then Some (ExtendedOpcode_variants ! unat bytes) else None)"

section \<open>Materialised instructions\<close>

text \<open>\<open>enum Op\<close> and \<open>enum ExtendedOp\<close>: the variant, by its name, with its fields.
  Such a value is one of the Rust type when the list has an entry of that name whose
  operand types are those of the fields.\<close>

datatype Op = Op string "operand list" | ExtendedOp string "operand list"

definition lookup_op :: "op_spec list \<Rightarrow> string \<Rightarrow> field_ty list option" where
  "lookup_op tbl name = map_of (map snd tbl) name"

definition wf_args :: "field_ty list \<Rightarrow> operand list \<Rightarrow> bool" where
  "wf_args tys args \<longleftrightarrow> map ty_of args = tys \<and> list_all wf_operand args"

fun wf_Op :: "Op \<Rightarrow> bool" where
  "wf_Op (Op name args) =
     (case lookup_op for_each_op name of Some tys \<Rightarrow> wf_args tys args | None \<Rightarrow> False)"
| "wf_Op (ExtendedOp name args) =
     (case lookup_op for_each_extended_op name of Some tys \<Rightarrow> wf_args tys args | None \<Rightarrow> False)"

section \<open>Opcode numbers\<close>

lemma index_of_less_iff: "index_of x xs < length xs \<longleftrightarrow> x \<in> set xs"
  by (induction xs) auto

lemma nth_index_of: "x \<in> set xs \<Longrightarrow> xs ! index_of x xs = x"
  by (induction xs) auto

lemma index_of_nth: "distinct xs \<Longrightarrow> i < length xs \<Longrightarrow> index_of (xs ! i) xs = i"
  by (induction xs arbitrary: i) (auto simp: nth_Cons' split: if_splits)

lemma length_for_each_op: "length for_each_op = 220"
  by (simp add: for_each_op_def op_chunks)

lemma length_for_each_extended_op: "length for_each_extended_op = 323"
  by (simp add: for_each_extended_op_def extended_op_chunks)

lemma length_Opcode_variants: "length Opcode_variants = 221"
  by (simp add: Opcode_variants_def length_for_each_op)

lemma length_ExtendedOpcode_variants: "length ExtendedOpcode_variants = 323"
  by (simp add: ExtendedOpcode_variants_def length_for_each_extended_op)

lemma Opcode_variants_mem: "n \<in> set (map camel_name for_each_op) \<Longrightarrow> n \<in> set Opcode_variants"
  by (simp add: Opcode_variants_def)

lemma index_of_append: "index_of x (xs @ ys) = (if x \<in> set xs then index_of x xs else length xs + index_of x ys)"
  by (induction xs) auto

lemma lookup_op_Some: "lookup_op tbl name = Some tys \<Longrightarrow> \<exists>sn. (sn, name, tys) \<in> set tbl"
  unfolding lookup_op_def by (drule map_of_SomeD) auto

lemma lookup_op_name: "lookup_op tbl name = Some tys \<Longrightarrow> name \<in> set (map camel_name tbl)"
  by (force dest: lookup_op_Some)

lemma lookup_op_complete: "name \<in> set (map camel_name tbl) \<Longrightarrow> \<exists>tys. lookup_op tbl name = Some tys"
  unfolding lookup_op_def by (cases "map_of (map snd tbl) name") (force simp: map_of_eq_None_iff)+

lemma ExtendedOp_not_base: "''ExtendedOp'' \<notin> set (map camel_name for_each_op)"
  by (simp add: for_each_op_def op_chunks)

lemma Opcode_MAX_eq: "Opcode_MAX = 220"
  using ExtendedOp_not_base
  by (simp add: Opcode_MAX_def Opcode_as_u8_def Opcode_variants_def index_of_append length_for_each_op)

lemma ExtendedOpcode_MAX_eq: "ExtendedOpcode_MAX = 322"
  by (simp add: ExtendedOpcode_MAX_def length_for_each_extended_op)

lemma unat_Opcode_as_u8:
  assumes "name \<in> set Opcode_variants"
  shows "unat (Opcode_as_u8 name) = index_of name Opcode_variants" and "Opcode_as_u8 name \<le> 220"
proof -
  have "index_of name Opcode_variants < 221"
    using assms by (metis index_of_less_iff length_Opcode_variants)
  then show "unat (Opcode_as_u8 name) = index_of name Opcode_variants" "Opcode_as_u8 name \<le> 220"
    by (simp_all add: Opcode_as_u8_def unat_of_nat take_bit_nat_eq_self word_le_nat_alt)
qed

lemma unat_ExtendedOpcode_as_u16:
  assumes "name \<in> set ExtendedOpcode_variants"
  shows "unat (ExtendedOpcode_as_u16 name) = index_of name ExtendedOpcode_variants"
    and "ExtendedOpcode_as_u16 name \<le> 322"
proof -
  have "index_of name ExtendedOpcode_variants < 323"
    using assms by (metis index_of_less_iff length_ExtendedOpcode_variants)
  then show "unat (ExtendedOpcode_as_u16 name) = index_of name ExtendedOpcode_variants"
      "ExtendedOpcode_as_u16 name \<le> 322"
    by (simp_all add: ExtendedOpcode_as_u16_def unat_of_nat take_bit_nat_eq_self word_le_nat_alt)
qed

lemma Opcode_new_as_u8:
  "name \<in> set Opcode_variants \<Longrightarrow> Opcode_new (Opcode_as_u8 name) = Some name"
  by (simp add: Opcode_new_def Opcode_MAX_eq unat_Opcode_as_u8 nth_index_of)

lemma ExtendedOpcode_new_as_u16:
  "name \<in> set ExtendedOpcode_variants \<Longrightarrow>
     ExtendedOpcode_new (ExtendedOpcode_as_u16 name) = Some name"
  by (simp add: ExtendedOpcode_new_def ExtendedOpcode_MAX_eq unat_ExtendedOpcode_as_u16 nth_index_of)

lemma Opcode_new_mem: "Opcode_new b = Some name \<Longrightarrow> name \<in> set Opcode_variants"
proof -
  assume "Opcode_new b = Some name"
  then have "b \<le> 220" "name = Opcode_variants ! unat b"
    by (auto simp: Opcode_new_def Opcode_MAX_eq split: if_splits)
  then show ?thesis
    by (auto simp: word_le_nat_alt length_Opcode_variants intro!: nth_mem)
qed

lemma ExtendedOpcode_new_mem:
  "ExtendedOpcode_new b = Some name \<Longrightarrow> name \<in> set ExtendedOpcode_variants"
proof -
  assume "ExtendedOpcode_new b = Some name"
  then have "b \<le> 322" "name = ExtendedOpcode_variants ! unat b"
    by (auto simp: ExtendedOpcode_new_def ExtendedOpcode_MAX_eq split: if_splits)
  then show ?thesis
    by (auto simp: word_le_nat_alt length_ExtendedOpcode_variants intro!: nth_mem)
qed

section \<open>Properties\<close>

text \<open>The opcode bytes 0 to 220 are exactly the valid ones and the extended opcode words 0
  to 322 are exactly the valid ones, 220 being the escape to the extended table; converting
  the number of an opcode back with the checked constructor gives the opcode, for every
  instruction of the two tables.\<close>

theorem opcode_numbering:
  "(Opcode_new b = None \<longleftrightarrow> b > 220) \<and> (ExtendedOpcode_new w = None \<longleftrightarrow> w > 322) \<and>
   Opcode_new 220 = Some ''ExtendedOp'' \<and>
   list_all (\<lambda>name. Opcode_new (Opcode_as_u8 name) = Some name) (map camel_name for_each_op) \<and>
   list_all (\<lambda>name. ExtendedOpcode_new (ExtendedOpcode_as_u16 name) = Some name)
     (map camel_name for_each_extended_op)"
proof -
  have "Opcode_new 220 = Some ''ExtendedOp''"
    by (simp add: Opcode_new_def Opcode_MAX_eq Opcode_variants_def nth_append length_for_each_op)
  moreover have "list_all (\<lambda>name. Opcode_new (Opcode_as_u8 name) = Some name) (map camel_name for_each_op)"
    unfolding list_all_iff using Opcode_new_as_u8 [OF Opcode_variants_mem] by blast
  moreover have "list_all (\<lambda>name. ExtendedOpcode_new (ExtendedOpcode_as_u16 name) = Some name)
      (map camel_name for_each_extended_op)"
    unfolding list_all_iff ExtendedOpcode_variants_def [symmetric]
    using ExtendedOpcode_new_as_u16 by blast
  moreover have "Opcode_new b = None \<longleftrightarrow> b > 220" "ExtendedOpcode_new w = None \<longleftrightarrow> w > 322"
    by (auto simp: Opcode_new_def ExtendedOpcode_new_def Opcode_MAX_eq ExtendedOpcode_MAX_eq not_le)
  ultimately show ?thesis by blast
qed

end
