(* ===== verification/Pulley_Encode.thy ===== *)
theory Pulley_Encode
  imports Pulley_ISA
begin

text \<open>
  \<open>pulley/src/encode.rs\<close> and the \<open>encode\<close>/\<open>width\<close> methods of \<open>pulley/src/op.rs\<close>.
  A sink (\<open>Extend<u8>\<close>) is the list of the bytes written to it so far. The constant
  \<open>WIDTH\<close> of the trait \<open>Encode\<close> is a function of the operand type and an 8-bit word
  as in the source. The macro-generated encoders are \<open>encode_op_fn\<close> and
  \<open>encode_extended_op_fn\<close>.
\<close>

section \<open>Operands\<close>

definition encode_u8 :: "u8 \<Rightarrow> u8 list \<Rightarrow> u8 list" where
  "encode_u8 self sink = sink @ [self]"

definition encode_u16 :: "u16 \<Rightarrow> u8 list \<Rightarrow> u8 list" where
  "encode_u16 self sink = sink @ to_le_bytes 2 self"

definition encode_u32 :: "u32 \<Rightarrow> u8 list \<Rightarrow> u8 list" where
  "encode_u32 self sink = sink @ to_le_bytes 4 self"

definition encode_u64 :: "u64 \<Rightarrow> u8 list \<Rightarrow> u8 list" where
  "encode_u64 self sink = sink @ to_le_bytes 8 self"

definition encode_u128 :: "u128 \<Rightarrow> u8 list \<Rightarrow> u8 list" where
  "encode_u128 self sink = sink @ to_le_bytes 16 self"

text \<open>The signed integers have the bits of the unsigned ones.\<close>

definition encode_i8 :: "u8 \<Rightarrow> u8 list \<Rightarrow> u8 list" where
  "encode_i8 self sink = sink @ [self]"

definition encode_i16 :: "u16 \<Rightarrow> u8 list \<Rightarrow> u8 list" where
  "encode_i16 self sink = sink @ to_le_bytes 2 self"

definition encode_i32 :: "u32 \<Rightarrow> u8 list \<Rightarrow> u8 list" where
  "encode_i32 self sink = sink @ to_le_bytes 4 self"

definition encode_i64 :: "u64 \<Rightarrow> u8 list \<Rightarrow> u8 list" where
  "encode_i64 self sink = sink @ to_le_bytes 8 self"

definition encode_XReg :: "XReg \<Rightarrow> u8 list \<Rightarrow> u8 list" where
  "encode_XReg self sink = sink @ [XReg_to_u8 self]"

definition encode_FReg :: "FReg \<Rightarrow> u8 list \<Rightarrow> u8 list" where
  "encode_FReg self sink = sink @ [FReg_to_u8 self]"

definition encode_VReg :: "VReg \<Rightarrow> u8 list \<Rightarrow> u8 list" where
  "encode_VReg self sink = sink @ [VReg_to_u8 self]"

definition encode_PcRelOffset :: "PcRelOffset \<Rightarrow> u8 list \<Rightarrow> u8 list" where
  "encode_PcRelOffset self sink = encode_i32 (offset_i32 self) sink"

definition encode_BinaryOperands ::
  "('d \<Rightarrow> u8) \<Rightarrow> ('s1 \<Rightarrow> u8) \<Rightarrow> ('s2 \<Rightarrow> u8) \<Rightarrow> ('d, 's1, 's2) BinaryOperands \<Rightarrow> u8 list \<Rightarrow> u8 list" where
  "encode_BinaryOperands dto s1to s2to self sink = encode_u16 (BinaryOperands_to_bits dto s1to s2to self) sink"

definition encode_BinaryOperandsU6 ::
  "('d \<Rightarrow> u8) \<Rightarrow> ('s1 \<Rightarrow> u8) \<Rightarrow> ('d, 's1, U6) BinaryOperands \<Rightarrow> u8 list \<Rightarrow> u8 list" where
  "encode_BinaryOperandsU6 dto s1to self sink = encode_u16 (BinaryOperandsU6_to_bits dto s1to self) sink"

definition encode_UpperRegSet :: "UpperRegSet \<Rightarrow> u8 list \<Rightarrow> u8 list" where
  "encode_UpperRegSet self sink = encode_u16 (upper_bitset self) sink"

definition encode_AddrO32 :: "AddrO32 \<Rightarrow> u8 list \<Rightarrow> u8 list" where
  "encode_AddrO32 self sink = encode_i32 (o32_offset self) (encode_XReg (o32_addr self) sink)"

definition encode_AddrZ :: "AddrZ \<Rightarrow> u8 list \<Rightarrow> u8 list" where
  "encode_AddrZ self sink = encode_i32 (z_offset self) (encode_XReg (z_addr self) sink)"

definition encode_AddrG32 :: "AddrG32 \<Rightarrow> u8 list \<Rightarrow> u8 list" where
  "encode_AddrG32 self sink = encode_u32 (AddrG32_to_bits self) sink"

definition encode_AddrG32Bne :: "AddrG32Bne \<Rightarrow> u8 list \<Rightarrow> u8 list" where
  "encode_AddrG32Bne self sink = encode_u32 (AddrG32Bne_to_bits self) sink"

fun encode_operand :: "operand \<Rightarrow> u8 list \<Rightarrow> u8 list" where
  "encode_operand (O_u8 x) = encode_u8 x"
| "encode_operand (O_u16 x) = encode_u16 x"
| "encode_operand (O_u32 x) = encode_u32 x"
| "encode_operand (O_u64 x) = encode_u64 x"
| "encode_operand (O_u128 x) = encode_u128 x"
| "encode_operand (O_i8 x) = encode_i8 x"
| "encode_operand (O_i16 x) = encode_i16 x"
| "encode_operand (O_i32 x) = encode_i32 x"
| "encode_operand (O_i64 x) = encode_i64 x"
| "encode_operand (O_XReg x) = encode_XReg x"
| "encode_operand (O_FReg x) = encode_FReg x"
| "encode_operand (O_VReg x) = encode_VReg x"
| "encode_operand (O_PcRelOffset x) = encode_PcRelOffset x"
| "encode_operand (O_BinX x) = encode_BinaryOperands XReg_to_u8 XReg_to_u8 XReg_to_u8 x"
| "encode_operand (O_BinXU6 x) = encode_BinaryOperandsU6 XReg_to_u8 XReg_to_u8 x"
| "encode_operand (O_BinF x) = encode_BinaryOperands FReg_to_u8 FReg_to_u8 FReg_to_u8 x"
| "encode_operand (O_BinV x) = encode_BinaryOperands VReg_to_u8 VReg_to_u8 VReg_to_u8 x"
| "encode_operand (O_BinVVX x) = encode_BinaryOperands VReg_to_u8 VReg_to_u8 XReg_to_u8 x"
| "encode_operand (O_BinVVF x) = encode_BinaryOperands VReg_to_u8 VReg_to_u8 FReg_to_u8 x"
| "encode_operand (O_UpperRegSet x) = encode_UpperRegSet x"
| "encode_operand (O_AddrO32 x) = encode_AddrO32 x"
| "encode_operand (O_AddrZ x) = encode_AddrZ x"
| "encode_operand (O_AddrG32 x) = encode_AddrG32 x"
| "encode_operand (O_AddrG32Bne x) = encode_AddrG32Bne x"

fun WIDTH :: "field_ty \<Rightarrow> u8" where
  "WIDTH T_u8 = 1" | "WIDTH T_u16 = 2" | "WIDTH T_u32 = 4" | "WIDTH T_u64 = 8"
| "WIDTH T_u128 = 16" | "WIDTH T_i8 = 1" | "WIDTH T_i16 = 2" | "WIDTH T_i32 = 4"
| "WIDTH T_i64 = 8" | "WIDTH T_XReg = 1" | "WIDTH T_FReg = 1" | "WIDTH T_VReg = 1"
| "WIDTH T_PcRelOffset = 4" | "WIDTH T_BinX = 2" | "WIDTH T_BinXU6 = 2" | "WIDTH T_BinF = 2"
| "WIDTH T_BinV = 2" | "WIDTH T_BinVVX = 2" | "WIDTH T_BinVVF = 2" | "WIDTH T_UpperRegSet = 2"
| "WIDTH T_AddrO32 = 5" | "WIDTH T_AddrZ = 5" | "WIDTH T_AddrG32 = 4" | "WIDTH T_AddrG32Bne = 4"

section \<open>Instructions\<close>

definition encode_operands :: "operand list \<Rightarrow> u8 list \<Rightarrow> u8 list" where
  "encode_operands args into = fold encode_operand args into"

definition encode_op_fn :: "string \<Rightarrow> operand list \<Rightarrow> u8 list \<Rightarrow> u8 list" where
  "encode_op_fn name args into = encode_operands args (into @ [Opcode_as_u8 name])"

definition encode_extended_op_fn :: "string \<Rightarrow> operand list \<Rightarrow> u8 list \<Rightarrow> u8 list" where
  "encode_extended_op_fn name args into =
     encode_operands args
       ((into @ [Opcode_as_u8 ''ExtendedOp'']) @ to_le_bytes 2 (ExtendedOpcode_as_u16 name))"

definition op_WIDTH :: "field_ty list \<Rightarrow> u8" where
  "op_WIDTH tys = fold (\<lambda>ty w. w + WIDTH ty) tys 1"

definition extended_op_WIDTH :: "field_ty list \<Rightarrow> u8" where
  "extended_op_WIDTH tys = fold (\<lambda>ty w. w + WIDTH ty) tys 3"

fun Op_encode :: "Op \<Rightarrow> u8 list \<Rightarrow> u8 list" where
  "Op_encode (Op name args) = encode_op_fn name args"
| "Op_encode (ExtendedOp name args) = encode_extended_op_fn name args"

fun Op_width :: "Op \<Rightarrow> u8" where
  "Op_width (Op name args) = op_WIDTH (the (lookup_op for_each_op name))"
| "Op_width (ExtendedOp name args) = extended_op_WIDTH (the (lookup_op for_each_extended_op name))"

section \<open>Encoding appends\<close>

definition operand_bytes :: "operand \<Rightarrow> u8 list" where
  "operand_bytes x = encode_operand x []"

definition Op_bytes :: "Op \<Rightarrow> u8 list" where
  "Op_bytes op = Op_encode op []"

lemmas encode_defs = encode_u8_def encode_u16_def encode_u32_def encode_u64_def encode_u128_def
  encode_i8_def encode_i16_def encode_i32_def encode_i64_def encode_XReg_def encode_FReg_def
  encode_VReg_def encode_PcRelOffset_def encode_BinaryOperands_def encode_BinaryOperandsU6_def
  encode_UpperRegSet_def encode_AddrO32_def encode_AddrZ_def encode_AddrG32_def
  encode_AddrG32Bne_def

lemma encode_operand_append: "encode_operand x sink = sink @ operand_bytes x"
  by (cases x) (simp_all add: operand_bytes_def encode_defs)

lemma encode_operands_append:
  "encode_operands args into = into @ concat (map operand_bytes args)"
  unfolding encode_operands_def
  by (induction args arbitrary: into) (simp_all add: encode_operand_append)

lemma Op_bytes_simps:
  "Op_bytes (Op name args) = Opcode_as_u8 name # concat (map operand_bytes args)"
  "Op_bytes (ExtendedOp name args) =
     220 # to_le_bytes 2 (ExtendedOpcode_as_u16 name) @ concat (map operand_bytes args)"
  using Opcode_MAX_eq
  by (simp_all add: Op_bytes_def encode_op_fn_def encode_extended_op_fn_def encode_operands_append
      Opcode_MAX_def)

lemma Op_encode_append: "Op_encode op sink = sink @ Op_bytes op"
  by (cases op)
     (simp_all add: Op_bytes_def encode_op_fn_def encode_extended_op_fn_def encode_operands_append)

section \<open>Widths\<close>

lemma length_operand_bytes: "length (operand_bytes x) = unat (WIDTH (ty_of x))"
  by (cases x) (simp_all add: operand_bytes_def encode_defs)

lemma length_operands_bytes:
  "length (concat (map operand_bytes args)) = sum_list (map (\<lambda>ty. unat (WIDTH ty)) (map ty_of args))"
  by (simp add: length_concat comp_def length_operand_bytes)

text \<open>No instruction is longer than 22 bytes, so the 8-bit sums of the widths are exact.\<close>

definition max_width :: nat where
  "max_width = 22"

lemma widths_small:
  "list_all (\<lambda>s. 1 + sum_list (map (\<lambda>ty. unat (WIDTH ty)) (field_tys s)) \<le> max_width) for_each_op"
  by (simp add: for_each_op_def op_chunks max_width_def)

lemma extended_widths_small:
  "list_all (\<lambda>s. 3 + sum_list (map (\<lambda>ty. unat (WIDTH ty)) (field_tys s)) \<le> max_width)
     for_each_extended_op"
  by (simp add: for_each_extended_op_def extended_op_chunks max_width_def)

lemma fold_WIDTH: "fold (\<lambda>ty w. w + WIDTH ty) tys k = k + of_nat (sum_list (map (\<lambda>ty. unat (WIDTH ty)) tys))"
  by (induction tys arbitrary: k) (simp_all add: algebra_simps)

lemma unat_op_WIDTH:
  assumes "lookup_op for_each_op name = Some tys"
  shows "unat (op_WIDTH tys) = 1 + sum_list (map (\<lambda>ty. unat (WIDTH ty)) tys)"
    and "1 + sum_list (map (\<lambda>ty. unat (WIDTH ty)) tys) \<le> max_width"
proof -
  let ?n = "1 + sum_list (map (\<lambda>ty. unat (WIDTH ty)) tys)"
  obtain sn where "(sn, name, tys) \<in> set for_each_op"
    using lookup_op_Some [OF assms] by blast
  then show n: "?n \<le> max_width" using widths_small by (fastforce simp: list_all_iff)
  have "op_WIDTH tys = of_nat ?n" by (simp add: op_WIDTH_def fold_WIDTH)
  then show "unat (op_WIDTH tys) = ?n"
    using n by (simp only: unat_of_nat) (simp add: max_width_def take_bit_nat_eq_self)
qed

lemma unat_extended_op_WIDTH:
  assumes "lookup_op for_each_extended_op name = Some tys"
  shows "unat (extended_op_WIDTH tys) = 3 + sum_list (map (\<lambda>ty. unat (WIDTH ty)) tys)"
    and "3 + sum_list (map (\<lambda>ty. unat (WIDTH ty)) tys) \<le> max_width"
proof -
  let ?n = "3 + sum_list (map (\<lambda>ty. unat (WIDTH ty)) tys)"
  obtain sn where "(sn, name, tys) \<in> set for_each_extended_op"
    using lookup_op_Some [OF assms] by blast
  then show n: "?n \<le> max_width" using extended_widths_small by (fastforce simp: list_all_iff)
  have "extended_op_WIDTH tys = of_nat ?n" by (simp add: extended_op_WIDTH_def fold_WIDTH)
  then show "unat (extended_op_WIDTH tys) = ?n"
    using n by (simp only: unat_of_nat) (simp add: max_width_def take_bit_nat_eq_self)
qed

lemma wf_Op_width:
  assumes "wf_Op op"
  shows "length (Op_bytes op) = unat (Op_width op)" and "unat (Op_width op) \<le> max_width"
proof -
  have "length (Op_bytes op) = unat (Op_width op) \<and> unat (Op_width op) \<le> max_width"
  proof (cases op)
    case (Op name args)
    with assms obtain tys where l: "lookup_op for_each_op name = Some tys" "map ty_of args = tys"
      by (auto simp: wf_args_def split: option.splits)
    show ?thesis
      using unat_op_WIDTH [OF l(1)] length_operands_bytes [of args] l
      by (simp add: Op Op_bytes_simps)
  next
    case (ExtendedOp name args)
    with assms obtain tys where l: "lookup_op for_each_extended_op name = Some tys" "map ty_of args = tys"
      by (auto simp: wf_args_def split: option.splits)
    show ?thesis
      using unat_extended_op_WIDTH [OF l(1)] length_operands_bytes [of args] l
      by (simp add: ExtendedOp Op_bytes_simps)
  qed
  then show "length (Op_bytes op) = unat (Op_width op)" "unat (Op_width op) \<le> max_width" by auto
qed

section \<open>Properties\<close>

text \<open>Encoding an instruction appends exactly \<open>width()\<close> bytes to the sink and leaves what
  was there before; the width, an 8-bit sum, never wraps and is at most 22.\<close>

theorem encode_appends_width:
  assumes "wf_Op op"
  shows "take (length sink) (Op_encode op sink) = sink \<and>
    length (Op_encode op sink) = length sink + unat (Op_width op) \<and> unat (Op_width op) \<le> 22"
  using wf_Op_width [OF assms] by (simp add: Op_encode_append max_width_def)

theorem encode_appends_width_witness:
  "wf_Op (Op ''Xadd32'' [O_BinX \<lparr>bo_dst = X1, bo_src1 = X2, bo_src2 = Sp\<rparr>]) \<and>
   length (Op_encode (Op ''Xadd32'' [O_BinX \<lparr>bo_dst = X1, bo_src1 = X2, bo_src2 = Sp\<rparr>]) [7]) = 4"
proof -
  let ?op = "Op ''Xadd32'' [O_BinX \<lparr>bo_dst = X1, bo_src1 = X2, bo_src2 = Sp\<rparr>]"
  have wf: "wf_Op ?op" by code_simp
  have "unat (Op_width ?op) = 3" by code_simp
  then show ?thesis using wf encode_appends_width [OF wf, of "[7]"] by simp
qed

end
