(* ===== verification/Pulley_Decode.thy ===== *)
theory Pulley_Decode
  imports Pulley_Encode
begin

text \<open>
  \<open>pulley/src/decode.rs\<close> and the materialising visitor of \<open>pulley/src/op.rs\<close>.
  The trait \<open>BytecodeStream\<close> is a record of its methods; the two implementations are the
  values \<open>SafeStream\<close> (a slice and a position) and \<open>UnsafeStream m\<close> (a raw pointer
  into the host memory \<open>m\<close>). \<open>unreachable_unchecked\<close>, the body of the error
  constructors of the unsafe stream, is the error \<open>UnreachableUnchecked\<close>: reaching it is
  undefined behaviour. The trait \<open>OpVisitor\<close> (with \<open>ExtendedOpVisitor\<close>) is a record
  as well; its per-instruction methods are the one function \<open>visit_op\<close>. A decoder that
  reads from a stream returns the value and the advanced stream.
\<close>

section \<open>Bytecode streams\<close>

datatype DecodingError =
    UnexpectedEof usize
  | InvalidOpcode usize u8
  | InvalidExtendedOpcode usize u16
  | InvalidReg usize u8

record ('s, 'e) BytecodeStream =
  unexpected_eof :: "'s \<Rightarrow> 'e"
  invalid_opcode :: "'s \<Rightarrow> u8 \<Rightarrow> 'e"
  invalid_extended_opcode :: "'s \<Rightarrow> u16 \<Rightarrow> 'e"
  invalid_reg :: "'s \<Rightarrow> u8 \<Rightarrow> 'e"
  stream_read :: "nat \<Rightarrow> 's \<Rightarrow> (u8 list \<times> 's, 'e) res"

record SafeBytecodeStream =
  sbs_bytecode :: "u8 list"
  sbs_position :: usize

definition SafeBytecodeStream_new :: "u8 list \<Rightarrow> SafeBytecodeStream" where
  "SafeBytecodeStream_new bytecode = \<lparr>sbs_bytecode = bytecode, sbs_position = 0\<rparr>"

definition split_first_chunk :: "nat \<Rightarrow> 'a list \<Rightarrow> ('a list \<times> 'a list) option" where
  "split_first_chunk n xs = (if n \<le> length xs then Some (take n xs, drop n xs) else None)"

definition safe_unexpected_eof :: "SafeBytecodeStream \<Rightarrow> DecodingError" where
  "safe_unexpected_eof self = UnexpectedEof (sbs_position self)"

definition safe_invalid_opcode :: "SafeBytecodeStream \<Rightarrow> u8 \<Rightarrow> DecodingError" where
  "safe_invalid_opcode self code = InvalidOpcode (sbs_position self - 1) code"

definition safe_invalid_extended_opcode :: "SafeBytecodeStream \<Rightarrow> u16 \<Rightarrow> DecodingError" where
  "safe_invalid_extended_opcode self code = InvalidExtendedOpcode (sbs_position self) code"

definition safe_invalid_reg :: "SafeBytecodeStream \<Rightarrow> u8 \<Rightarrow> DecodingError" where
  "safe_invalid_reg self code = InvalidReg (sbs_position self) code"

definition safe_read ::
  "nat \<Rightarrow> SafeBytecodeStream \<Rightarrow> (u8 list \<times> SafeBytecodeStream, DecodingError) res" where
  "safe_read n self =
     and_then (ok_or (split_first_chunk n (sbs_bytecode self)) (safe_unexpected_eof self))
       (\<lambda>(bytes, rest).
          Ok (bytes, self\<lparr>sbs_bytecode := rest, sbs_position := sbs_position self + of_nat n\<rparr>))"

definition SafeStream :: "(SafeBytecodeStream, DecodingError) BytecodeStream" where
  "SafeStream = \<lparr>unexpected_eof = safe_unexpected_eof, invalid_opcode = safe_invalid_opcode,
     invalid_extended_opcode = safe_invalid_extended_opcode, invalid_reg = safe_invalid_reg,
     stream_read = safe_read\<rparr>"

text \<open>The unsafe stream is its pointer.\<close>

datatype UB = UnreachableUnchecked

definition unsafe_offset :: "u64 \<Rightarrow> u64 \<Rightarrow> u64" where
  "unsafe_offset self off = self + off"

definition unsafe_read :: "memory \<Rightarrow> nat \<Rightarrow> u64 \<Rightarrow> (u8 list \<times> u64, UB) res" where
  "unsafe_read m n self = Ok (mem_read m self n, self + of_nat n)"

definition UnsafeStream :: "memory \<Rightarrow> (u64, UB) BytecodeStream" where
  "UnsafeStream m = \<lparr>unexpected_eof = (\<lambda>_. UnreachableUnchecked),
     invalid_opcode = (\<lambda>_ _. UnreachableUnchecked),
     invalid_extended_opcode = (\<lambda>_ _. UnreachableUnchecked),
     invalid_reg = (\<lambda>_ _. UnreachableUnchecked),
     stream_read = unsafe_read m\<rparr>"

section \<open>Operands\<close>

text \<open>\<open>Result::map\<close> on the value, keeping the stream.\<close>

definition map_value :: "('a \<Rightarrow> 'b) \<Rightarrow> ('a \<times> 's, 'e) res \<Rightarrow> ('b \<times> 's, 'e) res" where
  "map_value f r = and_then r (\<lambda>(x, s). Ok (f x, s))"

definition decode_u8 :: "('s, 'e) BytecodeStream \<Rightarrow> 's \<Rightarrow> (u8 \<times> 's, 'e) res" where
  "decode_u8 D s = map_value (\<lambda>a. a ! 0) (stream_read D 1 s)"

definition decode_u16 :: "('s, 'e) BytecodeStream \<Rightarrow> 's \<Rightarrow> (u16 \<times> 's, 'e) res" where
  "decode_u16 D s = map_value from_le_bytes (stream_read D 2 s)"

definition decode_u32 :: "('s, 'e) BytecodeStream \<Rightarrow> 's \<Rightarrow> (u32 \<times> 's, 'e) res" where
  "decode_u32 D s = map_value from_le_bytes (stream_read D 4 s)"

definition decode_u64 :: "('s, 'e) BytecodeStream \<Rightarrow> 's \<Rightarrow> (u64 \<times> 's, 'e) res" where
  "decode_u64 D s = map_value from_le_bytes (stream_read D 8 s)"

definition decode_u128 :: "('s, 'e) BytecodeStream \<Rightarrow> 's \<Rightarrow> (u128 \<times> 's, 'e) res" where
  "decode_u128 D s = map_value from_le_bytes (stream_read D 16 s)"

definition decode_i8 :: "('s, 'e) BytecodeStream \<Rightarrow> 's \<Rightarrow> (u8 \<times> 's, 'e) res" where
  "decode_i8 D s = map_value (\<lambda>a. a ! 0) (stream_read D 1 s)"

definition decode_i16 :: "('s, 'e) BytecodeStream \<Rightarrow> 's \<Rightarrow> (u16 \<times> 's, 'e) res" where
  "decode_i16 D s = map_value from_le_bytes (stream_read D 2 s)"

definition decode_i32 :: "('s, 'e) BytecodeStream \<Rightarrow> 's \<Rightarrow> (u32 \<times> 's, 'e) res" where
  "decode_i32 D s = map_value from_le_bytes (stream_read D 4 s)"

definition decode_i64 :: "('s, 'e) BytecodeStream \<Rightarrow> 's \<Rightarrow> (u64 \<times> 's, 'e) res" where
  "decode_i64 D s = map_value from_le_bytes (stream_read D 8 s)"

definition decode_XReg :: "('s, 'e) BytecodeStream \<Rightarrow> 's \<Rightarrow> (XReg \<times> 's, 'e) res" where
  "decode_XReg D s =
     and_then (decode_u8 D s) (\<lambda>(byte, s).
       and_then (ok_or (XReg_new byte) (invalid_reg D s byte)) (\<lambda>r. Ok (r, s)))"

definition decode_FReg :: "('s, 'e) BytecodeStream \<Rightarrow> 's \<Rightarrow> (FReg \<times> 's, 'e) res" where
  "decode_FReg D s =
     and_then (decode_u8 D s) (\<lambda>(byte, s).
       and_then (ok_or (FReg_new byte) (invalid_reg D s byte)) (\<lambda>r. Ok (r, s)))"

definition decode_VReg :: "('s, 'e) BytecodeStream \<Rightarrow> 's \<Rightarrow> (VReg \<times> 's, 'e) res" where
  "decode_VReg D s =
     and_then (decode_u8 D s) (\<lambda>(byte, s).
       and_then (ok_or (VReg_new byte) (invalid_reg D s byte)) (\<lambda>r. Ok (r, s)))"

definition decode_PcRelOffset :: "('s, 'e) BytecodeStream \<Rightarrow> 's \<Rightarrow> (PcRelOffset \<times> 's, 'e) res" where
  "decode_PcRelOffset D s = map_value PcRelOffset (decode_i32 D s)"

definition decode_Opcode :: "('s, 'e) BytecodeStream \<Rightarrow> 's \<Rightarrow> (string \<times> 's, 'e) res" where
  "decode_Opcode D s =
     and_then (decode_u8 D s) (\<lambda>(byte, s).
       case Opcode_new byte of Some v \<Rightarrow> Ok (v, s) | None \<Rightarrow> Err (invalid_opcode D s byte))"

definition decode_ExtendedOpcode :: "('s, 'e) BytecodeStream \<Rightarrow> 's \<Rightarrow> (string \<times> 's, 'e) res" where
  "decode_ExtendedOpcode D s =
     and_then (decode_u16 D s) (\<lambda>(code, s).
       case ExtendedOpcode_new code of
         Some v \<Rightarrow> Ok (v, s) | None \<Rightarrow> Err (invalid_extended_opcode D s code))"

definition decode_BinaryOperands ::
  "(u8 \<Rightarrow> 'd option) \<Rightarrow> (u8 \<Rightarrow> 's1 option) \<Rightarrow> (u8 \<Rightarrow> 's2 option) \<Rightarrow>
   ('s, 'e) BytecodeStream \<Rightarrow> 's \<Rightarrow> (('d, 's1, 's2) BinaryOperands \<times> 's, 'e) res" where
  "decode_BinaryOperands dnew s1new s2new D s =
     and_then (decode_u16 D s) (\<lambda>(bits, s).
       and_then (BinaryOperands_from_bits dnew s1new s2new bits) (\<lambda>x. Ok (x, s)))"

definition decode_BinaryOperandsU6 ::
  "(u8 \<Rightarrow> 'd option) \<Rightarrow> (u8 \<Rightarrow> 's1 option) \<Rightarrow>
   ('s, 'e) BytecodeStream \<Rightarrow> 's \<Rightarrow> (('d, 's1, U6) BinaryOperands \<times> 's, 'e) res" where
  "decode_BinaryOperandsU6 dnew s1new D s =
     and_then (decode_u16 D s) (\<lambda>(bits, s).
       and_then (BinaryOperandsU6_from_bits dnew s1new bits) (\<lambda>x. Ok (x, s)))"

definition decode_UpperRegSet :: "('s, 'e) BytecodeStream \<Rightarrow> 's \<Rightarrow> (UpperRegSet \<times> 's, 'e) res" where
  "decode_UpperRegSet D s = map_value UpperRegSet (decode_u16 D s)"

definition decode_AddrO32 :: "('s, 'e) BytecodeStream \<Rightarrow> 's \<Rightarrow> (AddrO32 \<times> 's, 'e) res" where
  "decode_AddrO32 D s =
     and_then (decode_XReg D s) (\<lambda>(addr, s).
     and_then (decode_i32 D s) (\<lambda>(offset, s).
       Ok (\<lparr>o32_addr = addr, o32_offset = offset\<rparr>, s)))"

definition decode_AddrZ :: "('s, 'e) BytecodeStream \<Rightarrow> 's \<Rightarrow> (AddrZ \<times> 's, 'e) res" where
  "decode_AddrZ D s =
     and_then (decode_XReg D s) (\<lambda>(addr, s).
     and_then (decode_i32 D s) (\<lambda>(offset, s).
       Ok (\<lparr>z_addr = addr, z_offset = offset\<rparr>, s)))"

definition decode_AddrG32 :: "('s, 'e) BytecodeStream \<Rightarrow> 's \<Rightarrow> (AddrG32 \<times> 's, 'e) res" where
  "decode_AddrG32 D s =
     and_then (decode_u32 D s) (\<lambda>(bits, s).
       and_then (AddrG32_from_bits bits) (\<lambda>x. Ok (x, s)))"

definition decode_AddrG32Bne :: "('s, 'e) BytecodeStream \<Rightarrow> 's \<Rightarrow> (AddrG32Bne \<times> 's, 'e) res" where
  "decode_AddrG32Bne D s =
     and_then (decode_u32 D s) (\<lambda>(bits, s).
       and_then (AddrG32Bne_from_bits bits) (\<lambda>x. Ok (x, s)))"

fun decode_operand :: "field_ty \<Rightarrow> ('s, 'e) BytecodeStream \<Rightarrow> 's \<Rightarrow> (operand \<times> 's, 'e) res" where
  "decode_operand T_u8 D = (\<lambda>s. map_value O_u8 (decode_u8 D s))"
| "decode_operand T_u16 D = (\<lambda>s. map_value O_u16 (decode_u16 D s))"
| "decode_operand T_u32 D = (\<lambda>s. map_value O_u32 (decode_u32 D s))"
| "decode_operand T_u64 D = (\<lambda>s. map_value O_u64 (decode_u64 D s))"
| "decode_operand T_u128 D = (\<lambda>s. map_value O_u128 (decode_u128 D s))"
| "decode_operand T_i8 D = (\<lambda>s. map_value O_i8 (decode_i8 D s))"
| "decode_operand T_i16 D = (\<lambda>s. map_value O_i16 (decode_i16 D s))"
| "decode_operand T_i32 D = (\<lambda>s. map_value O_i32 (decode_i32 D s))"
| "decode_operand T_i64 D = (\<lambda>s. map_value O_i64 (decode_i64 D s))"
| "decode_operand T_XReg D = (\<lambda>s. map_value O_XReg (decode_XReg D s))"
| "decode_operand T_FReg D = (\<lambda>s. map_value O_FReg (decode_FReg D s))"
| "decode_operand T_VReg D = (\<lambda>s. map_value O_VReg (decode_VReg D s))"
| "decode_operand T_PcRelOffset D = (\<lambda>s. map_value O_PcRelOffset (decode_PcRelOffset D s))"
| "decode_operand T_BinX D = (\<lambda>s. map_value O_BinX (decode_BinaryOperands XReg_new XReg_new XReg_new D s))"
| "decode_operand T_BinXU6 D = (\<lambda>s. map_value O_BinXU6 (decode_BinaryOperandsU6 XReg_new XReg_new D s))"
| "decode_operand T_BinF D = (\<lambda>s. map_value O_BinF (decode_BinaryOperands FReg_new FReg_new FReg_new D s))"
| "decode_operand T_BinV D = (\<lambda>s. map_value O_BinV (decode_BinaryOperands VReg_new VReg_new VReg_new D s))"
| "decode_operand T_BinVVX D = (\<lambda>s. map_value O_BinVVX (decode_BinaryOperands VReg_new VReg_new XReg_new D s))"
| "decode_operand T_BinVVF D = (\<lambda>s. map_value O_BinVVF (decode_BinaryOperands VReg_new VReg_new FReg_new D s))"
| "decode_operand T_UpperRegSet D = (\<lambda>s. map_value O_UpperRegSet (decode_UpperRegSet D s))"
| "decode_operand T_AddrO32 D = (\<lambda>s. map_value O_AddrO32 (decode_AddrO32 D s))"
| "decode_operand T_AddrZ D = (\<lambda>s. map_value O_AddrZ (decode_AddrZ D s))"
| "decode_operand T_AddrG32 D = (\<lambda>s. map_value O_AddrG32 (decode_AddrG32 D s))"
| "decode_operand T_AddrG32Bne D = (\<lambda>s. map_value O_AddrG32Bne (decode_AddrG32Bne D s))"

text \<open>The fields of an instruction, decoded in order; this is also the generated
  \<open>operands::$snake_name\<close>.\<close>

fun decode_operands ::
  "field_ty list \<Rightarrow> ('s, 'e) BytecodeStream \<Rightarrow> 's \<Rightarrow> (operand list \<times> 's, 'e) res" where
  "decode_operands [] D = (\<lambda>s. Ok ([], s))"
| "decode_operands (ty # tys) D = (\<lambda>s.
     and_then (decode_operand ty D s) (\<lambda>(x, s).
     and_then (decode_operands tys D s) (\<lambda>(xs, s). Ok (x # xs, s))))"

section \<open>Visitors and the decoder\<close>

record ('v, 's, 'r) OpVisitor =
  bytecode :: "'v \<Rightarrow> 's"
  set_bytecode :: "'s \<Rightarrow> 'v \<Rightarrow> 'v"
  before_visit :: "'v \<Rightarrow> 'v"
  after_visit :: "'v \<Rightarrow> 'v"
  visit_op :: "Op \<Rightarrow> 'v \<Rightarrow> 'r \<times> 'v"

definition on_bytecode ::
  "('v, 's, 'r) OpVisitor \<Rightarrow> ('s \<Rightarrow> ('a \<times> 's, 'e) res) \<Rightarrow> 'v \<Rightarrow> ('a \<times> 'v, 'e) res" where
  "on_bytecode V f visitor =
     and_then (f (bytecode V visitor)) (\<lambda>(x, s). Ok (x, set_bytecode V s visitor))"

definition visit_and_finish :: "('v, 's, 'r) OpVisitor \<Rightarrow> Op \<Rightarrow> 'v \<Rightarrow> ('r \<times> 'v, 'e) res" where
  "visit_and_finish V op visitor =
     (let (ret, visitor) = visit_op V op visitor in Ok (ret, after_visit V visitor))"

text \<open>The arms of the \<open>match\<close> on the opcode are the entries of the instruction list; the
  match is exhaustive, so the missing-entry case is a panic that never happens.\<close>

definition decode_one_extended ::
  "('s, 'e) BytecodeStream \<Rightarrow> ('v, 's, 'r) OpVisitor \<Rightarrow> 'v \<Rightarrow> ('r \<times> 'v, 'e) res" where
  "decode_one_extended D V visitor =
     and_then (on_bytecode V (decode_u16 D) visitor) (\<lambda>(code, visitor).
     and_then (ok_or (ExtendedOpcode_new code) (invalid_extended_opcode D (bytecode V visitor) code)) (\<lambda>opcode.
       case lookup_op for_each_extended_op opcode of
         None \<Rightarrow> Panic
       | Some tys \<Rightarrow>
           and_then (on_bytecode V (decode_operands tys D) visitor) (\<lambda>(args, visitor).
             visit_and_finish V (ExtendedOp opcode args) visitor)))"

definition decode_one ::
  "('s, 'e) BytecodeStream \<Rightarrow> ('v, 's, 'r) OpVisitor \<Rightarrow> 'v \<Rightarrow> ('r \<times> 'v, 'e) res" where
  "decode_one D V visitor =
     (let visitor = before_visit V visitor in
      and_then (on_bytecode V (decode_u8 D) visitor) (\<lambda>(byte, visitor).
      and_then (ok_or (Opcode_new byte) (invalid_opcode D (bytecode V visitor) byte)) (\<lambda>opcode.
        if opcode = ''ExtendedOp'' then decode_one_extended D V visitor
        else case lookup_op for_each_op opcode of
          None \<Rightarrow> Panic
        | Some tys \<Rightarrow>
            and_then (on_bytecode V (decode_operands tys D) visitor) (\<lambda>(args, visitor).
              visit_and_finish V (Op opcode args) visitor))))"

text \<open>\<open>decode_all\<close> runs until the slice is empty. A visitor may move the stream, so the loop
  need not end for every visitor: not ending is \<open>None\<close>.\<close>

partial_function (option) decode_all_loop ::
  "('v, SafeBytecodeStream, 'r) OpVisitor \<Rightarrow> 'v \<Rightarrow> 'r list \<Rightarrow> ('r list, DecodingError) res option" where
  "decode_all_loop V visitor results =
     (if sbs_bytecode (bytecode V visitor) = [] then Some (Ok results)
      else case decode_one SafeStream V visitor of
        Ok (r, visitor) \<Rightarrow> decode_all_loop V visitor (results @ [r])
      | Err e \<Rightarrow> Some (Err e)
      | Panic \<Rightarrow> Some Panic)"

definition decode_all ::
  "('v, SafeBytecodeStream, 'r) OpVisitor \<Rightarrow> 'v \<Rightarrow> ('r list, DecodingError) res option" where
  "decode_all V visitor = decode_all_loop V visitor []"

text \<open>\<open>MaterializeOpsVisitor\<close> returns the instruction; the struct is its stream.\<close>

definition MaterializeOpsVisitor :: "('s, 's, Op) OpVisitor" where
  "MaterializeOpsVisitor = \<lparr>bytecode = (\<lambda>v. v), set_bytecode = (\<lambda>s v. s),
     before_visit = (\<lambda>v. v), after_visit = (\<lambda>v. v), visit_op = (\<lambda>op v. (op, v))\<rparr>"

text \<open>\<open>SequencedVisitor\<close>: the first visitor's stream is the one read from, and it is copied
  to the second after each instruction. \<open>set_bytecode\<close> writes through
  \<open>self.v1.bytecode()\<close>.\<close>

definition SequencedVisitor ::
  "('r1 \<Rightarrow> 'r2 \<Rightarrow> 't) \<Rightarrow> ('v1, 's, 'r1) OpVisitor \<Rightarrow> ('v2, 's, 'r2) OpVisitor \<Rightarrow>
   ('v1 \<times> 'v2, 's, 't) OpVisitor" where
  "SequencedVisitor join VA VB =
     \<lparr>bytecode = (\<lambda>(v1, v2). bytecode VA v1),
      set_bytecode = (\<lambda>s (v1, v2). (set_bytecode VA s v1, v2)),
      before_visit = (\<lambda>(v1, v2). (before_visit VA v1, before_visit VB v2)),
      after_visit = (\<lambda>(v1, v2).
        let v2 = set_bytecode VB (bytecode VA v1) v2
        in (after_visit VA v1, after_visit VB v2)),
      visit_op = (\<lambda>op (v1, v2).
        let (a, v1) = visit_op VA op v1; (b, v2) = visit_op VB op v2
        in (join a b, (v1, v2)))\<rparr>"

section \<open>The stream interface\<close>

text \<open>What the decoder relies on of a stream \<open>s\<close> that \<open>holds\<close> some bytes at its front:
  reading as many bytes yields them and advances the stream past them.\<close>

locale bytecode_stream =
  fixes D :: "('s, 'e) BytecodeStream"
    and holds :: "'s \<Rightarrow> u8 list \<Rightarrow> bool"
    and advance :: "'s \<Rightarrow> nat \<Rightarrow> 's"
  assumes read_ok: "holds s bs \<Longrightarrow> stream_read D (length bs) s = Ok (bs, advance s (length bs))"
    and holds_append: "holds s (bs @ cs) \<longleftrightarrow> holds s bs \<and> holds (advance s (length bs)) cs"
    and advance_0: "advance s 0 = s"
    and advance_advance: "advance (advance s m) n = advance s (m + n)"

definition safe_holds :: "SafeBytecodeStream \<Rightarrow> u8 list \<Rightarrow> bool" where
  "safe_holds s bs \<longleftrightarrow> take (length bs) (sbs_bytecode s) = bs"

definition safe_advance :: "SafeBytecodeStream \<Rightarrow> nat \<Rightarrow> SafeBytecodeStream" where
  "safe_advance s n = s\<lparr>sbs_bytecode := drop n (sbs_bytecode s),
                        sbs_position := sbs_position s + of_nat n\<rparr>"

definition unsafe_holds :: "memory \<Rightarrow> u64 \<Rightarrow> u8 list \<Rightarrow> bool" where
  "unsafe_holds m pc bs \<longleftrightarrow> mem_read m pc (length bs) = bs"

definition unsafe_advance :: "u64 \<Rightarrow> nat \<Rightarrow> u64" where
  "unsafe_advance pc n = pc + of_nat n"

lemma safe_read_Ok_iff:
  "safe_read n s = Ok (bs, s') \<longleftrightarrow>
     n \<le> length (sbs_bytecode s) \<and> bs = take n (sbs_bytecode s) \<and> s' = safe_advance s n"
  by (auto simp: safe_read_def split_first_chunk_def safe_advance_def)

lemma safe_read_Err_iff:
  "safe_read n s = Err e \<longleftrightarrow>
     length (sbs_bytecode s) < n \<and> e = UnexpectedEof (sbs_position s)"
  by (auto simp: safe_read_def split_first_chunk_def safe_unexpected_eof_def)

lemma safe_read_not_Panic: "safe_read n s \<noteq> Panic"
  by (simp add: safe_read_def split_first_chunk_def)

lemma safe_advance_0 [simp]: "safe_advance s 0 = s"
  by (simp add: safe_advance_def)

lemma safe_advance_advance [simp]: "safe_advance (safe_advance s m) n = safe_advance s (m + n)"
  by (simp add: safe_advance_def add.commute add.left_commute)

lemma safe_advance_simps [simp]:
  "sbs_bytecode (safe_advance s n) = drop n (sbs_bytecode s)"
  "sbs_position (safe_advance s n) = sbs_position s + of_nat n"
  by (simp_all add: safe_advance_def)

lemma safe_holds_iff: "safe_holds s bs \<longleftrightarrow> (\<exists>cs. sbs_bytecode s = bs @ cs)"
  unfolding safe_holds_def by (metis append_eq_conv_conj append_take_drop_id)

interpretation safe: bytecode_stream SafeStream safe_holds safe_advance
proof
  fix s bs cs
  show "safe_holds s bs \<Longrightarrow> stream_read SafeStream (length bs) s = Ok (bs, safe_advance s (length bs))"
    by (auto simp: SafeStream_def safe_holds_iff safe_read_Ok_iff)
  show "safe_holds s (bs @ cs) \<longleftrightarrow> safe_holds s bs \<and> safe_holds (safe_advance s (length bs)) cs"
    by (auto simp: safe_holds_iff append_eq_append_conv2)
qed simp_all

interpretation unsafe: bytecode_stream "UnsafeStream m" "unsafe_holds m" unsafe_advance for m
proof
  fix s bs cs
  show "unsafe_holds m s bs \<Longrightarrow>
      stream_read (UnsafeStream m) (length bs) s = Ok (bs, unsafe_advance s (length bs))"
    by (simp add: UnsafeStream_def unsafe_holds_def unsafe_read_def unsafe_advance_def)
  show "unsafe_holds m s (bs @ cs) \<longleftrightarrow>
      unsafe_holds m s bs \<and> unsafe_holds m (unsafe_advance s (length bs)) cs"
    by (auto simp: unsafe_holds_def unsafe_advance_def mem_read_append)
qed (simp_all add: unsafe_advance_def)

text \<open>A decoder over some stream follows the decoder over the safe stream when, on a stream that
  holds the same bytes, it returns what the safe one returns and advances as far.\<close>

definition follows ::
  "('s \<Rightarrow> u8 list \<Rightarrow> bool) \<Rightarrow> ('s \<Rightarrow> nat \<Rightarrow> 's) \<Rightarrow> ('s \<Rightarrow> ('a \<times> 's, 'e) res) \<Rightarrow>
   (SafeBytecodeStream \<Rightarrow> ('a \<times> SafeBytecodeStream, DecodingError) res) \<Rightarrow> bool" where
  "follows holds advance f g \<longleftrightarrow>
     (\<forall>s t x t'. holds s (sbs_bytecode t) \<longrightarrow> g t = Ok (x, t') \<longrightarrow>
       (\<exists>bs. sbs_bytecode t = bs @ sbs_bytecode t' \<and> t' = safe_advance t (length bs) \<and>
             f s = Ok (x, advance s (length bs))))"

lemma followsD:
  assumes "follows holds advance f g" "holds s (sbs_bytecode t)" "g t = Ok (x, t')"
  obtains bs where "sbs_bytecode t = bs @ sbs_bytecode t'" "t' = safe_advance t (length bs)"
    "f s = Ok (x, advance s (length bs))"
  using assms unfolding follows_def by blast

context bytecode_stream
begin

lemma follows_read: "follows holds advance (stream_read D n) (stream_read SafeStream n)"
  unfolding follows_def
proof (intro allI impI)
  fix s t x t'
  assume h: "holds s (sbs_bytecode t)" and r: "stream_read SafeStream n t = Ok (x, t')"
  then have x: "n \<le> length (sbs_bytecode t)" "x = take n (sbs_bytecode t)" "t' = safe_advance t n"
    by (simp_all add: SafeStream_def safe_read_Ok_iff)
  have "holds s x"
    using h holds_append [of s x "drop n (sbs_bytecode t)"] x by simp
  then have "stream_read D n s = Ok (x, advance s n)"
    using read_ok [of s x] x by simp
  then show "\<exists>bs. sbs_bytecode t = bs @ sbs_bytecode t' \<and> t' = safe_advance t (length bs) \<and>
      stream_read D n s = Ok (x, advance s (length bs))"
    using x by (intro exI [of _ x]) simp
qed

lemma follows_bind:
  assumes "follows holds advance f g" "\<And>x. follows holds advance (f' x) (g' x)"
  shows "follows holds advance (\<lambda>s. and_then (f s) (\<lambda>(x, s). f' x s))
    (\<lambda>t. and_then (g t) (\<lambda>(x, t). g' x t))"
  unfolding follows_def
proof (intro allI impI)
  fix s t y t'
  assume h: "holds s (sbs_bytecode t)" and r: "and_then (g t) (\<lambda>(x, t). g' x t) = Ok (y, t')"
  then obtain x u where gx: "g t = Ok (x, u)" and gy: "g' x u = Ok (y, t')"
    by (auto simp: res_simps)
  obtain bs where bs: "sbs_bytecode t = bs @ sbs_bytecode u" "u = safe_advance t (length bs)"
      "f s = Ok (x, advance s (length bs))"
    using followsD [OF assms(1) h gx] by blast
  have "holds (advance s (length bs)) (sbs_bytecode u)"
    using h bs(1) holds_append [of s bs "sbs_bytecode u"] by simp
  from followsD [OF assms(2) this gy] obtain cs where
    cs: "sbs_bytecode u = cs @ sbs_bytecode t'" "t' = safe_advance u (length cs)"
      "f' x (advance s (length bs)) = Ok (y, advance (advance s (length bs)) (length cs))"
    by blast
  show "\<exists>bs. sbs_bytecode t = bs @ sbs_bytecode t' \<and> t' = safe_advance t (length bs) \<and>
      and_then (f s) (\<lambda>(x, s). f' x s) = Ok (y, advance s (length bs))"
    using bs cs by (intro exI [of _ "bs @ cs"]) (simp add: advance_advance del: safe_advance_simps)
qed

lemma follows_result:
  assumes "\<And>s t x. holds s (sbs_bytecode t) \<Longrightarrow> h t = Ok x \<Longrightarrow> k s = Ok x"
  shows "follows holds advance (\<lambda>s. and_then (k s) (\<lambda>x. Ok (x, s))) (\<lambda>t. and_then (h t) (\<lambda>x. Ok (x, t)))"
  unfolding follows_def
proof (intro allI impI)
  fix s t x t'
  assume "holds s (sbs_bytecode t)" "and_then (h t) (\<lambda>x. Ok (x, t)) = Ok (x, t')"
  then have "k s = Ok x" "t' = t" using assms by (auto simp: res_simps)
  then show "\<exists>bs. sbs_bytecode t = bs @ sbs_bytecode t' \<and> t' = safe_advance t (length bs) \<and>
      and_then (k s) (\<lambda>x. Ok (x, s)) = Ok (x, advance s (length bs))"
    by (intro exI [of _ "[]"]) (simp add: advance_0)
qed

lemma follows_Ok: "follows holds advance (\<lambda>s. Ok (x, s)) (\<lambda>t. Ok (x, t))"
  using follows_result [of "\<lambda>_. Ok x" "\<lambda>_. Ok x"] by simp

lemma follows_map_value:
  assumes "follows holds advance f g"
  shows "follows holds advance (\<lambda>s. map_value h (f s)) (\<lambda>t. map_value h (g t))"
  unfolding map_value_def by (rule follows_bind [OF assms]) (rule follows_Ok)

lemma follows_ok_or:
  "follows holds advance (\<lambda>s. and_then (ok_or v (e s)) (\<lambda>x. Ok (x, s)))
     (\<lambda>t. and_then (ok_or v (e' t)) (\<lambda>x. Ok (x, t)))"
  by (rule follows_result) (cases v; simp)

end

section \<open>Every stream decodes like the safe one\<close>

lemma BinaryOperands_from_bits_any_error:
  "BinaryOperands_from_bits a b c bits = (Ok x :: (_, 'e1) res) \<Longrightarrow>
   BinaryOperands_from_bits a b c bits = (Ok x :: (_, 'e2) res)"
  by (auto simp: BinaryOperands_from_bits_def res_simps unwrap_def split: option.splits)

lemma BinaryOperandsU6_from_bits_any_error:
  "BinaryOperandsU6_from_bits a b bits = (Ok x :: (_, 'e1) res) \<Longrightarrow>
   BinaryOperandsU6_from_bits a b bits = (Ok x :: (_, 'e2) res)"
  by (auto simp: BinaryOperandsU6_from_bits_def res_simps unwrap_def split: option.splits)

lemma AddrG32_from_bits_any_error:
  "AddrG32_from_bits bits = (Ok x :: (_, 'e1) res) \<Longrightarrow> AddrG32_from_bits bits = (Ok x :: (_, 'e2) res)"
  by (auto simp: AddrG32_from_bits_def res_simps unwrap_def split: option.splits)

lemma AddrG32Bne_from_bits_any_error:
  "AddrG32Bne_from_bits bits = (Ok x :: (_, 'e1) res) \<Longrightarrow>
   AddrG32Bne_from_bits bits = (Ok x :: (_, 'e2) res)"
  by (auto simp: AddrG32Bne_from_bits_def res_simps unwrap_def split: option.splits)

lemmas from_bits_any_error = BinaryOperands_from_bits_any_error BinaryOperandsU6_from_bits_any_error
  AddrG32_from_bits_any_error AddrG32Bne_from_bits_any_error

lemmas decode_int_defs = decode_u8_def decode_u16_def decode_u32_def decode_u64_def decode_u128_def
  decode_i8_def decode_i16_def decode_i32_def decode_i64_def

lemmas decode_reg_defs = decode_XReg_def decode_FReg_def decode_VReg_def

context bytecode_stream
begin

lemma follows_ints:
  "follows holds advance (decode_u8 D) (decode_u8 SafeStream)"
  "follows holds advance (decode_u16 D) (decode_u16 SafeStream)"
  "follows holds advance (decode_u32 D) (decode_u32 SafeStream)"
  "follows holds advance (decode_u64 D) (decode_u64 SafeStream)"
  "follows holds advance (decode_u128 D) (decode_u128 SafeStream)"
  "follows holds advance (decode_i8 D) (decode_i8 SafeStream)"
  "follows holds advance (decode_i16 D) (decode_i16 SafeStream)"
  "follows holds advance (decode_i32 D) (decode_i32 SafeStream)"
  "follows holds advance (decode_i64 D) (decode_i64 SafeStream)"
  unfolding decode_int_defs by (rule follows_map_value, rule follows_read)+

lemma follows_regs:
  "follows holds advance (decode_XReg D) (decode_XReg SafeStream)"
  "follows holds advance (decode_FReg D) (decode_FReg SafeStream)"
  "follows holds advance (decode_VReg D) (decode_VReg SafeStream)"
  unfolding decode_reg_defs by (rule follows_bind, rule follows_ints, rule follows_ok_or)+

lemma follows_BinaryOperands:
  "follows holds advance (decode_BinaryOperands a b c D) (decode_BinaryOperands a b c SafeStream)"
  unfolding decode_BinaryOperands_def
  by (rule follows_bind, rule follows_ints, rule follows_result) (rule from_bits_any_error)

lemma follows_BinaryOperandsU6:
  "follows holds advance (decode_BinaryOperandsU6 a b D) (decode_BinaryOperandsU6 a b SafeStream)"
  unfolding decode_BinaryOperandsU6_def
  by (rule follows_bind, rule follows_ints, rule follows_result) (rule from_bits_any_error)

lemma follows_addrs:
  "follows holds advance (decode_AddrO32 D) (decode_AddrO32 SafeStream)"
  "follows holds advance (decode_AddrZ D) (decode_AddrZ SafeStream)"
  "follows holds advance (decode_AddrG32 D) (decode_AddrG32 SafeStream)"
  "follows holds advance (decode_AddrG32Bne D) (decode_AddrG32Bne SafeStream)"
  unfolding decode_AddrO32_def decode_AddrZ_def decode_AddrG32_def decode_AddrG32Bne_def
  by (rule follows_bind, rule follows_regs follows_ints,
      rule follows_bind, rule follows_ints, rule follows_Ok)+
     (rule follows_bind, rule follows_ints, rule follows_result, erule from_bits_any_error)+

lemma follows_operand: "follows holds advance (decode_operand ty D) (decode_operand ty SafeStream)"
  unfolding decode_PcRelOffset_def decode_UpperRegSet_def
  by (cases ty; simp only: decode_operand.simps decode_PcRelOffset_def decode_UpperRegSet_def;
      intro follows_map_value follows_ints follows_regs follows_BinaryOperands
        follows_BinaryOperandsU6 follows_addrs)

lemma follows_operands: "follows holds advance (decode_operands tys D) (decode_operands tys SafeStream)"
proof (induction tys)
  case Nil
  show ?case by (simp add: follows_Ok)
next
  case (Cons ty tys)
  show ?case
    unfolding decode_operands.simps
    by (intro follows_bind follows_operand Cons.IH follows_Ok)
qed

end

section \<open>Decoding what was encoded\<close>

lemma safe_decode_ints:
  "decode_u8 SafeStream t = map_value (\<lambda>a. a ! 0) (safe_read 1 t)"
  "decode_u16 SafeStream t = map_value from_le_bytes (safe_read 2 t)"
  "decode_u32 SafeStream t = map_value from_le_bytes (safe_read 4 t)"
  "decode_u64 SafeStream t = map_value from_le_bytes (safe_read 8 t)"
  "decode_u128 SafeStream t = map_value from_le_bytes (safe_read 16 t)"
  "decode_i8 SafeStream t = map_value (\<lambda>a. a ! 0) (safe_read 1 t)"
  "decode_i16 SafeStream t = map_value from_le_bytes (safe_read 2 t)"
  "decode_i32 SafeStream t = map_value from_le_bytes (safe_read 4 t)"
  "decode_i64 SafeStream t = map_value from_le_bytes (safe_read 8 t)"
  by (simp_all add: decode_int_defs SafeStream_def)

lemma safe_read_front:
  "sbs_bytecode t = bs @ cs \<Longrightarrow> length bs = n \<Longrightarrow> safe_read n t = Ok (bs, safe_advance t n)"
  by (auto simp: safe_read_Ok_iff)

lemma safe_decode_front:
  "sbs_bytecode t = b # cs \<Longrightarrow> decode_u8 SafeStream t = Ok (b, safe_advance t 1)"
  "sbs_bytecode t = to_le_bytes 2 w16 @ cs \<Longrightarrow> decode_u16 SafeStream t = Ok (w16, safe_advance t 2)"
  "sbs_bytecode t = to_le_bytes 4 w32 @ cs \<Longrightarrow> decode_u32 SafeStream t = Ok (w32, safe_advance t 4)"
  "sbs_bytecode t = to_le_bytes 8 w64 @ cs \<Longrightarrow> decode_u64 SafeStream t = Ok (w64, safe_advance t 8)"
  "sbs_bytecode t = to_le_bytes 16 w128 @ cs \<Longrightarrow> decode_u128 SafeStream t = Ok (w128, safe_advance t 16)"
  "sbs_bytecode t = b # cs \<Longrightarrow> decode_i8 SafeStream t = Ok (b, safe_advance t 1)"
  "sbs_bytecode t = to_le_bytes 2 w16 @ cs \<Longrightarrow> decode_i16 SafeStream t = Ok (w16, safe_advance t 2)"
  "sbs_bytecode t = to_le_bytes 4 w32 @ cs \<Longrightarrow> decode_i32 SafeStream t = Ok (w32, safe_advance t 4)"
  "sbs_bytecode t = to_le_bytes 8 w64 @ cs \<Longrightarrow> decode_i64 SafeStream t = Ok (w64, safe_advance t 8)"
  using safe_read_front [of t "[b]" cs 1]
  by (simp_all add: safe_decode_ints map_value_def safe_read_front [of t _ cs])

lemma safe_decode_regs_front:
  "sbs_bytecode t = XReg_to_u8 x # cs \<Longrightarrow> decode_XReg SafeStream t = Ok (x, safe_advance t 1)"
  "sbs_bytecode t = FReg_to_u8 f # cs \<Longrightarrow> decode_FReg SafeStream t = Ok (f, safe_advance t 1)"
  "sbs_bytecode t = VReg_to_u8 v # cs \<Longrightarrow> decode_VReg SafeStream t = Ok (v, safe_advance t 1)"
  by (simp_all add: decode_reg_defs safe_decode_front xr.new_to_u8 fr.new_to_u8 vr.new_to_u8)

lemma safe_decode_operand:
  assumes "sbs_bytecode t = operand_bytes x @ cs" "wf_operand x"
  shows "decode_operand (ty_of x) SafeStream t = Ok (x, safe_advance t (length (operand_bytes x)))"
  using assms
  by (cases x)
     (simp_all add: operand_bytes_def encode_defs map_value_def safe_decode_front
       safe_decode_regs_front decode_PcRelOffset_def decode_UpperRegSet_def
       decode_BinaryOperands_def decode_BinaryOperandsU6_def decode_AddrO32_def decode_AddrZ_def
       decode_AddrG32_def decode_AddrG32Bne_def xxx.from_to_bits fff.from_to_bits vvv.from_to_bits
       vvx.from_to_bits vvf.from_to_bits xx.u6_from_to_bits AddrG32_from_to_bits
       AddrG32Bne_from_to_bits)

lemma safe_decode_operands:
  assumes "sbs_bytecode t = concat (map operand_bytes args) @ cs" "list_all wf_operand args"
  shows "decode_operands (map ty_of args) SafeStream t =
    Ok (args, safe_advance t (length (concat (map operand_bytes args))))"
  using assms
proof (induction args arbitrary: t)
  case Nil
  then show ?case by simp
next
  case (Cons x xs)
  have "decode_operand (ty_of x) SafeStream t = Ok (x, safe_advance t (length (operand_bytes x)))"
    using Cons.prems by (intro safe_decode_operand) auto
  then show ?case
    using Cons.prems Cons.IH [of "safe_advance t (length (operand_bytes x))"] by simp
qed

text \<open>\<open>decode_one\<close> with the materialising visitor, on the stream alone.\<close>

lemma materialize_simps [simp]:
  "on_bytecode MaterializeOpsVisitor f s = f s"
  "visit_and_finish MaterializeOpsVisitor op s = Ok (op, s)"
  "bytecode MaterializeOpsVisitor s = s" "before_visit MaterializeOpsVisitor s = s"
  by (cases "f s"; simp add: on_bytecode_def visit_and_finish_def MaterializeOpsVisitor_def split_def)+

lemma decode_one_extended_materialize:
  "decode_one_extended D MaterializeOpsVisitor s =
     and_then (decode_u16 D s) (\<lambda>(code, s).
     and_then (ok_or (ExtendedOpcode_new code) (invalid_extended_opcode D s code)) (\<lambda>opcode.
       case lookup_op for_each_extended_op opcode of
         None \<Rightarrow> Panic
       | Some tys \<Rightarrow> and_then (decode_operands tys D s) (\<lambda>(args, s). Ok (ExtendedOp opcode args, s))))"
  unfolding decode_one_extended_def materialize_simps ..

lemma decode_one_materialize:
  "decode_one D MaterializeOpsVisitor s =
     and_then (decode_u8 D s) (\<lambda>(byte, s).
     and_then (ok_or (Opcode_new byte) (invalid_opcode D s byte)) (\<lambda>opcode.
       if opcode = ''ExtendedOp'' then decode_one_extended D MaterializeOpsVisitor s
       else case lookup_op for_each_op opcode of
         None \<Rightarrow> Panic
       | Some tys \<Rightarrow> and_then (decode_operands tys D s) (\<lambda>(args, s). Ok (Op opcode args, s))))"
  unfolding decode_one_def materialize_simps Let_def ..

lemma safe_decode_one:
  assumes wf: "wf_Op op" and t: "sbs_bytecode t = Op_bytes op @ cs"
  shows "decode_one SafeStream MaterializeOpsVisitor t = Ok (op, safe_advance t (length (Op_bytes op)))"
proof (cases op)
  case (Op name args)
  with wf obtain tys where l: "lookup_op for_each_op name = Some tys" "map ty_of args = tys"
      "list_all wf_operand args"
    by (auto simp: wf_args_def split: option.splits)
  have mem: "name \<in> set (map camel_name for_each_op)" by (rule lookup_op_name [OF l(1)])
  then have "name \<noteq> ''ExtendedOp''" using ExtendedOp_not_base by metis
  then show ?thesis
    using Op t l safe_decode_operands [of "safe_advance t 1" args cs]
    by (simp add: decode_one_materialize Op_bytes_simps safe_decode_front
        Opcode_new_as_u8 [OF Opcode_variants_mem [OF mem]])
next
  case (ExtendedOp name args)
  with wf obtain tys where l: "lookup_op for_each_extended_op name = Some tys" "map ty_of args = tys"
      "list_all wf_operand args"
    by (auto simp: wf_args_def split: option.splits)
  have mem: "name \<in> set ExtendedOpcode_variants"
    using lookup_op_name [OF l(1)] by (simp add: ExtendedOpcode_variants_def)
  have "Opcode_new 220 = Some ''ExtendedOp''"
    by (simp add: Opcode_new_def Opcode_MAX_eq Opcode_variants_def nth_append length_for_each_op)
  then show ?thesis
    using ExtendedOp t l safe_decode_operands [of "safe_advance t 3" args cs]
      safe_decode_front(2) [of "safe_advance t 1" "ExtendedOpcode_as_u16 name"]
    by (simp add: decode_one_materialize decode_one_extended_materialize Op_bytes_simps
        safe_decode_front(1) ExtendedOpcode_new_as_u16 [OF mem] numeral_3_eq_3)
qed

context bytecode_stream
begin

lemma follows_ok_or_bind:
  assumes "\<And>x. follows holds advance (f x) (g x)"
  shows "follows holds advance (\<lambda>s. and_then (ok_or v (e s)) (\<lambda>x. f x s))
    (\<lambda>t. and_then (ok_or v (e' t)) (\<lambda>x. g x t))"
  using assms by (cases v) (simp_all add: follows_def)

lemma follows_arm:
  "follows holds advance
     (\<lambda>s. case l of None \<Rightarrow> Panic | Some tys \<Rightarrow> and_then (decode_operands tys D s) (\<lambda>(args, s). Ok (C args, s)))
     (\<lambda>t. case l of None \<Rightarrow> Panic
            | Some tys \<Rightarrow> and_then (decode_operands tys SafeStream t) (\<lambda>(args, t). Ok (C args, t)))"
proof (cases l)
  case None
  then show ?thesis by (simp add: follows_def)
next
  case (Some tys)
  then show ?thesis
    using follows_bind [OF follows_operands [of tys] follows_Ok] by simp
qed

lemma follows_decode_one_extended:
  "follows holds advance (decode_one_extended D MaterializeOpsVisitor)
     (decode_one_extended SafeStream MaterializeOpsVisitor)"
  unfolding decode_one_extended_materialize [abs_def]
  by (intro follows_bind follows_ints follows_ok_or_bind follows_arm)

lemma follows_decode_one:
  "follows holds advance (decode_one D MaterializeOpsVisitor)
     (decode_one SafeStream MaterializeOpsVisitor)"
proof -
  have "follows holds advance
     (\<lambda>s. if b then decode_one_extended D MaterializeOpsVisitor s else f s)
     (\<lambda>t. if b then decode_one_extended SafeStream MaterializeOpsVisitor t else g t)"
    if "follows holds advance f g" for b f g
    using that follows_decode_one_extended by (cases b) simp_all
  then show ?thesis
    unfolding decode_one_materialize [abs_def]
    by (intro follows_bind follows_ints follows_ok_or_bind) (blast intro: follows_arm)
qed

lemma decode_one_encoded:
  assumes "wf_Op op" "holds s (Op_bytes op)"
  shows "decode_one D MaterializeOpsVisitor s = Ok (op, advance s (unat (Op_width op)))"
proof -
  let ?t = "SafeBytecodeStream_new (Op_bytes op)"
  have t: "sbs_bytecode ?t = Op_bytes op" by (simp add: SafeBytecodeStream_new_def)
  have ok: "decode_one SafeStream MaterializeOpsVisitor ?t = Ok (op, safe_advance ?t (length (Op_bytes op)))"
    using safe_decode_one [OF assms(1), of ?t "[]"] t by simp
  show ?thesis
    using followsD [OF follows_decode_one, of s ?t] assms(2) t ok
    by (metis append.right_neutral drop_all order_refl safe_advance_simps(1) wf_Op_width(1) [OF assms(1)])
qed

end

section \<open>What a successful decode says of the bytes\<close>

definition truncate_stream :: "nat \<Rightarrow> SafeBytecodeStream \<Rightarrow> SafeBytecodeStream" where
  "truncate_stream k t = t\<lparr>sbs_bytecode := take k (sbs_bytecode t)\<rparr>"

text \<open>A decoder is framed when it never panics and, where it succeeds with a value \<open>x\<close>, the
  value satisfies \<open>P\<close>, exactly \<open>w x\<close> bytes were consumed, no other byte was looked at,
  and any cut within these bytes is reported as an unexpected end at or before the cut.\<close>

definition framed :: "('a \<Rightarrow> nat) \<Rightarrow> ('a \<Rightarrow> bool) \<Rightarrow>
    (SafeBytecodeStream \<Rightarrow> ('a \<times> SafeBytecodeStream, DecodingError) res) \<Rightarrow> bool" where
  "framed w P g \<longleftrightarrow>
     (\<forall>t. g t \<noteq> Panic) \<and>
     (\<forall>t x t'. g t = Ok (x, t') \<longrightarrow>
        w x \<le> length (sbs_bytecode t) \<and> t' = safe_advance t (w x) \<and> P x \<and>
        (\<forall>k. (w x \<le> k \<longrightarrow> g (truncate_stream k t) = Ok (x, safe_advance (truncate_stream k t) (w x))) \<and>
             (k < w x \<longrightarrow>
               (\<exists>j\<le>k. g (truncate_stream k t) = Err (UnexpectedEof (sbs_position t + of_nat j))))))"

lemma truncate_stream_simps [simp]:
  "sbs_bytecode (truncate_stream k t) = take k (sbs_bytecode t)"
  "sbs_position (truncate_stream k t) = sbs_position t"
  by (simp_all add: truncate_stream_def)

lemma advance_truncate: "n \<le> k \<Longrightarrow> safe_advance (truncate_stream k t) n = truncate_stream (k - n) (safe_advance t n)"
  by (simp add: safe_advance_def truncate_stream_def drop_take)

lemma framedD:
  assumes "framed w P g" "g t = Ok (x, t')"
  shows "w x \<le> length (sbs_bytecode t)" "t' = safe_advance t (w x)" "P x"
    "w x \<le> k \<Longrightarrow> g (truncate_stream k t) = Ok (x, safe_advance (truncate_stream k t) (w x))"
    "k < w x \<Longrightarrow> \<exists>j\<le>k. g (truncate_stream k t) = Err (UnexpectedEof (sbs_position t + of_nat j))"
  using assms unfolding framed_def by blast+

lemma framed_not_Panic: "framed w P g \<Longrightarrow> g t \<noteq> Panic"
  by (simp add: framed_def)

lemma framed_read: "framed (\<lambda>_. n) (\<lambda>bs. length bs = n) (stream_read SafeStream n)"
proof -
  have "safe_read n (truncate_stream k t) = Err (UnexpectedEof (sbs_position t + of_nat 0))"
    if "k < n" for k t
    using that by (simp add: safe_read_Err_iff)
  then show ?thesis
    unfolding framed_def SafeStream_def
    by (auto simp: safe_read_Ok_iff safe_read_not_Panic min_absorb1 intro: le0)
qed

lemma framed_bind:
  assumes f: "framed (\<lambda>_. n) P f" and g: "\<And>x. P x \<Longrightarrow> framed w Q (g x)"
  shows "framed (\<lambda>y. n + w y) Q (\<lambda>t. and_then (f t) (\<lambda>(x, t). g x t))"
  unfolding framed_def
proof (intro conjI allI impI)
  fix t show "and_then (f t) (\<lambda>(x, t). g x t) \<noteq> Panic"
    using framed_not_Panic [OF f] framed_not_Panic [OF g] framedD(3) [OF f, of t]
    by (auto simp: res_simps)
next
  fix t y t' assume "and_then (f t) (\<lambda>(x, t). g x t) = Ok (y, t')"
  then obtain x u where fx: "f t = Ok (x, u)" and gy: "g x u = Ok (y, t')"
    by (auto simp: res_simps)
  note F = framedD [OF f fx] and G = framedD [OF g [OF framedD(3) [OF f fx]] gy]
  show "n + w y \<le> length (sbs_bytecode t)" "t' = safe_advance t (n + w y)" "Q y"
    using F G by auto
  fix k
  { assume k: "n + w y \<le> k"
    then have "f (truncate_stream k t) = Ok (x, truncate_stream (k - n) u)"
      using F(2,4) by (simp add: advance_truncate)
    moreover have "g x (truncate_stream (k - n) u) = Ok (y, safe_advance (truncate_stream (k - n) u) (w y))"
      using G(4) [of "k - n"] k by simp
    ultimately show "and_then (f (truncate_stream k t)) (\<lambda>(x, t). g x t) =
        Ok (y, safe_advance (truncate_stream k t) (n + w y))"
      using k F(2) by (simp add: advance_truncate [symmetric]) }
  { assume k: "k < n + w y"
    show "\<exists>j\<le>k. and_then (f (truncate_stream k t)) (\<lambda>(x, t). g x t) =
        Err (UnexpectedEof (sbs_position t + of_nat j))"
    proof (cases "k < n")
      case True
      then show ?thesis using F(5) [of k] by auto
    next
      case False
      then have "f (truncate_stream k t) = Ok (x, truncate_stream (k - n) u)"
        using F(2,4) by (simp add: advance_truncate)
      moreover have "k - n < w y" using k False by linarith
      then obtain j where "j \<le> k - n" "g x (truncate_stream (k - n) u) =
          Err (UnexpectedEof (sbs_position u + of_nat j))"
        using G(5) by blast
      ultimately show ?thesis
        using F(2) False by (intro exI [of _ "n + j"]) (auto simp: algebra_simps)
    qed }
qed

lemma framed_bind_result:
  assumes "framed (\<lambda>_. n) P f" "\<And>x. P x \<Longrightarrow> framed (\<lambda>_. 0) Q (g x)"
  shows "framed (\<lambda>_. n) Q (\<lambda>t. and_then (f t) (\<lambda>(x, t). g x t))"
  using framed_bind [OF assms(1), of "\<lambda>_. 0" Q g] assms(2) by simp

lemma framed_result:
  assumes "h \<noteq> Panic" "\<And>x. h = Ok x \<Longrightarrow> Q x"
  shows "framed (\<lambda>_. 0) Q (\<lambda>t. and_then h (\<lambda>x. Ok (x, t)))"
  using assms by (cases h) (simp_all add: framed_def)

lemma framed_Ok: "Q x \<Longrightarrow> framed (\<lambda>_. 0) Q (\<lambda>t. Ok (x, t))"
  by (simp add: framed_def)

lemma framed_map_value:
  assumes "framed (\<lambda>_. n) P f" "\<And>x. P x \<Longrightarrow> Q (h x)"
  shows "framed (\<lambda>_. n) Q (\<lambda>t. map_value h (f t))"
  using framed_bind [OF assms(1) framed_Ok, of Q h] assms(2) by (simp add: map_value_def)

lemma framed_weaken:
  assumes "framed w P g" "\<And>x. P x \<Longrightarrow> Q x" "\<And>x. P x \<Longrightarrow> w x = w' x"
  shows "framed w' Q g"
  unfolding framed_def
proof (intro conjI allI impI)
  fix t x t' k assume g: "g t = Ok (x, t')"
  have e: "w' x = w x" by (rule assms(3) [OF framedD(3) [OF assms(1) g], symmetric])
  show "w' x \<le> length (sbs_bytecode t)" "t' = safe_advance t (w' x)"
    "w' x \<le> k \<Longrightarrow> g (truncate_stream k t) = Ok (x, safe_advance (truncate_stream k t) (w' x))"
    "k < w' x \<Longrightarrow> \<exists>j\<le>k. g (truncate_stream k t) = Err (UnexpectedEof (sbs_position t + of_nat j))"
    unfolding e by (rule framedD [OF assms(1) g], assumption?)+
  show "Q x" by (rule assms(2) [OF framedD(3) [OF assms(1) g]])
qed (rule framed_not_Panic [OF assms(1)])

lemma framed_ok_or_bind:
  assumes "\<And>x. v = Some x \<Longrightarrow> framed w Q (g x)"
  shows "framed w Q (\<lambda>t. and_then (ok_or v (e t)) (\<lambda>x. g x t))"
proof (cases v)
  case None
  then show ?thesis by (simp add: framed_def)
next
  case (Some x)
  then show ?thesis using assms by simp
qed

subsection \<open>Operands\<close>

lemma framed_ints:
  "framed (\<lambda>_. 1) (\<lambda>_. True) (decode_u8 SafeStream)"
  "framed (\<lambda>_. 2) (\<lambda>_. True) (decode_u16 SafeStream)"
  "framed (\<lambda>_. 4) (\<lambda>_. True) (decode_u32 SafeStream)"
  "framed (\<lambda>_. 8) (\<lambda>_. True) (decode_u64 SafeStream)"
  "framed (\<lambda>_. 16) (\<lambda>_. True) (decode_u128 SafeStream)"
  "framed (\<lambda>_. 1) (\<lambda>_. True) (decode_i8 SafeStream)"
  "framed (\<lambda>_. 2) (\<lambda>_. True) (decode_i16 SafeStream)"
  "framed (\<lambda>_. 4) (\<lambda>_. True) (decode_i32 SafeStream)"
  "framed (\<lambda>_. 8) (\<lambda>_. True) (decode_i64 SafeStream)"
  unfolding decode_int_defs by (rule framed_map_value, rule framed_read, simp)+

lemma framed_regs:
  "framed (\<lambda>_. 1) (\<lambda>_. True) (decode_XReg SafeStream)"
  "framed (\<lambda>_. 1) (\<lambda>_. True) (decode_FReg SafeStream)"
  "framed (\<lambda>_. 1) (\<lambda>_. True) (decode_VReg SafeStream)"
  unfolding decode_reg_defs
  by (rule framed_bind_result, rule framed_ints,
      rule framed_ok_or_bind, rule framed_Ok, simp)+

lemma framed_BinaryOperands:
  assumes "\<And>bits. \<exists>bo. BinaryOperands_from_bits a b c bits = (Ok bo :: (_, DecodingError) res)"
  shows "framed (\<lambda>_. 2) (\<lambda>_. True) (decode_BinaryOperands a b c SafeStream)"
proof -
  have "BinaryOperands_from_bits a b c bits \<noteq> (Panic :: (_, DecodingError) res)" for bits
    using assms [of bits] by force
  then show ?thesis
    unfolding decode_BinaryOperands_def
    by (intro framed_bind_result [OF framed_ints(2)] framed_result TrueI)
qed

lemma framed_BinaryOperandsU6:
  "framed (\<lambda>_. 2) (\<lambda>bo. wf_U6 (bo_src2 bo)) (decode_BinaryOperandsU6 XReg_new XReg_new SafeStream)"
  unfolding decode_BinaryOperandsU6_def
proof (rule framed_bind_result [OF framed_ints(2)], rule framed_result)
  fix bits and x :: "(XReg, XReg, U6) BinaryOperands"
  obtain bo where bo: "BinaryOperandsU6_from_bits XReg_new XReg_new bits = (Ok bo :: (_, DecodingError) res)"
      "wf_U6 (bo_src2 bo)"
    using xx.u6_to_from_bits by blast
  then show "BinaryOperandsU6_from_bits XReg_new XReg_new bits \<noteq> (Panic :: (_, DecodingError) res)" by simp
  assume "BinaryOperandsU6_from_bits XReg_new XReg_new bits = (Ok x :: (_, DecodingError) res)"
  then show "wf_U6 (bo_src2 x)" using bo by simp
qed

lemma framed_addrs:
  "framed (\<lambda>_. 5) (\<lambda>_. True) (decode_AddrO32 SafeStream)"
  "framed (\<lambda>_. 5) (\<lambda>_. True) (decode_AddrZ SafeStream)"
  "framed (\<lambda>_. 4) (\<lambda>_. True) (decode_AddrG32 SafeStream)"
  "framed (\<lambda>_. 4) (\<lambda>_. True) (decode_AddrG32Bne SafeStream)"
proof -
  have r: "framed (\<lambda>_. 5) (\<lambda>_. True)
      (\<lambda>t. and_then (decode_XReg SafeStream t) (\<lambda>(a, t). and_then (decode_i32 SafeStream t) (\<lambda>(o', t). Ok (C a o', t))))"
    for C :: "_ \<Rightarrow> _ \<Rightarrow> 'b"
    using framed_bind [OF framed_regs(1) framed_bind [OF framed_ints(8) framed_Ok, of "\<lambda>_. True"], of C]
    by simp
  show "framed (\<lambda>_. 5) (\<lambda>_. True) (decode_AddrO32 SafeStream)"
    "framed (\<lambda>_. 5) (\<lambda>_. True) (decode_AddrZ SafeStream)"
    unfolding decode_AddrO32_def decode_AddrZ_def by (rule r)+
  have "AddrG32_from_bits b \<noteq> (Panic :: (_, DecodingError) res)"
    "AddrG32Bne_from_bits b \<noteq> (Panic :: (_, DecodingError) res)" for b
    using AddrG32_to_from_bits [of b, where ?'a = DecodingError]
      AddrG32Bne_to_from_bits [of b, where ?'a = DecodingError] by force+
  then show "framed (\<lambda>_. 4) (\<lambda>_. True) (decode_AddrG32 SafeStream)"
    "framed (\<lambda>_. 4) (\<lambda>_. True) (decode_AddrG32Bne SafeStream)"
    unfolding decode_AddrG32_def decode_AddrG32Bne_def
    by (intro framed_bind_result [OF framed_ints(3)] framed_result TrueI; blast)+
qed

lemma binary_total:
  "\<exists>bo. BinaryOperands_from_bits XReg_new XReg_new XReg_new bits = Ok bo"
  "\<exists>bo. BinaryOperands_from_bits FReg_new FReg_new FReg_new bits = Ok bo"
  "\<exists>bo. BinaryOperands_from_bits VReg_new VReg_new VReg_new bits = Ok bo"
  "\<exists>bo. BinaryOperands_from_bits VReg_new VReg_new XReg_new bits = Ok bo"
  "\<exists>bo. BinaryOperands_from_bits VReg_new VReg_new FReg_new bits = Ok bo"
  using xxx.to_from_bits fff.to_from_bits vvv.to_from_bits vvx.to_from_bits vvf.to_from_bits by blast+

lemma framed_operand_int:
  "framed (\<lambda>_. n) P f \<Longrightarrow> unat w = n \<Longrightarrow> (\<And>x. P x \<Longrightarrow> Q (h x)) \<Longrightarrow>
   framed (\<lambda>_. unat w) Q (\<lambda>t. map_value h (f t))"
  using framed_map_value by blast

lemma framed_operand:
  "framed (\<lambda>_. unat (WIDTH ty)) (\<lambda>x. ty_of x = ty \<and> wf_operand x) (decode_operand ty SafeStream)"
proof -
  have pc: "framed (\<lambda>_. 4) (\<lambda>_. True) (decode_PcRelOffset SafeStream)"
    and up: "framed (\<lambda>_. 2) (\<lambda>_. True) (decode_UpperRegSet SafeStream)"
    unfolding decode_PcRelOffset_def decode_UpperRegSet_def
    by (rule framed_map_value [OF framed_ints(8)], simp) (rule framed_map_value [OF framed_ints(2)], simp)
  note bins = framed_BinaryOperands [OF binary_total(1)] framed_BinaryOperands [OF binary_total(2)]
    framed_BinaryOperands [OF binary_total(3)] framed_BinaryOperands [OF binary_total(4)]
    framed_BinaryOperands [OF binary_total(5)]
  show ?thesis
    by (cases ty; simp only: decode_operand.simps;
        rule framed_operand_int,
        rule framed_ints framed_regs framed_addrs framed_BinaryOperandsU6 bins pc up; simp)
qed

lemma framed_operands:
  "framed (\<lambda>_. sum_list (map (\<lambda>ty. unat (WIDTH ty)) tys))
     (\<lambda>xs. map ty_of xs = tys \<and> list_all wf_operand xs) (decode_operands tys SafeStream)"
proof (induction tys)
  case Nil
  show ?case by (simp add: framed_Ok)
next
  case (Cons ty tys)
  have r: "framed (\<lambda>_. sum_list (map (\<lambda>ty. unat (WIDTH ty)) tys))
      (\<lambda>xs. map ty_of xs = ty # tys \<and> list_all wf_operand xs)
      (\<lambda>s. and_then (decode_operands tys SafeStream s) (\<lambda>(xs, s). Ok (x # xs, s)))"
    if "ty_of x = ty \<and> wf_operand x" for x
    by (rule framed_bind_result [OF Cons.IH], rule framed_Ok) (use that in auto)
  show ?case
    using framed_bind [OF framed_operand [of ty] r] by simp
qed

subsection \<open>Instructions\<close>

lemma framed_arm:
  assumes "\<And>args. wf_args tys args \<Longrightarrow> Q (C args)"
  shows "framed (\<lambda>_. sum_list (map (\<lambda>ty. unat (WIDTH ty)) tys)) Q
    (\<lambda>t. and_then (decode_operands tys SafeStream t) (\<lambda>(args, t). Ok (C args, t)))"
  by (rule framed_bind_result [OF framed_operands], rule framed_Ok)
     (simp add: assms wf_args_def)

text \<open>The widths of an instruction without its opcode.\<close>

definition tail_width :: "Op \<Rightarrow> nat" where
  "tail_width op = unat (Op_width op) - 1"

lemma framed_base_arm:
  assumes "lookup_op for_each_op name = Some tys"
  shows "framed tail_width wf_Op
    (\<lambda>t. and_then (decode_operands tys SafeStream t) (\<lambda>(args, t). Ok (Op name args, t)))"
proof (rule framed_weaken)
  let ?n = "sum_list (map (\<lambda>ty. unat (WIDTH ty)) tys)"
  show "framed (\<lambda>_. ?n) (\<lambda>op. wf_Op op \<and> (\<exists>args. op = Op name args))
      (\<lambda>t. and_then (decode_operands tys SafeStream t) (\<lambda>(args, t). Ok (Op name args, t)))"
    by (rule framed_arm) (simp add: assms)
  fix op assume "wf_Op op \<and> (\<exists>args. op = Op name args)"
  then show "wf_Op op" "?n = tail_width op"
    using unat_op_WIDTH [OF assms] assms by (auto simp: tail_width_def)
qed

lemma framed_extended_arm:
  assumes "lookup_op for_each_extended_op name = Some tys"
  shows "framed (\<lambda>op. tail_width op - 2) (\<lambda>op. wf_Op op \<and> 3 \<le> unat (Op_width op))
    (\<lambda>t. and_then (decode_operands tys SafeStream t) (\<lambda>(args, t). Ok (ExtendedOp name args, t)))"
proof (rule framed_weaken)
  let ?n = "sum_list (map (\<lambda>ty. unat (WIDTH ty)) tys)"
  show "framed (\<lambda>_. ?n) (\<lambda>op. wf_Op op \<and> (\<exists>args. op = ExtendedOp name args))
      (\<lambda>t. and_then (decode_operands tys SafeStream t) (\<lambda>(args, t). Ok (ExtendedOp name args, t)))"
    by (rule framed_arm) (simp add: assms)
  fix op assume "wf_Op op \<and> (\<exists>args. op = ExtendedOp name args)"
  then show "wf_Op op \<and> 3 \<le> unat (Op_width op)" "?n = tail_width op - 2"
    using unat_extended_op_WIDTH [OF assms] assms by (auto simp: tail_width_def)
qed

lemma framed_decode_one_extended:
  "framed tail_width wf_Op (decode_one_extended SafeStream MaterializeOpsVisitor)"
proof (rule framed_weaken)
  show "framed (\<lambda>op. 2 + (tail_width op - 2)) (\<lambda>op. wf_Op op \<and> 3 \<le> unat (Op_width op))
      (decode_one_extended SafeStream MaterializeOpsVisitor)"
    unfolding decode_one_extended_materialize [abs_def]
  proof (rule framed_bind [OF framed_ints(2)], rule framed_ok_or_bind)
    fix code name assume "ExtendedOpcode_new code = Some name"
    then obtain tys where "lookup_op for_each_extended_op name = Some tys"
      using ExtendedOpcode_new_mem lookup_op_complete by (metis ExtendedOpcode_variants_def)
    then show "framed (\<lambda>op. tail_width op - 2) (\<lambda>op. wf_Op op \<and> 3 \<le> unat (Op_width op))
        (\<lambda>t. case lookup_op for_each_extended_op name of None \<Rightarrow> Panic
           | Some tys \<Rightarrow> and_then (decode_operands tys SafeStream t) (\<lambda>(args, t). Ok (ExtendedOp name args, t)))"
      using framed_extended_arm by simp
  qed
  fix op assume "wf_Op op \<and> 3 \<le> unat (Op_width op)"
  then show "wf_Op op" "2 + (tail_width op - 2) = tail_width op"
    unfolding tail_width_def by (blast, arith)
qed

lemma Op_width_pos: "wf_Op op \<Longrightarrow> 1 \<le> unat (Op_width op)"
  by (cases op)
     (auto simp: unat_op_WIDTH unat_extended_op_WIDTH split: option.splits)

lemma framed_decode_one:
  "framed (\<lambda>op. unat (Op_width op)) wf_Op (decode_one SafeStream MaterializeOpsVisitor)"
proof (rule framed_weaken)
  show "framed (\<lambda>op. 1 + tail_width op) wf_Op (decode_one SafeStream MaterializeOpsVisitor)"
    unfolding decode_one_materialize [abs_def]
  proof (rule framed_bind [OF framed_ints(1)], rule framed_ok_or_bind)
    fix byte name assume b: "Opcode_new byte = Some name"
    show "framed tail_width wf_Op
        (\<lambda>t. if name = ''ExtendedOp'' then decode_one_extended SafeStream MaterializeOpsVisitor t
           else case lookup_op for_each_op name of None \<Rightarrow> Panic
           | Some tys \<Rightarrow> and_then (decode_operands tys SafeStream t) (\<lambda>(args, t). Ok (Op name args, t)))"
    proof (cases "name = ''ExtendedOp''")
      case True
      then show ?thesis using framed_decode_one_extended by simp
    next
      case False
      then have "name \<in> set (map camel_name for_each_op)"
        using Opcode_new_mem [OF b] by (auto simp: Opcode_variants_def)
      then obtain tys where "lookup_op for_each_op name = Some tys"
        using lookup_op_complete by blast
      then show ?thesis using False framed_base_arm by simp
    qed
  qed
  fix op assume "wf_Op op"
  then show "wf_Op op" "1 + tail_width op = unat (Op_width op)"
    unfolding tail_width_def using Op_width_pos [of op] by (blast, arith)
qed

section \<open>Visitors\<close>

text \<open>A visitor whose stream can be read back after it is set: decoding an instruction with it is
  decoding it to a value and then calling the visitor's method on the value.\<close>

locale op_visitor =
  fixes V :: "('v, 's, 'r) OpVisitor"
  assumes get_set: "bytecode V (set_bytecode V s v) = s"
    and set_set: "set_bytecode V s (set_bytecode V s' v) = set_bytecode V s v"
    and set_get: "set_bytecode V (bytecode V v) v = v"
begin

lemma on_bytecode_set:
  "on_bytecode V f (set_bytecode V s v) = and_then (f s) (\<lambda>(x, s'). Ok (x, set_bytecode V s' v))"
  by (simp add: on_bytecode_def get_set set_set)

lemma on_bytecode_bind:
  "and_then (on_bytecode V f (set_bytecode V s v)) (\<lambda>(x, v). k x v) =
     and_then (f s) (\<lambda>(x, s'). k x (set_bytecode V s' v))"
  by (simp add: on_bytecode_set and_then_assoc split_def)

lemma decode_one_extended_factor:
  "decode_one_extended D V (set_bytecode V s v) =
     and_then (decode_one_extended D MaterializeOpsVisitor s)
       (\<lambda>(op, s'). visit_and_finish V op (set_bytecode V s' v))"
proof (cases "decode_u16 D s")
  case (Ok p)
  obtain code s1 where p: "p = (code, s1)" by (cases p)
  show ?thesis
    by (cases "ExtendedOpcode_new code")
       (auto simp: decode_one_extended_def [of D V] decode_one_extended_materialize on_bytecode_set
         Ok p get_set and_then_assoc split_def split: option.split)
qed (simp_all add: decode_one_extended_def [of D V] decode_one_extended_materialize on_bytecode_set)

lemma decode_one_factor_set:
  assumes "before_visit V v = set_bytecode V s w"
  shows "decode_one D V v =
     and_then (decode_one D MaterializeOpsVisitor s)
       (\<lambda>(op, s'). visit_and_finish V op (set_bytecode V s' w))"
proof (cases "decode_u8 D s")
  case (Ok p)
  obtain code s1 where p: "p = (code, s1)" by (cases p)
  show ?thesis
    by (cases "Opcode_new code")
       (auto simp: decode_one_def [of D V] decode_one_materialize on_bytecode_set assms
         Ok p get_set and_then_assoc split_def decode_one_extended_factor split: option.split)
qed (simp_all add: decode_one_def [of D V] decode_one_materialize on_bytecode_set assms)

lemma decode_one_factor:
  "decode_one D V v =
     (let w = before_visit V v in
      and_then (decode_one D MaterializeOpsVisitor (bytecode V w))
        (\<lambda>(op, s'). visit_and_finish V op (set_bytecode V s' w)))"
  using decode_one_factor_set [of v "bytecode V (before_visit V v)" "before_visit V v" D]
  by (simp add: set_get Let_def)

end

interpretation materialize: op_visitor MaterializeOpsVisitor
  by unfold_locales (simp_all add: MaterializeOpsVisitor_def)

locale two_visitors =
  a: op_visitor VA + b: op_visitor VB
  for VA :: "('v1, 's, 'r1) OpVisitor" and VB :: "('v2, 's, 'r2) OpVisitor"

sublocale two_visitors \<subseteq> seq: op_visitor "SequencedVisitor join VA VB" for join
  by unfold_locales
     (auto simp: SequencedVisitor_def a.get_set a.set_set a.set_get split: prod.splits)

context two_visitors
begin

text \<open>A sequenced visitor calls both visitors on the decoded instruction, the second one with the
  stream it had before the instruction, and hands it the new stream afterwards.\<close>

lemma sequenced_decode_one:
  assumes "decode_one D MaterializeOpsVisitor (bytecode VA (before_visit VA v1)) = Ok (op, s')"
    and "visit_op VA op (set_bytecode VA s' (before_visit VA v1)) = (a, w1)"
    and "visit_op VB op (before_visit VB v2) = (b, w2)"
  shows "decode_one D (SequencedVisitor join VA VB) (v1, v2) =
     Ok (join a b, (after_visit VA w1, after_visit VB (set_bytecode VB (bytecode VA w1) w2)))"
  using assms unfolding seq.decode_one_factor Let_def
  by (simp add: SequencedVisitor_def visit_and_finish_def)

end

interpretation mat2: two_visitors MaterializeOpsVisitor MaterializeOpsVisitor ..

section \<open>Decoding a whole slice\<close>

lemma decode_all_loop_step:
  "decode_all_loop MaterializeOpsVisitor t rs =
     (if sbs_bytecode t = [] then Some (Ok rs)
      else case decode_one SafeStream MaterializeOpsVisitor t of
        Ok (r, t') \<Rightarrow> decode_all_loop MaterializeOpsVisitor t' (rs @ [r])
      | Err e \<Rightarrow> Some (Err e) | Panic \<Rightarrow> Some Panic)"
  by (subst decode_all_loop.simps) simp

lemma decode_all_loop_total:
  "\<exists>r. decode_all_loop MaterializeOpsVisitor t rs = Some r \<and> r \<noteq> Panic \<and>
     (\<forall>xs. r = Ok xs \<longrightarrow> (\<exists>ops. xs = rs @ ops \<and> list_all wf_Op ops \<and>
        sum_list (map (\<lambda>op. unat (Op_width op)) ops) = length (sbs_bytecode t)))"
proof (induction "length (sbs_bytecode t)" arbitrary: t rs rule: less_induct)
  case less
  show ?case
  proof (cases "sbs_bytecode t = []")
    case True
    then show ?thesis by (subst decode_all_loop_step) simp
  next
    case False
    show ?thesis
    proof (cases "decode_one SafeStream MaterializeOpsVisitor t")
      case (Ok p)
      obtain op t' where p: "p = (op, t')" by (cases p)
      note F = framedD [OF framed_decode_one Ok [unfolded p]]
      have w: "1 \<le> unat (Op_width op)" by (rule Op_width_pos [OF F(3)])
      have "length (sbs_bytecode t') < length (sbs_bytecode t)"
        using F(1,2) w False by (cases "sbs_bytecode t") auto
      from less [OF this, of "rs @ [op]"] obtain r where
        r: "decode_all_loop MaterializeOpsVisitor t' (rs @ [op]) = Some r" "r \<noteq> Panic"
          "\<forall>xs. r = Ok xs \<longrightarrow> (\<exists>ops. xs = (rs @ [op]) @ ops \<and> list_all wf_Op ops \<and>
             sum_list (map (\<lambda>op. unat (Op_width op)) ops) = length (sbs_bytecode t'))"
        by blast
      have "decode_all_loop MaterializeOpsVisitor t rs = Some r"
        by (subst decode_all_loop_step) (simp add: False Ok p r(1))
      moreover have "\<exists>ops. xs = rs @ ops \<and> list_all wf_Op ops \<and>
          sum_list (map (\<lambda>op. unat (Op_width op)) ops) = length (sbs_bytecode t)" if "r = Ok xs" for xs
      proof -
        obtain ops where "xs = (rs @ [op]) @ ops" "list_all wf_Op ops"
            "sum_list (map (\<lambda>op. unat (Op_width op)) ops) = length (sbs_bytecode t')"
          using r(3) \<open>r = Ok xs\<close> by blast
        then show ?thesis using F(1,2,3) by (intro exI [of _ "op # ops"]) simp
      qed
      ultimately show ?thesis using r(2) by blast
    next
      case (Err e)
      then show ?thesis using False by (subst decode_all_loop_step) simp
    next
      case Panic
      then show ?thesis using framed_not_Panic [OF framed_decode_one] by blast
    qed
  qed
qed

lemma decode_all_loop_encoded:
  "list_all wf_Op ops \<Longrightarrow> sbs_bytecode t = concat (map Op_bytes ops) \<Longrightarrow>
     decode_all_loop MaterializeOpsVisitor t rs = Some (Ok (rs @ ops))"
proof (induction ops arbitrary: t rs)
  case Nil
  then show ?case by (subst decode_all_loop_step) simp
next
  case (Cons op ops)
  then have "decode_one SafeStream MaterializeOpsVisitor t = Ok (op, safe_advance t (length (Op_bytes op)))"
    by (intro safe_decode_one [of op t "concat (map Op_bytes ops)"]) simp_all
  moreover have "Op_bytes op \<noteq> []" by (cases op) (simp_all add: Op_bytes_simps)
  ultimately show ?case
    using Cons.prems Cons.IH [of "safe_advance t (length (Op_bytes op))" "rs @ [op]"]
    by (subst decode_all_loop_step) simp
qed

lemma fold_Op_encode: "fold Op_encode ops sink = sink @ concat (map Op_bytes ops)"
  by (induction ops arbitrary: sink) (simp_all add: Op_encode_append)

lemma SafeStream_errors:
  "invalid_opcode SafeStream = safe_invalid_opcode"
  "invalid_extended_opcode SafeStream = safe_invalid_extended_opcode"
  "invalid_reg SafeStream = safe_invalid_reg"
  by (simp_all add: SafeStream_def)

section \<open>Properties\<close>

text \<open>C2: Decoding the encoding of an instruction from a slice, whatever follows it, gives back
  the instruction, and leaves the stream at the first byte after it with its position moved by
  the instruction's width.\<close>

theorem decode_encode_safe:
  assumes "wf_Op op"
  shows "decode_one SafeStream MaterializeOpsVisitor \<lparr>sbs_bytecode = Op_encode op [] @ rest, sbs_position = p\<rparr> =
    Ok (op, \<lparr>sbs_bytecode = rest, sbs_position = p + of_nat (unat (Op_width op))\<rparr>)"
  using safe_decode_one [OF assms, of "\<lparr>sbs_bytecode = Op_bytes op @ rest, sbs_position = p\<rparr>" rest]
  by (simp add: Op_bytes_def [symmetric] safe_advance_def wf_Op_width(1) [OF assms, symmetric])

theorem decode_encode_safe_witness:
  "decode_one SafeStream MaterializeOpsVisitor
     \<lparr>sbs_bytecode = Op_encode (Op ''Xconst8'' [O_XReg X3, O_i8 255]) [] @ [7], sbs_position = 4\<rparr> =
   Ok (Op ''Xconst8'' [O_XReg X3, O_i8 255], \<lparr>sbs_bytecode = [7], sbs_position = 7\<rparr>)"
proof -
  have wf: "wf_Op (Op ''Xconst8'' [O_XReg X3, O_i8 255])" by code_simp
  have w: "unat (Op_width (Op ''Xconst8'' [O_XReg X3, O_i8 255])) = 3" by code_simp
  show ?thesis using decode_encode_safe [OF wf, of "[7]" 4] unfolding w by simp
qed

text \<open>C22: The interpreter's raw-pointer stream decodes an instruction whose encoding lies in
  memory at the pointer to that instruction, without reaching undefined behaviour, and moves the
  pointer past it.\<close>

theorem decode_encode_unsafe:
  assumes "wf_Op op" "mem_read m pc (length (Op_encode op [])) = Op_encode op []"
  shows "decode_one (UnsafeStream m) MaterializeOpsVisitor pc = Ok (op, pc + of_nat (unat (Op_width op)))"
  using unsafe.decode_one_encoded [of op m pc] assms
  by (simp add: unsafe_holds_def unsafe_advance_def Op_bytes_def)

theorem decode_encode_unsafe_witness:
  "decode_one (UnsafeStream (mem_write (\<lambda>_. 0) 64 [68, 3, 255])) MaterializeOpsVisitor 64 =
     Ok (Op ''Xconst8'' [O_XReg X3, O_i8 255], 67)"
proof -
  let ?op = "Op ''Xconst8'' [O_XReg X3, O_i8 255]"
  have wf: "wf_Op ?op" and w: "unat (Op_width ?op) = 3" and e: "Op_encode ?op [] = [68, 3, 255]"
    by code_simp+
  show ?thesis
    using decode_encode_unsafe [OF wf, of "mem_write (\<lambda>_. 0) 64 [68, 3, 255]" 64]
      mem_read_write_same [of "[68, 3, 255]" "\<lambda>_. 0" 64]
    unfolding w e by simp
qed

text \<open>\<open>decode_all\<close> on the concatenated encodings of a sequence of instructions returns
  exactly that sequence.\<close>

theorem decode_all_encoded:
  assumes "list_all wf_Op ops"
  shows "decode_all MaterializeOpsVisitor (SafeBytecodeStream_new (fold Op_encode ops [])) = Some (Ok ops)"
  using decode_all_loop_encoded [OF assms, of "SafeBytecodeStream_new (fold Op_encode ops [])" "[]"]
  by (simp add: decode_all_def SafeBytecodeStream_new_def fold_Op_encode)

theorem decode_all_encoded_witness:
  "decode_all MaterializeOpsVisitor (SafeBytecodeStream_new
     (fold Op_encode [Op ''Xmov'' [O_XReg X0, O_XReg X1], ExtendedOp ''Trap'' [], Op ''Ret'' []] [])) =
   Some (Ok [Op ''Xmov'' [O_XReg X0, O_XReg X1], ExtendedOp ''Trap'' [], Op ''Ret'' []])"
proof -
  have "list_all wf_Op [Op ''Xmov'' [O_XReg X0, O_XReg X1], ExtendedOp ''Trap'' [], Op ''Ret'' []]"
    by code_simp
  then show ?thesis by (rule decode_all_encoded)
qed

text \<open>C23: \<open>decode_all\<close> returns on every byte slice and never panics; if it succeeds, every
  instruction is well formed and their widths add up to the length of the slice.\<close>

theorem decode_all_total:
  "\<exists>r. decode_all MaterializeOpsVisitor (SafeBytecodeStream_new bs) = Some r \<and>
     (case r of Panic \<Rightarrow> False | Err e \<Rightarrow> True
      | Ok ops \<Rightarrow> list_all wf_Op ops \<and> sum_list (map (\<lambda>op. unat (Op_width op)) ops) = length bs)"
proof -
  obtain r where "decode_all_loop MaterializeOpsVisitor (SafeBytecodeStream_new bs) [] = Some r" "r \<noteq> Panic"
      "\<forall>xs. r = Ok xs \<longrightarrow> (\<exists>ops. xs = [] @ ops \<and> list_all wf_Op ops \<and>
        sum_list (map (\<lambda>op. unat (Op_width op)) ops) = length (sbs_bytecode (SafeBytecodeStream_new bs)))"
    using decode_all_loop_total by blast
  then show ?thesis
    by (intro exI [of _ r]) (auto simp: decode_all_def SafeBytecodeStream_new_def split: res.splits)
qed

text \<open>C35: Cutting an encoded instruction short anywhere makes the decoder report an unexpected
  end of the stream, at a position not after the cut.\<close>

theorem decode_truncated:
  assumes "wf_Op op" "k < unat (Op_width op)"
  shows "\<exists>p. decode_one SafeStream MaterializeOpsVisitor (SafeBytecodeStream_new (take k (Op_encode op []))) =
      Err (UnexpectedEof p) \<and> unat p \<le> k"
proof -
  let ?t = "SafeBytecodeStream_new (Op_bytes op)"
  have ok: "decode_one SafeStream MaterializeOpsVisitor ?t = Ok (op, safe_advance ?t (length (Op_bytes op)))"
    by (rule safe_decode_one [OF assms(1), of ?t "[]"]) (simp add: SafeBytecodeStream_new_def)
  have "truncate_stream k ?t = SafeBytecodeStream_new (take k (Op_encode op []))"
    by (simp add: truncate_stream_def SafeBytecodeStream_new_def Op_bytes_def)
  with framedD(5) [OF framed_decode_one ok assms(2)] obtain j where
    "j \<le> k" "decode_one SafeStream MaterializeOpsVisitor (SafeBytecodeStream_new (take k (Op_encode op []))) =
      Err (UnexpectedEof (of_nat j))"
    by (auto simp: SafeBytecodeStream_new_def)
  moreover have "unat (of_nat j :: usize) \<le> j" by (simp add: unat_of_nat)
  ultimately show ?thesis by (meson le_trans)
qed

theorem decode_truncated_witness:
  "\<exists>p. decode_one SafeStream MaterializeOpsVisitor
     (SafeBytecodeStream_new (take 4 (Op_encode (Op ''Jump'' [O_PcRelOffset (PcRelOffset 12)]) []))) =
      Err (UnexpectedEof p) \<and> unat p \<le> 4"
proof -
  have wf: "wf_Op (Op ''Jump'' [O_PcRelOffset (PcRelOffset 12)])" by code_simp
  have "4 < unat (Op_width (Op ''Jump'' [O_PcRelOffset (PcRelOffset 12)]))" by code_simp
  then show ?thesis by (rule decode_truncated [OF wf])
qed

text \<open>On any bytes that the checked decoder accepts, the unchecked decoder over memory holding
  those bytes decodes the same instruction and moves its pointer by the number of bytes the
  checked one consumed.\<close>

theorem unsafe_agrees_with_safe:
  assumes "decode_one SafeStream MaterializeOpsVisitor t = Ok (op, t')"
    and "mem_read m pc (length (sbs_bytecode t)) = sbs_bytecode t"
  shows "decode_one (UnsafeStream m) MaterializeOpsVisitor pc =
    Ok (op, pc + of_nat (length (sbs_bytecode t) - length (sbs_bytecode t')))"
proof -
  have "unsafe_holds m pc (sbs_bytecode t)" using assms(2) by (simp add: unsafe_holds_def)
  from followsD [OF unsafe.follows_decode_one this assms(1)] obtain bs where
    "sbs_bytecode t = bs @ sbs_bytecode t'"
    "decode_one (UnsafeStream m) MaterializeOpsVisitor pc = Ok (op, unsafe_advance pc (length bs))"
    by blast
  then show ?thesis by (simp add: unsafe_advance_def)
qed

theorem unsafe_agrees_with_safe_witness:
  "decode_one (UnsafeStream (mem_write (\<lambda>_. 0) 4096 [0, 1, 2])) MaterializeOpsVisitor 4096 =
     Ok (Op ''Nop'' [], 4097)"
proof -
  let ?t = "SafeBytecodeStream_new [0, 1, 2]"
  have "decode_one SafeStream MaterializeOpsVisitor ?t = Ok (Op ''Nop'' [], \<lparr>sbs_bytecode = [1, 2], sbs_position = 1\<rparr>)"
    by code_simp
  from unsafe_agrees_with_safe [OF this, of "mem_write (\<lambda>_. 0) 4096 [0, 1, 2]" 4096] show ?thesis
    using mem_read_write_same [of "[0, 1, 2]" "\<lambda>_. 0" 4096]
    by (simp add: SafeBytecodeStream_new_def)
qed

text \<open>C36: A byte above the last opcode is reported with its own position; an extended opcode above
  the last one is reported with the position after it, three bytes past the instruction's first
  byte.\<close>

theorem invalid_opcode_reports:
  assumes "220 < b" "322 < w"
  shows "decode_one SafeStream MaterializeOpsVisitor \<lparr>sbs_bytecode = b # rest, sbs_position = p\<rparr> =
      Err (InvalidOpcode p b) \<and>
    decode_one SafeStream MaterializeOpsVisitor
      \<lparr>sbs_bytecode = 220 # to_le_bytes 2 w @ rest, sbs_position = p\<rparr> = Err (InvalidExtendedOpcode (p + 3) w)"
proof -
  have "Opcode_new b = None" "ExtendedOpcode_new w = None"
    using assms by (simp_all add: Opcode_new_def ExtendedOpcode_new_def Opcode_MAX_eq ExtendedOpcode_MAX_eq)
  moreover have "Opcode_new 220 = Some ''ExtendedOp''"
    by (simp add: Opcode_new_def Opcode_MAX_eq Opcode_variants_def nth_append length_for_each_op)
  ultimately show ?thesis
    using safe_decode_front(2) [of "safe_advance \<lparr>sbs_bytecode = 220 # to_le_bytes 2 w @ rest, sbs_position = p\<rparr> 1" w rest]
    by (simp add: decode_one_materialize decode_one_extended_materialize safe_decode_front(1)
        SafeStream_errors safe_invalid_opcode_def safe_invalid_extended_opcode_def)
qed

theorem invalid_opcode_reports_witness:
  "decode_one SafeStream MaterializeOpsVisitor \<lparr>sbs_bytecode = [255], sbs_position = 9\<rparr> =
      Err (InvalidOpcode 9 255) \<and>
   decode_one SafeStream MaterializeOpsVisitor
      \<lparr>sbs_bytecode = 220 # to_le_bytes 2 (400 :: u16) @ [], sbs_position = 9\<rparr> = Err (InvalidExtendedOpcode 12 400)"
  using invalid_opcode_reports [of 255 400 "[]" 9] by simp

end
