(* ===== verification/Pulley_Machine.thy ===== *)
theory Pulley_Machine
  imports Pulley_Decode
begin

unbundle bit_operations_syntax

text \<open>
  The machine state of \<open>pulley/src/interp.rs\<close> and the helpers its instruction handlers are
  written with: register access, traps, pc-relative jumps, the stack pointer, pushes and pops,
  the four addressing modes.
  A handler takes the interpreter and returns how to go on (\<open>ControlFlow\<close>, with a third case
  for a panic or undefined behaviour) and the new interpreter; \<open>?\<close> is \<open>flow_bind\<close>. Host memory, which the source
  reaches through raw pointers, is a component of the interpreter: a byte for every address. Which addresses are mapped is not
  represented, nor that a program counter is never null: an access or a jump through an invalid pointer, which is
  undefined in the source and which its callers rule out, has a result in the model. The type parameter
  \<open>I: Encode\<close> of a helper, which names the instruction being executed, is a value of
  \<open>Insn\<close>. An \<open>x\<close> register is a 64-bit word (the union is kept little-endian in the
  source, so a 32-bit access is to the low half), an \<open>f\<close> register is the bits of the float
  and a \<open>v\<close> register the 128 bits of the vector. \<open>executing_pc\<close>, written for the
  profiler only, is left out.
\<close>

section \<open>Machine state\<close>

datatype TrapKind =
    DivideByZero | IntegerOverflow | BadConversionToInteger
  | MemoryOutOfBounds | DisabledOpcode | StackOverflow

datatype 'a DoneReason =
    Trap u64 "TrapKind option"
  | CallIndirectHost u8 u64
  | ReturnToHost 'a

record Stack =
  stack_base :: u64
  stack_len :: u64

record MachineState =
  x_regs :: "XReg \<Rightarrow> u64"
  f_regs :: "FReg \<Rightarrow> u64"
  v_regs :: "VReg \<Rightarrow> u128"
  ms_fp :: u64
  ms_lr :: u64
  ms_stack :: Stack
  done_reason :: "unit DoneReason option"

record Interpreter =
  i_state :: MachineState
  i_pc :: u64
  i_mem :: memory

text \<open>\<open>ControlFlow<Done, T>\<close>, with the case of a panic or of undefined behaviour.\<close>

datatype 'a ControlFlow = Continue 'a | Break | Unwind

type_synonym 'a flow = "'a ControlFlow \<times> Interpreter"
type_synonym handler = "Interpreter \<Rightarrow> unit flow"

definition flow_bind :: "'a flow \<Rightarrow> ('a \<Rightarrow> Interpreter \<Rightarrow> 'b flow) \<Rightarrow> 'b flow" where
  "flow_bind r f = (case r of (Continue x, i) \<Rightarrow> f x i | (Break, i) \<Rightarrow> (Break, i) | (Unwind, i) \<Rightarrow> (Unwind, i))"

definition HOST_RETURN_ADDR :: u64 where
  "HOST_RETURN_ADDR = -1"

subsection \<open>Register values\<close>

definition XReg_get_u32 :: "u64 \<Rightarrow> u32" where
  "XReg_get_u32 v = ucast v"

definition XReg_set_u32 :: "u32 \<Rightarrow> u64 \<Rightarrow> u64" where
  "XReg_set_u32 x v = (v AND NOT (mask 32)) OR ucast x"

definition FReg_get_f32 :: "u64 \<Rightarrow> u32" where
  "FReg_get_f32 v = ucast v"

definition FReg_set_f32 :: "u32 \<Rightarrow> u64 \<Rightarrow> u64" where
  "FReg_set_f32 x v = (v AND NOT (mask 32)) OR ucast x"

text \<open>\<open>self.state[reg]\<close> read and written.\<close>

definition x_get64 :: "Interpreter \<Rightarrow> XReg \<Rightarrow> u64" where
  "x_get64 i r = x_regs (i_state i) r"

definition x_get32 :: "Interpreter \<Rightarrow> XReg \<Rightarrow> u32" where
  "x_get32 i r = XReg_get_u32 (x_regs (i_state i) r)"

definition x_set64 :: "XReg \<Rightarrow> u64 \<Rightarrow> Interpreter \<Rightarrow> Interpreter" where
  "x_set64 r v i = i\<lparr>i_state := (i_state i)\<lparr>x_regs := (x_regs (i_state i))(r := v)\<rparr>\<rparr>"

definition x_set32 :: "XReg \<Rightarrow> u32 \<Rightarrow> Interpreter \<Rightarrow> Interpreter" where
  "x_set32 r v i = x_set64 r (XReg_set_u32 v (x_get64 i r)) i"

definition f_get64 :: "Interpreter \<Rightarrow> FReg \<Rightarrow> u64" where
  "f_get64 i r = f_regs (i_state i) r"

definition f_get32 :: "Interpreter \<Rightarrow> FReg \<Rightarrow> u32" where
  "f_get32 i r = FReg_get_f32 (f_regs (i_state i) r)"

definition f_set64 :: "FReg \<Rightarrow> u64 \<Rightarrow> Interpreter \<Rightarrow> Interpreter" where
  "f_set64 r v i = i\<lparr>i_state := (i_state i)\<lparr>f_regs := (f_regs (i_state i))(r := v)\<rparr>\<rparr>"

definition f_set32 :: "FReg \<Rightarrow> u32 \<Rightarrow> Interpreter \<Rightarrow> Interpreter" where
  "f_set32 r v i = f_set64 r (FReg_set_f32 v (f_get64 i r)) i"

definition v_get128 :: "Interpreter \<Rightarrow> VReg \<Rightarrow> u128" where
  "v_get128 i r = v_regs (i_state i) r"

definition v_set128 :: "VReg \<Rightarrow> u128 \<Rightarrow> Interpreter \<Rightarrow> Interpreter" where
  "v_set128 r v i = i\<lparr>i_state := (i_state i)\<lparr>v_regs := (v_regs (i_state i))(r := v)\<rparr>\<rparr>"

definition get_fp :: "Interpreter \<Rightarrow> u64" where "get_fp i = ms_fp (i_state i)"
definition get_lr :: "Interpreter \<Rightarrow> u64" where "get_lr i = ms_lr (i_state i)"

definition set_fp :: "u64 \<Rightarrow> Interpreter \<Rightarrow> Interpreter" where
  "set_fp v i = i\<lparr>i_state := (i_state i)\<lparr>ms_fp := v\<rparr>\<rparr>"

definition set_lr :: "u64 \<Rightarrow> Interpreter \<Rightarrow> Interpreter" where
  "set_lr v i = i\<lparr>i_state := (i_state i)\<lparr>ms_lr := v\<rparr>\<rparr>"

definition set_pc :: "u64 \<Rightarrow> Interpreter \<Rightarrow> Interpreter" where
  "set_pc v i = i\<lparr>i_pc := v\<rparr>"

definition set_done :: "unit DoneReason \<Rightarrow> Interpreter \<Rightarrow> Interpreter" where
  "set_done d i = i\<lparr>i_state := (i_state i)\<lparr>done_reason := Some d\<rparr>\<rparr>"

definition set_mem :: "memory \<Rightarrow> Interpreter \<Rightarrow> Interpreter" where
  "set_mem m i = i\<lparr>i_mem := m\<rparr>"

section \<open>Helpers\<close>

datatype Insn = BaseI string | ExtI string

fun insn_WIDTH :: "Insn \<Rightarrow> u8" where
  "insn_WIDTH (BaseI n) = op_WIDTH (the (lookup_op for_each_op n))"
| "insn_WIDTH (ExtI n) = extended_op_WIDTH (the (lookup_op for_each_extended_op n))"

definition current_pc :: "Insn \<Rightarrow> Interpreter \<Rightarrow> u64" where
  "current_pc I i = unsafe_offset (i_pc i) (- ucast (insn_WIDTH I))"

definition done_trap_kind :: "Insn \<Rightarrow> TrapKind option \<Rightarrow> handler" where
  "done_trap_kind I kind i = (Break, set_done (Trap (current_pc I i) kind) i)"

definition done_trap :: "Insn \<Rightarrow> handler" where
  "done_trap I i = done_trap_kind I None i"

definition done_call_indirect_host :: "u8 \<Rightarrow> handler" where
  "done_call_indirect_host id' i = (Break, set_done (CallIndirectHost id' (i_pc i)) i)"

definition done_return_to_host :: "handler" where
  "done_return_to_host i = (Break, set_done (ReturnToHost ()) i)"

definition pc_rel :: "Insn \<Rightarrow> PcRelOffset \<Rightarrow> Interpreter \<Rightarrow> u64" where
  "pc_rel I offset i = current_pc I i + scast (offset_i32 offset)"

definition pc_rel_jump :: "Insn \<Rightarrow> PcRelOffset \<Rightarrow> handler" where
  "pc_rel_jump I offset i = (Continue (), set_pc (pc_rel I offset i) i)"

subsection \<open>The stack\<close>

definition set_sp_unchecked :: "u64 \<Rightarrow> Interpreter \<Rightarrow> Interpreter" where
  "set_sp_unchecked sp i = x_set64 Sp sp i"

definition set_sp :: "Insn \<Rightarrow> u64 \<Rightarrow> handler" where
  "set_sp I sp i =
     (let base_raw = stack_base (ms_stack (i_state i)) in
      if sp < base_raw then done_trap_kind I (Some StackOverflow) i
      else (Continue (), set_sp_unchecked sp i))"

text \<open>\<open>push\<close> and \<open>pop\<close> of a value of \<open>n\<close> bytes.\<close>

definition push :: "nat \<Rightarrow> Insn \<Rightarrow> 'a::len word \<Rightarrow> handler" where
  "push n I val i =
     (let new_sp = x_get64 i Sp - of_nat n in
      flow_bind (set_sp I new_sp i) (\<lambda>_ i.
        (Continue (), set_mem (write_ne n (i_mem i) new_sp val) i)))"

definition pop :: "nat \<Rightarrow> Interpreter \<Rightarrow> 'a::len word \<times> Interpreter" where
  "pop n i =
     (let sp = x_get64 i Sp; val = read_ne n (i_mem i) sp
      in (val, set_sp_unchecked (sp + of_nat n) i))"

subsection \<open>Addressing modes\<close>

text \<open>\<open>AddressingMode::addr::<T, I>\<close>, where \<open>n\<close> is the size of \<open>T\<close>.\<close>

type_synonym addr_mode = "nat \<Rightarrow> Insn \<Rightarrow> Interpreter \<Rightarrow> u64 flow"

definition addr_O32 :: "AddrO32 \<Rightarrow> addr_mode" where
  "addr_O32 self n I i = (Continue (x_get64 i (o32_addr self) + scast (o32_offset self)), i)"

definition addr_Z :: "AddrZ \<Rightarrow> addr_mode" where
  "addr_Z self n I i =
     (let host_addr = x_get64 i (z_addr self) in
      if host_addr = 0 then flow_bind (done_trap_kind I None i) (\<lambda>_ i. (Unwind, i))
      else (Continue (host_addr + scast (z_offset self)), i))"

definition addr_G32 :: "AddrG32 \<Rightarrow> addr_mode" where
  "addr_G32 self n I i =
     (let bound = x_get64 i (g32_host_heap_bound self);
          offset = ucast (g32_offset self) :: u64;
          wasm_addr = ucast (x_get32 i (g32_wasm_addr self)) :: u64 in
      if wasm_addr > bound - offset - of_nat n
      then flow_bind (done_trap_kind I (Some MemoryOutOfBounds) i) (\<lambda>_ i. (Unwind, i))
      else (Continue (x_get64 i (g32_host_heap_base self) + wasm_addr + offset), i))"

definition addr_G32Bne :: "AddrG32Bne \<Rightarrow> addr_mode" where
  "addr_G32Bne self n I i =
     (let bound = read_ne 8 (i_mem i)
            (x_get64 i (bne_host_heap_bound_addr self) + ucast (bne_host_heap_bound_offset self)) :: u64;
          wasm_addr = ucast (x_get32 i (bne_wasm_addr self)) :: u64;
          offset = ucast (bne_offset self) :: u64 in
      if wasm_addr > bound - offset - of_nat n
      then flow_bind (done_trap_kind I (Some MemoryOutOfBounds) i) (\<lambda>_ i. (Unwind, i))
      else (Continue (x_get64 i (bne_host_heap_base self) + wasm_addr + offset), i))"

definition load_ne :: "nat \<Rightarrow> Insn \<Rightarrow> addr_mode \<Rightarrow> Interpreter \<Rightarrow> 'a::len word flow" where
  "load_ne n I addr i = flow_bind (addr n I i) (\<lambda>a i. (Continue (read_ne n (i_mem i) a), i))"

definition store_ne :: "nat \<Rightarrow> Insn \<Rightarrow> addr_mode \<Rightarrow> 'a::len word \<Rightarrow> handler" where
  "store_ne n I addr val i =
     flow_bind (addr n I i) (\<lambda>a i. (Continue (), set_mem (write_ne n (i_mem i) a val) i))"

section \<open>Creating a machine\<close>

text \<open>\<open>Stack::new\<close>: \<open>alloc\<close> is the host's allocator, which takes the number of 16-byte
  elements and returns the address and the capacity, in elements, of the new buffer.\<close>

definition checked_next_multiple_of_16 :: "u64 \<Rightarrow> u64 option" where
  "checked_next_multiple_of_16 sz =
     (let r = sz mod 16 in if r = 0 then Some sz else checked_add sz (16 - r))"

definition Stack_new :: "(u64 \<Rightarrow> (u64 \<times> u64) option) \<Rightarrow> u64 \<Rightarrow> Stack option" where
  "Stack_new alloc sz =
     (let count = (case checked_next_multiple_of_16 sz of Some s \<Rightarrow> s | None \<Rightarrow> -1) div 16 in
      case alloc count of
        None \<Rightarrow> None
      | Some (base, capacity) \<Rightarrow> Some \<lparr>stack_base = base, stack_len = capacity * 16\<rparr>)"

definition stack_top :: "Stack \<Rightarrow> u64" where
  "stack_top s = stack_base s + stack_len s"

definition MachineState_with_stack :: "(u64 \<Rightarrow> (u64 \<times> u64) option) \<Rightarrow> u64 \<Rightarrow> MachineState option" where
  "MachineState_with_stack alloc stack_size =
     (case Stack_new alloc stack_size of
        None \<Rightarrow> None
      | Some s \<Rightarrow> Some \<lparr>x_regs = (\<lambda>_. 0)(Sp := stack_top s), f_regs = (\<lambda>_. 0), v_regs = (\<lambda>_. 0),
          ms_fp = HOST_RETURN_ADDR, ms_lr = HOST_RETURN_ADDR, ms_stack = s, done_reason = None\<rparr>)"

section \<open>Reading after writing\<close>

definition get_done :: "Interpreter \<Rightarrow> unit DoneReason option" where
  "get_done i = done_reason (i_state i)"

definition get_stack :: "Interpreter \<Rightarrow> Stack" where
  "get_stack i = ms_stack (i_state i)"

lemmas access_defs = x_get64_def x_set64_def f_get64_def f_set64_def v_get128_def v_set128_def
  get_fp_def get_lr_def set_fp_def set_lr_def set_pc_def set_done_def set_mem_def get_done_def
  get_stack_def

lemma x_get64_after [simp]:
  "x_get64 (x_set64 r v i) r' = (if r' = r then v else x_get64 i r')"
  "x_get64 (f_set64 fr w i) r' = x_get64 i r'"
  "x_get64 (v_set128 vr u i) r' = x_get64 i r'"
  "x_get64 (set_fp p i) r' = x_get64 i r'"
  "x_get64 (set_lr p i) r' = x_get64 i r'"
  "x_get64 (set_pc p i) r' = x_get64 i r'"
  "x_get64 (set_done d i) r' = x_get64 i r'"
  "x_get64 (set_mem m i) r' = x_get64 i r'"
  by (simp_all add: access_defs)

lemma f_get64_after [simp]:
  "f_get64 (x_set64 r v i) fr' = f_get64 i fr'"
  "f_get64 (f_set64 fr w i) fr' = (if fr' = fr then w else f_get64 i fr')"
  "f_get64 (v_set128 vr u i) fr' = f_get64 i fr'"
  "f_get64 (set_fp p i) fr' = f_get64 i fr'"
  "f_get64 (set_lr p i) fr' = f_get64 i fr'"
  "f_get64 (set_pc p i) fr' = f_get64 i fr'"
  "f_get64 (set_done d i) fr' = f_get64 i fr'"
  "f_get64 (set_mem m i) fr' = f_get64 i fr'"
  by (simp_all add: access_defs)

lemma v_get128_after [simp]:
  "v_get128 (x_set64 r v i) vr' = v_get128 i vr'"
  "v_get128 (f_set64 fr w i) vr' = v_get128 i vr'"
  "v_get128 (v_set128 vr u i) vr' = (if vr' = vr then u else v_get128 i vr')"
  "v_get128 (set_fp p i) vr' = v_get128 i vr'"
  "v_get128 (set_lr p i) vr' = v_get128 i vr'"
  "v_get128 (set_pc p i) vr' = v_get128 i vr'"
  "v_get128 (set_done d i) vr' = v_get128 i vr'"
  "v_get128 (set_mem m i) vr' = v_get128 i vr'"
  by (simp_all add: access_defs)

lemma get_fp_after [simp]:
  "get_fp (x_set64 r v i) = get_fp i"
  "get_fp (f_set64 fr w i) = get_fp i"
  "get_fp (v_set128 vr u i) = get_fp i"
  "get_fp (set_fp p i) = p"
  "get_fp (set_lr p i) = get_fp i"
  "get_fp (set_pc p i) = get_fp i"
  "get_fp (set_done d i) = get_fp i"
  "get_fp (set_mem m i) = get_fp i"
  by (simp_all add: access_defs)

lemma get_lr_after [simp]:
  "get_lr (x_set64 r v i) = get_lr i"
  "get_lr (f_set64 fr w i) = get_lr i"
  "get_lr (v_set128 vr u i) = get_lr i"
  "get_lr (set_fp p i) = get_lr i"
  "get_lr (set_lr p i) = p"
  "get_lr (set_pc p i) = get_lr i"
  "get_lr (set_done d i) = get_lr i"
  "get_lr (set_mem m i) = get_lr i"
  by (simp_all add: access_defs)

lemma i_pc_after [simp]:
  "i_pc (x_set64 r v i) = i_pc i"
  "i_pc (f_set64 fr w i) = i_pc i"
  "i_pc (v_set128 vr u i) = i_pc i"
  "i_pc (set_fp p i) = i_pc i"
  "i_pc (set_lr p i) = i_pc i"
  "i_pc (set_pc p i) = p"
  "i_pc (set_done d i) = i_pc i"
  "i_pc (set_mem m i) = i_pc i"
  by (simp_all add: access_defs)

lemma i_mem_after [simp]:
  "i_mem (x_set64 r v i) = i_mem i"
  "i_mem (f_set64 fr w i) = i_mem i"
  "i_mem (v_set128 vr u i) = i_mem i"
  "i_mem (set_fp p i) = i_mem i"
  "i_mem (set_lr p i) = i_mem i"
  "i_mem (set_pc p i) = i_mem i"
  "i_mem (set_done d i) = i_mem i"
  "i_mem (set_mem m i) = m"
  by (simp_all add: access_defs)

lemma get_done_after [simp]:
  "get_done (x_set64 r v i) = get_done i"
  "get_done (f_set64 fr w i) = get_done i"
  "get_done (v_set128 vr u i) = get_done i"
  "get_done (set_fp p i) = get_done i"
  "get_done (set_lr p i) = get_done i"
  "get_done (set_pc p i) = get_done i"
  "get_done (set_done d i) = Some d"
  "get_done (set_mem m i) = get_done i"
  by (simp_all add: access_defs)

lemma get_stack_after [simp]:
  "get_stack (x_set64 r v i) = get_stack i"
  "get_stack (f_set64 fr w i) = get_stack i"
  "get_stack (v_set128 vr u i) = get_stack i"
  "get_stack (set_fp p i) = get_stack i"
  "get_stack (set_lr p i) = get_stack i"
  "get_stack (set_pc p i) = get_stack i"
  "get_stack (set_done d i) = get_stack i"
  "get_stack (set_mem m i) = get_stack i"
  by (simp_all add: access_defs)

lemma x_get32_eq: "x_get32 i r = XReg_get_u32 (x_get64 i r)"
  by (simp add: x_get32_def x_get64_def)

lemma f_get32_eq: "f_get32 i r = FReg_get_f32 (f_get64 i r)"
  by (simp add: f_get32_def f_get64_def)

lemma XReg_get_set_u32 [simp]: "XReg_get_u32 (XReg_set_u32 x v) = x"
  unfolding XReg_get_u32_def XReg_set_u32_def
  by (rule bit_word_eqI) (auto simp: bit_simps)

lemma XReg_set_u32_high [simp]: "drop_bit 32 (XReg_set_u32 x v) = drop_bit 32 v"
  unfolding XReg_set_u32_def
  by (rule bit_word_eqI) (auto simp: bit_simps dest: bit_imp_le_length)

lemma FReg_get_set_f32 [simp]: "FReg_get_f32 (FReg_set_f32 x v) = x"
  unfolding FReg_get_f32_def FReg_set_f32_def
  by (rule bit_word_eqI) (auto simp: bit_simps)

lemma flow_bind_simps [simp]:
  "flow_bind (Continue x, i) f = f x i" "flow_bind (Break, i) f = (Break, i)"
  "flow_bind (Unwind, i) f = (Unwind, i)"
  by (simp_all add: flow_bind_def)

lemma Interpreter_eqI:
  assumes "\<And>r. x_get64 i r = x_get64 j r" "\<And>r. f_get64 i r = f_get64 j r"
    "\<And>r. v_get128 i r = v_get128 j r" "get_fp i = get_fp j" "get_lr i = get_lr j"
    "get_stack i = get_stack j" "get_done i = get_done j" "i_pc i = i_pc j" "i_mem i = i_mem j"
  shows "i = j"
proof -
  have "x_regs (i_state i) = x_regs (i_state j)" "f_regs (i_state i) = f_regs (i_state j)"
      "v_regs (i_state i) = v_regs (i_state j)"
    using assms(1-3) by (auto simp: access_defs)
  then show ?thesis
    using assms(4-9) by (cases i; cases j) (auto simp: access_defs intro!: MachineState.equality)
qed

section \<open>Addressing modes\<close>

text \<open>What a handler relies on of an addressing mode: it yields an address and changes nothing, or
  it records a trap at the current instruction.\<close>

locale addressing_mode =
  fixes addr :: addr_mode
  assumes addr_flow: "(\<exists>a. addr n I i = (Continue a, i)) \<or> (\<exists>k. addr n I i = (Break, set_done (Trap (current_pc I i) k) i))"
begin

lemma load_flow:
  "(\<exists>w. load_ne n I addr i = (Continue w, i)) \<or>
   (\<exists>k. load_ne n I addr i = (Break, set_done (Trap (current_pc I i) k) i))"
  using addr_flow [of n I i] by (auto simp: load_ne_def)

lemma store_flow:
  "(\<exists>a. store_ne n I addr v i = (Continue (), set_mem (write_ne n (i_mem i) a v) i)) \<or>
   (\<exists>k. store_ne n I addr v i = (Break, set_done (Trap (current_pc I i) k) i))"
  using addr_flow [of n I i] by (auto simp: store_ne_def)

end

interpretation o32: addressing_mode "addr_O32 a" for a
  by unfold_locales (simp add: addr_O32_def)

interpretation z: addressing_mode "addr_Z a" for a
  by unfold_locales (auto simp: addr_Z_def done_trap_kind_def Let_def)

interpretation g32: addressing_mode "addr_G32 a" for a
  by unfold_locales (auto simp: addr_G32_def done_trap_kind_def Let_def)

interpretation g32bne: addressing_mode "addr_G32Bne a" for a
  by unfold_locales (auto simp: addr_G32Bne_def done_trap_kind_def Let_def)

text \<open>The bounds check of the two heap modes, without wrap-around: \<open>bound - offset - size\<close>
  does not underflow, by the contract of these modes.\<close>

lemma unat_ucast_up:
  assumes "LENGTH('a::len) \<le> LENGTH('b::len)"
  shows "unat (ucast (w :: 'a word) :: 'b word) = unat w"
proof -
  have "unat w < 2 ^ LENGTH('a)" using unsigned_less [of w, where ?'a = nat] by simp
  also have "(2 :: nat) ^ LENGTH('a) \<le> 2 ^ LENGTH('b)" using assms by simp
  finally show ?thesis by (simp add: unsigned_ucast_eq unsigned_take_bit_eq take_bit_nat_eq_self)
qed

lemma unat_ucast_u64 [simp]:
  "unat (ucast (a :: u8) :: u64) = unat a" "unat (ucast (b :: u16) :: u64) = unat b"
  "unat (ucast (c :: u32) :: u64) = unat c"
  by (simp_all add: unat_ucast_up)

lemma unat_sub_le: "(b :: u64) \<le> a \<Longrightarrow> unat (a - b) = unat a - unat b"
  by (simp add: unat_sub_if' word_le_nat_alt)

lemma heap_check:
  assumes "unat offset + n \<le> unat (bound :: u64)"
  shows "wasm > bound - offset - of_nat n \<longleftrightarrow> unat wasm + unat offset + n > unat bound"
proof -
  have n: "unat (of_nat n :: u64) = n"
    using assms unat_less_u64 [of bound] by (intro unat_of_nat_u64) linarith
  have o: "unat (bound - offset) = unat bound - unat offset"
    using assms by (intro unat_sub_le) (simp add: word_le_nat_alt)
  then have "unat (bound - offset - of_nat n) = unat bound - unat offset - n"
    using assms n by (subst unat_sub_le) (simp_all add: word_le_nat_alt)
  then show ?thesis using assms by (simp add: word_less_nat_alt) linarith
qed

lemma heap_range:
  assumes "unat (wasm :: u64) + unat offset + n \<le> unat (bound :: u64)"
  shows "unat ((base + wasm + offset) - base :: u64) + n \<le> unat bound"
proof -
  have "unat (wasm + offset) = unat wasm + unat offset"
    using assms unat_less_u64 [of bound] by (simp add: unat_word_ariths)
  then show ?thesis using assms by simp
qed

section \<open>Stack operations\<close>

lemma set_sp_eq:
  "set_sp I sp i =
     (if sp < stack_base (get_stack i)
      then (Break, set_done (Trap (current_pc I i) (Some StackOverflow)) i)
      else (Continue (), x_set64 Sp sp i))"
  by (simp add: set_sp_def set_sp_unchecked_def done_trap_kind_def get_stack_def)

lemma push_eq:
  "push n I val i =
     (let sp = x_get64 i Sp - of_nat n in
      if sp < stack_base (get_stack i)
      then (Break, set_done (Trap (current_pc I i) (Some StackOverflow)) i)
      else (Continue (), set_mem (write_ne n (i_mem i) sp val) (x_set64 Sp sp i)))"
  by (simp add: push_def set_sp_eq Let_def)

lemma pop_eq:
  "pop n i = (read_ne n (i_mem i) (x_get64 i Sp), x_set64 Sp (x_get64 i Sp + of_nat n) i)"
  by (simp add: pop_def set_sp_unchecked_def Let_def)

lemma mem_write_outside:
  assumes "n \<le> unat (x - a)" "length bs = n"
  shows "mem_write m a bs x = m x"
  using assms by (simp add: mem_write_def)

lemma write_ne_below:
  assumes "x < a" "unat a + n \<le> 2 ^ 64"
  shows "write_ne n m a w x = m x"
proof -
  have "unat (x - a) = unat x + 2 ^ 64 - unat a"
    using assms(1) by (simp add: unat_sub_if' word_less_nat_alt)
  then have "n \<le> unat (x - a)" using assms by (simp add: word_less_nat_alt)
  then show ?thesis by (simp add: write_ne_def mem_write_outside)
qed

lemma push_then_pop:
  assumes "push n I (w :: 'a::len word) i = (Continue (), j)" "LENGTH('a) = 8 * n" "n \<le> 2 ^ 64"
  shows "pop n j = (w, x_set64 Sp (x_get64 i Sp) j)"
proof -
  have j: "j = set_mem (write_ne n (i_mem i) (x_get64 i Sp - of_nat n) w) (x_set64 Sp (x_get64 i Sp - of_nat n) i)"
    using assms(1) by (auto simp: push_eq Let_def split: if_splits)
  show ?thesis unfolding pop_eq by (simp add: j read_write_ne_same [OF assms(2,3)])
qed

text \<open>An interpreter with all registers and bytes zero, for concrete inputs.\<close>

definition zero_interp :: Interpreter where
  "zero_interp = \<lparr>i_state = \<lparr>x_regs = \<lambda>_. 0, f_regs = \<lambda>_. 0, v_regs = \<lambda>_. 0, ms_fp = 0, ms_lr = 0,
     ms_stack = \<lparr>stack_base = 0, stack_len = 0\<rparr>, done_reason = None\<rparr>, i_pc = 0, i_mem = \<lambda>_. 0\<rparr>"

lemma zero_interp_simps [simp]:
  "x_get64 zero_interp r = 0" "f_get64 zero_interp f = 0" "v_get128 zero_interp v = 0"
  "get_fp zero_interp = 0" "get_lr zero_interp = 0" "i_pc zero_interp = 0" "i_mem zero_interp a = 0"
  "get_done zero_interp = None" "stack_base (get_stack zero_interp) = 0"
  by (simp_all add: zero_interp_def access_defs)

section \<open>Properties\<close>

text \<open>C10: A heap access through the \<open>g32\<close> addressing mode, where the bound is at least the
  constant offset plus the access size as the mode requires, yields an address such that the
  whole access lies below the bound from the heap base; it traps with
  \<open>MemoryOutOfBounds\<close>, at the current instruction and with nothing else changed, exactly when
  the access would end beyond the bound.\<close>

theorem g32_bounds_check:
  assumes "unat (g32_offset self) + n \<le> unat (x_get64 i (g32_host_heap_bound self))"
  shows "case addr_G32 self n I i of
      (Continue a, i') \<Rightarrow> i' = i \<and>
        unat (a - x_get64 i (g32_host_heap_base self)) + n \<le> unat (x_get64 i (g32_host_heap_bound self)) \<and>
        unat (a - x_get64 i (g32_host_heap_base self)) = unat (x_get32 i (g32_wasm_addr self)) + unat (g32_offset self)
    | (Break, i') \<Rightarrow> i' = set_done (Trap (current_pc I i) (Some MemoryOutOfBounds)) i \<and>
        unat (x_get64 i (g32_host_heap_bound self)) < unat (x_get32 i (g32_wasm_addr self)) + unat (g32_offset self) + n
    | (Unwind, i') \<Rightarrow> False"
proof -
  let ?bound = "x_get64 i (g32_host_heap_bound self)" and ?off = "ucast (g32_offset self) :: u64"
    and ?wasm = "ucast (x_get32 i (g32_wasm_addr self)) :: u64" and ?base = "x_get64 i (g32_host_heap_base self)"
  have chk: "?wasm > ?bound - ?off - of_nat n \<longleftrightarrow> unat ?wasm + unat ?off + n > unat ?bound"
    using assms by (intro heap_check) simp
  show ?thesis
  proof (cases "unat ?wasm + unat ?off + n > unat ?bound")
    case True
    then show ?thesis by (simp add: addr_G32_def Let_def chk done_trap_kind_def)
  next
    case False
    then have "unat (?wasm + ?off) = unat ?wasm + unat ?off"
      using unat_less_u64 [of ?bound] by (simp add: unat_word_ariths)
    then show ?thesis using False by (simp add: addr_G32_def Let_def chk)
  qed
qed

theorem g32_bounds_check_witness:
  "let i = x_set64 X1 65536 (x_set64 X0 4096 (x_set64 X2 65530 zero_interp));
       self = \<lparr>g32_host_heap_base = X0, g32_host_heap_bound = X1, g32_wasm_addr = X2, g32_offset = 2\<rparr>
   in addr_G32 self 4 (BaseI ''XLoad32LeG32'') i = (Continue 69628, i)"
proof -
  define i where "i = x_set64 X1 65536 (x_set64 X0 4096 (x_set64 X2 65530 zero_interp))"
  define self where "self = \<lparr>g32_host_heap_base = X0, g32_host_heap_bound = X1, g32_wasm_addr = X2, g32_offset = 2\<rparr>"
  have "unat (g32_offset self) + 4 \<le> unat (x_get64 i (g32_host_heap_bound self))"
    by (simp add: i_def self_def)
  from g32_bounds_check [OF this, of "BaseI ''XLoad32LeG32''"]
  have "addr_G32 self 4 (BaseI ''XLoad32LeG32'') i = (Continue 69628, i)"
    by (auto simp: addr_G32_def self_def i_def x_get32_eq XReg_get_u32_def Let_def split: if_splits)
  then show ?thesis unfolding i_def [symmetric] self_def [symmetric] Let_def .
qed

text \<open>The \<open>g32bne\<close> addressing mode computes the same address, or the same trap, as
  \<open>g32\<close> does with a bound register that holds the bound the fused mode loads from memory.\<close>

theorem g32bne_is_g32_with_loaded_bound:
  assumes "x_get64 i b = read_ne 8 (i_mem i)
    (x_get64 i (bne_host_heap_bound_addr self) + ucast (bne_host_heap_bound_offset self))"
  shows "addr_G32Bne self n I i =
    addr_G32 \<lparr>g32_host_heap_base = bne_host_heap_base self, g32_host_heap_bound = b,
      g32_wasm_addr = bne_wasm_addr self, g32_offset = ucast (bne_offset self)\<rparr> n I i"
proof -
  have "(ucast (ucast (bne_offset self) :: u16) :: u64) = ucast (bne_offset self)"
    by (rule bit_word_eqI) (auto simp: bit_simps dest: bit_imp_le_length)
  then show ?thesis using assms by (simp add: addr_G32Bne_def addr_G32_def Let_def)
qed

theorem g32bne_is_g32_with_loaded_bound_witness:
  "addr_G32Bne \<lparr>bne_host_heap_base = X0, bne_host_heap_bound_addr = X1, bne_host_heap_bound_offset = 8,
      bne_wasm_addr = X2, bne_offset = 255\<rparr> 1 (BaseI ''XLoad8U32G32Bne'') zero_interp =
   addr_G32 \<lparr>g32_host_heap_base = X0, g32_host_heap_bound = X3, g32_wasm_addr = X2, g32_offset = 255\<rparr>
      1 (BaseI ''XLoad8U32G32Bne'') zero_interp"
proof -
  let ?self = "\<lparr>bne_host_heap_base = X0, bne_host_heap_bound_addr = X1, bne_host_heap_bound_offset = 8,
      bne_wasm_addr = X2, bne_offset = 255\<rparr>"
  have "read_ne 8 (i_mem zero_interp) a = (0 :: u64)" for a
    by (rule bit_word_eqI) (simp add: read_ne_def word_bit_simps mem_simps)
  then show ?thesis
    using g32bne_is_g32_with_loaded_bound [of zero_interp X3 ?self 1 "BaseI ''XLoad8U32G32Bne''"] by simp
qed

text \<open>Pushing a value either moves the stack pointer down by the value's size, keeps it at or
  above the base of the stack, changes no byte below the base and can be undone by a pop that
  returns the value, or it traps with \<open>StackOverflow\<close>, exactly when the value does not fit
  above the base, and then changes nothing but the reason for stopping.\<close>

theorem push_stays_on_stack:
  assumes "n \<le> unat (x_get64 i Sp)" "LENGTH('a::len) = 8 * n"
  shows "case push n I (w :: 'a word) i of
      (Continue _, j) \<Rightarrow> unat (x_get64 j Sp) = unat (x_get64 i Sp) - n \<and>
        stack_base (get_stack j) \<le> x_get64 j Sp \<and>
        (\<forall>a. a < stack_base (get_stack i) \<longrightarrow> i_mem j a = i_mem i a) \<and>
        pop n j = (w, x_set64 Sp (x_get64 i Sp) j)
    | (Break, j) \<Rightarrow> j = set_done (Trap (current_pc I i) (Some StackOverflow)) i \<and>
        unat (x_get64 i Sp) < unat (stack_base (get_stack i)) + n
    | (Unwind, j) \<Rightarrow> False"
proof -
  let ?sp = "x_get64 i Sp" and ?base = "stack_base (get_stack i)"
  have n: "unat (of_nat n :: u64) = n"
    using assms(1) unat_less_u64 [of ?sp] by (intro unat_of_nat_u64) linarith
  then have sp: "unat (?sp - of_nat n) = unat ?sp - n"
    using assms(1) by (subst unat_sub_le) (simp_all add: word_le_nat_alt)
  show ?thesis
  proof (cases "?sp - of_nat n < ?base")
    case True
    then show ?thesis using sp assms(1) by (simp add: push_eq Let_def word_less_nat_alt)
  next
    case False
    define j where "j = set_mem (write_ne n (i_mem i) (?sp - of_nat n) w) (x_set64 Sp (?sp - of_nat n) i)"
    have p: "push n I w i = (Continue (), j)" using False by (simp add: push_eq Let_def j_def)
    have len: "n \<le> 2 ^ 64" using assms(1) unat_less_u64 [of ?sp] by linarith
    have "i_mem j a = i_mem i a" if "a < ?base" for a
      unfolding j_def using that False sp assms(1) unat_less_u64 [of ?sp]
      by (simp add: write_ne_below not_less less_le_trans)
    then show ?thesis
      using sp False push_then_pop [OF p assms(2) len] unfolding p
      by simp (simp add: j_def not_less)
  qed
qed

theorem push_stays_on_stack_witness:
  "pop 8 (snd (push 8 (BaseI ''PushFrame'') (7 :: u64) (x_set64 Sp 64 zero_interp))) =
     ((7 :: u64), x_set64 Sp 64 (snd (push 8 (BaseI ''PushFrame'') (7 :: u64) (x_set64 Sp 64 zero_interp))))"
proof -
  have "8 \<le> unat (x_get64 (x_set64 Sp 64 zero_interp) Sp)" by simp
  from push_stays_on_stack [OF this, where w = "7 :: u64" and I = "BaseI ''PushFrame''"]
  show ?thesis by (simp add: push_eq Let_def)
qed

end
