(* ===== verification/Pulley_Control.thy ===== *)
theory Pulley_Control
  imports Pulley_Machine
begin

unbundle bit_operations_syntax

text \<open>
  The control flow and stack frame handlers of \<open>impl OpVisitor for Interpreter\<close> in
  \<open>pulley/src/interp.rs\<close>, one definition per method; a method generated by
  \<open>br_if_imm!\<close> is written out. A jump through a register goes to whatever address the register
  holds; the source requires it not to be null.
\<close>

definition nop :: "handler" where
  "nop i =
     (Continue (), i)"

definition ret :: "handler" where
  "ret i =
     (let lr = get_lr i in
      if lr = HOST_RETURN_ADDR then done_return_to_host i
      else (Continue (), set_pc lr i))"

definition call :: "PcRelOffset \<Rightarrow> handler" where
  "call offset i =
     (let return_addr = i_pc i; i = set_lr return_addr i
      in pc_rel_jump (BaseI ''Call'') offset i)"

definition call1 :: "XReg \<Rightarrow> PcRelOffset \<Rightarrow> handler" where
  "call1 arg1 offset i =
     (let return_addr = i_pc i; i = set_lr return_addr i;
          i = x_set64 X0 (x_get64 i arg1) i
      in pc_rel_jump (BaseI ''Call1'') offset i)"

definition call2 :: "XReg \<Rightarrow> XReg \<Rightarrow> PcRelOffset \<Rightarrow> handler" where
  "call2 arg1 arg2 offset i =
     (let return_addr = i_pc i; i = set_lr return_addr i;
          (x0, x1) = (x_get64 i arg1, x_get64 i arg2);
          i = x_set64 X0 x0 i;
          i = x_set64 X1 x1 i
      in pc_rel_jump (BaseI ''Call2'') offset i)"

definition call3 :: "XReg \<Rightarrow> XReg \<Rightarrow> XReg \<Rightarrow> PcRelOffset \<Rightarrow> handler" where
  "call3 arg1 arg2 arg3 offset i =
     (let return_addr = i_pc i; i = set_lr return_addr i;
          (x0, x1, x2) = (x_get64 i arg1, x_get64 i arg2, x_get64 i arg3);
          i = x_set64 X0 x0 i;
          i = x_set64 X1 x1 i;
          i = x_set64 X2 x2 i
      in pc_rel_jump (BaseI ''Call3'') offset i)"

definition call4 :: "XReg \<Rightarrow> XReg \<Rightarrow> XReg \<Rightarrow> XReg \<Rightarrow> PcRelOffset \<Rightarrow> handler" where
  "call4 arg1 arg2 arg3 arg4 offset i =
     (let return_addr = i_pc i; i = set_lr return_addr i;
          (x0, x1, x2, x3) = (x_get64 i arg1, x_get64 i arg2, x_get64 i arg3, x_get64 i arg4);
          i = x_set64 X0 x0 i;
          i = x_set64 X1 x1 i;
          i = x_set64 X2 x2 i;
          i = x_set64 X3 x3 i
      in pc_rel_jump (BaseI ''Call4'') offset i)"

definition call_indirect :: "XReg \<Rightarrow> handler" where
  "call_indirect dst i =
     (let return_addr = i_pc i; i = set_lr return_addr i
      in (Continue (), set_pc (x_get64 i dst) i))"

definition jump :: "PcRelOffset \<Rightarrow> handler" where
  "jump offset i =
     pc_rel_jump (BaseI ''Jump'') offset i"

definition xjump :: "XReg \<Rightarrow> handler" where
  "xjump r i =
     (Continue (), set_pc (x_get64 i r) i)"

definition br_if32 :: "XReg \<Rightarrow> PcRelOffset \<Rightarrow> handler" where
  "br_if32 cond offset i =
     (let cond' = x_get32 i cond
      in if cond' \<noteq> 0 then pc_rel_jump (BaseI ''BrIf'') offset i else (Continue (), i))"

definition br_if_not32 :: "XReg \<Rightarrow> PcRelOffset \<Rightarrow> handler" where
  "br_if_not32 cond offset i =
     (let cond' = x_get32 i cond
      in if cond' = 0 then pc_rel_jump (BaseI ''BrIfNot'') offset i else (Continue (), i))"

text \<open>A branch on a comparison of two registers, once for each width; the twelve instances are in the table of
  \<open>Pulley_Dispatch\<close>.\<close>

definition br_if_x32 :: "Insn \<Rightarrow> (u32 \<Rightarrow> u32 \<Rightarrow> bool) \<Rightarrow> XReg \<Rightarrow> XReg \<Rightarrow> PcRelOffset \<Rightarrow> handler" where
  "br_if_x32 I f a b offset i =
     (let a = x_get32 i a; b = x_get32 i b
      in if f a b then pc_rel_jump I offset i else (Continue (), i))"

definition br_if_x64 :: "Insn \<Rightarrow> (u64 \<Rightarrow> u64 \<Rightarrow> bool) \<Rightarrow> XReg \<Rightarrow> XReg \<Rightarrow> PcRelOffset \<Rightarrow> handler" where
  "br_if_x64 I f a b offset i =
     (let a = x_get64 i a; b = x_get64 i b
      in if f a b then pc_rel_jump I offset i else (Continue (), i))"

text \<open>The readings of a register as an integer, with and without sign, and the macro
  \<open>br_if_imm!\<close>, whose instances are in the table of \<open>Pulley_Dispatch\<close>.\<close>

definition get_i32 :: "Interpreter \<Rightarrow> XReg \<Rightarrow> int" where "get_i32 i r = sint (x_get32 i r)"
definition get_u32 :: "Interpreter \<Rightarrow> XReg \<Rightarrow> int" where "get_u32 i r = uint (x_get32 i r)"
definition get_i64 :: "Interpreter \<Rightarrow> XReg \<Rightarrow> int" where "get_i64 i r = sint (x_get64 i r)"
definition get_u64 :: "Interpreter \<Rightarrow> XReg \<Rightarrow> int" where "get_u64 i r = uint (x_get64 i r)"

definition br_if_imm :: "Insn \<Rightarrow> (Interpreter \<Rightarrow> XReg \<Rightarrow> int) \<Rightarrow> (int \<Rightarrow> int \<Rightarrow> bool) \<Rightarrow> XReg \<Rightarrow> int \<Rightarrow> PcRelOffset \<Rightarrow> handler" where
  "br_if_imm I get op a b offset i =
     (let a = get i a
      in if op a b then pc_rel_jump I offset i else (Continue (), i))"

definition br_table32 :: "XReg \<Rightarrow> u32 \<Rightarrow> handler" where
  "br_table32 idx amt i =
     (let idx' = min (x_get32 i idx) (amt - 1);
          i = set_pc (unsafe_offset (i_pc i) (ucast idx' * 4)) i
      in case decode_PcRelOffset (UnsafeStream (i_mem i)) (i_pc i) of
           Ok (rel, tmp) \<Rightarrow> (Continue (), set_pc (unsafe_offset (i_pc i) (scast (offset_i32 rel))) i)
         | _ \<Rightarrow> (Unwind, i))"

definition push_frame :: "handler" where
  "push_frame i =
     flow_bind (push 8 (BaseI ''PushFrame'') (get_lr i) i) (\<lambda>_ i.
     flow_bind (push 8 (BaseI ''PushFrame'') (get_fp i) i) (\<lambda>_ i.
       (Continue (), set_fp (x_get64 i Sp) i)))"

text \<open>The two loops over the saved registers.\<close>

fun save_regs :: "XReg list \<Rightarrow> u32 \<Rightarrow> handler" where
  "save_regs [] offset i = (Continue (), i)"
| "save_regs (r # rs) offset i =
     (let offset = offset - 8
      in flow_bind (store_ne 8 (BaseI ''PushFrameSave'')
           (addr_O32 \<lparr>o32_addr = Sp, o32_offset = offset\<rparr>) (x_get64 i r) i) (\<lambda>_ i.
         save_regs rs offset i))"

fun restore_regs :: "XReg list \<Rightarrow> u32 \<Rightarrow> handler" where
  "restore_regs [] offset i = (Continue (), i)"
| "restore_regs (r # rs) offset i =
     (let offset = offset - 8
      in flow_bind (load_ne 8 (BaseI ''PopFrameRestore'')
           (addr_O32 \<lparr>o32_addr = Sp, o32_offset = offset\<rparr>) i) (\<lambda>val i.
         restore_regs rs offset (x_set64 r val i)))"

definition push_frame_save :: "u16 \<Rightarrow> UpperRegSet \<Rightarrow> handler" where
  "push_frame_save amt regs i =
     (let ptr_size = 8;
          full_amt = ucast amt + 2 * ptr_size :: u64;
          new_sp = x_get64 i Sp - full_amt
      in flow_bind (set_sp (BaseI ''PushFrameSave'') new_sp i) (\<lambda>_ i.
         flow_bind (store_ne 8 (BaseI ''PushFrameSave'')
           (addr_O32 \<lparr>o32_addr = Sp, o32_offset = ucast (full_amt - 1 * ptr_size)\<rparr>) (get_lr i) i) (\<lambda>_ i.
         flow_bind (store_ne 8 (BaseI ''PushFrameSave'')
           (addr_O32 \<lparr>o32_addr = Sp, o32_offset = ucast (full_amt - 2 * ptr_size)\<rparr>) (get_fp i) i) (\<lambda>_ i.
         let offset = ucast amt :: u32;
             i = set_fp (x_get64 i Sp + scast offset) i
         in case (UpperRegSet_into_iter XReg_new regs :: (XReg list, UB) res) of
              Ok rs \<Rightarrow> save_regs rs offset i
            | _ \<Rightarrow> (Unwind, i)))))"

definition pop_frame :: "handler" where
  "pop_frame i =
     (let i = set_sp_unchecked (get_fp i) i;
          (fp, i) = pop 8 i;
          (lr, i) = pop 8 i
      in (Continue (), set_lr lr (set_fp fp i)))"

definition pop_frame_restore :: "u16 \<Rightarrow> UpperRegSet \<Rightarrow> handler" where
  "pop_frame_restore amt regs i =
     (case (UpperRegSet_into_iter XReg_new regs :: (XReg list, UB) res) of
        Ok rs \<Rightarrow> flow_bind (restore_regs rs (ucast amt) i) (\<lambda>_ i. pop_frame i)
      | _ \<Rightarrow> (Unwind, i))"

definition stack_alloc32 :: "u32 \<Rightarrow> handler" where
  "stack_alloc32 amt i =
     (let new_sp = x_get64 i Sp - ucast amt
      in flow_bind (set_sp (BaseI ''StackAlloc32'') new_sp i) (\<lambda>_ i. (Continue (), i)))"

definition stack_free32 :: "u32 \<Rightarrow> handler" where
  "stack_free32 amt i =
     (let new_sp = x_get64 i Sp + ucast amt
      in (Continue (), set_sp_unchecked new_sp i))"

section \<open>Frames\<close>

lemma x_set64_twice [simp]: "x_set64 r v (x_set64 r w i) = x_set64 r v i"
  by (simp add: x_set64_def)

lemma push_frame_eq:
  "push_frame i =
     (let I = BaseI ''PushFrame''; base = stack_base (get_stack i); sp = x_get64 i Sp;
          i1 = set_mem (write_ne 8 (i_mem i) (sp - 8) (get_lr i)) (x_set64 Sp (sp - 8) i);
          i2 = set_mem (write_ne 8 (i_mem i1) (sp - 16) (get_fp i)) (x_set64 Sp (sp - 16) i1)
      in if sp - 8 < base then (Break, set_done (Trap (current_pc I i) (Some StackOverflow)) i)
         else if sp - 16 < base then (Break, set_done (Trap (current_pc I i) (Some StackOverflow)) i1)
         else (Continue (), set_fp (sp - 16) i2))"
  by (simp add: push_frame_def push_eq Let_def current_pc_def)

lemma pop_frame_eq:
  "pop_frame i =
     (Continue (), set_lr (read_ne 8 (i_mem i) (get_fp i + 8)) (set_fp (read_ne 8 (i_mem i) (get_fp i))
        (x_set64 Sp (get_fp i + 16) i)))"
  by (simp add: pop_frame_def pop_eq set_sp_unchecked_def Let_def add.commute [of 16])

lemma pop_frame_reads:
  assumes "pop_frame j = (c, j')"
  shows "c = Continue ()" "x_get64 j' Sp = get_fp j + 16" "get_fp j' = read_ne 8 (i_mem j) (get_fp j)"
    "get_lr j' = read_ne 8 (i_mem j) (get_fp j + 8)" "r \<noteq> Sp \<Longrightarrow> x_get64 j' r = x_get64 j r"
  using assms by (auto simp: pop_frame_eq)

text \<open>The memory after \<open>save_regs\<close>: the values go into consecutive 8-byte slots, the last one
  at the offset \<open>q\<close> from the stack pointer.\<close>

fun save_slots :: "u64 \<Rightarrow> nat \<Rightarrow> u64 list \<Rightarrow> memory \<Rightarrow> memory" where
  "save_slots sp q [] m = m"
| "save_slots sp q (v # vs) m = save_slots sp q vs (write_ne 8 m (sp + of_nat (q + 8 * length vs)) v)"

lemma scast_of_nat_u32: "p < 2 ^ 31 \<Longrightarrow> (scast (of_nat p :: u32) :: u64) = of_nat p"
proof -
  assume p: "p < 2 ^ 31"
  then have "sint (of_nat p :: u32) = int p"
    by (simp add: sint_uint uint_nat unat_of_nat take_bit_nat_eq_self signed_take_bit_int_eq_self)
  then show ?thesis by (simp add: scast_eq)
qed

lemma set_mem_twice [simp]: "set_mem m (set_mem m' i) = set_mem m i"
  by (simp add: set_mem_def)

lemma x_get64_set_mem [simp]: "x_get64 (set_mem m i) = x_get64 i"
  by (rule ext) simp

lemma offset_step: "(of_nat (q + 8 * length (r # rs)) :: u32) - 8 = of_nat (q + 8 * length rs)"
  by simp

lemma save_regs_eq:
  assumes "q + 8 * length rs < 2 ^ 31"
  shows "save_regs rs (of_nat (q + 8 * length rs)) i =
    (Continue (), set_mem (save_slots (x_get64 i Sp) q (map (x_get64 i) rs) (i_mem i)) i)"
  using assms
proof (induction rs arbitrary: i)
  case Nil
  then show ?case by (simp add: set_mem_def)
next
  case (Cons r rs)
  let ?a = "x_get64 i Sp + of_nat (q + 8 * length rs)"
  let ?i = "set_mem (write_ne 8 (i_mem i) ?a (x_get64 i r)) i"
  have p: "q + 8 * length rs < 2 ^ 31" using Cons.prems by simp
  have "save_regs (r # rs) (of_nat (q + 8 * length (r # rs))) i = save_regs rs (of_nat (q + 8 * length rs)) ?i"
    unfolding save_regs.simps Let_def offset_step
    by (simp only: store_ne_def addr_O32_def scast_of_nat_u32 [OF p] flow_bind_simps AddrO32.simps)
  also have "\<dots> = (Continue (), set_mem (save_slots (x_get64 ?i Sp) q (map (x_get64 ?i) rs) (i_mem ?i)) ?i)"
    by (rule Cons.IH [OF p])
  finally show ?case by (simp del: save_regs.simps)
qed

lemma save_slots_frame:
  assumes "q + 8 * length vs \<le> p" "p + 8 \<le> 2 ^ 63"
  shows "read_ne 8 (save_slots sp q vs m) (sp + of_nat p) = (read_ne 8 m (sp + of_nat p) :: u64)"
  using assms
proof (induction vs arbitrary: m)
  case (Cons v vs)
  have "apart (sp + of_nat p) 8 (sp + of_nat (q + 8 * length vs)) 8"
    using Cons.prems by (subst apart_sym) (intro apart_offsets, simp_all)
  then show ?case
    using Cons.IH [of "write_ne 8 m (sp + of_nat (q + 8 * length vs)) v"] Cons.prems
    by (simp add: read_write_ne_apart del: of_nat_add of_nat_mult)
qed simp

lemma save_slots_read:
  assumes "q + 8 * length vs \<le> 2 ^ 63" "k < length vs"
  shows "read_ne 8 (save_slots sp q vs m) (sp + of_nat (q + 8 * (length vs - Suc k))) = vs ! k"
  using assms
proof (induction vs arbitrary: m k)
  case (Cons v vs)
  show ?case
  proof (cases k)
    case 0
    have "read_ne 8 (save_slots sp q (v # vs) m) (sp + of_nat (q + 8 * length vs)) = v"
      using Cons.prems save_slots_frame [of q vs "q + 8 * length vs" sp "write_ne 8 m (sp + of_nat (q + 8 * length vs)) v"]
      by (simp add: mem_simps del: of_nat_add of_nat_mult)
    then show ?thesis using 0 by simp
  next
    case (Suc k')
    then show ?thesis using Cons.IH [of k'] Cons.prems by (simp del: of_nat_add of_nat_mult)
  qed
qed simp

text \<open>What \<open>restore_regs\<close> leaves in the registers.\<close>

definition restored :: "nat \<Rightarrow> XReg list \<Rightarrow> Interpreter \<Rightarrow> Interpreter \<Rightarrow> bool" where
  "restored q rs i j \<longleftrightarrow> get_fp j = get_fp i \<and> i_mem j = i_mem i \<and>
    (\<forall>r. r \<notin> set rs \<longrightarrow> x_get64 j r = x_get64 i r) \<and>
    (\<forall>k < length rs. x_get64 j (rs ! k) =
       read_ne 8 (i_mem i) (x_get64 i Sp + of_nat (q + 8 * (length rs - Suc k))))"

lemma restored_Cons:
  assumes j: "restored q rs (x_set64 r (read_ne 8 (i_mem i) (x_get64 i Sp + of_nat (q + 8 * length rs))) i) j"
    and r: "r \<noteq> Sp" "r \<notin> set rs"
  shows "restored q (r # rs) i j"
  unfolding restored_def
proof (intro conjI allI impI)
  fix k assume "k < length (r # rs)"
  then show "x_get64 j ((r # rs) ! k) =
      read_ne 8 (i_mem i) (x_get64 i Sp + of_nat (q + 8 * (length (r # rs) - Suc k)))"
    using j r unfolding restored_def by (cases k) (simp_all del: of_nat_add of_nat_mult)
qed (use j r in \<open>simp_all add: restored_def\<close>)

lemma restore_regs_eq:
  assumes "q + 8 * length rs < 2 ^ 31" "Sp \<notin> set rs" "distinct rs"
  shows "\<exists>j. restore_regs rs (of_nat (q + 8 * length rs)) i = (Continue (), j) \<and> restored q rs i j"
  using assms
proof (induction rs arbitrary: i)
  case Nil
  then show ?case by (simp add: restored_def)
next
  case (Cons r rs)
  let ?i = "x_set64 r (read_ne 8 (i_mem i) (x_get64 i Sp + of_nat (q + 8 * length rs))) i"
  have p: "q + 8 * length rs < 2 ^ 31" using Cons.prems by simp
  obtain j where j: "restore_regs rs (of_nat (q + 8 * length rs)) ?i = (Continue (), j)" "restored q rs ?i j"
    using Cons.IH [of ?i] Cons.prems p by auto
  have "restore_regs (r # rs) (of_nat (q + 8 * length (r # rs))) i = restore_regs rs (of_nat (q + 8 * length rs)) ?i"
    unfolding restore_regs.simps Let_def offset_step
    by (simp only: load_ne_def addr_O32_def scast_of_nat_u32 [OF p] flow_bind_simps AddrO32.simps)
  then show ?case
    using j restored_Cons [OF j(2)] Cons.prems by auto
qed

subsection \<open>Saved register sets\<close>

definition in_upper :: "UpperRegSet \<Rightarrow> XReg \<Rightarrow> bool" where
  "in_upper regs r \<longleftrightarrow> 16 \<le> XReg_to_u8 r \<and> bit (upper_bitset regs) (unat (XReg_to_u8 r) - 16)"

lemma upper_regs:
  obtains rs where "UpperRegSet_into_iter XReg_new regs = (Ok rs :: (XReg list, UB) res)"
    "distinct rs" "\<And>r. r \<in> set rs \<longleftrightarrow> in_upper regs r"
    "length rs = bs_len (upper_bitset regs)"
proof -
  let ?is = "sorted_list_of_set (elements (upper_bitset regs))"
  obtain rs where rs: "UpperRegSet_into_iter XReg_new regs = (Ok rs :: (XReg list, UB) res)"
    "map XReg_to_u8 rs = map (\<lambda>i. of_nat i + 16) ?is"
    using xr.upper_into_iter [of regs] by blast
  have small: "i < 16" if "i \<in> set ?is" for i
    using that elements_less [of i "upper_bitset regs"] by simp
  have un: "unat (of_nat i + 16 :: u8) = i + 16" if "i < 16" for i
    using that by (simp add: unat_word_ariths unat_of_nat)
  have "inj_on (\<lambda>i. of_nat i + 16 :: u8) (set ?is)"
    by (rule inj_onI) (metis small un add_right_cancel)
  then have "distinct (map XReg_to_u8 rs)" unfolding rs by (simp add: distinct_map)
  then have d: "distinct rs" by (simp add: distinct_map)
  have "r \<in> set rs \<longleftrightarrow> in_upper regs r" for r
  proof -
    have "r \<in> set rs \<longleftrightarrow> XReg_to_u8 r \<in> set (map XReg_to_u8 rs)"
      by (auto simp: xr.to_u8_inj)
    also have "\<dots> \<longleftrightarrow> (\<exists>i\<in>set ?is. unat (XReg_to_u8 r) = i + 16)"
      unfolding rs(2) set_map image_iff
    proof (rule bex_cong [OF refl])
      fix i assume "i \<in> set ?is"
      then have "unat (of_nat i + 16 :: u8) = i + 16" by (intro un small)
      then show "XReg_to_u8 r = of_nat i + 16 \<longleftrightarrow> unat (XReg_to_u8 r) = i + 16"
        by (simp add: word_unat_eq_iff)
    qed
    also have "\<dots> \<longleftrightarrow> in_upper regs r"
      by (force simp: in_upper_def word_le_nat_alt elements_def)
    finally show ?thesis .
  qed
  moreover have "length rs = bs_len (upper_bitset regs)"
    using arg_cong [OF rs(2), of length] by (simp add: card_elements bs_len_def)
  ultimately show ?thesis using that rs(1) d by blast
qed

subsection \<open>Entering and leaving a frame\<close>

lemma x_get64_set_fp [simp]: "x_get64 (set_fp p i) = x_get64 i"
  by (rule ext) simp

lemma set_fp_set_mem [simp]: "set_fp p (set_mem m i) = set_mem m (set_fp p i)"
  by (simp add: set_mem_def set_fp_def)

lemma push_frame_save_eq:
  assumes rs: "UpperRegSet_into_iter XReg_new regs = (Ok rs :: (XReg list, UB) res)"
    and amt: "unat amt = q + 8 * length rs"
  shows "push_frame_save amt regs i =
    (let sp = x_get64 i Sp - (of_nat (q + 8 * length rs) + 16); i1 = x_set64 Sp sp i;
         m = write_ne 8 (write_ne 8 (i_mem i) (sp + of_nat (q + 8 * length rs + 8)) (get_lr i))
               (sp + of_nat (q + 8 * length rs)) (get_fp i)
     in if sp < stack_base (get_stack i)
        then (Break, set_done (Trap (current_pc (BaseI ''PushFrameSave'') i) (Some StackOverflow)) i)
        else (Continue (), set_mem (save_slots sp q (map (x_get64 i1) rs) m)
                (set_fp (sp + of_nat (q + 8 * length rs)) i1)))"
proof -
  have b: "q + 8 * length rs < 2 ^ 16" using amt unsigned_less [of amt, where 'a = nat] by simp
  have u64: "(ucast amt :: u64) = of_nat (q + 8 * length rs)"
    unfolding amt [symmetric] by (simp add: unat_ucast_up word_unat_eq_iff)
  have u32: "(ucast amt :: u32) = of_nat (q + 8 * length rs)"
    unfolding amt [symmetric] by (simp add: unat_ucast_up word_unat_eq_iff)
  have off: "(scast (ucast (of_nat p :: u64) :: u32) :: u64) = of_nat p" if "p < 2 ^ 31" for p
    using that scast_of_nat_u32 [of p] by (simp add: unsigned_of_nat take_bit_nat_eq_self)
  let ?n = "q + 8 * length rs"
  have o1: "(ucast (of_nat ?n + 2 * 8 - 1 * 8 :: u64) :: u32) = ucast (of_nat (?n + 8) :: u64)"
    and o2: "(ucast (of_nat ?n + 2 * 8 - 2 * 8 :: u64) :: u32) = ucast (of_nat ?n :: u64)"
    by (simp_all add: add.commute)
  have s: "save_regs rs (of_nat ?n) i' =
      (Continue (), set_mem (save_slots (x_get64 i' Sp) q (map (x_get64 i') rs) (i_mem i')) i')" for i'
    using b by (intro save_regs_eq) simp
  have b1: "?n < 2 ^ 31" "?n + 8 < 2 ^ 31" using b by simp_all
  show ?thesis
    unfolding push_frame_save_def u64 u32 Let_def o1 o2 rs res.case set_sp_eq store_ne_def addr_O32_def
      flow_bind_simps AddrO32.simps off [OF b1(1)] off [OF b1(2)] scast_of_nat_u32 [OF b1(1)] s
    by (simp del: of_nat_add of_nat_mult add: flow_bind_simps)
qed

lemma saved_frame_reads:
  assumes n: "n = q + 8 * length vs" and b: "n < 2 ^ 16"
    and m: "mem_read m (sp + of_nat q) (8 * length vs + 16) =
      mem_read (save_slots sp q vs (write_ne 8 (write_ne 8 m0 (sp + of_nat (n + 8)) lr) (sp + of_nat n) fp))
        (sp + of_nat q) (8 * length vs + 16)"
  shows "read_ne 8 m (sp + of_nat n) = (fp :: u64)" "read_ne 8 m (sp + of_nat (n + 8)) = (lr :: u64)"
    "k < length vs \<Longrightarrow> read_ne 8 m (sp + of_nat (q + 8 * (length vs - Suc k))) = vs ! k"
proof -
  have r: "read_ne 8 m (sp + of_nat p) = (read_ne 8 (save_slots sp q vs
      (write_ne 8 (write_ne 8 m0 (sp + of_nat (n + 8)) lr) (sp + of_nat n) fp)) (sp + of_nat p) :: u64)"
    if "q \<le> p" "p + 8 \<le> n + 16" for p
  proof -
    have "p - q + 8 \<le> 8 * length vs + 16" using that n by arith
    from read_ne_subrange [OF m this] show ?thesis
      using that(1) by (simp add: add.assoc flip: of_nat_add)
  qed
  have ap: "apart (sp + of_nat (n + 8)) 8 (sp + of_nat n) 8"
    using b by (subst apart_sym) (intro apart_offsets, simp_all)
  show "read_ne 8 m (sp + of_nat n) = fp"
    using b n by (subst r) (simp_all add: save_slots_frame mem_simps del: of_nat_add of_nat_mult)
  show "read_ne 8 m (sp + of_nat (n + 8)) = lr"
    using b n ap by (subst r)
      (simp_all add: save_slots_frame read_write_ne_apart mem_simps del: of_nat_add of_nat_mult)
  show "read_ne 8 m (sp + of_nat (q + 8 * (length vs - Suc k))) = vs ! k" if "k < length vs"
    using b n that by (subst r) (simp_all add: save_slots_read del: of_nat_add of_nat_mult)
qed

section \<open>Properties\<close>

text \<open>C5: \<open>push_frame_save\<close> and \<open>pop_frame_restore\<close> with the same operands are inverse around any
  function body that ends in a state \<open>j\<close> with the stack pointer and the frame pointer it was entered with
  and with the slots of the saved registers and the two words of the frame above them unchanged, whatever it
  did to the locals below those slots, to the rest of memory and to the other registers: the frame pointer, the link
  register, the stack pointer and every callee-saved register of the operand set have their old values again,
  and every other integer register keeps the value the body left in it. The frame must be
  large enough for the saved registers, and the stack pointer must not be one of them.\<close>

theorem push_pop_frame_save:
  assumes push: "push_frame_save amt regs i = (Continue (), i1)"
    and room: "8 * bs_len (upper_bitset regs) \<le> unat amt" and sp: "\<not> in_upper regs Sp"
    and j: "x_get64 j Sp = x_get64 i1 Sp" "get_fp j = get_fp i1"
    and saved: "area = x_get64 i1 Sp + of_nat (unat amt - 8 * bs_len (upper_bitset regs))"
      "mem_read (i_mem j) area (8 * bs_len (upper_bitset regs) + 16) =
       mem_read (i_mem i1) area (8 * bs_len (upper_bitset regs) + 16)"
  shows "\<exists>k. pop_frame_restore amt regs j = (Continue (), k) \<and>
    get_fp k = get_fp i \<and> get_lr k = get_lr i \<and> x_get64 k Sp = x_get64 i Sp \<and>
    (\<forall>r. r \<noteq> Sp \<longrightarrow> x_get64 k r = x_get64 (if in_upper regs r then i else j) r)"
proof -
  obtain rs where rs: "UpperRegSet_into_iter XReg_new regs = (Ok rs :: (XReg list, UB) res)" "distinct rs"
    "\<And>r. r \<in> set rs \<longleftrightarrow> in_upper regs r" "length rs = bs_len (upper_bitset regs)"
    using upper_regs by blast
  define q n where "q = unat amt - 8 * length rs" and "n = unat amt"
  have n: "n = q + 8 * length rs" "n < 2 ^ 16"
    using room rs(4) unsigned_less [of amt, where 'a = nat] by (simp_all add: q_def n_def)
  have amt: "unat amt = q + 8 * length rs" using n by (simp add: n_def)
  have amt32: "(ucast amt :: u32) = of_nat (q + 8 * length rs)"
    unfolding amt [symmetric] by (simp add: unat_ucast_up word_unat_eq_iff)
  define sp' where "sp' = x_get64 i Sp - (of_nat n + 16)"
  define vs where "vs = map (x_get64 i) rs"
  have vs: "map (x_get64 (x_set64 Sp sp' i)) rs = vs" "length vs = length rs"
    using sp rs(3) by (auto simp: vs_def)
  have i1: "i1 = set_mem (save_slots sp' q vs (write_ne 8 (write_ne 8 (i_mem i) (sp' + of_nat (n + 8)) (get_lr i))
      (sp' + of_nat n) (get_fp i))) (set_fp (sp' + of_nat n) (x_set64 Sp sp' i))"
    using push unfolding push_frame_save_eq [OF rs(1) amt] n(1) [symmetric] Let_def sp'_def [symmetric] vs
    by (auto split: if_splits)
  have m: "mem_read (i_mem j) (sp' + of_nat q) (8 * length vs + 16) = mem_read (save_slots sp' q vs
      (write_ne 8 (write_ne 8 (i_mem i) (sp' + of_nat (n + 8)) (get_lr i)) (sp' + of_nat n) (get_fp i)))
      (sp' + of_nat q) (8 * length vs + 16)"
    using saved by (simp add: i1 vs(2) rs(4) q_def)
  note reads = saved_frame_reads [OF n(1) [folded vs(2)] n(2) m, unfolded vs(2)]
  have jsp: "x_get64 j Sp = sp'" and jfp: "get_fp j = sp' + of_nat n" using j by (simp_all add: i1)
  obtain j1 where j1: "restore_regs rs (of_nat (q + 8 * length rs)) j = (Continue (), j1)" "restored q rs j j1"
    using restore_regs_eq [of q rs j] n rs(2,3) sp by auto
  obtain k where k: "pop_frame_restore amt regs j = (Continue (), k)" "pop_frame j1 = (Continue (), k)"
    using j1(1) by (simp add: pop_frame_restore_def rs(1) amt32 flow_bind_simps pop_frame_eq
        del: of_nat_add of_nat_mult)
  have j1s: "get_fp j1 = sp' + of_nat n" "i_mem j1 = i_mem j"
    using j1(2) jfp by (simp_all add: restored_def)
  have "x_get64 j1 r = x_get64 (if in_upper regs r then i else j) r" if "r \<noteq> Sp" for r
  proof (cases "in_upper regs r")
    case True
    then obtain l where "l < length rs" "rs ! l = r" using rs(3) by (metis in_set_conv_nth)
    then show ?thesis
      using True j1(2) jsp reads(3) [of l] by (auto simp: restored_def vs_def simp del: of_nat_add of_nat_mult)
  qed (use j1(2) rs(3) in \<open>simp add: restored_def\<close>)
  then show ?thesis
    using k(1) pop_frame_reads [OF k(2)] j1s reads(1,2)
    by (simp add: sp'_def add.assoc [of _ _ 8])
qed

theorem push_pop_frame_save_witness:
  "let i = x_set64 X16 5 (x_set64 Sp 4096 zero_interp); regs = UpperRegSet 1;
       i1 = snd (push_frame_save 16 regs i);
       j = x_set64 X16 9 (set_mem (write_ne 8 (i_mem i1) (x_get64 i1 Sp) (77 :: u64)) i1);
       k = snd (pop_frame_restore 16 regs j)
   in x_get64 k X16 = 5 \<and> x_get64 k Sp = 4096"
proof -
  define i where "i = x_set64 X16 5 (x_set64 Sp 4096 zero_interp)"
  define i1 where "i1 = snd (push_frame_save 16 (UpperRegSet 1) i)"
  define j where "j = x_set64 X16 9 (set_mem (write_ne 8 (i_mem i1) (x_get64 i1 Sp) (77 :: u64)) i1)"
  have rs: "UpperRegSet_into_iter XReg_new (UpperRegSet 1) = (Ok [X16] :: (XReg list, UB) res)" by code_simp
  have push: "push_frame_save 16 (UpperRegSet 1) i = (Continue (), i1)"
    unfolding i1_def by (subst (1 2) push_frame_save_eq [OF rs, of _ 8]) (simp_all add: Let_def i_def)
  have up: "\<not> in_upper (UpperRegSet 1) Sp" "in_upper (UpperRegSet 1) X16" "bs_len (upper_bitset (UpperRegSet 1)) = 1"
    by code_simp+
  have "apart (x_get64 i1 Sp + 8) 24 (x_get64 i1 Sp) 8" by (simp add: apart_def)
  then have "mem_read (i_mem j) (x_get64 i1 Sp + 8) 24 = mem_read (i_mem i1) (x_get64 i1 Sp + 8) 24"
    by (simp add: j_def write_ne_def mem_read_write_apart)
  then have "\<exists>k. pop_frame_restore 16 (UpperRegSet 1) j = (Continue (), k) \<and>
      x_get64 k X16 = 5 \<and> x_get64 k Sp = 4096"
    using push_pop_frame_save [OF push, of j] up by (auto simp: i_def j_def)
  then show ?thesis unfolding i_def [symmetric] Let_def i1_def [symmetric] j_def [symmetric] by auto
qed

text \<open>C34: A call whose callee sets up a frame with \<open>push_frame\<close>, runs any body \<open>j\<close> that keeps the
  frame pointer and the two words of the frame, tears the frame down with \<open>pop_frame\<close> and
  returns, continues after the call instruction, with the caller's frame pointer and stack
  pointer.\<close>

theorem call_frame_ret:
  assumes call: "call offset i = (Continue (), i0)"
    and push: "push_frame (set_pc p i0) = (Continue (), i1)"
    and j: "get_fp j = get_fp i1" "mem_read (i_mem j) (get_fp i1) 16 = mem_read (i_mem i1) (get_fp i1) 16"
    and host: "i_pc i \<noteq> HOST_RETURN_ADDR"
  shows "\<exists>k. pop_frame j = (Continue (), k) \<and>
    (\<exists>k'. ret (set_pc p' k) = (Continue (), k') \<and> i_pc k' = i_pc i \<and>
      get_fp k' = get_fp i \<and> x_get64 k' Sp = x_get64 i Sp)"
proof -
  let ?sp = "x_get64 i Sp - 16"
  have i0: "get_lr i0 = i_pc i" "get_fp i0 = get_fp i" "x_get64 i0 Sp = x_get64 i Sp"
    using call by (auto simp: call_def Let_def pc_rel_jump_def)
  have i1: "get_fp i1 = ?sp" "i_mem i1 = write_ne 8 (write_ne 8 (i_mem i0) (?sp + 8) (i_pc i)) ?sp (get_fp i)"
    using push by (auto simp: push_frame_eq Let_def i0 add.commute [of _ 8] split: if_splits)
  note r = read_ne_subrange [OF j(2), where n = 8 and 'a = 64]
  have "apart (?sp + of_nat 8) 8 (?sp + of_nat 0) 8"
    by (subst apart_sym) (intro apart_offsets, simp_all)
  then have ap: "apart (x_get64 i Sp - 8) 8 ?sp 8" by simp
  have "read_ne 8 (i_mem j) ?sp = get_fp i"
    using r [of 0] by (simp add: i1 mem_simps)
  moreover have "read_ne 8 (i_mem j) (?sp + 8) = i_pc i"
    using r [of 8] by (simp add: i1 read_write_ne_apart [OF ap] mem_simps)
  ultimately show ?thesis
    using host by (simp add: pop_frame_eq j i1 ret_def Let_def)
qed

theorem call_frame_ret_witness:
  "let i = set_pc 200 (x_set64 Sp 4096 zero_interp);
       i1 = snd (push_frame (set_pc 300 (snd (call (PcRelOffset 100) i))));
       k = snd (pop_frame (x_set64 X0 7 i1))
   in i_pc (snd (ret (set_pc 310 k))) = 200 \<and> x_get64 (snd (ret (set_pc 310 k))) Sp = 4096"
proof -
  define i where "i = set_pc 200 (x_set64 Sp 4096 zero_interp)"
  define i0 where "i0 = snd (call (PcRelOffset 100) i)"
  define i1 where "i1 = snd (push_frame (set_pc 300 i0))"
  have call: "call (PcRelOffset 100) i = (Continue (), i0)"
    by (simp add: i0_def call_def Let_def pc_rel_jump_def)
  then have "x_get64 i0 Sp = 4096" "stack_base (get_stack i0) = 0"
    by (auto simp: call_def Let_def pc_rel_jump_def i_def)
  then have push: "push_frame (set_pc 300 i0) = (Continue (), i1)"
    by (simp add: i1_def push_frame_eq Let_def)
  have "i_pc i \<noteq> HOST_RETURN_ADDR" by (simp add: i_def HOST_RETURN_ADDR_def)
  from call_frame_ret [OF call push _ _ this, of "x_set64 X0 7 i1" 310] show ?thesis
    unfolding i_def [symmetric] Let_def i0_def [symmetric] i1_def [symmetric] by (auto simp: i_def)
qed

text \<open>\<open>br_table32\<close> over a table of \<open>amt\<close> 32-bit offsets that follows the instruction reads an
  entry of that table, the one numbered by the operand or the last one when the operand is out
  of range, and jumps by it relative to the entry itself.\<close>

theorem br_table32_lands_in_table:
  assumes "amt \<noteq> 0"
  shows "\<exists>n. n = min (unat (x_get32 i idx)) (unat amt - 1) \<and> n < unat amt \<and>
    br_table32 idx amt i =
      (Continue (), set_pc (i_pc i + of_nat (4 * n) + scast (read_ne 4 (i_mem i) (i_pc i + of_nat (4 * n)) :: u32)) i)"
proof (intro exI conjI)
  let ?n = "min (unat (x_get32 i idx)) (unat amt - 1)"
  have amt: "0 < unat amt" using assms by (simp add: unat_gt_0)
  then show "?n < unat amt" by simp
  have "unat (amt - 1) = unat amt - 1" using amt by (simp add: unat_sub_if')
  then have "unat (min (x_get32 i idx) (amt - 1)) = ?n" by (simp add: min_def word_le_nat_alt)
  then have c: "(ucast (min (x_get32 i idx) (amt - 1)) :: u64) = of_nat ?n"
    by (metis of_nat_unat)
  have "of_nat ?n * 4 = (of_nat (4 * ?n) :: u64)" by simp
  then show "br_table32 idx amt i =
      (Continue (), set_pc (i_pc i + of_nat (4 * ?n) + scast (read_ne 4 (i_mem i) (i_pc i + of_nat (4 * ?n)) :: u32)) i)"
    unfolding br_table32_def c Let_def
    by (simp add: decode_PcRelOffset_def decode_i32_def UnsafeStream_def unsafe_read_def map_value_def
        unsafe_offset_def set_pc_def read_ne_def del: of_nat_mult of_nat_min)
qed (rule refl)

theorem br_table32_lands_in_table_witness:
  "br_table32 X0 3 (set_pc 100 (x_set64 X0 7 zero_interp)) =
     (Continue (), set_pc 108 (x_set64 X0 7 zero_interp))"
proof -
  have "read_ne 4 (\<lambda>_. 0) a = (0 :: u32)" for a
    by (rule bit_word_eqI) (simp add: read_ne_def word_bit_simps mem_simps)
  moreover have "i_mem zero_interp = (\<lambda>_. 0)" by (rule ext) simp
  ultimately show ?thesis
    using br_table32_lands_in_table [of 3 "set_pc 100 (x_set64 X0 7 zero_interp)" X0]
    by (simp add: x_get32_eq XReg_get_u32_def) (simp add: set_pc_def)
qed

end
