(* ===== verification/Pulley_Integer.thy ===== *)
theory Pulley_Integer
  imports Pulley_Machine
begin

unbundle bit_operations_syntax

text \<open>
  The integer handlers of \<open>impl OpVisitor for Interpreter\<close> in
  \<open>pulley/src/interp.rs\<close>. A signed operand is read with
  \<^const>\<open>sint\<close> where its sign matters; \<open>i64::from\<close> and \<open>into\<close> of a signed
  immediate are \<^const>\<open>scast\<close>.
\<close>

text \<open>Most handlers are one of a few shapes, repeated for every operation: an operation on one or two registers of 32 or
  64 bits, a shift by a register or an immediate, a comparison, an operation with an immediate. Each shape is one
  definition, whose instances are in the tables of \<open>Pulley_Dispatch\<close>.\<close>

definition x_unop32 :: "(u32 \<Rightarrow> u32) \<Rightarrow> XReg \<Rightarrow> XReg \<Rightarrow> handler" where
  "x_unop32 f dst src i =
     (let a = x_get32 i src
      in (Continue (), x_set32 dst (f a) i))"

definition x_binop32 :: "(u32 \<Rightarrow> u32 \<Rightarrow> u32) \<Rightarrow> (XReg, XReg, XReg) BinaryOperands \<Rightarrow> handler" where
  "x_binop32 f operands i =
     (let a = x_get32 i (bo_src1 operands); b = x_get32 i (bo_src2 operands)
      in (Continue (), x_set32 (bo_dst operands) (f a b) i))"

definition x_imm32 :: "(u32 \<Rightarrow> u32 \<Rightarrow> u32) \<Rightarrow> XReg \<Rightarrow> XReg \<Rightarrow> u32 \<Rightarrow> handler" where
  "x_imm32 f dst src1 src2 i =
     (let a = x_get32 i src1
      in (Continue (), x_set32 dst (f a src2) i))"

definition x_shift32 :: "(u32 \<Rightarrow> nat \<Rightarrow> u32) \<Rightarrow> (XReg, XReg, XReg) BinaryOperands \<Rightarrow> handler" where
  "x_shift32 f operands i =
     (let a = x_get32 i (bo_src1 operands); b = x_get32 i (bo_src2 operands)
      in (Continue (), x_set32 (bo_dst operands) (f a (unat b)) i))"

definition x_shift32_u6 :: "(u32 \<Rightarrow> nat \<Rightarrow> u32) \<Rightarrow> (XReg, XReg, U6) BinaryOperands \<Rightarrow> handler" where
  "x_shift32_u6 f operands i =
     (let a = x_get32 i (bo_src1 operands); b = u8_of_U6 (bo_src2 operands)
      in (Continue (), x_set32 (bo_dst operands) (f a (unat b)) i))"

definition x_cmp32 :: "(u32 \<Rightarrow> u32 \<Rightarrow> bool) \<Rightarrow> (XReg, XReg, XReg) BinaryOperands \<Rightarrow> handler" where
  "x_cmp32 f operands i =
     (let a = x_get32 i (bo_src1 operands); b = x_get32 i (bo_src2 operands)
      in (Continue (), x_set32 (bo_dst operands) (of_bool (f a b)) i))"

definition x_unop64 :: "(u64 \<Rightarrow> u64) \<Rightarrow> XReg \<Rightarrow> XReg \<Rightarrow> handler" where
  "x_unop64 f dst src i =
     (let a = x_get64 i src
      in (Continue (), x_set64 dst (f a) i))"

definition x_binop64 :: "(u64 \<Rightarrow> u64 \<Rightarrow> u64) \<Rightarrow> (XReg, XReg, XReg) BinaryOperands \<Rightarrow> handler" where
  "x_binop64 f operands i =
     (let a = x_get64 i (bo_src1 operands); b = x_get64 i (bo_src2 operands)
      in (Continue (), x_set64 (bo_dst operands) (f a b) i))"

definition x_imm64 :: "(u64 \<Rightarrow> u64 \<Rightarrow> u64) \<Rightarrow> XReg \<Rightarrow> XReg \<Rightarrow> u64 \<Rightarrow> handler" where
  "x_imm64 f dst src1 src2 i =
     (let a = x_get64 i src1
      in (Continue (), x_set64 dst (f a src2) i))"

definition x_shift64 :: "(u64 \<Rightarrow> nat \<Rightarrow> u64) \<Rightarrow> (XReg, XReg, XReg) BinaryOperands \<Rightarrow> handler" where
  "x_shift64 f operands i =
     (let a = x_get64 i (bo_src1 operands); b = x_get32 i (bo_src2 operands)
      in (Continue (), x_set64 (bo_dst operands) (f a (unat b)) i))"

definition x_shift64_u6 :: "(u64 \<Rightarrow> nat \<Rightarrow> u64) \<Rightarrow> (XReg, XReg, U6) BinaryOperands \<Rightarrow> handler" where
  "x_shift64_u6 f operands i =
     (let a = x_get64 i (bo_src1 operands); b = u8_of_U6 (bo_src2 operands)
      in (Continue (), x_set64 (bo_dst operands) (f a (unat b)) i))"

definition x_cmp64 :: "(u64 \<Rightarrow> u64 \<Rightarrow> bool) \<Rightarrow> (XReg, XReg, XReg) BinaryOperands \<Rightarrow> handler" where
  "x_cmp64 f operands i =
     (let a = x_get64 i (bo_src1 operands); b = x_get64 i (bo_src2 operands)
      in (Continue (), x_set32 (bo_dst operands) (of_bool (f a b)) i))"

definition xmov :: "XReg \<Rightarrow> XReg \<Rightarrow> handler" where
  "xmov dst src i =
     (let val = x_get64 i src
      in (Continue (), x_set64 dst val i))"

definition xconst :: "XReg \<Rightarrow> 'a::len word \<Rightarrow> handler" where
  "xconst dst imm i =
     (Continue (), x_set64 dst (scast imm) i)"

definition xmadd32 :: "XReg \<Rightarrow> XReg \<Rightarrow> XReg \<Rightarrow> XReg \<Rightarrow> handler" where
  "xmadd32 dst src1 src2 src3 i =
     (let a = x_get32 i src1; b = x_get32 i src2; c = x_get32 i src3
      in (Continue (), x_set32 dst (a * b + c) i))"

definition xmadd64 :: "XReg \<Rightarrow> XReg \<Rightarrow> XReg \<Rightarrow> XReg \<Rightarrow> handler" where
  "xmadd64 dst src1 src2 src3 i =
     (let a = x_get64 i src1; b = x_get64 i src2; c = x_get64 i src3
      in (Continue (), x_set64 dst (a * b + c) i))"

definition xdiv32_s :: "(XReg, XReg, XReg) BinaryOperands \<Rightarrow> handler" where
  "xdiv32_s operands i =
     (let a = x_get32 i (bo_src1 operands); b = x_get32 i (bo_src2 operands)
      in case checked_div_s a b of
           Some result \<Rightarrow> (Continue (), x_set32 (bo_dst operands) result i)
         | None \<Rightarrow>
             let kind = if b = 0 then DivideByZero else IntegerOverflow
             in done_trap_kind (BaseI ''XDiv32S'') (Some kind) i)"

definition xdiv64_s :: "(XReg, XReg, XReg) BinaryOperands \<Rightarrow> handler" where
  "xdiv64_s operands i =
     (let a = x_get64 i (bo_src1 operands); b = x_get64 i (bo_src2 operands)
      in case checked_div_s a b of
           Some result \<Rightarrow> (Continue (), x_set64 (bo_dst operands) result i)
         | None \<Rightarrow>
             let kind = if b = 0 then DivideByZero else IntegerOverflow
             in done_trap_kind (BaseI ''XDiv64S'') (Some kind) i)"

definition xdiv32_u :: "(XReg, XReg, XReg) BinaryOperands \<Rightarrow> handler" where
  "xdiv32_u operands i =
     (let a = x_get32 i (bo_src1 operands); b = x_get32 i (bo_src2 operands)
      in case checked_div_u a b of
           Some result \<Rightarrow> (Continue (), x_set32 (bo_dst operands) result i)
         | None \<Rightarrow> done_trap_kind (BaseI ''XDiv32U'') (Some DivideByZero) i)"

definition xdiv64_u :: "(XReg, XReg, XReg) BinaryOperands \<Rightarrow> handler" where
  "xdiv64_u operands i =
     (let a = x_get64 i (bo_src1 operands); b = x_get64 i (bo_src2 operands)
      in case checked_div_u a b of
           Some result \<Rightarrow> (Continue (), x_set64 (bo_dst operands) result i)
         | None \<Rightarrow> done_trap_kind (BaseI ''XDiv64U'') (Some DivideByZero) i)"

definition xrem32_s :: "(XReg, XReg, XReg) BinaryOperands \<Rightarrow> handler" where
  "xrem32_s operands i =
     (let a = x_get32 i (bo_src1 operands); b = x_get32 i (bo_src2 operands);
          result = (if a = int_min \<and> b = -1 then Some 0 else checked_rem_s a b)
      in case result of
           Some result \<Rightarrow> (Continue (), x_set32 (bo_dst operands) result i)
         | None \<Rightarrow> done_trap_kind (BaseI ''XRem32S'') (Some DivideByZero) i)"

definition xrem64_s :: "(XReg, XReg, XReg) BinaryOperands \<Rightarrow> handler" where
  "xrem64_s operands i =
     (let a = x_get64 i (bo_src1 operands); b = x_get64 i (bo_src2 operands);
          result = (if a = int_min \<and> b = -1 then Some 0 else checked_rem_s a b)
      in case result of
           Some result \<Rightarrow> (Continue (), x_set64 (bo_dst operands) result i)
         | None \<Rightarrow> done_trap_kind (BaseI ''XRem64S'') (Some DivideByZero) i)"

definition xrem32_u :: "(XReg, XReg, XReg) BinaryOperands \<Rightarrow> handler" where
  "xrem32_u operands i =
     (let a = x_get32 i (bo_src1 operands); b = x_get32 i (bo_src2 operands)
      in case checked_rem_u a b of
           Some result \<Rightarrow> (Continue (), x_set32 (bo_dst operands) result i)
         | None \<Rightarrow> done_trap_kind (BaseI ''XRem32U'') (Some DivideByZero) i)"

definition xrem64_u :: "(XReg, XReg, XReg) BinaryOperands \<Rightarrow> handler" where
  "xrem64_u operands i =
     (let a = x_get64 i (bo_src1 operands); b = x_get64 i (bo_src2 operands)
      in case checked_rem_u a b of
           Some result \<Rightarrow> (Continue (), x_set64 (bo_dst operands) result i)
         | None \<Rightarrow> done_trap_kind (BaseI ''XRem64U'') (Some DivideByZero) i)"

definition xselect32 :: "XReg \<Rightarrow> XReg \<Rightarrow> XReg \<Rightarrow> XReg \<Rightarrow> handler" where
  "xselect32 dst cond if_nonzero if_zero i =
     (let result = (if x_get32 i cond \<noteq> 0 then x_get32 i if_nonzero else x_get32 i if_zero)
      in (Continue (), x_set32 dst result i))"

definition xselect64 :: "XReg \<Rightarrow> XReg \<Rightarrow> XReg \<Rightarrow> XReg \<Rightarrow> handler" where
  "xselect64 dst cond if_nonzero if_zero i =
     (let result = (if x_get32 i cond \<noteq> 0 then x_get64 i if_nonzero else x_get64 i if_zero)
      in (Continue (), x_set64 dst result i))"

section \<open>Division\<close>

text \<open>What a pair of division and remainder instructions promises.\<close>

definition divides :: "Insn \<Rightarrow> Insn \<Rightarrow> ('a::len word \<Rightarrow> Interpreter \<Rightarrow> Interpreter) \<Rightarrow> 'a word \<Rightarrow> 'a word \<Rightarrow> handler \<Rightarrow> handler \<Rightarrow>
    Interpreter \<Rightarrow> bool" where
  "divides D R put a b dv rm i \<longleftrightarrow>
     (if sint b = 0 then
        dv i = done_trap_kind D (Some DivideByZero) i \<and> rm i = done_trap_kind R (Some DivideByZero) i
      else if sint a = - (2 ^ (LENGTH('a) - 1)) \<and> sint b = -1 then
        dv i = done_trap_kind D (Some IntegerOverflow) i \<and> rm i = (Continue (), put 0 i)
      else \<exists>q r. dv i = (Continue (), put q i) \<and> rm i = (Continue (), put r i) \<and>
        sint a = sint q * sint b + sint r \<and> \<bar>sint r\<bar> < \<bar>sint b\<bar> \<and> (sint r = 0 \<or> sgn (sint r) = sgn (sint a)))"

lemma divides_checked:
  fixes a b :: "'a::len word"
  assumes "1 < LENGTH('a)"
    and dv: "dv i = (case checked_div_s a b of Some q \<Rightarrow> (Continue (), put q i)
      | None \<Rightarrow> done_trap_kind D (Some (if b = 0 then DivideByZero else IntegerOverflow)) i)"
    and rm: "rm i = (case (if a = int_min \<and> b = -1 then Some 0 else checked_rem_s a b) of Some r \<Rightarrow> (Continue (), put r i)
      | None \<Rightarrow> done_trap_kind R (Some DivideByZero) i)"
  shows "divides D R put a b dv rm i"
proof -
  have b0: "b = 0 \<longleftrightarrow> sint b = 0" and am: "a = int_min \<longleftrightarrow> sint a = - (2 ^ (LENGTH('a) - 1))" and b1: "b = -1 \<longleftrightarrow> sint b = -1"
    by (metis sint_0 sint_eqI, metis sint_int_min sint_eqI, metis sint_n1 sint_eqI)
  show ?thesis
  proof (cases "sint b = 0 \<or> (sint a = - (2 ^ (LENGTH('a) - 1)) \<and> sint b = -1)")
    case True
    then show ?thesis
      unfolding divides_def dv rm checked_div_s_def checked_rem_s_def b0 am b1 by auto
  next
    case False
    let ?B = "2 ^ (LENGTH('a) - 1) :: int"
    have q: "sint (word_of_int (trunc_div (sint a) (sint b)) :: 'a word) = trunc_div (sint a) (sint b)"
      using trunc_div_fits [of "sint b" "sint a" ?B] False sint_ge [of a] sint_lt [of a] by (intro sint_word_of_int) auto
    have b: "sint b \<noteq> 0" using False by simp
    have "\<bar>sint b\<bar> \<le> ?B" using sint_ge [of b] sint_lt [of b] by linarith
    then have r: "sint (word_of_int (trunc_rem (sint a) (sint b)) :: 'a word) = trunc_rem (sint a) (sint b)"
      using trunc_div_rem(2) [OF b, of "sint a"] by (intro sint_word_of_int) linarith+
    have "dv i = (Continue (), put (word_of_int (trunc_div (sint a) (sint b))) i)"
      "rm i = (Continue (), put (word_of_int (trunc_rem (sint a) (sint b))) i)"
      using False unfolding dv rm checked_div_s_def checked_rem_s_def b0 am b1 by auto
    then show ?thesis
      using False trunc_div_rem [OF b, of "sint a"] q r unfolding divides_def by metis
  qed
qed

section \<open>Properties\<close>

text \<open>C33: Signed division and remainder, 32 and 64 bits wide: a zero divisor traps in both, the one quotient that does
  not fit, the least integer by \<open>-1\<close>, traps as an overflow in the division and leaves remainder zero, and in
  every other case the two results satisfy \<open>a = q * b + r\<close> over the integers, with \<open>r\<close> smaller than \<open>b\<close> in magnitude and
  of the sign of \<open>a\<close>.\<close>

theorem signed_division:
  "divides (BaseI ''XDiv32S'') (BaseI ''XRem32S'') (x_set32 (bo_dst o1)) (x_get32 i (bo_src1 o1)) (x_get32 i (bo_src2 o1))
     (xdiv32_s o1) (xrem32_s o1) i \<and>
   divides (BaseI ''XDiv64S'') (BaseI ''XRem64S'') (x_set64 (bo_dst o1)) (x_get64 i (bo_src1 o1)) (x_get64 i (bo_src2 o1))
     (xdiv64_s o1) (xrem64_s o1) i"
  by (intro conjI divides_checked)
    (simp_all add: xdiv32_s_def xdiv64_s_def xrem32_s_def xrem64_s_def Let_def split: option.split)

end
