(* ===== verification/Pulley_Memory.thy ===== *)
theory Pulley_Memory
  imports Pulley_Machine
begin

unbundle bit_operations_syntax

text \<open>
  The load and store handlers of \<open>impl OpVisitor for Interpreter\<close> in
  \<open>pulley/src/interp.rs\<close>. The source repeats the ten methods for each of the four addressing modes; here
  the instruction, whose address a trap reports, and the addressing mode are arguments, and the dispatch
  tables instantiate them.
  \<open>from_le\<close> and \<open>to_le\<close> are the identity on the little-endian host modelled.
\<close>

definition xload8_u32 :: "Insn \<Rightarrow> addr_mode \<Rightarrow> XReg \<Rightarrow> handler" where
  "xload8_u32 I addr dst i =
     flow_bind (load_ne 1 I addr i) (\<lambda>(result :: u8) i.
        (Continue (), x_set32 dst (ucast result) i))"

definition xload8_s32 :: "Insn \<Rightarrow> addr_mode \<Rightarrow> XReg \<Rightarrow> handler" where
  "xload8_s32 I addr dst i =
     flow_bind (load_ne 1 I addr i) (\<lambda>(result :: u8) i.
        (Continue (), x_set32 dst (scast result) i))"

definition xload16le_u32 :: "Insn \<Rightarrow> addr_mode \<Rightarrow> XReg \<Rightarrow> handler" where
  "xload16le_u32 I addr dst i =
     flow_bind (load_ne 2 I addr i) (\<lambda>(result :: u16) i.
        (Continue (), x_set32 dst (ucast result) i))"

definition xload16le_s32 :: "Insn \<Rightarrow> addr_mode \<Rightarrow> XReg \<Rightarrow> handler" where
  "xload16le_s32 I addr dst i =
     flow_bind (load_ne 2 I addr i) (\<lambda>(result :: u16) i.
        (Continue (), x_set32 dst (scast result) i))"

definition xload32le :: "Insn \<Rightarrow> addr_mode \<Rightarrow> XReg \<Rightarrow> handler" where
  "xload32le I addr dst i =
     flow_bind (load_ne 4 I addr i) (\<lambda>(result :: u32) i.
        (Continue (), x_set32 dst result i))"

definition xload64le :: "Insn \<Rightarrow> addr_mode \<Rightarrow> XReg \<Rightarrow> handler" where
  "xload64le I addr dst i =
     flow_bind (load_ne 8 I addr i) (\<lambda>(result :: u64) i.
        (Continue (), x_set64 dst result i))"

definition xstore8 :: "Insn \<Rightarrow> addr_mode \<Rightarrow> XReg \<Rightarrow> handler" where
  "xstore8 I addr val i =
     (let val' = ucast (x_get32 i val) :: u8
      in store_ne 1 I addr val' i)"

definition xstore16le :: "Insn \<Rightarrow> addr_mode \<Rightarrow> XReg \<Rightarrow> handler" where
  "xstore16le I addr val i =
     (let val' = ucast (x_get32 i val) :: u16
      in store_ne 2 I addr val' i)"

definition xstore32le :: "Insn \<Rightarrow> addr_mode \<Rightarrow> XReg \<Rightarrow> handler" where
  "xstore32le I addr val i =
     (let val' = x_get32 i val
      in store_ne 4 I addr val' i)"

definition xstore64le :: "Insn \<Rightarrow> addr_mode \<Rightarrow> XReg \<Rightarrow> handler" where
  "xstore64le I addr val i =
     (let val' = x_get64 i val
      in store_ne 8 I addr val' i)"

end
