(* ===== verification/Pulley_Extended.thy ===== *)
theory Pulley_Extended
  imports Pulley_Machine
begin

unbundle bit_operations_syntax

text \<open>
  Handlers of \<open>impl ExtendedOpVisitor for Interpreter\<close> in \<open>pulley/src/interp.rs\<close>:
  traps and host calls, the integer instructions of the extended table, the loads and stores of
  all three register classes, and the moves, constants, bit casts and selections of float
  registers. The instruction and the addressing mode of a load or store are arguments.
  \<open>from_be\<close> and \<open>to_be\<close> are \<open>swap_bytes\<close> on the little-endian
  host modelled. Float arithmetic, comparison and conversion and the lane-wise vector
  instructions are not defined here.
\<close>

definition trap :: "handler" where
  "trap i =
     done_trap (ExtI ''Trap'') i"

definition call_indirect_host :: "u8 \<Rightarrow> handler" where
  "call_indirect_host id' i =
     done_call_indirect_host id' i"

definition xpcadd :: "XReg \<Rightarrow> PcRelOffset \<Rightarrow> handler" where
  "xpcadd dst offset i =
     (let pc = pc_rel (ExtI ''Xpcadd'') offset i
      in (Continue (), x_set64 dst pc i))"

definition xmov_fp :: "XReg \<Rightarrow> handler" where
  "xmov_fp dst i =
     (let fp = get_fp i
      in (Continue (), x_set64 dst fp i))"

definition xmov_lr :: "XReg \<Rightarrow> handler" where
  "xmov_lr dst i =
     (let lr = get_lr i
      in (Continue (), x_set64 dst lr i))"

definition xadd32_uoverflow_trap :: "(XReg, XReg, XReg) BinaryOperands \<Rightarrow> handler" where
  "xadd32_uoverflow_trap operands i =
     (let a = x_get32 i (bo_src1 operands); b = x_get32 i (bo_src2 operands)
      in case checked_add a b of
           Some c \<Rightarrow> (Continue (), x_set32 (bo_dst operands) c i)
         | None \<Rightarrow> done_trap (ExtI ''Xadd32UoverflowTrap'') i)"

definition xadd64_uoverflow_trap :: "(XReg, XReg, XReg) BinaryOperands \<Rightarrow> handler" where
  "xadd64_uoverflow_trap operands i =
     (let a = x_get64 i (bo_src1 operands); b = x_get64 i (bo_src2 operands)
      in case checked_add a b of
           Some c \<Rightarrow> (Continue (), x_set64 (bo_dst operands) c i)
         | None \<Rightarrow> done_trap (ExtI ''Xadd64UoverflowTrap'') i)"

definition xload16be_u32 :: "Insn \<Rightarrow> addr_mode \<Rightarrow> XReg \<Rightarrow> handler" where
  "xload16be_u32 I addr dst i =
     flow_bind (load_ne 2 I addr i) (\<lambda>(result :: u16) i.
        (Continue (), x_set32 dst (ucast (swap_bytes 2 result)) i))"

definition xload16be_s32 :: "Insn \<Rightarrow> addr_mode \<Rightarrow> XReg \<Rightarrow> handler" where
  "xload16be_s32 I addr dst i =
     flow_bind (load_ne 2 I addr i) (\<lambda>(result :: u16) i.
        (Continue (), x_set32 dst (scast (swap_bytes 2 result)) i))"

definition xload32be :: "Insn \<Rightarrow> addr_mode \<Rightarrow> XReg \<Rightarrow> handler" where
  "xload32be I addr dst i =
     flow_bind (load_ne 4 I addr i) (\<lambda>(result :: u32) i.
        (Continue (), x_set32 dst (swap_bytes 4 result) i))"

definition xload64be :: "Insn \<Rightarrow> addr_mode \<Rightarrow> XReg \<Rightarrow> handler" where
  "xload64be I addr dst i =
     flow_bind (load_ne 8 I addr i) (\<lambda>(result :: u64) i.
        (Continue (), x_set64 dst (swap_bytes 8 result) i))"

definition xstore16be :: "Insn \<Rightarrow> addr_mode \<Rightarrow> XReg \<Rightarrow> handler" where
  "xstore16be I addr val i =
     (let val' = ucast (x_get32 i val) :: u16
      in store_ne 2 I addr (swap_bytes 2 val') i)"

definition xstore32be :: "Insn \<Rightarrow> addr_mode \<Rightarrow> XReg \<Rightarrow> handler" where
  "xstore32be I addr val i =
     (let val' = x_get32 i val
      in store_ne 4 I addr (swap_bytes 4 val') i)"

definition xstore64be :: "Insn \<Rightarrow> addr_mode \<Rightarrow> XReg \<Rightarrow> handler" where
  "xstore64be I addr val i =
     (let val' = x_get64 i val
      in store_ne 8 I addr (swap_bytes 8 val') i)"

definition fload32be :: "Insn \<Rightarrow> addr_mode \<Rightarrow> FReg \<Rightarrow> handler" where
  "fload32be I addr dst i =
     flow_bind (load_ne 4 I addr i) (\<lambda>(val :: u32) i.
        (Continue (), f_set32 dst (swap_bytes 4 val) i))"

definition fload64be :: "Insn \<Rightarrow> addr_mode \<Rightarrow> FReg \<Rightarrow> handler" where
  "fload64be I addr dst i =
     flow_bind (load_ne 8 I addr i) (\<lambda>(val :: u64) i.
        (Continue (), f_set64 dst (swap_bytes 8 val) i))"

definition fstore32be :: "Insn \<Rightarrow> addr_mode \<Rightarrow> FReg \<Rightarrow> handler" where
  "fstore32be I addr src i =
     (let val = f_get32 i src
      in store_ne 4 I addr (swap_bytes 4 val) i)"

definition fstore64be :: "Insn \<Rightarrow> addr_mode \<Rightarrow> FReg \<Rightarrow> handler" where
  "fstore64be I addr src i =
     (let val = f_get64 i src
      in store_ne 8 I addr (swap_bytes 8 val) i)"

definition fload32le :: "Insn \<Rightarrow> addr_mode \<Rightarrow> FReg \<Rightarrow> handler" where
  "fload32le I addr dst i =
     flow_bind (load_ne 4 I addr i) (\<lambda>(val :: u32) i.
        (Continue (), f_set32 dst val i))"

definition fload64le :: "Insn \<Rightarrow> addr_mode \<Rightarrow> FReg \<Rightarrow> handler" where
  "fload64le I addr dst i =
     flow_bind (load_ne 8 I addr i) (\<lambda>(val :: u64) i.
        (Continue (), f_set64 dst val i))"

definition fstore32le :: "Insn \<Rightarrow> addr_mode \<Rightarrow> FReg \<Rightarrow> handler" where
  "fstore32le I addr src i =
     (let val = f_get32 i src
      in store_ne 4 I addr val i)"

definition fstore64le :: "Insn \<Rightarrow> addr_mode \<Rightarrow> FReg \<Rightarrow> handler" where
  "fstore64le I addr src i =
     (let val = f_get64 i src
      in store_ne 8 I addr val i)"

definition vload128le :: "Insn \<Rightarrow> addr_mode \<Rightarrow> VReg \<Rightarrow> handler" where
  "vload128le I addr dst i =
     flow_bind (load_ne 16 I addr i) (\<lambda>(val :: u128) i.
        (Continue (), v_set128 dst val i))"

definition vstore128le :: "Insn \<Rightarrow> addr_mode \<Rightarrow> VReg \<Rightarrow> handler" where
  "vstore128le I addr src i =
     (let val = v_get128 i src
      in store_ne 16 I addr val i)"

definition fmov :: "FReg \<Rightarrow> FReg \<Rightarrow> handler" where
  "fmov dst src i =
     (let val = f_get64 i src
      in (Continue (), f_set64 dst val i))"

definition vmov :: "VReg \<Rightarrow> VReg \<Rightarrow> handler" where
  "vmov dst src i =
     (let val = v_get128 i src
      in (Continue (), v_set128 dst val i))"

definition bitcast_int_from_float_32 :: "XReg \<Rightarrow> FReg \<Rightarrow> handler" where
  "bitcast_int_from_float_32 dst src i =
     (let val = f_get32 i src
      in (Continue (), x_set32 dst val i))"

definition bitcast_int_from_float_64 :: "XReg \<Rightarrow> FReg \<Rightarrow> handler" where
  "bitcast_int_from_float_64 dst src i =
     (let val = f_get64 i src
      in (Continue (), x_set64 dst val i))"

definition bitcast_float_from_int_32 :: "FReg \<Rightarrow> XReg \<Rightarrow> handler" where
  "bitcast_float_from_int_32 dst src i =
     (let val = x_get32 i src
      in (Continue (), f_set32 dst val i))"

definition bitcast_float_from_int_64 :: "FReg \<Rightarrow> XReg \<Rightarrow> handler" where
  "bitcast_float_from_int_64 dst src i =
     (let val = x_get64 i src
      in (Continue (), f_set64 dst val i))"

definition fconst32 :: "FReg \<Rightarrow> u32 \<Rightarrow> handler" where
  "fconst32 dst bits i =
     (Continue (), f_set32 dst bits i)"

definition fconst64 :: "FReg \<Rightarrow> u64 \<Rightarrow> handler" where
  "fconst64 dst bits i =
     (Continue (), f_set64 dst bits i)"

definition fselect32 :: "FReg \<Rightarrow> XReg \<Rightarrow> FReg \<Rightarrow> FReg \<Rightarrow> handler" where
  "fselect32 dst cond if_nonzero if_zero i =
     (let result = (if x_get32 i cond \<noteq> 0 then f_get32 i if_nonzero else f_get32 i if_zero)
      in (Continue (), f_set32 dst result i))"

definition fselect64 :: "FReg \<Rightarrow> XReg \<Rightarrow> FReg \<Rightarrow> FReg \<Rightarrow> handler" where
  "fselect64 dst cond if_nonzero if_zero i =
     (let result = (if x_get32 i cond \<noteq> 0 then f_get64 i if_nonzero else f_get64 i if_zero)
      in (Continue (), f_set64 dst result i))"

definition get_i128 :: "Interpreter \<Rightarrow> XReg \<Rightarrow> XReg \<Rightarrow> u128" where
  "get_i128 i lo hi = ucast (x_get64 i lo) OR push_bit 64 (scast (x_get64 i hi))"

definition set_i128 :: "XReg \<Rightarrow> XReg \<Rightarrow> u128 \<Rightarrow> Interpreter \<Rightarrow> Interpreter" where
  "set_i128 lo hi val i = x_set64 hi (ucast (drop_bit 64 val)) (x_set64 lo (ucast val) i)"

definition xadd128 :: "XReg \<Rightarrow> XReg \<Rightarrow> XReg \<Rightarrow> XReg \<Rightarrow> XReg \<Rightarrow> XReg \<Rightarrow> handler" where
  "xadd128 dst_lo dst_hi lhs_lo lhs_hi rhs_lo rhs_hi i =
     (let lhs = get_i128 i lhs_lo lhs_hi;
          rhs = get_i128 i rhs_lo rhs_hi;
          result = lhs + rhs
      in (Continue (), set_i128 dst_lo dst_hi result i))"

definition xsub128 :: "XReg \<Rightarrow> XReg \<Rightarrow> XReg \<Rightarrow> XReg \<Rightarrow> XReg \<Rightarrow> XReg \<Rightarrow> handler" where
  "xsub128 dst_lo dst_hi lhs_lo lhs_hi rhs_lo rhs_hi i =
     (let lhs = get_i128 i lhs_lo lhs_hi;
          rhs = get_i128 i rhs_lo rhs_hi;
          result = lhs - rhs
      in (Continue (), set_i128 dst_lo dst_hi result i))"

definition xwidemul64_s :: "XReg \<Rightarrow> XReg \<Rightarrow> XReg \<Rightarrow> XReg \<Rightarrow> handler" where
  "xwidemul64_s dst_lo dst_hi lhs rhs i =
     (let lhs' = x_get64 i lhs; rhs' = x_get64 i rhs;
          result = scast lhs' * scast rhs' :: u128
      in (Continue (), set_i128 dst_lo dst_hi result i))"

definition xwidemul64_u :: "XReg \<Rightarrow> XReg \<Rightarrow> XReg \<Rightarrow> XReg \<Rightarrow> handler" where
  "xwidemul64_u dst_lo dst_hi lhs rhs i =
     (let lhs' = x_get64 i lhs; rhs' = x_get64 i rhs;
          result = ucast lhs' * ucast rhs' :: u128
      in (Continue (), set_i128 dst_lo dst_hi result i))"

definition vload128be_z :: "VReg \<Rightarrow> AddrZ \<Rightarrow> handler" where
  "vload128be_z dst addr i =
     flow_bind (load_ne 16 (ExtI ''VLoad128BeZ'') (addr_Z addr) i) (\<lambda>(val :: u128) i.
        (Continue (), v_set128 dst (swap_bytes 16 val) i))"

definition vstore128be_z :: "AddrZ \<Rightarrow> VReg \<Rightarrow> handler" where
  "vstore128be_z addr src i =
     (let val = v_get128 i src
      in store_ne 16 (ExtI ''Vstore128BeZ'') (addr_Z addr) (swap_bytes 16 val) i)"

section \<open>128-bit arithmetic\<close>

lemma get_set_i128: "lo \<noteq> hi \<Longrightarrow> get_i128 (set_i128 lo hi v i) lo hi = v"
  unfolding get_i128_def set_i128_def by simp (rule bit_word_eqI, auto simp: bit_simps)

lemma get_i128_parts: "uint (get_i128 i lo hi) = uint (x_get64 i lo) + 2 ^ 64 * uint (x_get64 i hi)"
proof -
  define a b where "a = x_get64 i lo" and "b = x_get64 i hi"
  have "(ucast a OR push_bit 64 (scast b) :: u128) = ucast a + push_bit 64 (ucast b)"
  proof -
    have "(ucast a :: u128) AND push_bit 64 (ucast b) = 0" by (rule bit_word_eqI) (auto simp: bit_simps dest: bit_imp_le_length)
    then have "ucast a + push_bit 64 (ucast b) = (ucast a OR push_bit 64 (ucast b) :: u128)" by (rule disjunctive_add_eq_or)
    moreover have "push_bit 64 (scast b) = (push_bit 64 (ucast b) :: u128)" by (rule bit_word_eqI) (auto simp: bit_simps)
    ultimately show ?thesis by simp
  qed
  moreover have "uint (ucast a + push_bit 64 (ucast b) :: u128) = uint a + 2 ^ 64 * uint b"
  proof -
    have "0 \<le> uint a" "uint a < 2 ^ 64" "0 \<le> uint b" "uint b < 2 ^ 64" 
      using unsigned_less [of a, where 'a = int] unsigned_less [of b, where 'a = int] by simp_all
    then have "uint (2 ^ 64 * ucast b :: u128) = 2 ^ 64 * uint b" "uint a + 2 ^ 64 * uint b < 2 ^ 128"
      by (simp_all add: uint_word_ariths(3) uint_up_ucast is_up)
    then show ?thesis
      using \<open>0 \<le> uint a\<close> \<open>0 \<le> uint b\<close> by (simp add: push_bit_eq_mult mult.commute uint_word_ariths(1) uint_up_ucast is_up)
  qed
  ultimately show ?thesis by (simp add: get_i128_def a_def b_def)
qed

lemma widemul_s: "sint (scast (a :: u64) * scast (b :: u64) :: u128) = sint a * sint b"
proof -
  have "\<bar>sint a\<bar> \<le> 2 ^ 63" "\<bar>sint b\<bar> \<le> 2 ^ 63"
    using sint_ge [of a] sint_lt [of a] sint_ge [of b] sint_lt [of b] by simp_all
  then have "\<bar>sint a * sint b\<bar> \<le> 2 ^ 63 * 2 ^ 63" unfolding abs_mult by (intro mult_mono) simp_all
  then have "sint (word_of_int (sint a * sint b) :: u128) = sint a * sint b" by (intro sint_word_of_int) (simp_all add: abs_le_iff)
  moreover have "word_of_int (sint a * sint b) = (scast a * scast b :: u128)" by (simp add: of_int_sint)
  ultimately show ?thesis by simp
qed

lemma widemul_u: "uint (ucast (a :: u64) * ucast (b :: u64) :: u128) = uint a * uint b"
proof -
  have "uint a * uint b < 2 ^ 64 * 2 ^ 64"
    using unsigned_less [of a, where 'a = int] unsigned_less [of b, where 'a = int] by (intro mult_strict_mono) simp_all
  then show ?thesis by (simp add: uint_word_ariths(3) uint_up_ucast is_up)
qed

text \<open>C39: The widening multiplications lose nothing: the signed 128-bit number in the two destination registers is
  the product of the signed 64-bit operands, and likewise unsigned; 128-bit addition and subtraction
  wrap modulo \<open>2 ^ 128\<close>. The destinations may overlap the operands.\<close>

theorem wide_arithmetic:
  assumes "lo \<noteq> hi"
  shows "(\<exists>j. xwidemul64_s lo hi a b i = (Continue (), j) \<and>
      sint (get_i128 j lo hi) = sint (x_get64 i a) * sint (x_get64 i b)) \<and>
    (\<exists>j. xwidemul64_u lo hi a b i = (Continue (), j) \<and>
      uint (get_i128 j lo hi) = uint (x_get64 i a) * uint (x_get64 i b)) \<and>
    (\<exists>j. xadd128 lo hi a b c d i = (Continue (), j) \<and>
      uint (get_i128 j lo hi) = (uint (get_i128 i a b) + uint (get_i128 i c d)) mod 2 ^ 128) \<and>
    (\<exists>j. xsub128 lo hi a b c d i = (Continue (), j) \<and>
      uint (get_i128 j lo hi) = (uint (get_i128 i a b) - uint (get_i128 i c d)) mod 2 ^ 128) \<and>
    uint (get_i128 i a b) = uint (x_get64 i a) + 2 ^ 64 * uint (x_get64 i b)"
  using assms get_i128_parts [of i a b]
  by (simp add: xwidemul64_s_def xwidemul64_u_def xadd128_def xsub128_def Let_def get_set_i128 widemul_s widemul_u
      uint_word_ariths(1,2))

theorem wide_arithmetic_witness:
  "let i = x_set64 X1 (- 3) (x_set64 X2 5 zero_interp); j = snd (xwidemul64_s X1 X2 X1 X2 i)
   in sint (get_i128 j X1 X2) = -15"
proof -
  let ?i = "x_set64 X1 (- 3) (x_set64 X2 5 zero_interp)"
  have "X1 \<noteq> X2" by simp
  from wide_arithmetic [OF this, of X1 X2 ?i]
  obtain j where "xwidemul64_s X1 X2 X1 X2 ?i = (Continue (), j)"
    "sint (get_i128 j X1 X2) = sint (x_get64 ?i X1) * sint (x_get64 ?i X2)" by blast
  then show ?thesis by (simp add: Let_def)
qed

end
