(* ===== verification/Wasm_Float.thy ===== *)
theory Wasm_Float
  imports Prelude "HOL-Library.Log_Nat"
begin

unbundle bit_operations_syntax

text \<open>
  The float operations of \<open>crates/core/src/math.rs\<close> (trait \<open>WasmFloat\<close> and the bounds of the
  trapping float-to-integer conversions), over a model of Rust's \<open>f32\<close> and \<open>f64\<close>. A float is its
  bit pattern, a 32- or 64-bit word. \<open>classify\<close> reads a pattern as NaN, an infinity or an exact
  dyadic number, and \<open>round_pack\<close> rounds a dyadic number to the nearest pattern, ties to even, as
  IEEE 754 prescribes for every arithmetic operation of the language. Which NaN an operation
  returns is the host's choice, a function \<open>N\<close> of the operands here. The functions of
  \<open>math.rs\<close> are modelled for a build with \<open>std\<close> on a platform other than Windows and riscv64, so
  that \<open>trunc\<close>, \<open>round_ties_even\<close> and \<open>mul_add\<close> are the standard library's.
\<close>

section \<open>Floats as bit patterns\<close>

record float_format =
  mant_bits :: nat
  exp_bits :: nat

definition binary32 :: float_format where "binary32 = \<lparr>mant_bits = 23, exp_bits = 8\<rparr>"
definition binary64 :: float_format where "binary64 = \<lparr>mant_bits = 52, exp_bits = 11\<rparr>"

definition bias :: "float_format \<Rightarrow> int" where
  "bias F = 2 ^ (exp_bits F - 1) - 1"

text \<open>\<open>Finite s m e\<close> is the number \<open>m * 2 ^ e\<close>, negated if \<open>s\<close>.\<close>

datatype float_class = NaN | Infinite bool | Finite bool int int

definition sign_bit :: "float_format \<Rightarrow> 'a::len word \<Rightarrow> bool" where
  "sign_bit F w = bit w (mant_bits F + exp_bits F)"

definition classify :: "float_format \<Rightarrow> 'a::len word \<Rightarrow> float_class" where
  "classify F w =
     (let ex = uint (take_bit (exp_bits F) (drop_bit (mant_bits F) w));
          fr = uint (take_bit (mant_bits F) w)
      in if ex = 2 ^ exp_bits F - 1 then (if fr = 0 then Infinite (sign_bit F w) else NaN)
         else if ex = 0 then Finite (sign_bit F w) fr (1 - bias F - int (mant_bits F))
         else Finite (sign_bit F w) (fr + 2 ^ mant_bits F) (ex - bias F - int (mant_bits F)))"

definition with_sign :: "float_format \<Rightarrow> bool \<Rightarrow> int \<Rightarrow> 'a::len word" where
  "with_sign F s n = word_of_int (n + (if s then 2 ^ (mant_bits F + exp_bits F) else 0))"

definition infinity :: "float_format \<Rightarrow> bool \<Rightarrow> 'a::len word" where
  "infinity F s = with_sign F s ((2 ^ exp_bits F - 1) * 2 ^ mant_bits F)"

text \<open>\<open>m / 2 ^ k\<close> to the nearest integer, ties to even.\<close>

definition round_shift :: "int \<Rightarrow> nat \<Rightarrow> int" where
  "round_shift m k =
     (let h = m div 2 ^ k; r = m mod 2 ^ k
      in if 2 * r > 2 ^ k \<or> (2 * r = 2 ^ k \<and> odd h) then h + 1 else h)"

text \<open>The exponent \<open>q\<close> of the last place of the result is the one at which \<open>m * 2 ^ e\<close> has one bit
  more than the fraction, but never below that of the subnormal numbers. Rounding up to the next
  power of two carries into the exponent field, and beyond the largest exponent the result is an
  infinity.\<close>

definition round_pack :: "float_format \<Rightarrow> bool \<Rightarrow> int \<Rightarrow> int \<Rightarrow> 'a::len word" where
  "round_pack F s m e =
     (let q = max (e + bitlen m - 1 - int (mant_bits F)) (1 - bias F - int (mant_bits F));
          n = (if q \<le> e then m * 2 ^ nat (e - q) else round_shift m (nat (q - e)))
      in if m = 0 then with_sign F s 0
         else with_sign F s
           (min ((q + int (mant_bits F) + bias F - 1) * 2 ^ mant_bits F + n)
                ((2 ^ exp_bits F - 1) * 2 ^ mant_bits F)))"

section \<open>Arithmetic\<close>

type_synonym 'a nan_choice = "'a word list \<Rightarrow> 'a word"

definition negate_if :: "bool \<Rightarrow> int \<Rightarrow> int" where
  "negate_if s m = (if s then - m else m)"

definition float_neg :: "float_format \<Rightarrow> 'a::len word \<Rightarrow> 'a word" where
  "float_neg F a = a XOR with_sign F True 0"

definition float_abs :: "float_format \<Rightarrow> 'a::len word \<Rightarrow> 'a word" where
  "float_abs F a = a AND NOT (with_sign F True 0)"

definition float_copysign :: "float_format \<Rightarrow> 'a::len word \<Rightarrow> 'a word \<Rightarrow> 'a word" where
  "float_copysign F a b = float_abs F a OR (b AND with_sign F True 0)"

definition finite_add :: "float_format \<Rightarrow> bool \<Rightarrow> int \<Rightarrow> int \<Rightarrow> bool \<Rightarrow> int \<Rightarrow> int \<Rightarrow> 'a::len word" where
  "finite_add F s m e t n f =
     (let g = min e f; v = negate_if s (m * 2 ^ nat (e - g)) + negate_if t (n * 2 ^ nat (f - g))
      in if v = 0 then with_sign F (s \<and> t) 0 else round_pack F (v < 0) \<bar>v\<bar> g)"

definition float_add :: "'a::len nan_choice \<Rightarrow> float_format \<Rightarrow> 'a word \<Rightarrow> 'a word \<Rightarrow> 'a word" where
  "float_add N F a b =
     (case (classify F a, classify F b) of
        (Infinite s, Infinite t) \<Rightarrow> if s = t then infinity F s else N [a, b]
      | (Infinite s, Finite t n f) \<Rightarrow> infinity F s
      | (Finite s m e, Infinite t) \<Rightarrow> infinity F t
      | (Finite s m e, Finite t n f) \<Rightarrow> finite_add F s m e t n f
      | _ \<Rightarrow> N [a, b])"

definition float_sub :: "'a::len nan_choice \<Rightarrow> float_format \<Rightarrow> 'a word \<Rightarrow> 'a word \<Rightarrow> 'a word" where
  "float_sub N F a b = float_add N F a (float_neg F b)"

definition float_mul :: "'a::len nan_choice \<Rightarrow> float_format \<Rightarrow> 'a word \<Rightarrow> 'a word \<Rightarrow> 'a word" where
  "float_mul N F a b =
     (case (classify F a, classify F b) of
        (Infinite s, Infinite t) \<Rightarrow> infinity F (s \<noteq> t)
      | (Infinite s, Finite t n f) \<Rightarrow> if n = 0 then N [a, b] else infinity F (s \<noteq> t)
      | (Finite s m e, Infinite t) \<Rightarrow> if m = 0 then N [a, b] else infinity F (s \<noteq> t)
      | (Finite s m e, Finite t n f) \<Rightarrow> round_pack F (s \<noteq> t) (m * n) (e + f)
      | _ \<Rightarrow> N [a, b])"

text \<open>A quotient or a root is computed to enough bits, with one more bit that tells whether
  anything was cut off; rounding this is rounding the exact result.\<close>

definition finite_div :: "float_format \<Rightarrow> bool \<Rightarrow> int \<Rightarrow> int \<Rightarrow> int \<Rightarrow> int \<Rightarrow> 'a::len word" where
  "finite_div F s m e n f =
     (let k = nat (int (mant_bits F) + 3 + bitlen n - bitlen m); d = m * 2 ^ k
      in round_pack F s (2 * (d div n) + (if d mod n = 0 then 0 else 1)) (e - f - int k - 1))"

definition float_div :: "'a::len nan_choice \<Rightarrow> float_format \<Rightarrow> 'a word \<Rightarrow> 'a word \<Rightarrow> 'a word" where
  "float_div N F a b =
     (case (classify F a, classify F b) of
        (Infinite s, Finite t n f) \<Rightarrow> infinity F (s \<noteq> t)
      | (Finite s m e, Infinite t) \<Rightarrow> with_sign F (s \<noteq> t) 0
      | (Finite s m e, Finite t n f) \<Rightarrow>
          if n = 0 then (if m = 0 then N [a, b] else infinity F (s \<noteq> t))
          else finite_div F (s \<noteq> t) m e n f
      | _ \<Rightarrow> N [a, b])"

function int_sqrt :: "int \<Rightarrow> int" where
  "int_sqrt n =
     (if n \<le> 0 then 0
      else let r = 2 * int_sqrt (n div 4) in if (r + 1) * (r + 1) \<le> n then r + 1 else r)"
  by auto
termination by (relation "measure nat") auto

declare int_sqrt.simps [simp del]

definition finite_sqrt :: "float_format \<Rightarrow> int \<Rightarrow> int \<Rightarrow> 'a::len word" where
  "finite_sqrt F m e =
     (let k = 2 * (mant_bits F + 3) + nat (e mod 2); d = m * 2 ^ k; r = int_sqrt d
      in round_pack F False (2 * r + (if r * r = d then 0 else 1)) ((e - int k) div 2 - 1))"

definition float_sqrt :: "'a::len nan_choice \<Rightarrow> float_format \<Rightarrow> 'a word \<Rightarrow> 'a word" where
  "float_sqrt N F a =
     (case classify F a of
        NaN \<Rightarrow> N [a]
      | Infinite s \<Rightarrow> if s then N [a] else a
      | Finite s m e \<Rightarrow> if m = 0 then a else if s then N [a] else finite_sqrt F m e)"

definition float_mul_add :: "'a::len nan_choice \<Rightarrow> float_format \<Rightarrow> 'a word \<Rightarrow> 'a word \<Rightarrow> 'a word \<Rightarrow> 'a word" where
  "float_mul_add N F a b c =
     (case (classify F a, classify F b, classify F c) of
        (Finite s m e, Finite t n f, Finite u l g) \<Rightarrow> finite_add F (s \<noteq> t) (m * n) (e + f) u l g
      | (Finite s m e, Finite t n f, Infinite u) \<Rightarrow> infinity F u
      | (x, y, z) \<Rightarrow>
          if x = NaN \<or> y = NaN \<or> z = NaN then N [a, b, c]
          else float_add N F (float_mul N F a b) c)"

section \<open>Comparison\<close>

definition finite_less :: "bool \<Rightarrow> int \<Rightarrow> int \<Rightarrow> bool \<Rightarrow> int \<Rightarrow> int \<Rightarrow> bool" where
  "finite_less s m e t n f \<longleftrightarrow>
     (let g = min e f in negate_if s (m * 2 ^ nat (e - g)) < negate_if t (n * 2 ^ nat (f - g)))"

definition float_lt :: "float_format \<Rightarrow> 'a::len word \<Rightarrow> 'a word \<Rightarrow> bool" where
  "float_lt F a b \<longleftrightarrow>
     (case (classify F a, classify F b) of
        (Infinite s, Infinite t) \<Rightarrow> s \<and> \<not> t
      | (Infinite s, Finite t n f) \<Rightarrow> s
      | (Finite s m e, Infinite t) \<Rightarrow> \<not> t
      | (Finite s m e, Finite t n f) \<Rightarrow> finite_less s m e t n f
      | _ \<Rightarrow> False)"

definition float_is_nan :: "float_format \<Rightarrow> 'a::len word \<Rightarrow> bool" where
  "float_is_nan F a \<longleftrightarrow> classify F a = NaN"

definition float_eq :: "float_format \<Rightarrow> 'a::len word \<Rightarrow> 'a word \<Rightarrow> bool" where
  "float_eq F a b \<longleftrightarrow>
     \<not> float_is_nan F a \<and> \<not> float_is_nan F b \<and> \<not> float_lt F a b \<and> \<not> float_lt F b a"

definition float_le :: "float_format \<Rightarrow> 'a::len word \<Rightarrow> 'a word \<Rightarrow> bool" where
  "float_le F a b \<longleftrightarrow> float_lt F a b \<or> float_eq F a b"

section \<open>Conversions\<close>

definition float_of_int :: "float_format \<Rightarrow> int \<Rightarrow> 'a::len word" where
  "float_of_int F n = round_pack F (n < 0) \<bar>n\<bar> 0"

definition float_convert :: "'b::len nan_choice \<Rightarrow> float_format \<Rightarrow> float_format \<Rightarrow> 'a::len word \<Rightarrow> 'b word" where
  "float_convert N F G a =
     (case classify F a of
        NaN \<Rightarrow> N []
      | Infinite s \<Rightarrow> infinity G s
      | Finite s m e \<Rightarrow> round_pack G s m e)"

definition trunc_mag :: "int \<Rightarrow> int \<Rightarrow> int" where
  "trunc_mag m e = (if 0 \<le> e then m * 2 ^ nat e else m div 2 ^ nat (- e))"

text \<open>\<open>as\<close> from a float to an integer in \<open>lo..hi\<close>: truncating, saturating, and zero for NaN.\<close>

definition float_as_int :: "float_format \<Rightarrow> int \<Rightarrow> int \<Rightarrow> 'a::len word \<Rightarrow> int" where
  "float_as_int F lo hi a =
     (case classify F a of
        NaN \<Rightarrow> 0
      | Infinite s \<Rightarrow> if s then lo else hi
      | Finite s m e \<Rightarrow> max lo (min hi (negate_if s (trunc_mag m e))))"

definition float_as_sint :: "float_format \<Rightarrow> 'a::len word \<Rightarrow> 'b::len word" where
  "float_as_sint F a = word_of_int (float_as_int F (- (2 ^ (LENGTH('b) - 1))) (2 ^ (LENGTH('b) - 1) - 1) a)"

definition float_as_uint :: "float_format \<Rightarrow> 'a::len word \<Rightarrow> 'b::len word" where
  "float_as_uint F a = word_of_int (float_as_int F 0 (2 ^ LENGTH('b) - 1) a)"

section \<open>Rounding to an integer\<close>

text \<open>\<open>trunc\<close>, \<open>floor\<close>, \<open>ceil\<close> and \<open>round_ties_even\<close> of the standard library, for a float that is
  not NaN; the sign is kept, also of a zero result.\<close>

definition ceil_mag :: "int \<Rightarrow> int \<Rightarrow> int" where
  "ceil_mag m e = (if 0 \<le> e then m * 2 ^ nat e else - ((- m) div 2 ^ nat (- e)))"

definition nearest_mag :: "int \<Rightarrow> int \<Rightarrow> int" where
  "nearest_mag m e = (if 0 \<le> e then m * 2 ^ nat e else round_shift m (nat (- e)))"

definition float_integral :: "(bool \<Rightarrow> int \<Rightarrow> int \<Rightarrow> int) \<Rightarrow> float_format \<Rightarrow> 'a::len word \<Rightarrow> 'a word" where
  "float_integral f F a =
     (case classify F a of
        Finite s m e \<Rightarrow> round_pack F s (f s m e) 0
      | _ \<Rightarrow> a)"

definition float_trunc :: "float_format \<Rightarrow> 'a::len word \<Rightarrow> 'a word" where
  "float_trunc = float_integral (\<lambda>s. trunc_mag)"

definition float_floor :: "float_format \<Rightarrow> 'a::len word \<Rightarrow> 'a word" where
  "float_floor = float_integral (\<lambda>s. if s then ceil_mag else trunc_mag)"

definition float_ceil :: "float_format \<Rightarrow> 'a::len word \<Rightarrow> 'a word" where
  "float_ceil = float_integral (\<lambda>s. if s then trunc_mag else ceil_mag)"

definition float_round_ties_even :: "float_format \<Rightarrow> 'a::len word \<Rightarrow> 'a word" where
  "float_round_ties_even = float_integral (\<lambda>s. nearest_mag)"

section \<open>The functions of math.rs\<close>

definition f32_cvt_to_int_bounds :: "bool \<Rightarrow> nat \<Rightarrow> (u32 \<times> u32, 'e) res" where
  "f32_cvt_to_int_bounds is_signed out_bits =
     (let f = float_of_int binary32; one = float_of_int binary32 1 :: u32;
          sub = float_sub (\<lambda>_. 0) binary32; add = float_add (\<lambda>_. 0) binary32 in
      if is_signed \<and> out_bits = 8 then Ok (sub (f (-128)) one, add (f 127) one)
      else if is_signed \<and> out_bits = 16 then Ok (sub (f (-32768)) one, add (f 32767) one)
      else if is_signed \<and> out_bits = 32 then Ok (f (-2147483904), f 2147483648)
      else if is_signed \<and> out_bits = 64 then Ok (f (-9223373136366403584), f 9223372036854775808)
      else if \<not> is_signed \<and> out_bits = 8 then Ok (f (-1), add (f 255) one)
      else if \<not> is_signed \<and> out_bits = 16 then Ok (f (-1), add (f 65535) one)
      else if \<not> is_signed \<and> out_bits = 32 then Ok (f (-1), f 4294967296)
      else if \<not> is_signed \<and> out_bits = 64 then Ok (f (-1), f 18446744073709551616)
      else Panic)"

definition f64_cvt_to_int_bounds :: "bool \<Rightarrow> nat \<Rightarrow> (u64 \<times> u64, 'e) res" where
  "f64_cvt_to_int_bounds is_signed out_bits =
     (let f = float_of_int binary64; one = float_of_int binary64 1 :: u64;
          sub = float_sub (\<lambda>_. 0) binary64; add = float_add (\<lambda>_. 0) binary64 in
      if is_signed \<and> out_bits = 8 then Ok (sub (f (-128)) one, add (f 127) one)
      else if is_signed \<and> out_bits = 16 then Ok (sub (f (-32768)) one, add (f 32767) one)
      else if is_signed \<and> out_bits = 32 then Ok (f (-2147483649), f 2147483648)
      else if is_signed \<and> out_bits = 64 then Ok (f (-9223372036854777856), f 9223372036854775808)
      else if \<not> is_signed \<and> out_bits = 8 then Ok (f (-1), add (f 255) one)
      else if \<not> is_signed \<and> out_bits = 16 then Ok (f (-1), add (f 65535) one)
      else if \<not> is_signed \<and> out_bits = 32 then Ok (f (-1), f 4294967296)
      else if \<not> is_signed \<and> out_bits = 64 then Ok (f (-1), f 18446744073709551616)
      else Panic)"

text \<open>\<open>N []\<close> is the constant \<open>f32::NAN\<close> or \<open>f64::NAN\<close>.\<close>

definition wasm_trunc :: "'a::len nan_choice \<Rightarrow> float_format \<Rightarrow> 'a word \<Rightarrow> 'a word" where
  "wasm_trunc N F self = (if float_is_nan F self then N [] else float_trunc F self)"

definition wasm_copysign :: "float_format \<Rightarrow> 'a::len word \<Rightarrow> 'a word \<Rightarrow> 'a word" where
  "wasm_copysign F self sign = float_copysign F self sign"

definition wasm_floor :: "'a::len nan_choice \<Rightarrow> float_format \<Rightarrow> 'a word \<Rightarrow> 'a word" where
  "wasm_floor N F self = (if float_is_nan F self then N [] else float_floor F self)"

definition wasm_ceil :: "'a::len nan_choice \<Rightarrow> float_format \<Rightarrow> 'a word \<Rightarrow> 'a word" where
  "wasm_ceil N F self = (if float_is_nan F self then N [] else float_ceil F self)"

definition wasm_sqrt :: "'a::len nan_choice \<Rightarrow> float_format \<Rightarrow> 'a word \<Rightarrow> 'a word" where
  "wasm_sqrt N F self = float_sqrt N F self"

definition wasm_abs :: "float_format \<Rightarrow> 'a::len word \<Rightarrow> 'a word" where
  "wasm_abs F self = float_abs F self"

definition wasm_nearest :: "'a::len nan_choice \<Rightarrow> float_format \<Rightarrow> 'a word \<Rightarrow> 'a word" where
  "wasm_nearest N F self = (if float_is_nan F self then N [] else float_round_ties_even F self)"

definition wasm_maximum :: "'a::len nan_choice \<Rightarrow> float_format \<Rightarrow> 'a word \<Rightarrow> 'a word \<Rightarrow> 'a word" where
  "wasm_maximum N F self other =
     (if float_lt F other self then self
      else if float_lt F self other then other
      else if float_eq F self other then
        (if \<not> sign_bit F self \<and> sign_bit F other then self else other)
      else float_add N F self other)"

definition wasm_minimum :: "'a::len nan_choice \<Rightarrow> float_format \<Rightarrow> 'a word \<Rightarrow> 'a word \<Rightarrow> 'a word" where
  "wasm_minimum N F self other =
     (if float_lt F self other then self
      else if float_lt F other self then other
      else if float_eq F self other then
        (if sign_bit F self \<and> \<not> sign_bit F other then self else other)
      else float_add N F self other)"

definition wasm_mul_add :: "'a::len nan_choice \<Rightarrow> float_format \<Rightarrow> 'a word \<Rightarrow> 'a word \<Rightarrow> 'a word \<Rightarrow> 'a word" where
  "wasm_mul_add N F self b c = float_mul_add N F self b c"

lemma cvt_bounds:
  "f32_cvt_to_int_bounds s 32 =
     Ok (if s then (float_of_int binary32 (-2147483904), float_of_int binary32 2147483648)
         else (float_of_int binary32 (-1), float_of_int binary32 4294967296))"
  "f32_cvt_to_int_bounds s 64 =
     Ok (if s then (float_of_int binary32 (-9223373136366403584), float_of_int binary32 9223372036854775808)
         else (float_of_int binary32 (-1), float_of_int binary32 18446744073709551616))"
  "f64_cvt_to_int_bounds s 32 =
     Ok (if s then (float_of_int binary64 (-2147483649), float_of_int binary64 2147483648)
         else (float_of_int binary64 (-1), float_of_int binary64 4294967296))"
  "f64_cvt_to_int_bounds s 64 =
     Ok (if s then (float_of_int binary64 (-9223372036854777856), float_of_int binary64 9223372036854775808)
         else (float_of_int binary64 (-1), float_of_int binary64 18446744073709551616))"
  unfolding f32_cvt_to_int_bounds_def f64_cvt_to_int_bounds_def Let_def by simp_all

end
