(* ===== verification/Pulley_Vector.thy ===== *)
theory Pulley_Vector
  imports Pulley_Extended Wasm_Float
begin

unbundle bit_operations_syntax

text \<open>
  The float and vector handlers of \<open>impl ExtendedOpVisitor for Interpreter\<close> in
  \<open>pulley/src/interp.rs\<close>. The source repeats each of them for every lane shape; here a definition
  takes the lane operation, whose type fixes the lane width, and the tables of
  \<open>Pulley_Dispatch\<close> give one instance per instruction. A vector register is read as the list of
  its lanes, lowest first, as the little-endian union of the source is. Lanes and float registers
  hold bit patterns, and \<open>NaNs\<close> is the host's choice of the NaN an operation returns.
\<close>

section \<open>Lanes\<close>

definition lanes :: "'a::len word \<Rightarrow> 'b::len word list" where
  "lanes v = map (\<lambda>k. ucast (drop_bit (k * LENGTH('b)) v)) [0..<LENGTH('a) div LENGTH('b)]"

fun of_lanes :: "'b::len word list \<Rightarrow> 'a::len word" where
  "of_lanes [] = 0"
| "of_lanes (x # xs) = ucast x OR push_bit LENGTH('b) (of_lanes xs)"

definition v_lanes :: "Interpreter \<Rightarrow> VReg \<Rightarrow> 'b::len word list" where
  "v_lanes i r = lanes (v_get128 i r)"

definition v_set_lanes :: "VReg \<Rightarrow> 'b::len word list \<Rightarrow> Interpreter \<Rightarrow> Interpreter" where
  "v_set_lanes r xs i = v_set128 r (of_lanes xs) i"

section \<open>Lane operations\<close>

definition saturating_add_s :: "'a::len word \<Rightarrow> 'a word \<Rightarrow> 'a word" where
  "saturating_add_s a b =
     word_of_int (max (- (2 ^ (LENGTH('a) - 1))) (min (2 ^ (LENGTH('a) - 1) - 1) (sint a + sint b)))"

definition saturating_sub_s :: "'a::len word \<Rightarrow> 'a word \<Rightarrow> 'a word" where
  "saturating_sub_s a b =
     word_of_int (max (- (2 ^ (LENGTH('a) - 1))) (min (2 ^ (LENGTH('a) - 1) - 1) (sint a - sint b)))"

definition saturating_add_u :: "'a::len word \<Rightarrow> 'a word \<Rightarrow> 'a word" where
  "saturating_add_u a b = word_of_int (min (2 ^ LENGTH('a) - 1) (uint a + uint b))"

definition saturating_sub_u :: "'a::len word \<Rightarrow> 'a word \<Rightarrow> 'a word" where
  "saturating_sub_u a b = word_of_int (max 0 (uint a - uint b))"

text \<open>\<open>try_into().unwrap_or(..)\<close> from a signed lane to a signed and to an unsigned one, and from an
  unsigned lane to an unsigned one.\<close>

definition narrow_s :: "'a::len word \<Rightarrow> 'b::len word" where
  "narrow_s x =
     (if - (2 ^ (LENGTH('b) - 1)) \<le> sint x \<and> sint x < 2 ^ (LENGTH('b) - 1) then word_of_int (sint x)
      else if sint x < 0 then word_of_int (- (2 ^ (LENGTH('b) - 1))) else word_of_int (2 ^ (LENGTH('b) - 1) - 1))"

definition narrow_u :: "'a::len word \<Rightarrow> 'b::len word" where
  "narrow_u x =
     (if 0 \<le> sint x \<and> sint x < 2 ^ LENGTH('b) then word_of_int (sint x)
      else if sint x < 0 then 0 else -1)"

definition unarrow_u :: "'a::len word \<Rightarrow> 'b::len word" where
  "unarrow_u x = (if uint x < 2 ^ LENGTH('b) then word_of_int (uint x) else -1)"

definition qmulrs :: "u16 \<Rightarrow> u16 \<Rightarrow> u16" where
  "qmulrs a b =
     (let r = wrapping_sshr ((scast a :: u32) * scast b + wrapping_shl 1 14) 15
      in ucast (max_s (scast (0x8000 :: u16)) (min_s r (scast (0x7FFF :: u16)))))"

definition avground :: "'a::len word \<Rightarrow> 'a word \<Rightarrow> 'a word" where
  "avground a b = ucast ((ucast a + ucast b + 1 :: u32) div 2)"

definition lane_mask :: "('a::len word \<Rightarrow> 'a word \<Rightarrow> bool) \<Rightarrow> 'a word \<Rightarrow> 'a word \<Rightarrow> 'a word" where
  "lane_mask p a b = (if p a b then -1 else 0)"

definition slt :: "'a::len word \<Rightarrow> 'a word \<Rightarrow> bool" where "slt a b \<longleftrightarrow> sint a < sint b"
definition sle :: "'a::len word \<Rightarrow> 'a word \<Rightarrow> bool" where "sle a b \<longleftrightarrow> sint a \<le> sint b"

section \<open>Vector handlers\<close>

definition v_unop :: "('a::len word \<Rightarrow> 'b::len word) \<Rightarrow> VReg \<Rightarrow> VReg \<Rightarrow> handler" where
  "v_unop f dst src i =
     (let a = v_lanes i src
      in (Continue (), v_set_lanes dst (map f a) i))"

definition v_binop :: "('a::len word \<Rightarrow> 'a word \<Rightarrow> 'b::len word) \<Rightarrow> (VReg, VReg, VReg) BinaryOperands \<Rightarrow> handler" where
  "v_binop f operands i =
     (let a = v_lanes i (bo_src1 operands); b = v_lanes i (bo_src2 operands)
      in (Continue (), v_set_lanes (bo_dst operands) (map2 f a b) i))"

definition v_fma :: "('a::len word \<Rightarrow> 'a word \<Rightarrow> 'a word \<Rightarrow> 'a word) \<Rightarrow> VReg \<Rightarrow> VReg \<Rightarrow> VReg \<Rightarrow> VReg \<Rightarrow> handler" where
  "v_fma f dst a b c i =
     (let a = v_lanes i a; b = v_lanes i b; c = v_lanes i c
      in (Continue (), v_set_lanes dst (map2 (\<lambda>(a, b) c. f a b c) (zip a b) c) i))"

definition v_shift :: "('a::len word \<Rightarrow> nat \<Rightarrow> 'a word) \<Rightarrow> (VReg, VReg, XReg) BinaryOperands \<Rightarrow> handler" where
  "v_shift f operands i =
     (let a = v_lanes i (bo_src1 operands); b = x_get32 i (bo_src2 operands)
      in (Continue (), v_set_lanes (bo_dst operands) (map (\<lambda>a. f a (unat b)) a) i))"

fun pair_sums :: "'a::len word list \<Rightarrow> 'a word list" where
  "pair_sums (x # y # xs) = (x + y) # pair_sums xs"
| "pair_sums _ = []"

definition v_addpairwise :: "'a::len itself \<Rightarrow> (VReg, VReg, VReg) BinaryOperands \<Rightarrow> handler" where
  "v_addpairwise t operands i =
     (let a = v_lanes i (bo_src1 operands) :: 'a word list; b = v_lanes i (bo_src2 operands)
      in (Continue (), v_set_lanes (bo_dst operands) (pair_sums a @ pair_sums b) i))"

definition vconst128 :: "VReg \<Rightarrow> u128 \<Rightarrow> handler" where
  "vconst128 dst val i = (Continue (), v_set128 dst val i)"

definition v_splat :: "nat \<Rightarrow> ('a::len word \<Rightarrow> 'b::len word) \<Rightarrow> (Interpreter \<Rightarrow> 'r \<Rightarrow> 'a word) \<Rightarrow> VReg \<Rightarrow> 'r \<Rightarrow> handler" where
  "v_splat n into get dst src i =
     (let val = into (get i src)
      in (Continue (), v_set_lanes dst (replicate n val) i))"

definition v_load_widen :: "Insn \<Rightarrow> ('a::len word \<Rightarrow> 'b::len word) \<Rightarrow> VReg \<Rightarrow> AddrZ \<Rightarrow> handler" where
  "v_load_widen I into dst addr i =
     flow_bind (load_ne 8 I (addr_Z addr) i) (\<lambda>(val :: u64) i.
       (Continue (), v_set_lanes dst (map into (lanes val)) i))"

definition v_bits :: "(u128 \<Rightarrow> u128 \<Rightarrow> u128) \<Rightarrow> (VReg, VReg, VReg) BinaryOperands \<Rightarrow> handler" where
  "v_bits f operands i =
     (let a = v_get128 i (bo_src1 operands); b = v_get128 i (bo_src2 operands)
      in (Continue (), v_set128 (bo_dst operands) (f a b) i))"

definition vbnot128 :: "VReg \<Rightarrow> VReg \<Rightarrow> handler" where
  "vbnot128 dst src i =
     (let a = v_get128 i src
      in (Continue (), v_set128 dst (NOT a) i))"

definition vbitselect128 :: "VReg \<Rightarrow> VReg \<Rightarrow> VReg \<Rightarrow> VReg \<Rightarrow> handler" where
  "vbitselect128 dst c x y i =
     (let c = v_get128 i c; x = v_get128 i x; y = v_get128 i y
      in (Continue (), v_set128 dst ((c AND x) OR (NOT c AND y)) i))"

definition v_bitmask :: "'a::len itself \<Rightarrow> XReg \<Rightarrow> VReg \<Rightarrow> handler" where
  "v_bitmask t dst src i =
     (let a = v_lanes i src :: 'a word list;
          result = fold (\<lambda>item result. push_bit 1 result OR ucast (drop_bit (LENGTH('a) - 1) item)) (rev a) (0 :: u32)
      in (Continue (), x_set32 dst result i))"

definition v_alltrue :: "'a::len itself \<Rightarrow> XReg \<Rightarrow> VReg \<Rightarrow> handler" where
  "v_alltrue t dst src i =
     (let a = v_lanes i src :: 'a word list; result = list_all (\<lambda>a. a \<noteq> 0) a
      in (Continue (), x_set32 dst (of_bool result) i))"

definition v_anytrue :: "'a::len itself \<Rightarrow> XReg \<Rightarrow> VReg \<Rightarrow> handler" where
  "v_anytrue t dst src i =
     (let a = v_lanes i src :: 'a word list; result = list_ex (\<lambda>a. a \<noteq> 0) a
      in (Continue (), x_set32 dst (of_bool result) i))"

text \<open>\<open>first_chunk\<close> and \<open>last_chunk\<close> of half the lanes.\<close>

definition v_widenlow :: "('a::len word \<Rightarrow> 'b::len word) \<Rightarrow> VReg \<Rightarrow> VReg \<Rightarrow> handler" where
  "v_widenlow into dst src i =
     (let v = v_lanes i src; a = take (length v div 2) v
      in (Continue (), v_set_lanes dst (map into a) i))"

definition v_widenhigh :: "('a::len word \<Rightarrow> 'b::len word) \<Rightarrow> VReg \<Rightarrow> VReg \<Rightarrow> handler" where
  "v_widenhigh into dst src i =
     (let v = v_lanes i src; a = drop (length v div 2) v
      in (Continue (), v_set_lanes dst (map into a) i))"

definition v_narrow :: "('a::len word \<Rightarrow> 'b::len word) \<Rightarrow> (VReg, VReg, VReg) BinaryOperands \<Rightarrow> handler" where
  "v_narrow conv operands i =
     (let a = v_lanes i (bo_src1 operands); b = v_lanes i (bo_src2 operands)
      in (Continue (), v_set_lanes (bo_dst operands) (map conv (a @ b)) i))"

text \<open>A lane that does not exist is undefined behaviour in the source (\<open>get_unchecked\<close>).\<close>

definition v_extract :: "('r \<Rightarrow> 'a::len word \<Rightarrow> Interpreter \<Rightarrow> Interpreter) \<Rightarrow> 'r \<Rightarrow> VReg \<Rightarrow> u8 \<Rightarrow> handler" where
  "v_extract put dst src lane i =
     (let a = v_lanes i src
      in if unat lane < length a then (Continue (), put dst (a ! unat lane) i) else (Unwind, i))"

definition v_insert :: "('a::len word \<Rightarrow> 'b::len word) \<Rightarrow> (Interpreter \<Rightarrow> 'r \<Rightarrow> 'a word) \<Rightarrow> (VReg, VReg, 'r) BinaryOperands \<Rightarrow> u8 \<Rightarrow> handler" where
  "v_insert into get operands lane i =
     (let a = v_lanes i (bo_src1 operands); b = into (get i (bo_src2 operands))
      in if unat lane < length a then (Continue (), v_set_lanes (bo_dst operands) (a[unat lane := b]) i)
         else (Unwind, i))"

text \<open>Indexing the second operand out of range panics.\<close>

definition vshuffle :: "VReg \<Rightarrow> VReg \<Rightarrow> VReg \<Rightarrow> u128 \<Rightarrow> handler" where
  "vshuffle dst src1 src2 mask_bits i =
     (let a = v_lanes i src1 :: u8 list; b = v_lanes i src2; ms = to_le_bytes 16 mask_bits
      in if list_all (\<lambda>m. m < 32) ms
         then (Continue (), v_set_lanes dst (map (\<lambda>m. if m < 16 then a ! unat m else b ! (unat m - 16)) ms) i)
         else (Unwind, i))"

definition vswizzlei8x16 :: "(VReg, VReg, VReg) BinaryOperands \<Rightarrow> handler" where
  "vswizzlei8x16 operands i =
     (let src1 = v_lanes i (bo_src1 operands) :: u8 list; src2 = v_lanes i (bo_src2 operands) :: u8 list;
          dst = map (\<lambda>idx. if (scast idx :: u64) < 16 then src1 ! unat (scast idx :: u64) else 0) src2
      in (Continue (), v_set_lanes (bo_dst operands) dst i))"

definition vselect :: "VReg \<Rightarrow> XReg \<Rightarrow> VReg \<Rightarrow> VReg \<Rightarrow> handler" where
  "vselect dst cond if_nonzero if_zero i =
     (let result = if x_get32 i cond \<noteq> 0 then v_get128 i if_nonzero else v_get128 i if_zero
      in (Continue (), v_set128 dst result i))"

section \<open>Float handlers\<close>

record NaNs =
  nan32 :: "32 nan_choice"
  nan64 :: "64 nan_choice"

abbreviation f32_to_f64 :: "NaNs \<Rightarrow> u32 \<Rightarrow> u64" where
  "f32_to_f64 N \<equiv> float_convert (nan64 N) binary32 binary64"

abbreviation f64_to_f32 :: "NaNs \<Rightarrow> u64 \<Rightarrow> u32" where
  "f64_to_f32 N \<equiv> float_convert (nan32 N) binary64 binary32"

definition f32_unop :: "(u32 \<Rightarrow> u32) \<Rightarrow> FReg \<Rightarrow> FReg \<Rightarrow> handler" where
  "f32_unop f dst src i = (let a = f_get32 i src in (Continue (), f_set32 dst (f a) i))"

definition f64_unop :: "(u64 \<Rightarrow> u64) \<Rightarrow> FReg \<Rightarrow> FReg \<Rightarrow> handler" where
  "f64_unop f dst src i = (let a = f_get64 i src in (Continue (), f_set64 dst (f a) i))"

definition f32_binop :: "(u32 \<Rightarrow> u32 \<Rightarrow> u32) \<Rightarrow> (FReg, FReg, FReg) BinaryOperands \<Rightarrow> handler" where
  "f32_binop f operands i =
     (let a = f_get32 i (bo_src1 operands); b = f_get32 i (bo_src2 operands)
      in (Continue (), f_set32 (bo_dst operands) (f a b) i))"

definition f64_binop :: "(u64 \<Rightarrow> u64 \<Rightarrow> u64) \<Rightarrow> (FReg, FReg, FReg) BinaryOperands \<Rightarrow> handler" where
  "f64_binop f operands i =
     (let a = f_get64 i (bo_src1 operands); b = f_get64 i (bo_src2 operands)
      in (Continue (), f_set64 (bo_dst operands) (f a b) i))"

definition f32_cmp :: "(u32 \<Rightarrow> u32 \<Rightarrow> bool) \<Rightarrow> XReg \<Rightarrow> FReg \<Rightarrow> FReg \<Rightarrow> handler" where
  "f32_cmp p dst src1 src2 i =
     (let a = f_get32 i src1; b = f_get32 i src2
      in (Continue (), x_set32 dst (of_bool (p a b)) i))"

definition f64_cmp :: "(u64 \<Rightarrow> u64 \<Rightarrow> bool) \<Rightarrow> XReg \<Rightarrow> FReg \<Rightarrow> FReg \<Rightarrow> handler" where
  "f64_cmp p dst src1 src2 i =
     (let a = f_get64 i src1; b = f_get64 i src2
      in (Continue (), x_set32 dst (of_bool (p a b)) i))"

definition f32_from_f64 :: "NaNs \<Rightarrow> FReg \<Rightarrow> FReg \<Rightarrow> handler" where
  "f32_from_f64 N dst src i = (let a = f_get64 i src in (Continue (), f_set32 dst (f64_to_f32 N a) i))"

definition f64_from_f32 :: "NaNs \<Rightarrow> FReg \<Rightarrow> FReg \<Rightarrow> handler" where
  "f64_from_f32 N dst src i = (let a = f_get32 i src in (Continue (), f_set64 dst (f32_to_f64 N a) i))"

text \<open>From an integer register, read by \<open>get\<close> with its sign.\<close>

definition f32_from_x :: "(Interpreter \<Rightarrow> XReg \<Rightarrow> int) \<Rightarrow> FReg \<Rightarrow> XReg \<Rightarrow> handler" where
  "f32_from_x get dst src i = (let a = get i src in (Continue (), f_set32 dst (float_of_int binary32 a) i))"

definition f64_from_x :: "(Interpreter \<Rightarrow> XReg \<Rightarrow> int) \<Rightarrow> FReg \<Rightarrow> XReg \<Rightarrow> handler" where
  "f64_from_x get dst src i = (let a = get i src in (Continue (), f_set64 dst (float_of_int binary64 a) i))"

definition check_xnn_from_f64 :: "NaNs \<Rightarrow> Insn \<Rightarrow> u64 \<Rightarrow> u64 \<times> u64 \<Rightarrow> handler" where
  "check_xnn_from_f64 N I val bounds i =
     (let (lo, hi) = bounds in
      if \<not> float_eq binary64 val val then done_trap_kind I (Some BadConversionToInteger) i
      else let val = wasm_trunc (nan64 N) binary64 val in
        if float_le binary64 val lo \<or> float_le binary64 hi val then done_trap_kind I (Some IntegerOverflow) i
        else (Continue (), i))"

definition check_xnn_from_f32 :: "NaNs \<Rightarrow> Insn \<Rightarrow> u32 \<Rightarrow> u32 \<times> u32 \<Rightarrow> handler" where
  "check_xnn_from_f32 N I val bounds i =
     (let (lo, hi) = bounds in check_xnn_from_f64 N I (f32_to_f64 N val) (f32_to_f64 N lo, f32_to_f64 N hi) i)"

text \<open>The trapping conversions; \<open>s\<close> tells whether the integer is signed.\<close>

definition x32_from_f32 :: "NaNs \<Rightarrow> Insn \<Rightarrow> bool \<Rightarrow> XReg \<Rightarrow> FReg \<Rightarrow> handler" where
  "x32_from_f32 N I s dst src i =
     (let a = f_get32 i src in
      case (f32_cvt_to_int_bounds s 32 :: (u32 \<times> u32, UB) res) of
        Ok bounds \<Rightarrow> flow_bind (check_xnn_from_f32 N I a bounds i) (\<lambda>_ i.
          (Continue (), x_set32 dst (if s then float_as_sint binary32 a else float_as_uint binary32 a) i))
      | _ \<Rightarrow> (Unwind, i))"

definition x64_from_f32 :: "NaNs \<Rightarrow> Insn \<Rightarrow> bool \<Rightarrow> XReg \<Rightarrow> FReg \<Rightarrow> handler" where
  "x64_from_f32 N I s dst src i =
     (let a = f_get32 i src in
      case (f32_cvt_to_int_bounds s 64 :: (u32 \<times> u32, UB) res) of
        Ok bounds \<Rightarrow> flow_bind (check_xnn_from_f32 N I a bounds i) (\<lambda>_ i.
          (Continue (), x_set64 dst (if s then float_as_sint binary32 a else float_as_uint binary32 a) i))
      | _ \<Rightarrow> (Unwind, i))"

definition x32_from_f64 :: "NaNs \<Rightarrow> Insn \<Rightarrow> bool \<Rightarrow> XReg \<Rightarrow> FReg \<Rightarrow> handler" where
  "x32_from_f64 N I s dst src i =
     (let a = f_get64 i src in
      case (f64_cvt_to_int_bounds s 32 :: (u64 \<times> u64, UB) res) of
        Ok bounds \<Rightarrow> flow_bind (check_xnn_from_f64 N I a bounds i) (\<lambda>_ i.
          (Continue (), x_set32 dst (if s then float_as_sint binary64 a else float_as_uint binary64 a) i))
      | _ \<Rightarrow> (Unwind, i))"

definition x64_from_f64 :: "NaNs \<Rightarrow> Insn \<Rightarrow> bool \<Rightarrow> XReg \<Rightarrow> FReg \<Rightarrow> handler" where
  "x64_from_f64 N I s dst src i =
     (let a = f_get64 i src in
      case (f64_cvt_to_int_bounds s 64 :: (u64 \<times> u64, UB) res) of
        Ok bounds \<Rightarrow> flow_bind (check_xnn_from_f64 N I a bounds i) (\<lambda>_ i.
          (Continue (), x_set64 dst (if s then float_as_sint binary64 a else float_as_uint binary64 a) i))
      | _ \<Rightarrow> (Unwind, i))"

text \<open>The saturating conversions: \<open>conv\<close> is the cast.\<close>

definition x32_from_f_sat :: "(Interpreter \<Rightarrow> FReg \<Rightarrow> 'a::len word) \<Rightarrow> ('a word \<Rightarrow> u32) \<Rightarrow> XReg \<Rightarrow> FReg \<Rightarrow> handler" where
  "x32_from_f_sat get conv dst src i = (let a = get i src in (Continue (), x_set32 dst (conv a) i))"

definition x64_from_f_sat :: "(Interpreter \<Rightarrow> FReg \<Rightarrow> 'a::len word) \<Rightarrow> ('a word \<Rightarrow> u64) \<Rightarrow> XReg \<Rightarrow> FReg \<Rightarrow> handler" where
  "x64_from_f_sat get conv dst src i = (let a = get i src in (Continue (), x_set64 dst (conv a) i))"

definition vfpromotelow :: "NaNs \<Rightarrow> VReg \<Rightarrow> VReg \<Rightarrow> handler" where
  "vfpromotelow N dst src i =
     (let a = v_lanes i src
      in (Continue (), v_set_lanes dst [f32_to_f64 N (a ! 0), f32_to_f64 N (a ! 1)] i))"

definition vfdemote :: "NaNs \<Rightarrow> VReg \<Rightarrow> VReg \<Rightarrow> handler" where
  "vfdemote N dst src i =
     (let a = v_lanes i src
      in (Continue (), v_set_lanes dst [f64_to_f32 N (a ! 0), f64_to_f32 N (a ! 1), 0, 0] i))"

section \<open>Lanes and registers\<close>

lemma length_lanes [simp]: "length (lanes (v :: 'a::len word) :: 'b::len word list) = LENGTH('a) div LENGTH('b)"
  by (simp add: lanes_def)

lemma bit_lanes:
  assumes "k < LENGTH('a) div LENGTH('b)"
  shows "bit ((lanes (v :: 'a::len word) :: 'b::len word list) ! k) n \<longleftrightarrow> n < LENGTH('b) \<and> bit v (k * LENGTH('b) + n)"
  using assms by (auto simp: lanes_def bit_simps dest: bit_imp_le_length)

lemma bit_of_lanes:
  "bit (of_lanes (xs :: 'b::len word list) :: 'a::len word) n \<longleftrightarrow>
     n < LENGTH('a) \<and> n div LENGTH('b) < length xs \<and> bit (xs ! (n div LENGTH('b))) (n mod LENGTH('b))"
proof (induction xs arbitrary: n)
  case (Cons x xs)
  then show ?case
  proof (cases "n < LENGTH('b)")
    case False
    then have "n div LENGTH('b) = Suc ((n - LENGTH('b)) div LENGTH('b))" "n mod LENGTH('b) = (n - LENGTH('b)) mod LENGTH('b)"
      by (simp_all add: le_div_geq le_mod_geq)
    then show ?thesis using False Cons.IH [of "n - LENGTH('b)"] by (auto simp: bit_simps dest: bit_imp_le_length)
  qed (auto simp: bit_simps)
qed simp

lemma of_lanes_lanes:
  assumes "LENGTH('b::len) dvd LENGTH('a::len)"
  shows "of_lanes (lanes (v :: 'a word) :: 'b word list) = v"
proof (rule bit_word_eqI)
  fix n assume "n < LENGTH('a)"
  then have "n div LENGTH('b) < LENGTH('a) div LENGTH('b)" using assms by (simp add: less_mult_imp_div_less dvd_div_mult_self)
  then show "bit (of_lanes (lanes v :: 'b word list) :: 'a word) n = bit v n"
    using \<open>n < LENGTH('a)\<close> by (simp add: bit_of_lanes bit_lanes)
qed

lemma lanes_of_lanes:
  assumes "length xs * LENGTH('b) = LENGTH('a)"
  shows "lanes (of_lanes (xs :: 'b::len word list) :: 'a::len word) = xs"
proof (rule nth_equalityI)
  have l: "LENGTH('a) div LENGTH('b) = length xs" using assms [symmetric] by simp
  then show "length (lanes (of_lanes xs :: 'a word) :: 'b word list) = length xs" by simp
  fix k assume "k < length (lanes (of_lanes xs :: 'a word) :: 'b word list)"
  then have k: "k < length xs" using l by simp
  show "lanes (of_lanes xs :: 'a word) ! k = xs ! k"
  proof (rule bit_word_eqI)
    fix n assume n: "n < LENGTH('b)"
    have "Suc k * LENGTH('b) \<le> length xs * LENGTH('b)" using k by (intro mult_le_mono1) simp
    then have "k * LENGTH('b) + n < LENGTH('a)" using n assms by simp
    moreover have "k < LENGTH('a) div LENGTH('b)" using k l by simp
    ultimately show "bit (lanes (of_lanes xs :: 'a word) ! k :: 'b word) n = bit (xs ! k) n"
      using k n by (simp add: bit_lanes bit_of_lanes)
  qed
qed

end
