(* ===== verification/Pulley_Dispatch.thy ===== *)
theory Pulley_Dispatch
  imports Pulley_Control Pulley_Integer Pulley_Memory Pulley_Vector
begin

unbundle bit_operations_syntax

text \<open>
  \<open>impl OpVisitor for Interpreter\<close> and \<open>impl ExtendedOpVisitor for Interpreter\<close> as tables
  from instruction names to handlers. The tables list the instructions in the order of the
  instruction lists of \<open>pulley/src/lib.rs\<close>. An entry names the handler of its own definition, or
  gives the instance of a handler that the source repeats for every lane shape, float width or
  immediate type.
\<close>

section \<open>Passing the operands\<close>

text \<open>Each \<open>arg\<close> function takes the next operand, which has the type its name says, and
  passes it on; the remaining case cannot occur for a decoded instruction.\<close>

definition no_args :: "handler \<Rightarrow> operand list \<Rightarrow> handler" where
  "no_args h args i = (case args of [] \<Rightarrow> h i | _ \<Rightarrow> (Unwind, i))"

definition arg_u8 :: "(u8 \<Rightarrow> operand list \<Rightarrow> handler) \<Rightarrow> operand list \<Rightarrow> handler" where
  "arg_u8 k args i = (case args of O_u8 x # rest \<Rightarrow> k x rest i | _ \<Rightarrow> (Unwind, i))"

definition arg_u16 :: "(u16 \<Rightarrow> operand list \<Rightarrow> handler) \<Rightarrow> operand list \<Rightarrow> handler" where
  "arg_u16 k args i = (case args of O_u16 x # rest \<Rightarrow> k x rest i | _ \<Rightarrow> (Unwind, i))"

definition arg_u32 :: "(u32 \<Rightarrow> operand list \<Rightarrow> handler) \<Rightarrow> operand list \<Rightarrow> handler" where
  "arg_u32 k args i = (case args of O_u32 x # rest \<Rightarrow> k x rest i | _ \<Rightarrow> (Unwind, i))"

definition arg_u64 :: "(u64 \<Rightarrow> operand list \<Rightarrow> handler) \<Rightarrow> operand list \<Rightarrow> handler" where
  "arg_u64 k args i = (case args of O_u64 x # rest \<Rightarrow> k x rest i | _ \<Rightarrow> (Unwind, i))"

definition arg_u128 :: "(u128 \<Rightarrow> operand list \<Rightarrow> handler) \<Rightarrow> operand list \<Rightarrow> handler" where
  "arg_u128 k args i = (case args of O_u128 x # rest \<Rightarrow> k x rest i | _ \<Rightarrow> (Unwind, i))"

definition arg_i8 :: "(u8 \<Rightarrow> operand list \<Rightarrow> handler) \<Rightarrow> operand list \<Rightarrow> handler" where
  "arg_i8 k args i = (case args of O_i8 x # rest \<Rightarrow> k x rest i | _ \<Rightarrow> (Unwind, i))"

definition arg_i16 :: "(u16 \<Rightarrow> operand list \<Rightarrow> handler) \<Rightarrow> operand list \<Rightarrow> handler" where
  "arg_i16 k args i = (case args of O_i16 x # rest \<Rightarrow> k x rest i | _ \<Rightarrow> (Unwind, i))"

definition arg_i32 :: "(u32 \<Rightarrow> operand list \<Rightarrow> handler) \<Rightarrow> operand list \<Rightarrow> handler" where
  "arg_i32 k args i = (case args of O_i32 x # rest \<Rightarrow> k x rest i | _ \<Rightarrow> (Unwind, i))"

definition arg_i64 :: "(u64 \<Rightarrow> operand list \<Rightarrow> handler) \<Rightarrow> operand list \<Rightarrow> handler" where
  "arg_i64 k args i = (case args of O_i64 x # rest \<Rightarrow> k x rest i | _ \<Rightarrow> (Unwind, i))"

definition arg_XReg :: "(XReg \<Rightarrow> operand list \<Rightarrow> handler) \<Rightarrow> operand list \<Rightarrow> handler" where
  "arg_XReg k args i = (case args of O_XReg x # rest \<Rightarrow> k x rest i | _ \<Rightarrow> (Unwind, i))"

definition arg_FReg :: "(FReg \<Rightarrow> operand list \<Rightarrow> handler) \<Rightarrow> operand list \<Rightarrow> handler" where
  "arg_FReg k args i = (case args of O_FReg x # rest \<Rightarrow> k x rest i | _ \<Rightarrow> (Unwind, i))"

definition arg_VReg :: "(VReg \<Rightarrow> operand list \<Rightarrow> handler) \<Rightarrow> operand list \<Rightarrow> handler" where
  "arg_VReg k args i = (case args of O_VReg x # rest \<Rightarrow> k x rest i | _ \<Rightarrow> (Unwind, i))"

definition arg_PcRelOffset :: "(PcRelOffset \<Rightarrow> operand list \<Rightarrow> handler) \<Rightarrow> operand list \<Rightarrow> handler" where
  "arg_PcRelOffset k args i = (case args of O_PcRelOffset x # rest \<Rightarrow> k x rest i | _ \<Rightarrow> (Unwind, i))"

definition arg_BinX :: "((XReg, XReg, XReg) BinaryOperands \<Rightarrow> operand list \<Rightarrow> handler) \<Rightarrow> operand list \<Rightarrow> handler" where
  "arg_BinX k args i = (case args of O_BinX x # rest \<Rightarrow> k x rest i | _ \<Rightarrow> (Unwind, i))"

definition arg_BinXU6 :: "((XReg, XReg, U6) BinaryOperands \<Rightarrow> operand list \<Rightarrow> handler) \<Rightarrow> operand list \<Rightarrow> handler" where
  "arg_BinXU6 k args i = (case args of O_BinXU6 x # rest \<Rightarrow> k x rest i | _ \<Rightarrow> (Unwind, i))"

definition arg_BinF :: "((FReg, FReg, FReg) BinaryOperands \<Rightarrow> operand list \<Rightarrow> handler) \<Rightarrow> operand list \<Rightarrow> handler" where
  "arg_BinF k args i = (case args of O_BinF x # rest \<Rightarrow> k x rest i | _ \<Rightarrow> (Unwind, i))"

definition arg_BinV :: "((VReg, VReg, VReg) BinaryOperands \<Rightarrow> operand list \<Rightarrow> handler) \<Rightarrow> operand list \<Rightarrow> handler" where
  "arg_BinV k args i = (case args of O_BinV x # rest \<Rightarrow> k x rest i | _ \<Rightarrow> (Unwind, i))"

definition arg_BinVVX :: "((VReg, VReg, XReg) BinaryOperands \<Rightarrow> operand list \<Rightarrow> handler) \<Rightarrow> operand list \<Rightarrow> handler" where
  "arg_BinVVX k args i = (case args of O_BinVVX x # rest \<Rightarrow> k x rest i | _ \<Rightarrow> (Unwind, i))"

definition arg_BinVVF :: "((VReg, VReg, FReg) BinaryOperands \<Rightarrow> operand list \<Rightarrow> handler) \<Rightarrow> operand list \<Rightarrow> handler" where
  "arg_BinVVF k args i = (case args of O_BinVVF x # rest \<Rightarrow> k x rest i | _ \<Rightarrow> (Unwind, i))"

definition arg_UpperRegSet :: "(UpperRegSet \<Rightarrow> operand list \<Rightarrow> handler) \<Rightarrow> operand list \<Rightarrow> handler" where
  "arg_UpperRegSet k args i = (case args of O_UpperRegSet x # rest \<Rightarrow> k x rest i | _ \<Rightarrow> (Unwind, i))"

definition arg_AddrO32 :: "(AddrO32 \<Rightarrow> operand list \<Rightarrow> handler) \<Rightarrow> operand list \<Rightarrow> handler" where
  "arg_AddrO32 k args i = (case args of O_AddrO32 x # rest \<Rightarrow> k x rest i | _ \<Rightarrow> (Unwind, i))"

definition arg_AddrZ :: "(AddrZ \<Rightarrow> operand list \<Rightarrow> handler) \<Rightarrow> operand list \<Rightarrow> handler" where
  "arg_AddrZ k args i = (case args of O_AddrZ x # rest \<Rightarrow> k x rest i | _ \<Rightarrow> (Unwind, i))"

definition arg_AddrG32 :: "(AddrG32 \<Rightarrow> operand list \<Rightarrow> handler) \<Rightarrow> operand list \<Rightarrow> handler" where
  "arg_AddrG32 k args i = (case args of O_AddrG32 x # rest \<Rightarrow> k x rest i | _ \<Rightarrow> (Unwind, i))"

definition arg_AddrG32Bne :: "(AddrG32Bne \<Rightarrow> operand list \<Rightarrow> handler) \<Rightarrow> operand list \<Rightarrow> handler" where
  "arg_AddrG32Bne k args i = (case args of O_AddrG32Bne x # rest \<Rightarrow> k x rest i | _ \<Rightarrow> (Unwind, i))"

section \<open>The handler tables\<close>

type_synonym handler_entry = "string \<times> (operand list \<Rightarrow> handler)"

definition h_ops_jump :: "handler_entry list" where
  "h_ops_jump = [
     (''Nop'', no_args nop),
     (''Ret'', no_args ret),
     (''Call'', arg_PcRelOffset (\<lambda>a. no_args (call a))),
     (''Call1'', arg_XReg (\<lambda>a. arg_PcRelOffset (\<lambda>b. no_args (call1 a b)))),
     (''Call2'', arg_XReg (\<lambda>a. arg_XReg (\<lambda>b. arg_PcRelOffset (\<lambda>c. no_args (call2 a b c))))),
     (''Call3'', arg_XReg (\<lambda>a. arg_XReg (\<lambda>b. arg_XReg (\<lambda>c. arg_PcRelOffset (\<lambda>d. no_args (call3 a b c d)))))),
     (''Call4'', arg_XReg (\<lambda>a. arg_XReg (\<lambda>b. arg_XReg (\<lambda>c. arg_XReg (\<lambda>d. arg_PcRelOffset (\<lambda>e. no_args (call4 a b c d e))))))),
     (''CallIndirect'', arg_XReg (\<lambda>a. no_args (call_indirect a))),
     (''Jump'', arg_PcRelOffset (\<lambda>a. no_args (jump a))),
     (''XJump'', arg_XReg (\<lambda>a. no_args (xjump a))),
     (''BrIf'', arg_XReg (\<lambda>a. arg_PcRelOffset (\<lambda>b. no_args (br_if32 a b)))),
     (''BrIfNot'', arg_XReg (\<lambda>a. arg_PcRelOffset (\<lambda>b. no_args (br_if_not32 a b))))]"

definition h_ops_br_x :: "handler_entry list" where
  "h_ops_br_x = [
     (''BrIfXeq32'', arg_XReg (\<lambda>a. arg_XReg (\<lambda>b. arg_PcRelOffset (\<lambda>c. no_args (br_if_x32 (BaseI ''BrIfXeq32'') (=) a b c))))),
     (''BrIfXneq32'', arg_XReg (\<lambda>a. arg_XReg (\<lambda>b. arg_PcRelOffset (\<lambda>c. no_args (br_if_x32 (BaseI ''BrIfXneq32'') (\<noteq>) a b c))))),
     (''BrIfXslt32'', arg_XReg (\<lambda>a. arg_XReg (\<lambda>b. arg_PcRelOffset (\<lambda>c. no_args (br_if_x32 (BaseI ''BrIfXslt32'') slt a b c))))),
     (''BrIfXslteq32'', arg_XReg (\<lambda>a. arg_XReg (\<lambda>b. arg_PcRelOffset (\<lambda>c. no_args (br_if_x32 (BaseI ''BrIfXslteq32'') sle a b c))))),
     (''BrIfXult32'', arg_XReg (\<lambda>a. arg_XReg (\<lambda>b. arg_PcRelOffset (\<lambda>c. no_args (br_if_x32 (BaseI ''BrIfXult32'') (<) a b c))))),
     (''BrIfXulteq32'', arg_XReg (\<lambda>a. arg_XReg (\<lambda>b. arg_PcRelOffset (\<lambda>c. no_args (br_if_x32 (BaseI ''BrIfXulteq32'') (\<le>) a b c))))),
     (''BrIfXeq64'', arg_XReg (\<lambda>a. arg_XReg (\<lambda>b. arg_PcRelOffset (\<lambda>c. no_args (br_if_x64 (BaseI ''BrIfXeq64'') (=) a b c))))),
     (''BrIfXneq64'', arg_XReg (\<lambda>a. arg_XReg (\<lambda>b. arg_PcRelOffset (\<lambda>c. no_args (br_if_x64 (BaseI ''BrIfXneq64'') (\<noteq>) a b c))))),
     (''BrIfXslt64'', arg_XReg (\<lambda>a. arg_XReg (\<lambda>b. arg_PcRelOffset (\<lambda>c. no_args (br_if_x64 (BaseI ''BrIfXslt64'') slt a b c))))),
     (''BrIfXslteq64'', arg_XReg (\<lambda>a. arg_XReg (\<lambda>b. arg_PcRelOffset (\<lambda>c. no_args (br_if_x64 (BaseI ''BrIfXslteq64'') sle a b c))))),
     (''BrIfXult64'', arg_XReg (\<lambda>a. arg_XReg (\<lambda>b. arg_PcRelOffset (\<lambda>c. no_args (br_if_x64 (BaseI ''BrIfXult64'') (<) a b c))))),
     (''BrIfXulteq64'', arg_XReg (\<lambda>a. arg_XReg (\<lambda>b. arg_PcRelOffset (\<lambda>c. no_args (br_if_x64 (BaseI ''BrIfXulteq64'') (\<le>) a b c)))))]"

definition h_ops_control :: "handler_entry list" where
  "h_ops_control = h_ops_jump @ h_ops_br_x"

definition h_ops_br_imm :: "handler_entry list" where
  "h_ops_br_imm = [
     (''BrIfXeq32I8'', arg_XReg (\<lambda>a. arg_i8 (\<lambda>b. arg_PcRelOffset (\<lambda>c. no_args (br_if_imm (BaseI ''BrIfXeq32I8'') get_i32 (=) a (sint b) c))))),
     (''BrIfXeq32I32'', arg_XReg (\<lambda>a. arg_i32 (\<lambda>b. arg_PcRelOffset (\<lambda>c. no_args (br_if_imm (BaseI ''BrIfXeq32I32'') get_i32 (=) a (sint b) c))))),
     (''BrIfXneq32I8'', arg_XReg (\<lambda>a. arg_i8 (\<lambda>b. arg_PcRelOffset (\<lambda>c. no_args (br_if_imm (BaseI ''BrIfXneq32I8'') get_i32 (\<noteq>) a (sint b) c))))),
     (''BrIfXneq32I32'', arg_XReg (\<lambda>a. arg_i32 (\<lambda>b. arg_PcRelOffset (\<lambda>c. no_args (br_if_imm (BaseI ''BrIfXneq32I32'') get_i32 (\<noteq>) a (sint b) c))))),
     (''BrIfXslt32I8'', arg_XReg (\<lambda>a. arg_i8 (\<lambda>b. arg_PcRelOffset (\<lambda>c. no_args (br_if_imm (BaseI ''BrIfXslt32I8'') get_i32 (<) a (sint b) c))))),
     (''BrIfXslt32I32'', arg_XReg (\<lambda>a. arg_i32 (\<lambda>b. arg_PcRelOffset (\<lambda>c. no_args (br_if_imm (BaseI ''BrIfXslt32I32'') get_i32 (<) a (sint b) c))))),
     (''BrIfXsgt32I8'', arg_XReg (\<lambda>a. arg_i8 (\<lambda>b. arg_PcRelOffset (\<lambda>c. no_args (br_if_imm (BaseI ''BrIfXsgt32I8'') get_i32 (>) a (sint b) c))))),
     (''BrIfXsgt32I32'', arg_XReg (\<lambda>a. arg_i32 (\<lambda>b. arg_PcRelOffset (\<lambda>c. no_args (br_if_imm (BaseI ''BrIfXsgt32I32'') get_i32 (>) a (sint b) c))))),
     (''BrIfXslteq32I8'', arg_XReg (\<lambda>a. arg_i8 (\<lambda>b. arg_PcRelOffset (\<lambda>c. no_args (br_if_imm (BaseI ''BrIfXslteq32I8'') get_i32 (\<le>) a (sint b) c))))),
     (''BrIfXslteq32I32'', arg_XReg (\<lambda>a. arg_i32 (\<lambda>b. arg_PcRelOffset (\<lambda>c. no_args (br_if_imm (BaseI ''BrIfXslteq32I32'') get_i32 (\<le>) a (sint b) c))))),
     (''BrIfXsgteq32I8'', arg_XReg (\<lambda>a. arg_i8 (\<lambda>b. arg_PcRelOffset (\<lambda>c. no_args (br_if_imm (BaseI ''BrIfXsgteq32I8'') get_i32 (\<ge>) a (sint b) c))))),
     (''BrIfXsgteq32I32'', arg_XReg (\<lambda>a. arg_i32 (\<lambda>b. arg_PcRelOffset (\<lambda>c. no_args (br_if_imm (BaseI ''BrIfXsgteq32I32'') get_i32 (\<ge>) a (sint b) c))))),
     (''BrIfXult32U8'', arg_XReg (\<lambda>a. arg_u8 (\<lambda>b. arg_PcRelOffset (\<lambda>c. no_args (br_if_imm (BaseI ''BrIfXult32U8'') get_u32 (<) a (uint b) c))))),
     (''BrIfXult32U32'', arg_XReg (\<lambda>a. arg_u32 (\<lambda>b. arg_PcRelOffset (\<lambda>c. no_args (br_if_imm (BaseI ''BrIfXult32U32'') get_u32 (<) a (uint b) c))))),
     (''BrIfXulteq32U8'', arg_XReg (\<lambda>a. arg_u8 (\<lambda>b. arg_PcRelOffset (\<lambda>c. no_args (br_if_imm (BaseI ''BrIfXulteq32U8'') get_u32 (\<le>) a (uint b) c))))),
     (''BrIfXulteq32U32'', arg_XReg (\<lambda>a. arg_u32 (\<lambda>b. arg_PcRelOffset (\<lambda>c. no_args (br_if_imm (BaseI ''BrIfXulteq32U32'') get_u32 (\<le>) a (uint b) c))))),
     (''BrIfXugt32U8'', arg_XReg (\<lambda>a. arg_u8 (\<lambda>b. arg_PcRelOffset (\<lambda>c. no_args (br_if_imm (BaseI ''BrIfXugt32U8'') get_u32 (>) a (uint b) c))))),
     (''BrIfXugt32U32'', arg_XReg (\<lambda>a. arg_u32 (\<lambda>b. arg_PcRelOffset (\<lambda>c. no_args (br_if_imm (BaseI ''BrIfXugt32U32'') get_u32 (>) a (uint b) c))))),
     (''BrIfXugteq32U8'', arg_XReg (\<lambda>a. arg_u8 (\<lambda>b. arg_PcRelOffset (\<lambda>c. no_args (br_if_imm (BaseI ''BrIfXugteq32U8'') get_u32 (\<ge>) a (uint b) c))))),
     (''BrIfXugteq32U32'', arg_XReg (\<lambda>a. arg_u32 (\<lambda>b. arg_PcRelOffset (\<lambda>c. no_args (br_if_imm (BaseI ''BrIfXugteq32U32'') get_u32 (\<ge>) a (uint b) c))))),
     (''BrIfXeq64I8'', arg_XReg (\<lambda>a. arg_i8 (\<lambda>b. arg_PcRelOffset (\<lambda>c. no_args (br_if_imm (BaseI ''BrIfXeq64I8'') get_i64 (=) a (sint b) c))))),
     (''BrIfXeq64I32'', arg_XReg (\<lambda>a. arg_i32 (\<lambda>b. arg_PcRelOffset (\<lambda>c. no_args (br_if_imm (BaseI ''BrIfXeq64I32'') get_i64 (=) a (sint b) c))))),
     (''BrIfXneq64I8'', arg_XReg (\<lambda>a. arg_i8 (\<lambda>b. arg_PcRelOffset (\<lambda>c. no_args (br_if_imm (BaseI ''BrIfXneq64I8'') get_i64 (\<noteq>) a (sint b) c))))),
     (''BrIfXneq64I32'', arg_XReg (\<lambda>a. arg_i32 (\<lambda>b. arg_PcRelOffset (\<lambda>c. no_args (br_if_imm (BaseI ''BrIfXneq64I32'') get_i64 (\<noteq>) a (sint b) c))))),
     (''BrIfXslt64I8'', arg_XReg (\<lambda>a. arg_i8 (\<lambda>b. arg_PcRelOffset (\<lambda>c. no_args (br_if_imm (BaseI ''BrIfXslt64I8'') get_i64 (<) a (sint b) c))))),
     (''BrIfXslt64I32'', arg_XReg (\<lambda>a. arg_i32 (\<lambda>b. arg_PcRelOffset (\<lambda>c. no_args (br_if_imm (BaseI ''BrIfXslt64I32'') get_i64 (<) a (sint b) c))))),
     (''BrIfXsgt64I8'', arg_XReg (\<lambda>a. arg_i8 (\<lambda>b. arg_PcRelOffset (\<lambda>c. no_args (br_if_imm (BaseI ''BrIfXsgt64I8'') get_i64 (>) a (sint b) c))))),
     (''BrIfXsgt64I32'', arg_XReg (\<lambda>a. arg_i32 (\<lambda>b. arg_PcRelOffset (\<lambda>c. no_args (br_if_imm (BaseI ''BrIfXsgt64I32'') get_i64 (>) a (sint b) c))))),
     (''BrIfXslteq64I8'', arg_XReg (\<lambda>a. arg_i8 (\<lambda>b. arg_PcRelOffset (\<lambda>c. no_args (br_if_imm (BaseI ''BrIfXslteq64I8'') get_i64 (\<le>) a (sint b) c))))),
     (''BrIfXslteq64I32'', arg_XReg (\<lambda>a. arg_i32 (\<lambda>b. arg_PcRelOffset (\<lambda>c. no_args (br_if_imm (BaseI ''BrIfXslteq64I32'') get_i64 (\<le>) a (sint b) c))))),
     (''BrIfXsgteq64I8'', arg_XReg (\<lambda>a. arg_i8 (\<lambda>b. arg_PcRelOffset (\<lambda>c. no_args (br_if_imm (BaseI ''BrIfXsgteq64I8'') get_i64 (\<ge>) a (sint b) c))))),
     (''BrIfXsgteq64I32'', arg_XReg (\<lambda>a. arg_i32 (\<lambda>b. arg_PcRelOffset (\<lambda>c. no_args (br_if_imm (BaseI ''BrIfXsgteq64I32'') get_i64 (\<ge>) a (sint b) c))))),
     (''BrIfXult64U8'', arg_XReg (\<lambda>a. arg_u8 (\<lambda>b. arg_PcRelOffset (\<lambda>c. no_args (br_if_imm (BaseI ''BrIfXult64U8'') get_u64 (<) a (uint b) c))))),
     (''BrIfXult64U32'', arg_XReg (\<lambda>a. arg_u32 (\<lambda>b. arg_PcRelOffset (\<lambda>c. no_args (br_if_imm (BaseI ''BrIfXult64U32'') get_u64 (<) a (uint b) c))))),
     (''BrIfXulteq64U8'', arg_XReg (\<lambda>a. arg_u8 (\<lambda>b. arg_PcRelOffset (\<lambda>c. no_args (br_if_imm (BaseI ''BrIfXulteq64U8'') get_u64 (\<le>) a (uint b) c))))),
     (''BrIfXulteq64U32'', arg_XReg (\<lambda>a. arg_u32 (\<lambda>b. arg_PcRelOffset (\<lambda>c. no_args (br_if_imm (BaseI ''BrIfXulteq64U32'') get_u64 (\<le>) a (uint b) c))))),
     (''BrIfXugt64U8'', arg_XReg (\<lambda>a. arg_u8 (\<lambda>b. arg_PcRelOffset (\<lambda>c. no_args (br_if_imm (BaseI ''BrIfXugt64U8'') get_u64 (>) a (uint b) c))))),
     (''BrIfXugt64U32'', arg_XReg (\<lambda>a. arg_u32 (\<lambda>b. arg_PcRelOffset (\<lambda>c. no_args (br_if_imm (BaseI ''BrIfXugt64U32'') get_u64 (>) a (uint b) c))))),
     (''BrIfXugteq64U8'', arg_XReg (\<lambda>a. arg_u8 (\<lambda>b. arg_PcRelOffset (\<lambda>c. no_args (br_if_imm (BaseI ''BrIfXugteq64U8'') get_u64 (\<ge>) a (uint b) c))))),
     (''BrIfXugteq64U32'', arg_XReg (\<lambda>a. arg_u32 (\<lambda>b. arg_PcRelOffset (\<lambda>c. no_args (br_if_imm (BaseI ''BrIfXugteq64U32'') get_u64 (\<ge>) a (uint b) c))))),
     (''BrTable32'', arg_XReg (\<lambda>a. arg_u32 (\<lambda>b. no_args (br_table32 a b))))]"

definition h_ops_x_const :: "handler_entry list" where
  "h_ops_x_const = [
     (''Xmov'', arg_XReg (\<lambda>a. arg_XReg (\<lambda>b. no_args (xmov a b)))),
     (''Xzero'', arg_XReg (\<lambda>a. no_args (xconst a (0 :: u64)))),
     (''Xone'', arg_XReg (\<lambda>a. no_args (xconst a (1 :: u64)))),
     (''Xconst8'', arg_XReg (\<lambda>a. arg_i8 (\<lambda>b. no_args (xconst a b)))),
     (''Xconst16'', arg_XReg (\<lambda>a. arg_i16 (\<lambda>b. no_args (xconst a b)))),
     (''Xconst32'', arg_XReg (\<lambda>a. arg_i32 (\<lambda>b. no_args (xconst a b)))),
     (''Xconst64'', arg_XReg (\<lambda>a. arg_i64 (\<lambda>b. no_args (xconst a b))))]"

definition h_ops_x_add :: "handler_entry list" where
  "h_ops_x_add = [
     (''Xadd32'', arg_BinX (\<lambda>a. no_args (x_binop32 (+) a))),
     (''Xadd32U8'', arg_XReg (\<lambda>a. arg_XReg (\<lambda>b. arg_u8 (\<lambda>c. no_args (x_imm32 (+) a b (ucast c)))))),
     (''Xadd32U32'', arg_XReg (\<lambda>a. arg_XReg (\<lambda>b. arg_u32 (\<lambda>c. no_args (x_imm32 (+) a b c))))),
     (''Xadd64'', arg_BinX (\<lambda>a. no_args (x_binop64 (+) a))),
     (''Xadd64U8'', arg_XReg (\<lambda>a. arg_XReg (\<lambda>b. arg_u8 (\<lambda>c. no_args (x_imm64 (+) a b (ucast (ucast c :: u32))))))),
     (''Xadd64U32'', arg_XReg (\<lambda>a. arg_XReg (\<lambda>b. arg_u32 (\<lambda>c. no_args (x_imm64 (+) a b (ucast c)))))),
     (''Xmadd32'', arg_XReg (\<lambda>a. arg_XReg (\<lambda>b. arg_XReg (\<lambda>c. arg_XReg (\<lambda>d. no_args (xmadd32 a b c d)))))),
     (''Xmadd64'', arg_XReg (\<lambda>a. arg_XReg (\<lambda>b. arg_XReg (\<lambda>c. arg_XReg (\<lambda>d. no_args (xmadd64 a b c d)))))),
     (''Xsub32'', arg_BinX (\<lambda>a. no_args (x_binop32 (-) a))),
     (''Xsub32U8'', arg_XReg (\<lambda>a. arg_XReg (\<lambda>b. arg_u8 (\<lambda>c. no_args (x_imm32 (-) a b (ucast c)))))),
     (''Xsub32U32'', arg_XReg (\<lambda>a. arg_XReg (\<lambda>b. arg_u32 (\<lambda>c. no_args (x_imm32 (-) a b c))))),
     (''Xsub64'', arg_BinX (\<lambda>a. no_args (x_binop64 (-) a))),
     (''Xsub64U8'', arg_XReg (\<lambda>a. arg_XReg (\<lambda>b. arg_u8 (\<lambda>c. no_args (x_imm64 (-) a b (ucast (ucast c :: u32))))))),
     (''Xsub64U32'', arg_XReg (\<lambda>a. arg_XReg (\<lambda>b. arg_u32 (\<lambda>c. no_args (x_imm64 (-) a b (ucast c)))))),
     (''XMul32'', arg_BinX (\<lambda>a. no_args (x_binop32 (*) a))),
     (''Xmul32S8'', arg_XReg (\<lambda>a. arg_XReg (\<lambda>b. arg_i8 (\<lambda>c. no_args (x_imm32 (*) a b (scast c)))))),
     (''Xmul32S32'', arg_XReg (\<lambda>a. arg_XReg (\<lambda>b. arg_i32 (\<lambda>c. no_args (x_imm32 (*) a b c))))),
     (''XMul64'', arg_BinX (\<lambda>a. no_args (x_binop64 (*) a))),
     (''Xmul64S8'', arg_XReg (\<lambda>a. arg_XReg (\<lambda>b. arg_i8 (\<lambda>c. no_args (x_imm64 (*) a b (scast (scast c :: u32))))))),
     (''Xmul64S32'', arg_XReg (\<lambda>a. arg_XReg (\<lambda>b. arg_i32 (\<lambda>c. no_args (x_imm64 (*) a b (scast c))))))]"

definition h_ops_x_arith :: "handler_entry list" where
  "h_ops_x_arith = h_ops_x_const @ h_ops_x_add"

definition h_ops_x_count :: "handler_entry list" where
  "h_ops_x_count = [
     (''Xctz32'', arg_XReg (\<lambda>a. arg_XReg (\<lambda>b. no_args (x_unop32 (\<lambda>x. of_nat (trailing_zeros x)) a b)))),
     (''Xctz64'', arg_XReg (\<lambda>a. arg_XReg (\<lambda>b. no_args (x_unop64 (\<lambda>x. of_nat (trailing_zeros x)) a b)))),
     (''Xclz32'', arg_XReg (\<lambda>a. arg_XReg (\<lambda>b. no_args (x_unop32 (\<lambda>x. of_nat (leading_zeros x)) a b)))),
     (''Xclz64'', arg_XReg (\<lambda>a. arg_XReg (\<lambda>b. no_args (x_unop64 (\<lambda>x. of_nat (leading_zeros x)) a b)))),
     (''Xpopcnt32'', arg_XReg (\<lambda>a. arg_XReg (\<lambda>b. no_args (x_unop32 (\<lambda>x. of_nat (count_ones x)) a b)))),
     (''Xpopcnt64'', arg_XReg (\<lambda>a. arg_XReg (\<lambda>b. no_args (x_unop64 (\<lambda>x. of_nat (count_ones x)) a b)))),
     (''Xrotl32'', arg_BinX (\<lambda>a. no_args (x_shift32 (\<lambda>x n. word_rotl n x) a))),
     (''Xrotl64'', arg_BinX (\<lambda>a. no_args (x_shift64 (\<lambda>x n. word_rotl n x) a))),
     (''Xrotr32'', arg_BinX (\<lambda>a. no_args (x_shift32 (\<lambda>x n. word_rotr n x) a))),
     (''Xrotr64'', arg_BinX (\<lambda>a. no_args (x_shift64 (\<lambda>x n. word_rotr n x) a)))]"

definition h_ops_x_shift :: "handler_entry list" where
  "h_ops_x_shift = [
     (''Xshl32'', arg_BinX (\<lambda>a. no_args (x_shift32 wrapping_shl a))),
     (''Xshr32S'', arg_BinX (\<lambda>a. no_args (x_shift32 wrapping_sshr a))),
     (''Xshr32U'', arg_BinX (\<lambda>a. no_args (x_shift32 wrapping_shr a))),
     (''Xshl64'', arg_BinX (\<lambda>a. no_args (x_shift64 wrapping_shl a))),
     (''Xshr64S'', arg_BinX (\<lambda>a. no_args (x_shift64 wrapping_sshr a))),
     (''Xshr64U'', arg_BinX (\<lambda>a. no_args (x_shift64 wrapping_shr a))),
     (''Xshl32U6'', arg_BinXU6 (\<lambda>a. no_args (x_shift32_u6 wrapping_shl a))),
     (''Xshr32SU6'', arg_BinXU6 (\<lambda>a. no_args (x_shift32_u6 wrapping_sshr a))),
     (''Xshr32UU6'', arg_BinXU6 (\<lambda>a. no_args (x_shift32_u6 wrapping_shr a))),
     (''Xshl64U6'', arg_BinXU6 (\<lambda>a. no_args (x_shift64_u6 wrapping_shl a))),
     (''Xshr64SU6'', arg_BinXU6 (\<lambda>a. no_args (x_shift64_u6 wrapping_sshr a))),
     (''Xshr64UU6'', arg_BinXU6 (\<lambda>a. no_args (x_shift64_u6 wrapping_shr a))),
     (''Xneg32'', arg_XReg (\<lambda>a. arg_XReg (\<lambda>b. no_args (x_unop32 uminus a b)))),
     (''Xneg64'', arg_XReg (\<lambda>a. arg_XReg (\<lambda>b. no_args (x_unop64 uminus a b))))]"

definition h_ops_x_cmp :: "handler_entry list" where
  "h_ops_x_cmp = [
     (''Xeq64'', arg_BinX (\<lambda>a. no_args (x_cmp64 (=) a))),
     (''Xneq64'', arg_BinX (\<lambda>a. no_args (x_cmp64 (\<noteq>) a))),
     (''Xslt64'', arg_BinX (\<lambda>a. no_args (x_cmp64 slt a))),
     (''Xslteq64'', arg_BinX (\<lambda>a. no_args (x_cmp64 sle a))),
     (''Xult64'', arg_BinX (\<lambda>a. no_args (x_cmp64 (<) a))),
     (''Xulteq64'', arg_BinX (\<lambda>a. no_args (x_cmp64 (\<le>) a))),
     (''Xeq32'', arg_BinX (\<lambda>a. no_args (x_cmp32 (=) a))),
     (''Xneq32'', arg_BinX (\<lambda>a. no_args (x_cmp32 (\<noteq>) a))),
     (''Xslt32'', arg_BinX (\<lambda>a. no_args (x_cmp32 slt a))),
     (''Xslteq32'', arg_BinX (\<lambda>a. no_args (x_cmp32 sle a))),
     (''Xult32'', arg_BinX (\<lambda>a. no_args (x_cmp32 (<) a))),
     (''Xulteq32'', arg_BinX (\<lambda>a. no_args (x_cmp32 (\<le>) a)))]"

definition h_ops_x_bits :: "handler_entry list" where
  "h_ops_x_bits = h_ops_x_count @ h_ops_x_shift @ h_ops_x_cmp"

definition h_ops_x_mem_o32 :: "handler_entry list" where
  "h_ops_x_mem_o32 = [
     (''XLoad8U32O32'', arg_XReg (\<lambda>a. arg_AddrO32 (\<lambda>b. no_args (xload8_u32 (BaseI ''XLoad8U32O32'') (addr_O32 b) a)))),
     (''XLoad8S32O32'', arg_XReg (\<lambda>a. arg_AddrO32 (\<lambda>b. no_args (xload8_s32 (BaseI ''XLoad8S32O32'') (addr_O32 b) a)))),
     (''XLoad16LeU32O32'', arg_XReg (\<lambda>a. arg_AddrO32 (\<lambda>b. no_args (xload16le_u32 (BaseI ''XLoad16LeU32O32'') (addr_O32 b) a)))),
     (''XLoad16LeS32O32'', arg_XReg (\<lambda>a. arg_AddrO32 (\<lambda>b. no_args (xload16le_s32 (BaseI ''XLoad16LeS32O32'') (addr_O32 b) a)))),
     (''XLoad32LeO32'', arg_XReg (\<lambda>a. arg_AddrO32 (\<lambda>b. no_args (xload32le (BaseI ''XLoad32LeO32'') (addr_O32 b) a)))),
     (''XLoad64LeO32'', arg_XReg (\<lambda>a. arg_AddrO32 (\<lambda>b. no_args (xload64le (BaseI ''XLoad64LeO32'') (addr_O32 b) a)))),
     (''XStore8O32'', arg_AddrO32 (\<lambda>a. arg_XReg (\<lambda>b. no_args (xstore8 (BaseI ''XStore8O32'') (addr_O32 a) b)))),
     (''XStore16LeO32'', arg_AddrO32 (\<lambda>a. arg_XReg (\<lambda>b. no_args (xstore16le (BaseI ''XStore16LeO32'') (addr_O32 a) b)))),
     (''XStore32LeO32'', arg_AddrO32 (\<lambda>a. arg_XReg (\<lambda>b. no_args (xstore32le (BaseI ''XStore32LeO32'') (addr_O32 a) b)))),
     (''XStore64LeO32'', arg_AddrO32 (\<lambda>a. arg_XReg (\<lambda>b. no_args (xstore64le (BaseI ''XStore64LeO32'') (addr_O32 a) b))))]"

definition h_ops_x_mem_z :: "handler_entry list" where
  "h_ops_x_mem_z = [
     (''XLoad8U32Z'', arg_XReg (\<lambda>a. arg_AddrZ (\<lambda>b. no_args (xload8_u32 (BaseI ''XLoad8U32Z'') (addr_Z b) a)))),
     (''XLoad8S32Z'', arg_XReg (\<lambda>a. arg_AddrZ (\<lambda>b. no_args (xload8_s32 (BaseI ''XLoad8S32Z'') (addr_Z b) a)))),
     (''XLoad16LeU32Z'', arg_XReg (\<lambda>a. arg_AddrZ (\<lambda>b. no_args (xload16le_u32 (BaseI ''XLoad16LeU32Z'') (addr_Z b) a)))),
     (''XLoad16LeS32Z'', arg_XReg (\<lambda>a. arg_AddrZ (\<lambda>b. no_args (xload16le_s32 (BaseI ''XLoad16LeS32Z'') (addr_Z b) a)))),
     (''XLoad32LeZ'', arg_XReg (\<lambda>a. arg_AddrZ (\<lambda>b. no_args (xload32le (BaseI ''XLoad32LeZ'') (addr_Z b) a)))),
     (''XLoad64LeZ'', arg_XReg (\<lambda>a. arg_AddrZ (\<lambda>b. no_args (xload64le (BaseI ''XLoad64LeZ'') (addr_Z b) a)))),
     (''XStore8Z'', arg_AddrZ (\<lambda>a. arg_XReg (\<lambda>b. no_args (xstore8 (BaseI ''XStore8Z'') (addr_Z a) b)))),
     (''XStore16LeZ'', arg_AddrZ (\<lambda>a. arg_XReg (\<lambda>b. no_args (xstore16le (BaseI ''XStore16LeZ'') (addr_Z a) b)))),
     (''XStore32LeZ'', arg_AddrZ (\<lambda>a. arg_XReg (\<lambda>b. no_args (xstore32le (BaseI ''XStore32LeZ'') (addr_Z a) b)))),
     (''XStore64LeZ'', arg_AddrZ (\<lambda>a. arg_XReg (\<lambda>b. no_args (xstore64le (BaseI ''XStore64LeZ'') (addr_Z a) b))))]"

definition h_ops_x_mem_g32 :: "handler_entry list" where
  "h_ops_x_mem_g32 = [
     (''XLoad8U32G32'', arg_XReg (\<lambda>a. arg_AddrG32 (\<lambda>b. no_args (xload8_u32 (BaseI ''XLoad8U32G32'') (addr_G32 b) a)))),
     (''XLoad8S32G32'', arg_XReg (\<lambda>a. arg_AddrG32 (\<lambda>b. no_args (xload8_s32 (BaseI ''XLoad8S32G32'') (addr_G32 b) a)))),
     (''XLoad16LeU32G32'', arg_XReg (\<lambda>a. arg_AddrG32 (\<lambda>b. no_args (xload16le_u32 (BaseI ''XLoad16LeU32G32'') (addr_G32 b) a)))),
     (''XLoad16LeS32G32'', arg_XReg (\<lambda>a. arg_AddrG32 (\<lambda>b. no_args (xload16le_s32 (BaseI ''XLoad16LeS32G32'') (addr_G32 b) a)))),
     (''XLoad32LeG32'', arg_XReg (\<lambda>a. arg_AddrG32 (\<lambda>b. no_args (xload32le (BaseI ''XLoad32LeG32'') (addr_G32 b) a)))),
     (''XLoad64LeG32'', arg_XReg (\<lambda>a. arg_AddrG32 (\<lambda>b. no_args (xload64le (BaseI ''XLoad64LeG32'') (addr_G32 b) a)))),
     (''XStore8G32'', arg_AddrG32 (\<lambda>a. arg_XReg (\<lambda>b. no_args (xstore8 (BaseI ''XStore8G32'') (addr_G32 a) b)))),
     (''XStore16LeG32'', arg_AddrG32 (\<lambda>a. arg_XReg (\<lambda>b. no_args (xstore16le (BaseI ''XStore16LeG32'') (addr_G32 a) b)))),
     (''XStore32LeG32'', arg_AddrG32 (\<lambda>a. arg_XReg (\<lambda>b. no_args (xstore32le (BaseI ''XStore32LeG32'') (addr_G32 a) b)))),
     (''XStore64LeG32'', arg_AddrG32 (\<lambda>a. arg_XReg (\<lambda>b. no_args (xstore64le (BaseI ''XStore64LeG32'') (addr_G32 a) b))))]"

definition h_ops_x_mem_g32bne :: "handler_entry list" where
  "h_ops_x_mem_g32bne = [
     (''XLoad8U32G32Bne'', arg_XReg (\<lambda>a. arg_AddrG32Bne (\<lambda>b. no_args (xload8_u32 (BaseI ''XLoad8U32G32Bne'') (addr_G32Bne b) a)))),
     (''XLoad8S32G32Bne'', arg_XReg (\<lambda>a. arg_AddrG32Bne (\<lambda>b. no_args (xload8_s32 (BaseI ''XLoad8S32G32Bne'') (addr_G32Bne b) a)))),
     (''XLoad16LeU32G32Bne'', arg_XReg (\<lambda>a. arg_AddrG32Bne (\<lambda>b. no_args (xload16le_u32 (BaseI ''XLoad16LeU32G32Bne'') (addr_G32Bne b) a)))),
     (''XLoad16LeS32G32Bne'', arg_XReg (\<lambda>a. arg_AddrG32Bne (\<lambda>b. no_args (xload16le_s32 (BaseI ''XLoad16LeS32G32Bne'') (addr_G32Bne b) a)))),
     (''XLoad32LeG32Bne'', arg_XReg (\<lambda>a. arg_AddrG32Bne (\<lambda>b. no_args (xload32le (BaseI ''XLoad32LeG32Bne'') (addr_G32Bne b) a)))),
     (''XLoad64LeG32Bne'', arg_XReg (\<lambda>a. arg_AddrG32Bne (\<lambda>b. no_args (xload64le (BaseI ''XLoad64LeG32Bne'') (addr_G32Bne b) a)))),
     (''XStore8G32Bne'', arg_AddrG32Bne (\<lambda>a. arg_XReg (\<lambda>b. no_args (xstore8 (BaseI ''XStore8G32Bne'') (addr_G32Bne a) b)))),
     (''XStore16LeG32Bne'', arg_AddrG32Bne (\<lambda>a. arg_XReg (\<lambda>b. no_args (xstore16le (BaseI ''XStore16LeG32Bne'') (addr_G32Bne a) b)))),
     (''XStore32LeG32Bne'', arg_AddrG32Bne (\<lambda>a. arg_XReg (\<lambda>b. no_args (xstore32le (BaseI ''XStore32LeG32Bne'') (addr_G32Bne a) b)))),
     (''XStore64LeG32Bne'', arg_AddrG32Bne (\<lambda>a. arg_XReg (\<lambda>b. no_args (xstore64le (BaseI ''XStore64LeG32Bne'') (addr_G32Bne a) b))))]"

definition h_ops_x_mem :: "handler_entry list" where
  "h_ops_x_mem = h_ops_x_mem_o32 @ h_ops_x_mem_z @ h_ops_x_mem_g32 @ h_ops_x_mem_g32bne"

definition h_ops_frame :: "handler_entry list" where
  "h_ops_frame = [
     (''PushFrame'', no_args push_frame),
     (''PopFrame'', no_args pop_frame),
     (''PushFrameSave'', arg_u16 (\<lambda>a. arg_UpperRegSet (\<lambda>b. no_args (push_frame_save a b)))),
     (''PopFrameRestore'', arg_u16 (\<lambda>a. arg_UpperRegSet (\<lambda>b. no_args (pop_frame_restore a b)))),
     (''StackAlloc32'', arg_u32 (\<lambda>a. no_args (stack_alloc32 a))),
     (''StackFree32'', arg_u32 (\<lambda>a. no_args (stack_free32 a)))]"

definition h_ops_x_ext :: "handler_entry list" where
  "h_ops_x_ext = [
     (''Zext8'', arg_XReg (\<lambda>a. arg_XReg (\<lambda>b. no_args (x_unop64 (\<lambda>x. ucast (ucast x :: u8)) a b)))),
     (''Zext16'', arg_XReg (\<lambda>a. arg_XReg (\<lambda>b. no_args (x_unop64 (\<lambda>x. ucast (ucast x :: u16)) a b)))),
     (''Zext32'', arg_XReg (\<lambda>a. arg_XReg (\<lambda>b. no_args (x_unop64 (\<lambda>x. ucast (ucast x :: u32)) a b)))),
     (''Sext8'', arg_XReg (\<lambda>a. arg_XReg (\<lambda>b. no_args (x_unop64 (\<lambda>x. scast (ucast x :: u8)) a b)))),
     (''Sext16'', arg_XReg (\<lambda>a. arg_XReg (\<lambda>b. no_args (x_unop64 (\<lambda>x. scast (ucast x :: u16)) a b)))),
     (''Sext32'', arg_XReg (\<lambda>a. arg_XReg (\<lambda>b. no_args (x_unop64 (\<lambda>x. scast (ucast x :: u32)) a b))))]"

definition h_ops_x_abs :: "handler_entry list" where
  "h_ops_x_abs = [
     (''XAbs32'', arg_XReg (\<lambda>a. arg_XReg (\<lambda>b. no_args (x_unop32 wrapping_abs a b)))),
     (''XAbs64'', arg_XReg (\<lambda>a. arg_XReg (\<lambda>b. no_args (x_unop64 wrapping_abs a b))))]"

definition h_ops_x_div :: "handler_entry list" where
  "h_ops_x_div = [
     (''XDiv32S'', arg_BinX (\<lambda>a. no_args (xdiv32_s a))),
     (''XDiv64S'', arg_BinX (\<lambda>a. no_args (xdiv64_s a))),
     (''XDiv32U'', arg_BinX (\<lambda>a. no_args (xdiv32_u a))),
     (''XDiv64U'', arg_BinX (\<lambda>a. no_args (xdiv64_u a))),
     (''XRem32S'', arg_BinX (\<lambda>a. no_args (xrem32_s a))),
     (''XRem64S'', arg_BinX (\<lambda>a. no_args (xrem64_s a))),
     (''XRem32U'', arg_BinX (\<lambda>a. no_args (xrem32_u a))),
     (''XRem64U'', arg_BinX (\<lambda>a. no_args (xrem64_u a)))]"

definition h_ops_x_logic :: "handler_entry list" where
  "h_ops_x_logic = [
     (''XBand32'', arg_BinX (\<lambda>a. no_args (x_binop32 (AND) a))),
     (''Xband32S8'', arg_XReg (\<lambda>a. arg_XReg (\<lambda>b. arg_i8 (\<lambda>c. no_args (x_imm32 (AND) a b (scast c)))))),
     (''Xband32S32'', arg_XReg (\<lambda>a. arg_XReg (\<lambda>b. arg_i32 (\<lambda>c. no_args (x_imm32 (AND) a b c))))),
     (''XBand64'', arg_BinX (\<lambda>a. no_args (x_binop64 (AND) a))),
     (''Xband64S8'', arg_XReg (\<lambda>a. arg_XReg (\<lambda>b. arg_i8 (\<lambda>c. no_args (x_imm64 (AND) a b (scast (scast c :: u32))))))),
     (''Xband64S32'', arg_XReg (\<lambda>a. arg_XReg (\<lambda>b. arg_i32 (\<lambda>c. no_args (x_imm64 (AND) a b (scast c)))))),
     (''XBor32'', arg_BinX (\<lambda>a. no_args (x_binop32 (OR) a))),
     (''Xbor32S8'', arg_XReg (\<lambda>a. arg_XReg (\<lambda>b. arg_i8 (\<lambda>c. no_args (x_imm32 (OR) a b (scast c)))))),
     (''Xbor32S32'', arg_XReg (\<lambda>a. arg_XReg (\<lambda>b. arg_i32 (\<lambda>c. no_args (x_imm32 (OR) a b c))))),
     (''XBor64'', arg_BinX (\<lambda>a. no_args (x_binop64 (OR) a))),
     (''Xbor64S8'', arg_XReg (\<lambda>a. arg_XReg (\<lambda>b. arg_i8 (\<lambda>c. no_args (x_imm64 (OR) a b (scast (scast c :: u32))))))),
     (''Xbor64S32'', arg_XReg (\<lambda>a. arg_XReg (\<lambda>b. arg_i32 (\<lambda>c. no_args (x_imm64 (OR) a b (scast c)))))),
     (''XBxor32'', arg_BinX (\<lambda>a. no_args (x_binop32 (XOR) a))),
     (''Xbxor32S8'', arg_XReg (\<lambda>a. arg_XReg (\<lambda>b. arg_i8 (\<lambda>c. no_args (x_imm32 (XOR) a b (scast c)))))),
     (''Xbxor32S32'', arg_XReg (\<lambda>a. arg_XReg (\<lambda>b. arg_i32 (\<lambda>c. no_args (x_imm32 (XOR) a b c))))),
     (''XBxor64'', arg_BinX (\<lambda>a. no_args (x_binop64 (XOR) a))),
     (''Xbxor64S8'', arg_XReg (\<lambda>a. arg_XReg (\<lambda>b. arg_i8 (\<lambda>c. no_args (x_imm64 (XOR) a b (scast (scast c :: u32))))))),
     (''Xbxor64S32'', arg_XReg (\<lambda>a. arg_XReg (\<lambda>b. arg_i32 (\<lambda>c. no_args (x_imm64 (XOR) a b (scast c)))))),
     (''XBnot32'', arg_XReg (\<lambda>a. arg_XReg (\<lambda>b. no_args (x_unop32 (NOT) a b)))),
     (''XBnot64'', arg_XReg (\<lambda>a. arg_XReg (\<lambda>b. no_args (x_unop64 (NOT) a b))))]"

definition h_ops_x_minmax :: "handler_entry list" where
  "h_ops_x_minmax = [
     (''Xmin32U'', arg_BinX (\<lambda>a. no_args (x_binop32 min a))),
     (''Xmin32S'', arg_BinX (\<lambda>a. no_args (x_binop32 min_s a))),
     (''Xmax32U'', arg_BinX (\<lambda>a. no_args (x_binop32 max a))),
     (''Xmax32S'', arg_BinX (\<lambda>a. no_args (x_binop32 max_s a))),
     (''Xmin64U'', arg_BinX (\<lambda>a. no_args (x_binop64 min a))),
     (''Xmin64S'', arg_BinX (\<lambda>a. no_args (x_binop64 min_s a))),
     (''Xmax64U'', arg_BinX (\<lambda>a. no_args (x_binop64 max a))),
     (''Xmax64S'', arg_BinX (\<lambda>a. no_args (x_binop64 max_s a)))]"

definition h_ops_x_select :: "handler_entry list" where
  "h_ops_x_select = [
     (''XSelect32'', arg_XReg (\<lambda>a. arg_XReg (\<lambda>b. arg_XReg (\<lambda>c. arg_XReg (\<lambda>d. no_args (xselect32 a b c d)))))),
     (''XSelect64'', arg_XReg (\<lambda>a. arg_XReg (\<lambda>b. arg_XReg (\<lambda>c. arg_XReg (\<lambda>d. no_args (xselect64 a b c d))))))]"

definition h_ops_frame_logic :: "handler_entry list" where
  "h_ops_frame_logic = h_ops_frame @ h_ops_x_ext @ h_ops_x_abs @ h_ops_x_div @ h_ops_x_logic @ h_ops_x_minmax @ h_ops_x_select"

definition base_handlers :: "handler_entry list" where
  "base_handlers = h_ops_control @ h_ops_br_imm @ h_ops_x_arith @ h_ops_x_bits @ h_ops_x_mem @ h_ops_frame_logic"

definition h_ext_misc :: "handler_entry list" where
  "h_ext_misc = [
     (''Trap'', no_args trap),
     (''CallIndirectHost'', arg_u8 (\<lambda>a. no_args (call_indirect_host a))),
     (''Xpcadd'', arg_XReg (\<lambda>a. arg_PcRelOffset (\<lambda>b. no_args (xpcadd a b)))),
     (''XmovFp'', arg_XReg (\<lambda>a. no_args (xmov_fp a))),
     (''XmovLr'', arg_XReg (\<lambda>a. no_args (xmov_lr a))),
     (''Bswap32'', arg_XReg (\<lambda>a. arg_XReg (\<lambda>b. no_args (x_unop32 (swap_bytes 4) a b)))),
     (''Bswap64'', arg_XReg (\<lambda>a. arg_XReg (\<lambda>b. no_args (x_unop64 (swap_bytes 8) a b)))),
     (''Xadd32UoverflowTrap'', arg_BinX (\<lambda>a. no_args (xadd32_uoverflow_trap a))),
     (''Xadd64UoverflowTrap'', arg_BinX (\<lambda>a. no_args (xadd64_uoverflow_trap a))),
     (''XMulHi64S'', arg_BinX (\<lambda>a. no_args (x_binop64 (\<lambda>x y. ucast (signed_drop_bit 64 (scast x * scast y :: u128))) a))),
     (''XMulHi64U'', arg_BinX (\<lambda>a. no_args (x_binop64 (\<lambda>x y. ucast (drop_bit 64 (ucast x * ucast y :: u128))) a))),
     (''Xbmask32'', arg_XReg (\<lambda>a. arg_XReg (\<lambda>b. no_args (x_unop32 (\<lambda>x. if x = 0 then 0 else -1) a b)))),
     (''Xbmask64'', arg_XReg (\<lambda>a. arg_XReg (\<lambda>b. no_args (x_unop64 (\<lambda>x. if x = 0 then 0 else -1) a b))))]"

definition h_ext_mem_o32 :: "handler_entry list" where
  "h_ext_mem_o32 = [
     (''XLoad16BeU32O32'', arg_XReg (\<lambda>a. arg_AddrO32 (\<lambda>b. no_args (xload16be_u32 (ExtI ''XLoad16BeU32O32'') (addr_O32 b) a)))),
     (''XLoad16BeS32O32'', arg_XReg (\<lambda>a. arg_AddrO32 (\<lambda>b. no_args (xload16be_s32 (ExtI ''XLoad16BeS32O32'') (addr_O32 b) a)))),
     (''XLoad32BeO32'', arg_XReg (\<lambda>a. arg_AddrO32 (\<lambda>b. no_args (xload32be (ExtI ''XLoad32BeO32'') (addr_O32 b) a)))),
     (''XLoad64BeO32'', arg_XReg (\<lambda>a. arg_AddrO32 (\<lambda>b. no_args (xload64be (ExtI ''XLoad64BeO32'') (addr_O32 b) a)))),
     (''XStore16BeO32'', arg_AddrO32 (\<lambda>a. arg_XReg (\<lambda>b. no_args (xstore16be (ExtI ''XStore16BeO32'') (addr_O32 a) b)))),
     (''XStore32BeO32'', arg_AddrO32 (\<lambda>a. arg_XReg (\<lambda>b. no_args (xstore32be (ExtI ''XStore32BeO32'') (addr_O32 a) b)))),
     (''XStore64BeO32'', arg_AddrO32 (\<lambda>a. arg_XReg (\<lambda>b. no_args (xstore64be (ExtI ''XStore64BeO32'') (addr_O32 a) b)))),
     (''Fload32BeO32'', arg_FReg (\<lambda>a. arg_AddrO32 (\<lambda>b. no_args (fload32be (ExtI ''Fload32BeO32'') (addr_O32 b) a)))),
     (''Fload64BeO32'', arg_FReg (\<lambda>a. arg_AddrO32 (\<lambda>b. no_args (fload64be (ExtI ''Fload64BeO32'') (addr_O32 b) a)))),
     (''Fstore32BeO32'', arg_AddrO32 (\<lambda>a. arg_FReg (\<lambda>b. no_args (fstore32be (ExtI ''Fstore32BeO32'') (addr_O32 a) b)))),
     (''Fstore64BeO32'', arg_AddrO32 (\<lambda>a. arg_FReg (\<lambda>b. no_args (fstore64be (ExtI ''Fstore64BeO32'') (addr_O32 a) b)))),
     (''Fload32LeO32'', arg_FReg (\<lambda>a. arg_AddrO32 (\<lambda>b. no_args (fload32le (ExtI ''Fload32LeO32'') (addr_O32 b) a)))),
     (''Fload64LeO32'', arg_FReg (\<lambda>a. arg_AddrO32 (\<lambda>b. no_args (fload64le (ExtI ''Fload64LeO32'') (addr_O32 b) a)))),
     (''Fstore32LeO32'', arg_AddrO32 (\<lambda>a. arg_FReg (\<lambda>b. no_args (fstore32le (ExtI ''Fstore32LeO32'') (addr_O32 a) b)))),
     (''Fstore64LeO32'', arg_AddrO32 (\<lambda>a. arg_FReg (\<lambda>b. no_args (fstore64le (ExtI ''Fstore64LeO32'') (addr_O32 a) b))))]"

definition h_ext_mem_f_z :: "handler_entry list" where
  "h_ext_mem_f_z = [
     (''Fload32LeZ'', arg_FReg (\<lambda>a. arg_AddrZ (\<lambda>b. no_args (fload32le (ExtI ''Fload32LeZ'') (addr_Z b) a)))),
     (''Fload64LeZ'', arg_FReg (\<lambda>a. arg_AddrZ (\<lambda>b. no_args (fload64le (ExtI ''Fload64LeZ'') (addr_Z b) a)))),
     (''Fstore32LeZ'', arg_AddrZ (\<lambda>a. arg_FReg (\<lambda>b. no_args (fstore32le (ExtI ''Fstore32LeZ'') (addr_Z a) b)))),
     (''Fstore64LeZ'', arg_AddrZ (\<lambda>a. arg_FReg (\<lambda>b. no_args (fstore64le (ExtI ''Fstore64LeZ'') (addr_Z a) b))))]"

definition h_ext_mem_f_g32 :: "handler_entry list" where
  "h_ext_mem_f_g32 = [
     (''Fload32LeG32'', arg_FReg (\<lambda>a. arg_AddrG32 (\<lambda>b. no_args (fload32le (ExtI ''Fload32LeG32'') (addr_G32 b) a)))),
     (''Fload64LeG32'', arg_FReg (\<lambda>a. arg_AddrG32 (\<lambda>b. no_args (fload64le (ExtI ''Fload64LeG32'') (addr_G32 b) a)))),
     (''Fstore32LeG32'', arg_AddrG32 (\<lambda>a. arg_FReg (\<lambda>b. no_args (fstore32le (ExtI ''Fstore32LeG32'') (addr_G32 a) b)))),
     (''Fstore64LeG32'', arg_AddrG32 (\<lambda>a. arg_FReg (\<lambda>b. no_args (fstore64le (ExtI ''Fstore64LeG32'') (addr_G32 a) b))))]"

definition h_ext_mem_v_o32 :: "handler_entry list" where
  "h_ext_mem_v_o32 = [
     (''VLoad128O32'', arg_VReg (\<lambda>a. arg_AddrO32 (\<lambda>b. no_args (vload128le (ExtI ''VLoad128O32'') (addr_O32 b) a)))),
     (''Vstore128LeO32'', arg_AddrO32 (\<lambda>a. arg_VReg (\<lambda>b. no_args (vstore128le (ExtI ''Vstore128LeO32'') (addr_O32 a) b))))]"

definition h_ext_mem_v_z :: "handler_entry list" where
  "h_ext_mem_v_z = [
     (''VLoad128LeZ'', arg_VReg (\<lambda>a. arg_AddrZ (\<lambda>b. no_args (vload128le (ExtI ''VLoad128LeZ'') (addr_Z b) a)))),
     (''Vstore128LeZ'', arg_AddrZ (\<lambda>a. arg_VReg (\<lambda>b. no_args (vstore128le (ExtI ''Vstore128LeZ'') (addr_Z a) b))))]"

definition h_ext_mem_v_g32 :: "handler_entry list" where
  "h_ext_mem_v_g32 = [
     (''VLoad128G32'', arg_VReg (\<lambda>a. arg_AddrG32 (\<lambda>b. no_args (vload128le (ExtI ''VLoad128G32'') (addr_G32 b) a)))),
     (''Vstore128LeG32'', arg_AddrG32 (\<lambda>a. arg_VReg (\<lambda>b. no_args (vstore128le (ExtI ''Vstore128LeG32'') (addr_G32 a) b))))]"

definition h_ext_mem :: "handler_entry list" where
  "h_ext_mem = h_ext_mem_o32 @ h_ext_mem_f_z @ h_ext_mem_f_g32 @
     h_ext_mem_v_o32 @ h_ext_mem_v_z @ h_ext_mem_v_g32"

definition h_ext_float_conv1 :: "handler_entry list" where
  "h_ext_float_conv1 = [
     (''Fmov'', arg_FReg (\<lambda>a. arg_FReg (\<lambda>b. no_args (fmov a b)))),
     (''Vmov'', arg_VReg (\<lambda>a. arg_VReg (\<lambda>b. no_args (vmov a b)))),
     (''BitcastIntFromFloat32'', arg_XReg (\<lambda>a. arg_FReg (\<lambda>b. no_args (bitcast_int_from_float_32 a b)))),
     (''BitcastIntFromFloat64'', arg_XReg (\<lambda>a. arg_FReg (\<lambda>b. no_args (bitcast_int_from_float_64 a b)))),
     (''BitcastFloatFromInt32'', arg_FReg (\<lambda>a. arg_XReg (\<lambda>b. no_args (bitcast_float_from_int_32 a b)))),
     (''BitcastFloatFromInt64'', arg_FReg (\<lambda>a. arg_XReg (\<lambda>b. no_args (bitcast_float_from_int_64 a b)))),
     (''FConst32'', arg_FReg (\<lambda>a. arg_u32 (\<lambda>b. no_args (fconst32 a b)))),
     (''FConst64'', arg_FReg (\<lambda>a. arg_u64 (\<lambda>b. no_args (fconst64 a b))))]"

definition h_ext_float_conv2 :: "handler_entry list" where
  "h_ext_float_conv2 = [
     (''Feq32'', arg_XReg (\<lambda>a. arg_FReg (\<lambda>b. arg_FReg (\<lambda>c. no_args (f32_cmp (float_eq binary32) a b c))))),
     (''Fneq32'', arg_XReg (\<lambda>a. arg_FReg (\<lambda>b. arg_FReg (\<lambda>c. no_args (f32_cmp (\<lambda>a b. \<not> float_eq binary32 a b) a b c))))),
     (''Flt32'', arg_XReg (\<lambda>a. arg_FReg (\<lambda>b. arg_FReg (\<lambda>c. no_args (f32_cmp (float_lt binary32) a b c))))),
     (''Flteq32'', arg_XReg (\<lambda>a. arg_FReg (\<lambda>b. arg_FReg (\<lambda>c. no_args (f32_cmp (float_le binary32) a b c))))),
     (''Feq64'', arg_XReg (\<lambda>a. arg_FReg (\<lambda>b. arg_FReg (\<lambda>c. no_args (f64_cmp (float_eq binary64) a b c))))),
     (''Fneq64'', arg_XReg (\<lambda>a. arg_FReg (\<lambda>b. arg_FReg (\<lambda>c. no_args (f64_cmp (\<lambda>a b. \<not> float_eq binary64 a b) a b c))))),
     (''Flt64'', arg_XReg (\<lambda>a. arg_FReg (\<lambda>b. arg_FReg (\<lambda>c. no_args (f64_cmp (float_lt binary64) a b c))))),
     (''Flteq64'', arg_XReg (\<lambda>a. arg_FReg (\<lambda>b. arg_FReg (\<lambda>c. no_args (f64_cmp (float_le binary64) a b c))))),
     (''FSelect32'', arg_FReg (\<lambda>a. arg_XReg (\<lambda>b. arg_FReg (\<lambda>c. arg_FReg (\<lambda>d. no_args (fselect32 a b c d)))))),
     (''FSelect64'', arg_FReg (\<lambda>a. arg_XReg (\<lambda>b. arg_FReg (\<lambda>c. arg_FReg (\<lambda>d. no_args (fselect64 a b c d))))))]"

definition h_ext_float_conv3 :: "NaNs \<Rightarrow> handler_entry list" where
  "h_ext_float_conv3 N = [
     (''F32FromF64'', arg_FReg (\<lambda>a. arg_FReg (\<lambda>b. no_args (f32_from_f64 N a b)))),
     (''F64FromF32'', arg_FReg (\<lambda>a. arg_FReg (\<lambda>b. no_args (f64_from_f32 N a b))))]"

definition h_ext_float_conv4 :: "NaNs \<Rightarrow> handler_entry list" where
  "h_ext_float_conv4 N = [
     (''F32FromX32S'', arg_FReg (\<lambda>a. arg_XReg (\<lambda>b. no_args (f32_from_x get_i32 a b)))),
     (''F32FromX32U'', arg_FReg (\<lambda>a. arg_XReg (\<lambda>b. no_args (f32_from_x get_u32 a b)))),
     (''F32FromX64S'', arg_FReg (\<lambda>a. arg_XReg (\<lambda>b. no_args (f32_from_x get_i64 a b)))),
     (''F32FromX64U'', arg_FReg (\<lambda>a. arg_XReg (\<lambda>b. no_args (f32_from_x get_u64 a b)))),
     (''F64FromX32S'', arg_FReg (\<lambda>a. arg_XReg (\<lambda>b. no_args (f64_from_x get_i32 a b)))),
     (''F64FromX32U'', arg_FReg (\<lambda>a. arg_XReg (\<lambda>b. no_args (f64_from_x get_u32 a b)))),
     (''F64FromX64S'', arg_FReg (\<lambda>a. arg_XReg (\<lambda>b. no_args (f64_from_x get_i64 a b)))),
     (''F64FromX64U'', arg_FReg (\<lambda>a. arg_XReg (\<lambda>b. no_args (f64_from_x get_u64 a b)))),
     (''X32FromF32S'', arg_XReg (\<lambda>a. arg_FReg (\<lambda>b. no_args (x32_from_f32 N (ExtI ''X32FromF32S'') True a b)))),
     (''X32FromF32U'', arg_XReg (\<lambda>a. arg_FReg (\<lambda>b. no_args (x32_from_f32 N (ExtI ''X32FromF32U'') False a b)))),
     (''X32FromF64S'', arg_XReg (\<lambda>a. arg_FReg (\<lambda>b. no_args (x32_from_f64 N (ExtI ''X32FromF64S'') True a b)))),
     (''X32FromF64U'', arg_XReg (\<lambda>a. arg_FReg (\<lambda>b. no_args (x32_from_f64 N (ExtI ''X32FromF64U'') False a b)))),
     (''X64FromF32S'', arg_XReg (\<lambda>a. arg_FReg (\<lambda>b. no_args (x64_from_f32 N (ExtI ''X64FromF32S'') True a b)))),
     (''X64FromF32U'', arg_XReg (\<lambda>a. arg_FReg (\<lambda>b. no_args (x64_from_f32 N (ExtI ''X64FromF32U'') False a b)))),
     (''X64FromF64S'', arg_XReg (\<lambda>a. arg_FReg (\<lambda>b. no_args (x64_from_f64 N (ExtI ''X64FromF64S'') True a b)))),
     (''X64FromF64U'', arg_XReg (\<lambda>a. arg_FReg (\<lambda>b. no_args (x64_from_f64 N (ExtI ''X64FromF64U'') False a b)))),
     (''X32FromF32SSat'', arg_XReg (\<lambda>a. arg_FReg (\<lambda>b. no_args (x32_from_f_sat f_get32 (float_as_sint binary32) a b)))),
     (''X32FromF32USat'', arg_XReg (\<lambda>a. arg_FReg (\<lambda>b. no_args (x32_from_f_sat f_get32 (float_as_uint binary32) a b))))]"

definition h_ext_float_conv5 :: "handler_entry list" where
  "h_ext_float_conv5 = [
     (''X32FromF64SSat'', arg_XReg (\<lambda>a. arg_FReg (\<lambda>b. no_args (x32_from_f_sat f_get64 (float_as_sint binary64) a b)))),
     (''X32FromF64USat'', arg_XReg (\<lambda>a. arg_FReg (\<lambda>b. no_args (x32_from_f_sat f_get64 (float_as_uint binary64) a b)))),
     (''X64FromF32SSat'', arg_XReg (\<lambda>a. arg_FReg (\<lambda>b. no_args (x64_from_f_sat f_get32 (float_as_sint binary32) a b)))),
     (''X64FromF32USat'', arg_XReg (\<lambda>a. arg_FReg (\<lambda>b. no_args (x64_from_f_sat f_get32 (float_as_uint binary32) a b)))),
     (''X64FromF64SSat'', arg_XReg (\<lambda>a. arg_FReg (\<lambda>b. no_args (x64_from_f_sat f_get64 (float_as_sint binary64) a b)))),
     (''X64FromF64USat'', arg_XReg (\<lambda>a. arg_FReg (\<lambda>b. no_args (x64_from_f_sat f_get64 (float_as_uint binary64) a b))))]"

definition h_ext_float_arith1 :: "NaNs \<Rightarrow> handler_entry list" where
  "h_ext_float_arith1 N = [
     (''FCopySign32'', arg_BinF (\<lambda>a. no_args (f32_binop (wasm_copysign binary32) a))),
     (''FCopySign64'', arg_BinF (\<lambda>a. no_args (f64_binop (wasm_copysign binary64) a))),
     (''Fadd32'', arg_BinF (\<lambda>a. no_args (f32_binop (float_add (nan32 N) binary32) a))),
     (''Fsub32'', arg_BinF (\<lambda>a. no_args (f32_binop (float_sub (nan32 N) binary32) a))),
     (''Vsubf32x4'', arg_BinV (\<lambda>a. no_args (v_binop (float_sub (nan32 N) binary32) a))),
     (''Fmul32'', arg_BinF (\<lambda>a. no_args (f32_binop (float_mul (nan32 N) binary32) a))),
     (''Vmulf32x4'', arg_BinV (\<lambda>a. no_args (v_binop (float_mul (nan32 N) binary32) a))),
     (''Fdiv32'', arg_BinF (\<lambda>a. no_args (f32_binop (float_div (nan32 N) binary32) a))),
     (''Vdivf32x4'', arg_BinV (\<lambda>a. no_args (v_binop (float_div (nan32 N) binary32) a)))]"

definition h_ext_float_arith2 :: "NaNs \<Rightarrow> handler_entry list" where
  "h_ext_float_arith2 N = [
     (''Fmaximum32'', arg_BinF (\<lambda>a. no_args (f32_binop (wasm_maximum (nan32 N) binary32) a))),
     (''Fminimum32'', arg_BinF (\<lambda>a. no_args (f32_binop (wasm_minimum (nan32 N) binary32) a))),
     (''Ftrunc32'', arg_FReg (\<lambda>a. arg_FReg (\<lambda>b. no_args (f32_unop (wasm_trunc (nan32 N) binary32) a b)))),
     (''Vtrunc32x4'', arg_VReg (\<lambda>a. arg_VReg (\<lambda>b. no_args (v_unop (wasm_trunc (nan32 N) binary32) a b)))),
     (''Vtrunc64x2'', arg_VReg (\<lambda>a. arg_VReg (\<lambda>b. no_args (v_unop (wasm_trunc (nan64 N) binary64) a b)))),
     (''Ffloor32'', arg_FReg (\<lambda>a. arg_FReg (\<lambda>b. no_args (f32_unop (wasm_floor (nan32 N) binary32) a b)))),
     (''Vfloor32x4'', arg_VReg (\<lambda>a. arg_VReg (\<lambda>b. no_args (v_unop (wasm_floor (nan32 N) binary32) a b)))),
     (''Vfloor64x2'', arg_VReg (\<lambda>a. arg_VReg (\<lambda>b. no_args (v_unop (wasm_floor (nan64 N) binary64) a b)))),
     (''Fceil32'', arg_FReg (\<lambda>a. arg_FReg (\<lambda>b. no_args (f32_unop (wasm_ceil (nan32 N) binary32) a b)))),
     (''Vceil32x4'', arg_VReg (\<lambda>a. arg_VReg (\<lambda>b. no_args (v_unop (wasm_ceil (nan32 N) binary32) a b)))),
     (''Vceil64x2'', arg_VReg (\<lambda>a. arg_VReg (\<lambda>b. no_args (v_unop (wasm_ceil (nan64 N) binary64) a b)))),
     (''Fnearest32'', arg_FReg (\<lambda>a. arg_FReg (\<lambda>b. no_args (f32_unop (wasm_nearest (nan32 N) binary32) a b))))]"

definition h_ext_float_arith3 :: "NaNs \<Rightarrow> handler_entry list" where
  "h_ext_float_arith3 N = [
     (''Fsqrt32'', arg_FReg (\<lambda>a. arg_FReg (\<lambda>b. no_args (f32_unop (wasm_sqrt (nan32 N) binary32) a b)))),
     (''Vsqrt32x4'', arg_VReg (\<lambda>a. arg_VReg (\<lambda>b. no_args (v_unop (wasm_sqrt (nan32 N) binary32) a b)))),
     (''Vsqrt64x2'', arg_VReg (\<lambda>a. arg_VReg (\<lambda>b. no_args (v_unop (wasm_sqrt (nan64 N) binary64) a b)))),
     (''Fneg32'', arg_FReg (\<lambda>a. arg_FReg (\<lambda>b. no_args (f32_unop (float_neg binary32) a b)))),
     (''Vnegf32x4'', arg_VReg (\<lambda>a. arg_VReg (\<lambda>b. no_args (v_unop (float_neg binary32 :: u32 \<Rightarrow> u32) a b)))),
     (''Fabs32'', arg_FReg (\<lambda>a. arg_FReg (\<lambda>b. no_args (f32_unop (wasm_abs binary32) a b)))),
     (''Fadd64'', arg_BinF (\<lambda>a. no_args (f64_binop (float_add (nan64 N) binary64) a))),
     (''Fsub64'', arg_BinF (\<lambda>a. no_args (f64_binop (float_sub (nan64 N) binary64) a))),
     (''Fmul64'', arg_BinF (\<lambda>a. no_args (f64_binop (float_mul (nan64 N) binary64) a))),
     (''Fdiv64'', arg_BinF (\<lambda>a. no_args (f64_binop (float_div (nan64 N) binary64) a)))]"

definition h_ext_float_arith4 :: "NaNs \<Rightarrow> handler_entry list" where
  "h_ext_float_arith4 N = [
     (''VDivF64x2'', arg_BinV (\<lambda>a. no_args (v_binop (float_div (nan64 N) binary64) a)))]"

definition h_ext_float_arith5 :: "NaNs \<Rightarrow> handler_entry list" where
  "h_ext_float_arith5 N = [
     (''Fmaximum64'', arg_BinF (\<lambda>a. no_args (f64_binop (wasm_maximum (nan64 N) binary64) a))),
     (''Fminimum64'', arg_BinF (\<lambda>a. no_args (f64_binop (wasm_minimum (nan64 N) binary64) a))),
     (''Ftrunc64'', arg_FReg (\<lambda>a. arg_FReg (\<lambda>b. no_args (f64_unop (wasm_trunc (nan64 N) binary64) a b)))),
     (''Ffloor64'', arg_FReg (\<lambda>a. arg_FReg (\<lambda>b. no_args (f64_unop (wasm_floor (nan64 N) binary64) a b)))),
     (''Fceil64'', arg_FReg (\<lambda>a. arg_FReg (\<lambda>b. no_args (f64_unop (wasm_ceil (nan64 N) binary64) a b)))),
     (''Fnearest64'', arg_FReg (\<lambda>a. arg_FReg (\<lambda>b. no_args (f64_unop (wasm_nearest (nan64 N) binary64) a b))))]"

definition h_ext_float_arith6 :: "NaNs \<Rightarrow> handler_entry list" where
  "h_ext_float_arith6 N = [
     (''Vnearest32x4'', arg_VReg (\<lambda>a. arg_VReg (\<lambda>b. no_args (v_unop (wasm_nearest (nan32 N) binary32) a b)))),
     (''Vnearest64x2'', arg_VReg (\<lambda>a. arg_VReg (\<lambda>b. no_args (v_unop (wasm_nearest (nan64 N) binary64) a b))))]"

definition h_ext_float_arith7 :: "NaNs \<Rightarrow> handler_entry list" where
  "h_ext_float_arith7 N = [
     (''Fsqrt64'', arg_FReg (\<lambda>a. arg_FReg (\<lambda>b. no_args (f64_unop (wasm_sqrt (nan64 N) binary64) a b)))),
     (''Fneg64'', arg_FReg (\<lambda>a. arg_FReg (\<lambda>b. no_args (f64_unop (float_neg binary64) a b)))),
     (''Fabs64'', arg_FReg (\<lambda>a. arg_FReg (\<lambda>b. no_args (f64_unop (wasm_abs binary64) a b))))]"

definition h_ext_vec_arith1 :: "handler_entry list" where
  "h_ext_vec_arith1 = [
     (''Vconst128'', arg_VReg (\<lambda>a. arg_u128 (\<lambda>b. no_args (vconst128 a b))))]"

definition h_ext_vec_arith2 :: "NaNs \<Rightarrow> handler_entry list" where
  "h_ext_vec_arith2 N = [
     (''VAddI8x16'', arg_BinV (\<lambda>a. no_args (v_binop ((+) :: u8 \<Rightarrow> u8 \<Rightarrow> u8) a))),
     (''VAddI16x8'', arg_BinV (\<lambda>a. no_args (v_binop ((+) :: u16 \<Rightarrow> u16 \<Rightarrow> u16) a))),
     (''VAddI32x4'', arg_BinV (\<lambda>a. no_args (v_binop ((+) :: u32 \<Rightarrow> u32 \<Rightarrow> u32) a))),
     (''VAddI64x2'', arg_BinV (\<lambda>a. no_args (v_binop ((+) :: u64 \<Rightarrow> u64 \<Rightarrow> u64) a))),
     (''VAddF32x4'', arg_BinV (\<lambda>a. no_args (v_binop (float_add (nan32 N) binary32) a))),
     (''VAddF64x2'', arg_BinV (\<lambda>a. no_args (v_binop (float_add (nan64 N) binary64) a))),
     (''VAddI8x16Sat'', arg_BinV (\<lambda>a. no_args (v_binop (saturating_add_s :: u8 \<Rightarrow> u8 \<Rightarrow> u8) a))),
     (''VAddU8x16Sat'', arg_BinV (\<lambda>a. no_args (v_binop (saturating_add_u :: u8 \<Rightarrow> u8 \<Rightarrow> u8) a))),
     (''VAddI16x8Sat'', arg_BinV (\<lambda>a. no_args (v_binop (saturating_add_s :: u16 \<Rightarrow> u16 \<Rightarrow> u16) a))),
     (''VAddU16x8Sat'', arg_BinV (\<lambda>a. no_args (v_binop (saturating_add_u :: u16 \<Rightarrow> u16 \<Rightarrow> u16) a))),
     (''VAddpairwiseI16x8S'', arg_BinV (\<lambda>a. no_args (v_addpairwise TYPE(16) a))),
     (''VAddpairwiseI32x4S'', arg_BinV (\<lambda>a. no_args (v_addpairwise TYPE(32) a))),
     (''VShlI8x16'', arg_BinVVX (\<lambda>a. no_args (v_shift (wrapping_shl :: u8 \<Rightarrow> nat \<Rightarrow> u8) a)))]"

definition h_ext_vec_arith3 :: "handler_entry list" where
  "h_ext_vec_arith3 = [
     (''VShlI16x8'', arg_BinVVX (\<lambda>a. no_args (v_shift (wrapping_shl :: u16 \<Rightarrow> nat \<Rightarrow> u16) a))),
     (''VShlI32x4'', arg_BinVVX (\<lambda>a. no_args (v_shift (wrapping_shl :: u32 \<Rightarrow> nat \<Rightarrow> u32) a))),
     (''VShlI64x2'', arg_BinVVX (\<lambda>a. no_args (v_shift (wrapping_shl :: u64 \<Rightarrow> nat \<Rightarrow> u64) a))),
     (''VShrI8x16S'', arg_BinVVX (\<lambda>a. no_args (v_shift (wrapping_sshr :: u8 \<Rightarrow> nat \<Rightarrow> u8) a))),
     (''VShrI16x8S'', arg_BinVVX (\<lambda>a. no_args (v_shift (wrapping_sshr :: u16 \<Rightarrow> nat \<Rightarrow> u16) a))),
     (''VShrI32x4S'', arg_BinVVX (\<lambda>a. no_args (v_shift (wrapping_sshr :: u32 \<Rightarrow> nat \<Rightarrow> u32) a))),
     (''VShrI64x2S'', arg_BinVVX (\<lambda>a. no_args (v_shift (wrapping_sshr :: u64 \<Rightarrow> nat \<Rightarrow> u64) a))),
     (''VShrI8x16U'', arg_BinVVX (\<lambda>a. no_args (v_shift (wrapping_shr :: u8 \<Rightarrow> nat \<Rightarrow> u8) a))),
     (''VShrI16x8U'', arg_BinVVX (\<lambda>a. no_args (v_shift (wrapping_shr :: u16 \<Rightarrow> nat \<Rightarrow> u16) a))),
     (''VShrI32x4U'', arg_BinVVX (\<lambda>a. no_args (v_shift (wrapping_shr :: u32 \<Rightarrow> nat \<Rightarrow> u32) a))),
     (''VShrI64x2U'', arg_BinVVX (\<lambda>a. no_args (v_shift (wrapping_shr :: u64 \<Rightarrow> nat \<Rightarrow> u64) a))),
     (''VSplatX8'', arg_VReg (\<lambda>a. arg_XReg (\<lambda>b. no_args (v_splat 16 (\<lambda>a :: u32. ucast a :: u8) x_get32 a b)))),
     (''VSplatX16'', arg_VReg (\<lambda>a. arg_XReg (\<lambda>b. no_args (v_splat 8 (\<lambda>a :: u32. ucast a :: u16) x_get32 a b)))),
     (''VSplatX32'', arg_VReg (\<lambda>a. arg_XReg (\<lambda>b. no_args (v_splat 4 (\<lambda>a :: u32. a) x_get32 a b)))),
     (''VSplatX64'', arg_VReg (\<lambda>a. arg_XReg (\<lambda>b. no_args (v_splat 2 (\<lambda>a :: u64. a) x_get64 a b)))),
     (''VSplatF32'', arg_VReg (\<lambda>a. arg_FReg (\<lambda>b. no_args (v_splat 4 (\<lambda>a :: u32. a) f_get32 a b)))),
     (''VSplatF64'', arg_VReg (\<lambda>a. arg_FReg (\<lambda>b. no_args (v_splat 2 (\<lambda>a :: u64. a) f_get64 a b)))),
     (''VLoad8x8SZ'', arg_VReg (\<lambda>a. arg_AddrZ (\<lambda>b. no_args (v_load_widen (ExtI ''VLoad8x8SZ'') (scast :: u8 \<Rightarrow> u16) a b)))),
     (''VLoad8x8UZ'', arg_VReg (\<lambda>a. arg_AddrZ (\<lambda>b. no_args (v_load_widen (ExtI ''VLoad8x8UZ'') (ucast :: u8 \<Rightarrow> u16) a b))))]"

definition h_ext_vec_arith4 :: "handler_entry list" where
  "h_ext_vec_arith4 = [
     (''VLoad16x4LeSZ'', arg_VReg (\<lambda>a. arg_AddrZ (\<lambda>b. no_args (v_load_widen (ExtI ''VLoad16x4LeSZ'') (scast :: u16 \<Rightarrow> u32) a b)))),
     (''VLoad16x4LeUZ'', arg_VReg (\<lambda>a. arg_AddrZ (\<lambda>b. no_args (v_load_widen (ExtI ''VLoad16x4LeUZ'') (ucast :: u16 \<Rightarrow> u32) a b)))),
     (''VLoad32x2LeSZ'', arg_VReg (\<lambda>a. arg_AddrZ (\<lambda>b. no_args (v_load_widen (ExtI ''VLoad32x2LeSZ'') (scast :: u32 \<Rightarrow> u64) a b)))),
     (''VLoad32x2LeUZ'', arg_VReg (\<lambda>a. arg_AddrZ (\<lambda>b. no_args (v_load_widen (ExtI ''VLoad32x2LeUZ'') (ucast :: u32 \<Rightarrow> u64) a b)))),
     (''VBand128'', arg_BinV (\<lambda>a. no_args (v_bits (AND) a))),
     (''VBor128'', arg_BinV (\<lambda>a. no_args (v_bits (OR) a))),
     (''VBxor128'', arg_BinV (\<lambda>a. no_args (v_bits (XOR) a))),
     (''VBnot128'', arg_VReg (\<lambda>a. arg_VReg (\<lambda>b. no_args (vbnot128 a b)))),
     (''VBitselect128'', arg_VReg (\<lambda>a. arg_VReg (\<lambda>b. arg_VReg (\<lambda>c. arg_VReg (\<lambda>d. no_args (vbitselect128 a b c d)))))),
     (''Vbitmask8x16'', arg_XReg (\<lambda>a. arg_VReg (\<lambda>b. no_args (v_bitmask TYPE(8) a b)))),
     (''Vbitmask16x8'', arg_XReg (\<lambda>a. arg_VReg (\<lambda>b. no_args (v_bitmask TYPE(16) a b)))),
     (''Vbitmask32x4'', arg_XReg (\<lambda>a. arg_VReg (\<lambda>b. no_args (v_bitmask TYPE(32) a b)))),
     (''Vbitmask64x2'', arg_XReg (\<lambda>a. arg_VReg (\<lambda>b. no_args (v_bitmask TYPE(64) a b)))),
     (''Valltrue8x16'', arg_XReg (\<lambda>a. arg_VReg (\<lambda>b. no_args (v_alltrue TYPE(8) a b)))),
     (''Valltrue16x8'', arg_XReg (\<lambda>a. arg_VReg (\<lambda>b. no_args (v_alltrue TYPE(16) a b)))),
     (''Valltrue32x4'', arg_XReg (\<lambda>a. arg_VReg (\<lambda>b. no_args (v_alltrue TYPE(32) a b)))),
     (''Valltrue64x2'', arg_XReg (\<lambda>a. arg_VReg (\<lambda>b. no_args (v_alltrue TYPE(64) a b))))]"

definition h_ext_vec_arith5 :: "handler_entry list" where
  "h_ext_vec_arith5 = [
     (''Vanytrue8x16'', arg_XReg (\<lambda>a. arg_VReg (\<lambda>b. no_args (v_anytrue TYPE(8) a b)))),
     (''Vanytrue16x8'', arg_XReg (\<lambda>a. arg_VReg (\<lambda>b. no_args (v_anytrue TYPE(16) a b)))),
     (''Vanytrue32x4'', arg_XReg (\<lambda>a. arg_VReg (\<lambda>b. no_args (v_anytrue TYPE(32) a b)))),
     (''Vanytrue64x2'', arg_XReg (\<lambda>a. arg_VReg (\<lambda>b. no_args (v_anytrue TYPE(64) a b))))]"

definition h_ext_vec_conv1 :: "handler_entry list" where
  "h_ext_vec_conv1 = [
     (''VF32x4FromI32x4S'', arg_VReg (\<lambda>a. arg_VReg (\<lambda>b. no_args (v_unop (\<lambda>a :: u32. float_of_int binary32 (sint a) :: u32) a b)))),
     (''VF32x4FromI32x4U'', arg_VReg (\<lambda>a. arg_VReg (\<lambda>b. no_args (v_unop (\<lambda>a :: u32. float_of_int binary32 (uint a) :: u32) a b)))),
     (''VF64x2FromI64x2S'', arg_VReg (\<lambda>a. arg_VReg (\<lambda>b. no_args (v_unop (\<lambda>a :: u64. float_of_int binary64 (sint a) :: u64) a b)))),
     (''VF64x2FromI64x2U'', arg_VReg (\<lambda>a. arg_VReg (\<lambda>b. no_args (v_unop (\<lambda>a :: u64. float_of_int binary64 (uint a) :: u64) a b)))),
     (''VI32x4FromF32x4S'', arg_VReg (\<lambda>a. arg_VReg (\<lambda>b. no_args (v_unop (float_as_sint binary32 :: u32 \<Rightarrow> u32) a b)))),
     (''VI32x4FromF32x4U'', arg_VReg (\<lambda>a. arg_VReg (\<lambda>b. no_args (v_unop (float_as_uint binary32 :: u32 \<Rightarrow> u32) a b)))),
     (''VI64x2FromF64x2S'', arg_VReg (\<lambda>a. arg_VReg (\<lambda>b. no_args (v_unop (float_as_sint binary64 :: u64 \<Rightarrow> u64) a b)))),
     (''VI64x2FromF64x2U'', arg_VReg (\<lambda>a. arg_VReg (\<lambda>b. no_args (v_unop (float_as_uint binary64 :: u64 \<Rightarrow> u64) a b)))),
     (''VWidenLow8x16S'', arg_VReg (\<lambda>a. arg_VReg (\<lambda>b. no_args (v_widenlow (scast :: u8 \<Rightarrow> u16) a b)))),
     (''VWidenLow8x16U'', arg_VReg (\<lambda>a. arg_VReg (\<lambda>b. no_args (v_widenlow (ucast :: u8 \<Rightarrow> u16) a b)))),
     (''VWidenLow16x8S'', arg_VReg (\<lambda>a. arg_VReg (\<lambda>b. no_args (v_widenlow (scast :: u16 \<Rightarrow> u32) a b)))),
     (''VWidenLow16x8U'', arg_VReg (\<lambda>a. arg_VReg (\<lambda>b. no_args (v_widenlow (ucast :: u16 \<Rightarrow> u32) a b)))),
     (''VWidenLow32x4S'', arg_VReg (\<lambda>a. arg_VReg (\<lambda>b. no_args (v_widenlow (scast :: u32 \<Rightarrow> u64) a b)))),
     (''VWidenLow32x4U'', arg_VReg (\<lambda>a. arg_VReg (\<lambda>b. no_args (v_widenlow (ucast :: u32 \<Rightarrow> u64) a b)))),
     (''VWidenHigh8x16S'', arg_VReg (\<lambda>a. arg_VReg (\<lambda>b. no_args (v_widenhigh (scast :: u8 \<Rightarrow> u16) a b)))),
     (''VWidenHigh8x16U'', arg_VReg (\<lambda>a. arg_VReg (\<lambda>b. no_args (v_widenhigh (ucast :: u8 \<Rightarrow> u16) a b)))),
     (''VWidenHigh16x8S'', arg_VReg (\<lambda>a. arg_VReg (\<lambda>b. no_args (v_widenhigh (scast :: u16 \<Rightarrow> u32) a b)))),
     (''VWidenHigh16x8U'', arg_VReg (\<lambda>a. arg_VReg (\<lambda>b. no_args (v_widenhigh (ucast :: u16 \<Rightarrow> u32) a b)))),
     (''VWidenHigh32x4S'', arg_VReg (\<lambda>a. arg_VReg (\<lambda>b. no_args (v_widenhigh (scast :: u32 \<Rightarrow> u64) a b)))),
     (''VWidenHigh32x4U'', arg_VReg (\<lambda>a. arg_VReg (\<lambda>b. no_args (v_widenhigh (ucast :: u32 \<Rightarrow> u64) a b))))]"

definition h_ext_vec_conv2 :: "NaNs \<Rightarrow> handler_entry list" where
  "h_ext_vec_conv2 N = [
     (''Vnarrow16x8S'', arg_BinV (\<lambda>a. no_args (v_narrow (narrow_s :: u16 \<Rightarrow> u8) a))),
     (''Vnarrow16x8U'', arg_BinV (\<lambda>a. no_args (v_narrow (narrow_u :: u16 \<Rightarrow> u8) a))),
     (''Vnarrow32x4S'', arg_BinV (\<lambda>a. no_args (v_narrow (narrow_s :: u32 \<Rightarrow> u16) a))),
     (''Vnarrow32x4U'', arg_BinV (\<lambda>a. no_args (v_narrow (narrow_u :: u32 \<Rightarrow> u16) a))),
     (''Vnarrow64x2S'', arg_BinV (\<lambda>a. no_args (v_narrow (narrow_s :: u64 \<Rightarrow> u32) a))),
     (''Vnarrow64x2U'', arg_BinV (\<lambda>a. no_args (v_narrow (narrow_u :: u64 \<Rightarrow> u32) a))),
     (''Vunarrow64x2U'', arg_BinV (\<lambda>a. no_args (v_narrow (unarrow_u :: u64 \<Rightarrow> u32) a))),
     (''VFpromoteLow'', arg_VReg (\<lambda>a. arg_VReg (\<lambda>b. no_args (vfpromotelow N a b)))),
     (''VFdemote'', arg_VReg (\<lambda>a. arg_VReg (\<lambda>b. no_args (vfdemote N a b)))),
     (''VSubI8x16'', arg_BinV (\<lambda>a. no_args (v_binop ((-) :: u8 \<Rightarrow> u8 \<Rightarrow> u8) a))),
     (''VSubI16x8'', arg_BinV (\<lambda>a. no_args (v_binop ((-) :: u16 \<Rightarrow> u16 \<Rightarrow> u16) a))),
     (''VSubI32x4'', arg_BinV (\<lambda>a. no_args (v_binop ((-) :: u32 \<Rightarrow> u32 \<Rightarrow> u32) a)))]"

definition h_ext_vec_conv3 :: "NaNs \<Rightarrow> handler_entry list" where
  "h_ext_vec_conv3 N = [
     (''VSubI64x2'', arg_BinV (\<lambda>a. no_args (v_binop ((-) :: u64 \<Rightarrow> u64 \<Rightarrow> u64) a))),
     (''VSubF64x2'', arg_BinV (\<lambda>a. no_args (v_binop (float_sub (nan64 N) binary64) a))),
     (''VSubI8x16Sat'', arg_BinV (\<lambda>a. no_args (v_binop (saturating_sub_s :: u8 \<Rightarrow> u8 \<Rightarrow> u8) a))),
     (''VSubU8x16Sat'', arg_BinV (\<lambda>a. no_args (v_binop (saturating_sub_u :: u8 \<Rightarrow> u8 \<Rightarrow> u8) a))),
     (''VSubI16x8Sat'', arg_BinV (\<lambda>a. no_args (v_binop (saturating_sub_s :: u16 \<Rightarrow> u16 \<Rightarrow> u16) a))),
     (''VSubU16x8Sat'', arg_BinV (\<lambda>a. no_args (v_binop (saturating_sub_u :: u16 \<Rightarrow> u16 \<Rightarrow> u16) a)))]"

definition h_ext_vec_conv4 :: "NaNs \<Rightarrow> handler_entry list" where
  "h_ext_vec_conv4 N = [
     (''VMulI8x16'', arg_BinV (\<lambda>a. no_args (v_binop ((*) :: u8 \<Rightarrow> u8 \<Rightarrow> u8) a))),
     (''VMulI16x8'', arg_BinV (\<lambda>a. no_args (v_binop ((*) :: u16 \<Rightarrow> u16 \<Rightarrow> u16) a))),
     (''VMulI32x4'', arg_BinV (\<lambda>a. no_args (v_binop ((*) :: u32 \<Rightarrow> u32 \<Rightarrow> u32) a))),
     (''VMulI64x2'', arg_BinV (\<lambda>a. no_args (v_binop ((*) :: u64 \<Rightarrow> u64 \<Rightarrow> u64) a))),
     (''VMulF64x2'', arg_BinV (\<lambda>a. no_args (v_binop (float_mul (nan64 N) binary64) a))),
     (''VQmulrsI16x8'', arg_BinV (\<lambda>a. no_args (v_binop qmulrs a))),
     (''VPopcnt8x16'', arg_VReg (\<lambda>a. arg_VReg (\<lambda>b. no_args (v_unop (\<lambda>a :: u8. of_nat (count_ones a) :: u8) a b)))),
     (''XExtractV8x16'', arg_XReg (\<lambda>a. arg_VReg (\<lambda>b. arg_u8 (\<lambda>c. no_args (v_extract (\<lambda>dst (a :: u8). x_set32 dst (ucast a)) a b c))))),
     (''XExtractV16x8'', arg_XReg (\<lambda>a. arg_VReg (\<lambda>b. arg_u8 (\<lambda>c. no_args (v_extract (\<lambda>dst (a :: u16). x_set32 dst (ucast a)) a b c))))),
     (''XExtractV32x4'', arg_XReg (\<lambda>a. arg_VReg (\<lambda>b. arg_u8 (\<lambda>c. no_args (v_extract (\<lambda>dst (a :: u32). x_set32 dst a) a b c))))),
     (''XExtractV64x2'', arg_XReg (\<lambda>a. arg_VReg (\<lambda>b. arg_u8 (\<lambda>c. no_args (v_extract (\<lambda>dst (a :: u64). x_set64 dst a) a b c))))),
     (''FExtractV32x4'', arg_FReg (\<lambda>a. arg_VReg (\<lambda>b. arg_u8 (\<lambda>c. no_args (v_extract (f_set32 :: FReg \<Rightarrow> u32 \<Rightarrow> Interpreter \<Rightarrow> Interpreter) a b c))))),
     (''FExtractV64x2'', arg_FReg (\<lambda>a. arg_VReg (\<lambda>b. arg_u8 (\<lambda>c. no_args (v_extract (f_set64 :: FReg \<Rightarrow> u64 \<Rightarrow> Interpreter \<Rightarrow> Interpreter) a b c))))),
     (''VInsertX8'', arg_BinVVX (\<lambda>a. arg_u8 (\<lambda>b. no_args (v_insert (ucast :: u32 \<Rightarrow> u8) x_get32 a b)))),
     (''VInsertX16'', arg_BinVVX (\<lambda>a. arg_u8 (\<lambda>b. no_args (v_insert (ucast :: u32 \<Rightarrow> u16) x_get32 a b))))]"

definition h_ext_vec_conv5 :: "handler_entry list" where
  "h_ext_vec_conv5 = [
     (''VInsertX32'', arg_BinVVX (\<lambda>a. arg_u8 (\<lambda>b. no_args (v_insert (\<lambda>a :: u32. a) x_get32 a b)))),
     (''VInsertX64'', arg_BinVVX (\<lambda>a. arg_u8 (\<lambda>b. no_args (v_insert (\<lambda>a :: u64. a) x_get64 a b)))),
     (''VInsertF32'', arg_BinVVF (\<lambda>a. arg_u8 (\<lambda>b. no_args (v_insert (\<lambda>a :: u32. a) f_get32 a b)))),
     (''VInsertF64'', arg_BinVVF (\<lambda>a. arg_u8 (\<lambda>b. no_args (v_insert (\<lambda>a :: u64. a) f_get64 a b))))]"

definition h_ext_vec_cmp1 :: "handler_entry list" where
  "h_ext_vec_cmp1 = [
     (''Veq8x16'', arg_BinV (\<lambda>a. no_args (v_binop (lane_mask ((=) :: u8 \<Rightarrow> u8 \<Rightarrow> bool)) a))),
     (''Vneq8x16'', arg_BinV (\<lambda>a. no_args (v_binop (lane_mask ((\<noteq>) :: u8 \<Rightarrow> u8 \<Rightarrow> bool)) a))),
     (''Vslt8x16'', arg_BinV (\<lambda>a. no_args (v_binop (lane_mask (slt :: u8 \<Rightarrow> u8 \<Rightarrow> bool)) a))),
     (''Vslteq8x16'', arg_BinV (\<lambda>a. no_args (v_binop (lane_mask (sle :: u8 \<Rightarrow> u8 \<Rightarrow> bool)) a))),
     (''Vult8x16'', arg_BinV (\<lambda>a. no_args (v_binop (lane_mask ((<) :: u8 \<Rightarrow> u8 \<Rightarrow> bool)) a))),
     (''Vulteq8x16'', arg_BinV (\<lambda>a. no_args (v_binop (lane_mask ((\<le>) :: u8 \<Rightarrow> u8 \<Rightarrow> bool)) a))),
     (''Veq16x8'', arg_BinV (\<lambda>a. no_args (v_binop (lane_mask ((=) :: u16 \<Rightarrow> u16 \<Rightarrow> bool)) a))),
     (''Vneq16x8'', arg_BinV (\<lambda>a. no_args (v_binop (lane_mask ((\<noteq>) :: u16 \<Rightarrow> u16 \<Rightarrow> bool)) a))),
     (''Vslt16x8'', arg_BinV (\<lambda>a. no_args (v_binop (lane_mask (slt :: u16 \<Rightarrow> u16 \<Rightarrow> bool)) a))),
     (''Vslteq16x8'', arg_BinV (\<lambda>a. no_args (v_binop (lane_mask (sle :: u16 \<Rightarrow> u16 \<Rightarrow> bool)) a))),
     (''Vult16x8'', arg_BinV (\<lambda>a. no_args (v_binop (lane_mask ((<) :: u16 \<Rightarrow> u16 \<Rightarrow> bool)) a))),
     (''Vulteq16x8'', arg_BinV (\<lambda>a. no_args (v_binop (lane_mask ((\<le>) :: u16 \<Rightarrow> u16 \<Rightarrow> bool)) a)))]"

definition h_ext_vec_cmp2 :: "handler_entry list" where
  "h_ext_vec_cmp2 = [
     (''Veq32x4'', arg_BinV (\<lambda>a. no_args (v_binop (lane_mask ((=) :: u32 \<Rightarrow> u32 \<Rightarrow> bool)) a))),
     (''Vneq32x4'', arg_BinV (\<lambda>a. no_args (v_binop (lane_mask ((\<noteq>) :: u32 \<Rightarrow> u32 \<Rightarrow> bool)) a))),
     (''Vslt32x4'', arg_BinV (\<lambda>a. no_args (v_binop (lane_mask (slt :: u32 \<Rightarrow> u32 \<Rightarrow> bool)) a))),
     (''Vslteq32x4'', arg_BinV (\<lambda>a. no_args (v_binop (lane_mask (sle :: u32 \<Rightarrow> u32 \<Rightarrow> bool)) a))),
     (''Vult32x4'', arg_BinV (\<lambda>a. no_args (v_binop (lane_mask ((<) :: u32 \<Rightarrow> u32 \<Rightarrow> bool)) a))),
     (''Vulteq32x4'', arg_BinV (\<lambda>a. no_args (v_binop (lane_mask ((\<le>) :: u32 \<Rightarrow> u32 \<Rightarrow> bool)) a))),
     (''Veq64x2'', arg_BinV (\<lambda>a. no_args (v_binop (lane_mask ((=) :: u64 \<Rightarrow> u64 \<Rightarrow> bool)) a))),
     (''Vneq64x2'', arg_BinV (\<lambda>a. no_args (v_binop (lane_mask ((\<noteq>) :: u64 \<Rightarrow> u64 \<Rightarrow> bool)) a))),
     (''Vslt64x2'', arg_BinV (\<lambda>a. no_args (v_binop (lane_mask (slt :: u64 \<Rightarrow> u64 \<Rightarrow> bool)) a))),
     (''Vslteq64x2'', arg_BinV (\<lambda>a. no_args (v_binop (lane_mask (sle :: u64 \<Rightarrow> u64 \<Rightarrow> bool)) a))),
     (''Vult64x2'', arg_BinV (\<lambda>a. no_args (v_binop (lane_mask ((<) :: u64 \<Rightarrow> u64 \<Rightarrow> bool)) a))),
     (''Vulteq64x2'', arg_BinV (\<lambda>a. no_args (v_binop (lane_mask ((\<le>) :: u64 \<Rightarrow> u64 \<Rightarrow> bool)) a))),
     (''Vneg8x16'', arg_VReg (\<lambda>a. arg_VReg (\<lambda>b. no_args (v_unop (uminus :: u8 \<Rightarrow> u8) a b))))]"

definition h_ext_vec_cmp3 :: "handler_entry list" where
  "h_ext_vec_cmp3 = [
     (''Vneg16x8'', arg_VReg (\<lambda>a. arg_VReg (\<lambda>b. no_args (v_unop (uminus :: u16 \<Rightarrow> u16) a b)))),
     (''Vneg32x4'', arg_VReg (\<lambda>a. arg_VReg (\<lambda>b. no_args (v_unop (uminus :: u32 \<Rightarrow> u32) a b)))),
     (''Vneg64x2'', arg_VReg (\<lambda>a. arg_VReg (\<lambda>b. no_args (v_unop (uminus :: u64 \<Rightarrow> u64) a b)))),
     (''VnegF64x2'', arg_VReg (\<lambda>a. arg_VReg (\<lambda>b. no_args (v_unop (float_neg binary64 :: u64 \<Rightarrow> u64) a b)))),
     (''Vmin8x16S'', arg_BinV (\<lambda>a. no_args (v_binop (min_s :: u8 \<Rightarrow> u8 \<Rightarrow> u8) a))),
     (''Vmin8x16U'', arg_BinV (\<lambda>a. no_args (v_binop (min :: u8 \<Rightarrow> u8 \<Rightarrow> u8) a))),
     (''Vmin16x8S'', arg_BinV (\<lambda>a. no_args (v_binop (min_s :: u16 \<Rightarrow> u16 \<Rightarrow> u16) a))),
     (''Vmin16x8U'', arg_BinV (\<lambda>a. no_args (v_binop (min :: u16 \<Rightarrow> u16 \<Rightarrow> u16) a))),
     (''Vmax8x16S'', arg_BinV (\<lambda>a. no_args (v_binop (max_s :: u8 \<Rightarrow> u8 \<Rightarrow> u8) a))),
     (''Vmax8x16U'', arg_BinV (\<lambda>a. no_args (v_binop (max :: u8 \<Rightarrow> u8 \<Rightarrow> u8) a))),
     (''Vmax16x8S'', arg_BinV (\<lambda>a. no_args (v_binop (max_s :: u16 \<Rightarrow> u16 \<Rightarrow> u16) a))),
     (''Vmax16x8U'', arg_BinV (\<lambda>a. no_args (v_binop (max :: u16 \<Rightarrow> u16 \<Rightarrow> u16) a))),
     (''Vmin32x4S'', arg_BinV (\<lambda>a. no_args (v_binop (min_s :: u32 \<Rightarrow> u32 \<Rightarrow> u32) a))),
     (''Vmin32x4U'', arg_BinV (\<lambda>a. no_args (v_binop (min :: u32 \<Rightarrow> u32 \<Rightarrow> u32) a)))]"

definition h_ext_vec_cmp4 :: "NaNs \<Rightarrow> handler_entry list" where
  "h_ext_vec_cmp4 N = [
     (''Vmax32x4S'', arg_BinV (\<lambda>a. no_args (v_binop (max_s :: u32 \<Rightarrow> u32 \<Rightarrow> u32) a))),
     (''Vmax32x4U'', arg_BinV (\<lambda>a. no_args (v_binop (max :: u32 \<Rightarrow> u32 \<Rightarrow> u32) a))),
     (''Vabs8x16'', arg_VReg (\<lambda>a. arg_VReg (\<lambda>b. no_args (v_unop (wrapping_abs :: u8 \<Rightarrow> u8) a b)))),
     (''Vabs16x8'', arg_VReg (\<lambda>a. arg_VReg (\<lambda>b. no_args (v_unop (wrapping_abs :: u16 \<Rightarrow> u16) a b)))),
     (''Vabs32x4'', arg_VReg (\<lambda>a. arg_VReg (\<lambda>b. no_args (v_unop (wrapping_abs :: u32 \<Rightarrow> u32) a b)))),
     (''Vabs64x2'', arg_VReg (\<lambda>a. arg_VReg (\<lambda>b. no_args (v_unop (wrapping_abs :: u64 \<Rightarrow> u64) a b)))),
     (''Vabsf32x4'', arg_VReg (\<lambda>a. arg_VReg (\<lambda>b. no_args (v_unop (wasm_abs binary32 :: u32 \<Rightarrow> u32) a b)))),
     (''Vabsf64x2'', arg_VReg (\<lambda>a. arg_VReg (\<lambda>b. no_args (v_unop (wasm_abs binary64 :: u64 \<Rightarrow> u64) a b)))),
     (''Vmaximumf32x4'', arg_BinV (\<lambda>a. no_args (v_binop (wasm_maximum (nan32 N) binary32) a))),
     (''Vmaximumf64x2'', arg_BinV (\<lambda>a. no_args (v_binop (wasm_maximum (nan64 N) binary64) a))),
     (''Vminimumf32x4'', arg_BinV (\<lambda>a. no_args (v_binop (wasm_minimum (nan32 N) binary32) a))),
     (''Vminimumf64x2'', arg_BinV (\<lambda>a. no_args (v_binop (wasm_minimum (nan64 N) binary64) a))),
     (''VShuffle'', arg_VReg (\<lambda>a. arg_VReg (\<lambda>b. arg_VReg (\<lambda>c. arg_u128 (\<lambda>d. no_args (vshuffle a b c d)))))),
     (''Vswizzlei8x16'', arg_BinV (\<lambda>a. no_args (vswizzlei8x16 a))),
     (''Vavground8x16'', arg_BinV (\<lambda>a. no_args (v_binop (avground :: u8 \<Rightarrow> u8 \<Rightarrow> u8) a)))]"

definition h_ext_vec_cmp5 :: "NaNs \<Rightarrow> handler_entry list" where
  "h_ext_vec_cmp5 N = [
     (''Vavground16x8'', arg_BinV (\<lambda>a. no_args (v_binop (avground :: u16 \<Rightarrow> u16 \<Rightarrow> u16) a))),
     (''VeqF32x4'', arg_BinV (\<lambda>a. no_args (v_binop (lane_mask (float_eq binary32 :: u32 \<Rightarrow> u32 \<Rightarrow> bool)) a))),
     (''VneqF32x4'', arg_BinV (\<lambda>a. no_args (v_binop (lane_mask (\<lambda>(a :: u32) b. \<not> float_eq binary32 a b)) a))),
     (''VltF32x4'', arg_BinV (\<lambda>a. no_args (v_binop (lane_mask (float_lt binary32 :: u32 \<Rightarrow> u32 \<Rightarrow> bool)) a))),
     (''VlteqF32x4'', arg_BinV (\<lambda>a. no_args (v_binop (lane_mask (float_le binary32 :: u32 \<Rightarrow> u32 \<Rightarrow> bool)) a))),
     (''VeqF64x2'', arg_BinV (\<lambda>a. no_args (v_binop (lane_mask (float_eq binary64 :: u64 \<Rightarrow> u64 \<Rightarrow> bool)) a))),
     (''VneqF64x2'', arg_BinV (\<lambda>a. no_args (v_binop (lane_mask (\<lambda>(a :: u64) b. \<not> float_eq binary64 a b)) a))),
     (''VltF64x2'', arg_BinV (\<lambda>a. no_args (v_binop (lane_mask (float_lt binary64 :: u64 \<Rightarrow> u64 \<Rightarrow> bool)) a))),
     (''VlteqF64x2'', arg_BinV (\<lambda>a. no_args (v_binop (lane_mask (float_le binary64 :: u64 \<Rightarrow> u64 \<Rightarrow> bool)) a))),
     (''Vfma32x4'', arg_VReg (\<lambda>a. arg_VReg (\<lambda>b. arg_VReg (\<lambda>c. arg_VReg (\<lambda>d. no_args (v_fma (wasm_mul_add (nan32 N) binary32) a b c d)))))),
     (''Vfma64x2'', arg_VReg (\<lambda>a. arg_VReg (\<lambda>b. arg_VReg (\<lambda>c. arg_VReg (\<lambda>d. no_args (v_fma (wasm_mul_add (nan64 N) binary64) a b c d)))))),
     (''Vselect'', arg_VReg (\<lambda>a. arg_XReg (\<lambda>b. arg_VReg (\<lambda>c. arg_VReg (\<lambda>d. no_args (vselect a b c d))))))]"

definition h_ext_wide_arith :: "handler_entry list" where
  "h_ext_wide_arith = [
     (''Xadd128'', arg_XReg (\<lambda>a. arg_XReg (\<lambda>b. arg_XReg (\<lambda>c. arg_XReg (\<lambda>d. arg_XReg (\<lambda>e. arg_XReg (\<lambda>f. no_args (xadd128 a b c d e f)))))))),
     (''Xsub128'', arg_XReg (\<lambda>a. arg_XReg (\<lambda>b. arg_XReg (\<lambda>c. arg_XReg (\<lambda>d. arg_XReg (\<lambda>e. arg_XReg (\<lambda>f. no_args (xsub128 a b c d e f)))))))),
     (''Xwidemul64S'', arg_XReg (\<lambda>a. arg_XReg (\<lambda>b. arg_XReg (\<lambda>c. arg_XReg (\<lambda>d. no_args (xwidemul64_s a b c d)))))),
     (''Xwidemul64U'', arg_XReg (\<lambda>a. arg_XReg (\<lambda>b. arg_XReg (\<lambda>c. arg_XReg (\<lambda>d. no_args (xwidemul64_u a b c d))))))]"

definition h_ext_mem_be_z :: "handler_entry list" where
  "h_ext_mem_be_z = [
     (''XLoad16BeU32Z'', arg_XReg (\<lambda>a. arg_AddrZ (\<lambda>b. no_args (xload16be_u32 (ExtI ''XLoad16BeU32Z'') (addr_Z b) a)))),
     (''XLoad16BeS32Z'', arg_XReg (\<lambda>a. arg_AddrZ (\<lambda>b. no_args (xload16be_s32 (ExtI ''XLoad16BeS32Z'') (addr_Z b) a)))),
     (''XLoad32BeZ'', arg_XReg (\<lambda>a. arg_AddrZ (\<lambda>b. no_args (xload32be (ExtI ''XLoad32BeZ'') (addr_Z b) a)))),
     (''XLoad64BeZ'', arg_XReg (\<lambda>a. arg_AddrZ (\<lambda>b. no_args (xload64be (ExtI ''XLoad64BeZ'') (addr_Z b) a)))),
     (''XStore16BeZ'', arg_AddrZ (\<lambda>a. arg_XReg (\<lambda>b. no_args (xstore16be (ExtI ''XStore16BeZ'') (addr_Z a) b)))),
     (''XStore32BeZ'', arg_AddrZ (\<lambda>a. arg_XReg (\<lambda>b. no_args (xstore32be (ExtI ''XStore32BeZ'') (addr_Z a) b)))),
     (''XStore64BeZ'', arg_AddrZ (\<lambda>a. arg_XReg (\<lambda>b. no_args (xstore64be (ExtI ''XStore64BeZ'') (addr_Z a) b)))),
     (''Fload32BeZ'', arg_FReg (\<lambda>a. arg_AddrZ (\<lambda>b. no_args (fload32be (ExtI ''Fload32BeZ'') (addr_Z b) a)))),
     (''Fload64BeZ'', arg_FReg (\<lambda>a. arg_AddrZ (\<lambda>b. no_args (fload64be (ExtI ''Fload64BeZ'') (addr_Z b) a)))),
     (''Fstore32BeZ'', arg_AddrZ (\<lambda>a. arg_FReg (\<lambda>b. no_args (fstore32be (ExtI ''Fstore32BeZ'') (addr_Z a) b)))),
     (''Fstore64BeZ'', arg_AddrZ (\<lambda>a. arg_FReg (\<lambda>b. no_args (fstore64be (ExtI ''Fstore64BeZ'') (addr_Z a) b)))),
     (''VLoad128BeZ'', arg_VReg (\<lambda>a. arg_AddrZ (\<lambda>b. no_args (vload128be_z a b)))),
     (''Vstore128BeZ'', arg_AddrZ (\<lambda>a. arg_VReg (\<lambda>b. no_args (vstore128be_z a b))))]"

definition h_ext_wide :: "handler_entry list" where
  "h_ext_wide = h_ext_wide_arith @ h_ext_mem_be_z"

definition extended_handlers :: "NaNs \<Rightarrow> handler_entry list" where
  "extended_handlers N =
     h_ext_misc @ h_ext_mem @ h_ext_float_conv1 @ h_ext_float_conv2 @
     h_ext_float_conv3 N @ h_ext_float_conv4 N @ h_ext_float_conv5 @ h_ext_float_arith1 N @ h_ext_float_arith2 N @
     h_ext_float_arith3 N @ h_ext_float_arith4 N @ h_ext_float_arith5 N @ h_ext_float_arith6 N @
     h_ext_float_arith7 N @ h_ext_vec_arith1 @ h_ext_vec_arith2 N @ h_ext_vec_arith3 @
     h_ext_vec_arith4 @ h_ext_vec_arith5 @ h_ext_vec_conv1 @ h_ext_vec_conv2 N @
     h_ext_vec_conv3 N @ h_ext_vec_conv4 N @
     h_ext_vec_conv5 @ h_ext_vec_cmp1 @ h_ext_vec_cmp2 @ h_ext_vec_cmp3 @
     h_ext_vec_cmp4 N @ h_ext_vec_cmp5 N @
     h_ext_wide"

end
