(* ===== verification/Pulley_Interp.thy ===== *)
theory Pulley_Interp
  imports Pulley_Dispatch
begin

text \<open>
  The interpreter as a visitor of decoded instructions, the loop of
  \<open>pulley/src/interp/match_loop.rs\<close>, and \<open>Vm::call\<close> of \<open>pulley/src/interp.rs\<close>. The debug
  visitor that wraps the interpreter in \<open>run\<close> only prints, and only when a constant is changed,
  so it is left out.
\<close>

section \<open>The interpreter as a visitor\<close>

fun visit_Op :: "NaNs \<Rightarrow> Op \<Rightarrow> handler" where
  "visit_Op N (Op name args) i =
     (case map_of base_handlers name of Some h \<Rightarrow> h args i | None \<Rightarrow> (Unwind, i))"
| "visit_Op N (ExtendedOp name args) i =
     (case map_of (extended_handlers N) name of Some h \<Rightarrow> h args i | None \<Rightarrow> (Unwind, i))"

definition InterpreterVisitor ::
  "NaNs \<Rightarrow> (Interpreter, u64, unit ControlFlow) OpVisitor" where
  "InterpreterVisitor N = \<lparr>bytecode = i_pc, set_bytecode = set_pc,
     before_visit = (\<lambda>i. i), after_visit = (\<lambda>i. i), visit_op = visit_Op N\<rparr>"

text \<open>One turn of the loop, and the loop: it may not end, and then its value is \<open>None\<close>.\<close>

definition step :: "NaNs \<Rightarrow> Interpreter \<Rightarrow> (unit ControlFlow \<times> Interpreter, UB) res" where
  "step N i = decode_one (UnsafeStream (i_mem i)) (InterpreterVisitor N) i"

partial_function (option) run ::
  "NaNs \<Rightarrow> Interpreter \<Rightarrow> (Interpreter, UB) res option" where
  "run N i =
     (case step N i of
        Ok (Continue u, i) \<Rightarrow> run N i
      | Ok (Break, i) \<Rightarrow> Some (Ok i)
      | Ok (Unwind, i) \<Rightarrow> Some Panic
      | Err e \<Rightarrow> Some (Err e)
      | Panic \<Rightarrow> Some Panic)"

section \<open>Calling a function\<close>

datatype RegType = RegType_XReg | RegType_FReg | RegType_VReg

datatype Val = Val_XReg u64 | Val_FReg u64 | Val_VReg u128

text \<open>The argument and return registers not yet used, in order. Running out of them is
  \<open>todo!\<close>, a panic.\<close>

fun assign_args :: "Val list \<Rightarrow> XReg list \<Rightarrow> FReg list \<Rightarrow> VReg list \<Rightarrow> MachineState \<Rightarrow> (MachineState, UB) res" where
  "assign_args [] xs fs vs st = Ok st"
| "assign_args (Val_XReg w # as) (x # xs) fs vs st = assign_args as xs fs vs (st\<lparr>x_regs := (x_regs st)(x := w)\<rparr>)"
| "assign_args (Val_FReg w # as) xs (f # fs) vs st = assign_args as xs fs vs (st\<lparr>f_regs := (f_regs st)(f := w)\<rparr>)"
| "assign_args (Val_VReg w # as) xs fs (v # vs) st = assign_args as xs fs vs (st\<lparr>v_regs := (v_regs st)(v := w)\<rparr>)"
| "assign_args _ _ _ _ st = Panic"

fun read_rets :: "RegType list \<Rightarrow> XReg list \<Rightarrow> FReg list \<Rightarrow> VReg list \<Rightarrow> MachineState \<Rightarrow> (Val list, UB) res" where
  "read_rets [] xs fs vs st = Ok []"
| "read_rets (RegType_XReg # ts) (x # xs) fs vs st =
     and_then (read_rets ts xs fs vs st) (\<lambda>r. Ok (Val_XReg (x_regs st x) # r))"
| "read_rets (RegType_FReg # ts) xs (f # fs) vs st =
     and_then (read_rets ts xs fs vs st) (\<lambda>r. Ok (Val_FReg (f_regs st f) # r))"
| "read_rets (RegType_VReg # ts) xs fs (v # vs) st =
     and_then (read_rets ts xs fs vs st) (\<lambda>r. Ok (Val_VReg (v_regs st v) # r))"
| "read_rets _ _ _ _ st = Panic"

definition call_start :: "Val list \<Rightarrow> MachineState \<Rightarrow> (u64 \<times> MachineState, UB) res" where
  "call_start args st =
     and_then (assign_args args (take 15 XReg_all) (take 16 FReg_all) (take 16 VReg_all) st) (\<lambda>st.
       Ok (ms_lr st, st\<lparr>ms_lr := HOST_RETURN_ADDR\<rparr>))"

definition done_decode :: "MachineState \<Rightarrow> (unit DoneReason \<times> MachineState, UB) res" where
  "done_decode st = and_then (unwrap (done_reason st)) (\<lambda>d. Ok (d, st\<lparr>done_reason := None\<rparr>))"

definition call_run :: "NaNs \<Rightarrow> u64 \<Rightarrow> MachineState \<times> memory \<Rightarrow>
    (unit DoneReason \<times> MachineState \<times> memory, UB) res option" where
  "call_run N func vm =
     (case run N \<lparr>i_state = fst vm, i_pc = func, i_mem = snd vm\<rparr> of
        None \<Rightarrow> None
      | Some r \<Rightarrow> Some (and_then r (\<lambda>i.
          and_then (done_decode (i_state i)) (\<lambda>(d, st). Ok (d, st, i_mem i)))))"

definition call_end :: "u64 \<Rightarrow> RegType list \<Rightarrow> MachineState \<Rightarrow> (Val list \<times> MachineState, UB) res" where
  "call_end old_ret rets st =
     (let st = st\<lparr>ms_lr := old_ret\<rparr> in
      and_then (read_rets rets (take 15 XReg_all) (take 16 FReg_all) (take 16 VReg_all) st) (\<lambda>vs. Ok (vs, st)))"

definition Vm_call :: "NaNs \<Rightarrow> u64 \<Rightarrow> Val list \<Rightarrow> RegType list \<Rightarrow>
    MachineState \<times> memory \<Rightarrow> (Val list DoneReason \<times> MachineState \<times> memory, UB) res option" where
  "Vm_call N func args rets vm =
     (case call_start args (fst vm) of
        Ok (lr, st) \<Rightarrow>
          (case call_run N func (st, snd vm) of
             None \<Rightarrow> None
           | Some r \<Rightarrow> Some (and_then r (\<lambda>(d, st, m).
               case d of
                 ReturnToHost _ \<Rightarrow> and_then (call_end lr rets st) (\<lambda>(vs, st). Ok (ReturnToHost vs, st, m))
               | Trap pc kind \<Rightarrow> Ok (Trap pc kind, st, m)
               | CallIndirectHost id' resume \<Rightarrow> Ok (CallIndirectHost id' resume, st, m))))
      | Err e \<Rightarrow> Some (Err e)
      | Panic \<Rightarrow> Some Panic)"

end
