(* ===== verification/Pulley_Sound.thy ===== *)
theory Pulley_Sound
  imports Pulley_Interp
begin

text \<open>
  Soundness of the interpreter. Every one of the 220 handlers of \<open>impl OpVisitor for Interpreter\<close> and the
  323 of \<open>impl ExtendedOpVisitor for Interpreter\<close> (\<open>src/wasmtime/pulley/src/interp.rs\<close>), applied to
  operands of the types the opcode table gives it, either continues or records why it stopped: no panic,
  a trap names the handler's own instruction, and the stack allocation is never replaced. That the addresses a handler
  loads from, stores to or jumps to are valid is not part of it: it is what the interpreter, whose entry point is unsafe for that
  reason, requires of the bytecode.
  From the tables the property lifts to \<open>step\<close>, to \<open>run\<close> and to \<open>Vm::call\<close>, for bytecode that is a
  valid instruction wherever the program counter gets to, which is what the interpreter relies on.
\<close>

unbundle bit_operations_syntax

lemmas control_handler_defs =
  nop_def ret_def call_def call1_def call2_def call3_def call4_def call_indirect_def jump_def
  xjump_def br_if32_def br_if_not32_def br_table32_def push_frame_def push_frame_save_def
  pop_frame_def pop_frame_restore_def stack_alloc32_def stack_free32_def br_if_imm_def
  br_if_x32_def br_if_x64_def

lemmas integer_handler_defs =
  xmov_def xconst_def xmadd32_def
  xmadd64_def xdiv32_s_def xdiv64_s_def xdiv32_u_def xdiv64_u_def xrem32_s_def xrem64_s_def
  xrem32_u_def xrem64_u_def xselect32_def xselect64_def x_unop32_def x_binop32_def x_imm32_def
  x_shift32_def x_cmp32_def x_unop64_def x_binop64_def x_imm64_def x_shift64_def x_cmp64_def
  x_shift32_u6_def x_shift64_u6_def

lemmas memory_handler_defs =
  xload8_u32_def xload8_s32_def xload16le_u32_def xload16le_s32_def xload32le_def
  xload64le_def xstore8_def xstore16le_def xstore32le_def xstore64le_def

lemmas extended_handler_defs =
  trap_def call_indirect_host_def xpcadd_def xmov_fp_def xmov_lr_def
  xadd32_uoverflow_trap_def xadd64_uoverflow_trap_def xload16be_u32_def xload16be_s32_def xload32be_def xload64be_def
  xstore16be_def xstore32be_def xstore64be_def fload32be_def fload64be_def
  fstore32be_def fstore64be_def fload32le_def fload64le_def fstore32le_def
  fstore64le_def vload128le_def vstore128le_def
  fmov_def vmov_def bitcast_int_from_float_32_def bitcast_int_from_float_64_def
  bitcast_float_from_int_32_def bitcast_float_from_int_64_def fconst32_def fconst64_def
  fselect32_def fselect64_def xadd128_def xsub128_def xwidemul64_s_def xwidemul64_u_def
  vload128be_z_def vstore128be_z_def

lemmas vector_handler_defs =
  v_unop_def v_binop_def v_fma_def v_shift_def v_addpairwise_def vconst128_def v_splat_def
  v_bits_def vbnot128_def vbitselect128_def v_bitmask_def v_alltrue_def v_anytrue_def v_widenlow_def
  v_widenhigh_def v_narrow_def vswizzlei8x16_def vselect_def f32_unop_def f64_unop_def f32_binop_def
  f64_binop_def f32_cmp_def f64_cmp_def f32_from_f64_def f64_from_f32_def f32_from_x_def
  f64_from_x_def x32_from_f_sat_def x64_from_f_sat_def vfpromotelow_def vfdemote_def

section \<open>What one instruction may do\<close>

text \<open>The flow \<open>r\<close> of the instruction \<open>I\<close> started in \<open>i\<close>, whose program counter is already past the
  instruction: it does not panic; it leaves the stack's allocation alone; when it goes on, no
  reason for stopping has been recorded; when it stops, a reason has been, a trap names the
  instruction's own address and a host call the address after it.\<close>

definition flow_ok :: "Insn \<Rightarrow> Interpreter \<Rightarrow> 'a flow \<Rightarrow> bool" where
  "flow_ok I i r \<longleftrightarrow>
     (case r of
        (Continue _, j) \<Rightarrow> get_done j = get_done i \<and> get_stack j = get_stack i
      | (Break, j) \<Rightarrow> get_stack j = get_stack i \<and>
          (case get_done j of
             None \<Rightarrow> False
           | Some (Trap pc k) \<Rightarrow> pc = current_pc I i
           | Some (CallIndirectHost d resume) \<Rightarrow> resume = i_pc i
           | Some (ReturnToHost u) \<Rightarrow> True)
      | (Unwind, j) \<Rightarrow> False)"

named_theorems ok_simps \<open>rules that compute \<open>flow_ok\<close>\<close>

lemma flow_ok_Continue [ok_simps]:
  "flow_ok I i (Continue x, j) \<longleftrightarrow> get_done j = get_done i \<and> get_stack j = get_stack i"
  by (simp add: flow_ok_def)

lemma flow_ok_done [ok_simps]:
  "flow_ok I i (done_trap_kind I k i)" "flow_ok I i (done_trap I i)"
  "flow_ok I i (done_call_indirect_host b i)" "flow_ok I i (done_return_to_host i)"
  by (simp_all add: flow_ok_def done_trap_def done_trap_kind_def done_call_indirect_host_def done_return_to_host_def)

lemma flow_ok_Trap [ok_simps]:
  "flow_ok I i (Break, set_done (Trap pc k) j) \<longleftrightarrow> get_stack j = get_stack i \<and> pc = current_pc I i"
  by (simp add: flow_ok_def)

lemma flow_ok_jump [ok_simps]:
  "flow_ok I i (pc_rel_jump J off j) \<longleftrightarrow> get_done j = get_done i \<and> get_stack j = get_stack i"
  by (simp add: pc_rel_jump_def ok_simps)

lemma flow_ok_trans:
  assumes "flow_ok I j r" "i_pc j = i_pc i" "get_done j = get_done i" "get_stack j = get_stack i"
  shows "flow_ok I i r"
  using assms by (simp add: flow_ok_def current_pc_def split: prod.splits ControlFlow.splits option.splits DoneReason.splits)

text \<open>A first part that keeps the program counter can be followed by anything that is allowed.\<close>

definition part_ok :: "Insn \<Rightarrow> Interpreter \<Rightarrow> 'a flow \<Rightarrow> bool" where
  "part_ok I i r \<longleftrightarrow> flow_ok I i r \<and> (\<forall>x j. r = (Continue x, j) \<longrightarrow> i_pc j = i_pc i)"

lemma flow_ok_bind:
  assumes "part_ok I i r"
    "\<And>x j. \<lbrakk>i_pc j = i_pc i; get_done j = get_done i; get_stack j = get_stack i\<rbrakk> \<Longrightarrow> flow_ok I i (f x j)"
  shows "flow_ok I i (flow_bind r f)"
proof -
  obtain c j where r: "r = (c, j)" by (cases r)
  show ?thesis using assms unfolding r by (cases c) (simp_all add: part_ok_def flow_ok_def)
qed

lemma part_ok_set_sp: "part_ok I i (set_sp I sp i)"
  by (auto simp: part_ok_def ok_simps set_sp_eq)

lemma part_ok_push: "i_pc j = i_pc i \<Longrightarrow> get_done j = get_done i \<Longrightarrow> get_stack j = get_stack i \<Longrightarrow> part_ok I i (push n I v j)"
  by (auto simp: part_ok_def ok_simps push_eq Let_def current_pc_def)

context addressing_mode
begin

lemma load_part_ok:
  assumes "i_pc j = i_pc i" "get_done j = get_done i" "get_stack j = get_stack i"
  shows "part_ok I i (load_ne n I addr j :: 'b::len word flow)"
proof -
  have "(\<exists>w :: 'b word. load_ne n I addr j = (Continue w, j)) \<or>
      (\<exists>k. (load_ne n I addr j :: 'b word flow) = (Break, set_done (Trap (current_pc I j) k) j))"
    by (rule load_flow)
  then show ?thesis using assms by (auto simp: part_ok_def ok_simps current_pc_def)
qed

lemma load_bind_ok:
  assumes "\<And>x :: 'b::len word. flow_ok I i (f x i)"
  shows "flow_ok I i (flow_bind (load_ne n I addr i) f)"
proof -
  have "(\<exists>w :: 'b word. load_ne n I addr i = (Continue w, i)) \<or>
      (\<exists>k. (load_ne n I addr i :: 'b word flow) = (Break, set_done (Trap (current_pc I i) k) i))"
    by (rule load_flow)
  then show ?thesis using assms by (auto simp: ok_simps)
qed

lemma store_part_ok:
  assumes "i_pc j = i_pc i" "get_done j = get_done i" "get_stack j = get_stack i"
  shows "part_ok I i (store_ne n I addr v j)"
  using store_flow [of n I v j] assms by (auto simp: part_ok_def ok_simps current_pc_def)

lemma store_ok: "flow_ok I i (store_ne n I addr v i)"
  using store_part_ok [of i i I n v] by (simp add: part_ok_def)

end

lemmas load_oks = o32.load_bind_ok z.load_bind_ok g32.load_bind_ok g32bne.load_bind_ok
lemmas store_oks = o32.store_ok z.store_ok g32.store_ok g32bne.store_ok

section \<open>Operand passing\<close>

text \<open>A table entry that takes operands of the given types and, whatever they are, behaves.\<close>

definition sound :: "field_ty list \<Rightarrow> Insn \<Rightarrow> (operand list \<Rightarrow> handler) \<Rightarrow> bool" where
  "sound tys I h \<longleftrightarrow> (\<forall>args i. map ty_of args = tys \<longrightarrow> flow_ok I i (h args i))"

lemma sound_no_args [ok_simps]: "sound [] I (no_args h) \<longleftrightarrow> (\<forall>i. flow_ok I i (h i))"
  by (simp add: sound_def no_args_def)

lemma sound_Cons:
  assumes "\<And>a. ty_of a = ty \<longleftrightarrow> (\<exists>x. a = C x)" "\<And>x rest. h (C x # rest) = k x rest"
  shows "sound (ty # tys) I h \<longleftrightarrow> (\<forall>x. sound tys I (k x))"
proof
  assume h: "sound (ty # tys) I h"
  show "\<forall>x. sound tys I (k x)"
    unfolding sound_def
  proof (intro allI impI)
    fix x args i assume "map ty_of args = tys"
    then have "map ty_of (C x # args) = ty # tys" using assms(1) by auto
    then show "flow_ok I i (k x args i)" using h assms(2) unfolding sound_def by metis
  qed
next
  assume k: "\<forall>x. sound tys I (k x)"
  show "sound (ty # tys) I h"
    unfolding sound_def
  proof (intro allI impI)
    fix args i assume "map ty_of args = ty # tys"
    then obtain a rest where a: "args = a # rest" "ty_of a = ty" "map ty_of rest = tys" by auto
    then obtain x where "a = C x" using assms(1) by blast
    then show "flow_ok I i (h args i)" using a k assms(2) unfolding sound_def by auto
  qed
qed

lemma ty_of_iff:
  "ty_of a = T_u8 \<longleftrightarrow> (\<exists>x. a = O_u8 x)" "ty_of a = T_u16 \<longleftrightarrow> (\<exists>x. a = O_u16 x)"
  "ty_of a = T_u32 \<longleftrightarrow> (\<exists>x. a = O_u32 x)" "ty_of a = T_u64 \<longleftrightarrow> (\<exists>x. a = O_u64 x)"
  "ty_of a = T_i8 \<longleftrightarrow> (\<exists>x. a = O_i8 x)" "ty_of a = T_i16 \<longleftrightarrow> (\<exists>x. a = O_i16 x)"
  "ty_of a = T_i32 \<longleftrightarrow> (\<exists>x. a = O_i32 x)" "ty_of a = T_i64 \<longleftrightarrow> (\<exists>x. a = O_i64 x)"
  "ty_of a = T_XReg \<longleftrightarrow> (\<exists>x. a = O_XReg x)" "ty_of a = T_FReg \<longleftrightarrow> (\<exists>x. a = O_FReg x)"
  "ty_of a = T_VReg \<longleftrightarrow> (\<exists>x. a = O_VReg x)" "ty_of a = T_PcRelOffset \<longleftrightarrow> (\<exists>x. a = O_PcRelOffset x)"
  "ty_of a = T_BinX \<longleftrightarrow> (\<exists>x. a = O_BinX x)" "ty_of a = T_BinXU6 \<longleftrightarrow> (\<exists>x. a = O_BinXU6 x)"
  "ty_of a = T_UpperRegSet \<longleftrightarrow> (\<exists>x. a = O_UpperRegSet x)" "ty_of a = T_AddrO32 \<longleftrightarrow> (\<exists>x. a = O_AddrO32 x)"
  "ty_of a = T_AddrZ \<longleftrightarrow> (\<exists>x. a = O_AddrZ x)" "ty_of a = T_AddrG32 \<longleftrightarrow> (\<exists>x. a = O_AddrG32 x)"
  "ty_of a = T_AddrG32Bne \<longleftrightarrow> (\<exists>x. a = O_AddrG32Bne x)" "ty_of a = T_u128 \<longleftrightarrow> (\<exists>x. a = O_u128 x)"
  "ty_of a = T_BinF \<longleftrightarrow> (\<exists>x. a = O_BinF x)" "ty_of a = T_BinV \<longleftrightarrow> (\<exists>x. a = O_BinV x)"
  "ty_of a = T_BinVVX \<longleftrightarrow> (\<exists>x. a = O_BinVVX x)" "ty_of a = T_BinVVF \<longleftrightarrow> (\<exists>x. a = O_BinVVF x)"
  by (cases a; simp)+

lemmas arg_defs = arg_u8_def arg_u16_def arg_u32_def arg_u64_def arg_i8_def arg_i16_def arg_i32_def arg_i64_def
  arg_XReg_def arg_FReg_def arg_VReg_def arg_PcRelOffset_def arg_BinX_def arg_BinXU6_def arg_UpperRegSet_def
  arg_AddrO32_def arg_AddrZ_def arg_AddrG32_def arg_AddrG32Bne_def arg_u128_def arg_BinF_def
  arg_BinV_def arg_BinVVX_def arg_BinVVF_def

lemma sound_args [ok_simps]:
  "sound (T_u8 # tys) I (arg_u8 k1) \<longleftrightarrow> (\<forall>x. sound tys I (k1 x))"
  "sound (T_u16 # tys) I (arg_u16 k2) \<longleftrightarrow> (\<forall>x. sound tys I (k2 x))"
  "sound (T_u32 # tys) I (arg_u32 k3) \<longleftrightarrow> (\<forall>x. sound tys I (k3 x))"
  "sound (T_u64 # tys) I (arg_u64 k4) \<longleftrightarrow> (\<forall>x. sound tys I (k4 x))"
  "sound (T_i8 # tys) I (arg_i8 k1) \<longleftrightarrow> (\<forall>x. sound tys I (k1 x))"
  "sound (T_i16 # tys) I (arg_i16 k2) \<longleftrightarrow> (\<forall>x. sound tys I (k2 x))"
  "sound (T_i32 # tys) I (arg_i32 k3) \<longleftrightarrow> (\<forall>x. sound tys I (k3 x))"
  "sound (T_i64 # tys) I (arg_i64 k4) \<longleftrightarrow> (\<forall>x. sound tys I (k4 x))"
  "sound (T_XReg # tys) I (arg_XReg k5) \<longleftrightarrow> (\<forall>x. sound tys I (k5 x))"
  "sound (T_FReg # tys) I (arg_FReg k6) \<longleftrightarrow> (\<forall>x. sound tys I (k6 x))"
  "sound (T_VReg # tys) I (arg_VReg k7) \<longleftrightarrow> (\<forall>x. sound tys I (k7 x))"
  "sound (T_PcRelOffset # tys) I (arg_PcRelOffset k8) \<longleftrightarrow> (\<forall>x. sound tys I (k8 x))"
  "sound (T_BinX # tys) I (arg_BinX k9) \<longleftrightarrow> (\<forall>x. sound tys I (k9 x))"
  "sound (T_BinXU6 # tys) I (arg_BinXU6 k10) \<longleftrightarrow> (\<forall>x. sound tys I (k10 x))"
  "sound (T_UpperRegSet # tys) I (arg_UpperRegSet k11) \<longleftrightarrow> (\<forall>x. sound tys I (k11 x))"
  "sound (T_AddrO32 # tys) I (arg_AddrO32 k12) \<longleftrightarrow> (\<forall>x. sound tys I (k12 x))"
  "sound (T_AddrZ # tys) I (arg_AddrZ k13) \<longleftrightarrow> (\<forall>x. sound tys I (k13 x))"
  "sound (T_AddrG32 # tys) I (arg_AddrG32 k14) \<longleftrightarrow> (\<forall>x. sound tys I (k14 x))"
  "sound (T_AddrG32Bne # tys) I (arg_AddrG32Bne k15) \<longleftrightarrow> (\<forall>x. sound tys I (k15 x))"
  "sound (T_u128 # tys) I (arg_u128 k16) \<longleftrightarrow> (\<forall>x. sound tys I (k16 x))"
  "sound (T_BinF # tys) I (arg_BinF k17) \<longleftrightarrow> (\<forall>x. sound tys I (k17 x))"
  "sound (T_BinV # tys) I (arg_BinV k18) \<longleftrightarrow> (\<forall>x. sound tys I (k18 x))"
  "sound (T_BinVVX # tys) I (arg_BinVVX k19) \<longleftrightarrow> (\<forall>x. sound tys I (k19 x))"
  "sound (T_BinVVF # tys) I (arg_BinVVF k20) \<longleftrightarrow> (\<forall>x. sound tys I (k20 x))"
  by (rule sound_Cons, rule ty_of_iff, rule ext, simp add: arg_defs)+

section \<open>Every handler\<close>

lemma set32_after [ok_simps]:
  "get_done (x_set32 r v i) = get_done i" "get_stack (x_set32 r v i) = get_stack i"
  "get_done (f_set32 fr v i) = get_done i" "get_stack (f_set32 fr v i) = get_stack i"
  "get_done (v_set_lanes vr xs i) = get_done i" "get_stack (v_set_lanes vr xs i) = get_stack i"
  by (simp_all add: x_set32_def f_set32_def v_set_lanes_def)

lemma br_table32_ok: "flow_ok I i (br_table32 idx amt i)"
  by (simp add: br_table32_def Let_def decode_PcRelOffset_def decode_i32_def UnsafeStream_def unsafe_read_def
      map_value_def ok_simps)

lemma push_frame_ok: "flow_ok (BaseI ''PushFrame'') i (push_frame i)"
  unfolding push_frame_def by (intro flow_ok_bind part_ok_push) (simp_all add: ok_simps)

lemma pop_frame_ok: "flow_ok I i (pop_frame i)"
  by (simp add: pop_frame_eq ok_simps)

lemma save_regs_part_ok:
  assumes "i_pc j = i_pc i" "get_done j = get_done i" "get_stack j = get_stack i"
  shows "flow_ok (BaseI ''PushFrameSave'') i (save_regs rs off j)"
  using assms
proof (induction rs off j rule: save_regs.induct)
  case (2 r rs off j)
  show ?case
    unfolding save_regs.simps Let_def
    by (intro flow_ok_bind o32.store_part_ok "2.IH") (use "2.prems" in simp_all)
qed (simp add: ok_simps)

lemma push_frame_save_ok: "flow_ok (BaseI ''PushFrameSave'') i (push_frame_save amt regs i)"
proof -
  obtain rs where "UpperRegSet_into_iter XReg_new regs = (Ok rs :: (XReg list, UB) res)"
    using upper_regs by blast
  then show ?thesis
    unfolding push_frame_save_def Let_def
    by (auto intro!: flow_ok_bind part_ok_set_sp o32.store_part_ok save_regs_part_ok)
qed

lemma restore_regs_part_ok:
  assumes "i_pc j = i_pc i" "get_done j = get_done i" "get_stack j = get_stack i"
  shows "part_ok (BaseI ''PopFrameRestore'') i (restore_regs rs off j)"
  using assms
proof (induction rs off j rule: restore_regs.induct)
  case (2 r rs off j)
  have "load_ne 8 (BaseI ''PopFrameRestore'') (addr_O32 a) j = (Continue (read_ne 8 (i_mem j) (x_get64 j (o32_addr a) + scast (o32_offset a)) :: u64), j)" for a
    by (simp add: load_ne_def addr_O32_def)
  then show ?case using 2 by (simp add: Let_def)
qed (simp add: ok_simps part_ok_def)

lemma pop_frame_restore_ok: "flow_ok (BaseI ''PopFrameRestore'') i (pop_frame_restore amt regs i)"
proof -
  obtain rs where "UpperRegSet_into_iter XReg_new regs = (Ok rs :: (XReg list, UB) res)"
    using upper_regs by blast
  then show ?thesis
    unfolding pop_frame_restore_def
    by (auto intro!: flow_ok_bind restore_regs_part_ok flow_ok_trans [OF pop_frame_ok])
qed

lemma stack_alloc32_ok: "flow_ok (BaseI ''StackAlloc32'') i (stack_alloc32 amt i)"
  unfolding stack_alloc32_def Let_def by (intro flow_ok_bind part_ok_set_sp) (simp add: ok_simps)

lemmas frame_oks = br_table32_ok push_frame_ok pop_frame_ok push_frame_save_ok pop_frame_restore_ok stack_alloc32_ok

lemma division_oks:
  "flow_ok (BaseI ''XDiv32S'') i (xdiv32_s o0 i)"
  "flow_ok (BaseI ''XDiv64S'') i (xdiv64_s o1 i)"
  "flow_ok (BaseI ''XDiv32U'') i (xdiv32_u o2 i)"
  "flow_ok (BaseI ''XDiv64U'') i (xdiv64_u o3 i)"
  "flow_ok (BaseI ''XRem32S'') i (xrem32_s o4 i)"
  "flow_ok (BaseI ''XRem64S'') i (xrem64_s o5 i)"
  "flow_ok (BaseI ''XRem32U'') i (xrem32_u o6 i)"
  "flow_ok (BaseI ''XRem64U'') i (xrem64_u o7 i)"
  by (simp_all add: xdiv32_s_def xdiv64_s_def xdiv32_u_def xdiv64_u_def xrem32_s_def xrem64_s_def xrem32_u_def xrem64_u_def
      ok_simps Let_def split: option.splits)

text \<open>The immediates that must be in range: the lane of an extraction or insertion, and the bytes
  of a shuffle mask. The producer of the bytecode guarantees it; the decoder does not check.\<close>

definition lane_counts :: "(string \<times> nat) list" where
  "lane_counts = [
     (''XExtractV8x16'', 16),
     (''XExtractV16x8'', 8),
     (''XExtractV32x4'', 4),
     (''XExtractV64x2'', 2),
     (''FExtractV32x4'', 4),
     (''FExtractV64x2'', 2),
     (''VInsertX8'', 16),
     (''VInsertX16'', 8),
     (''VInsertX32'', 4),
     (''VInsertX64'', 2),
     (''VInsertF32'', 4),
     (''VInsertF64'', 2),
     (''VShuffle'', 32)]"

fun operand_below :: "nat \<Rightarrow> operand \<Rightarrow> bool" where
  "operand_below n (O_u8 l) = (unat l < n)"
| "operand_below n (O_u128 m) = list_all (\<lambda>b. unat b < n) (to_le_bytes 16 m)"
| "operand_below n _ = True"

definition lanes_ok :: "string \<Rightarrow> operand list \<Rightarrow> bool" where
  "lanes_ok name args = (case map_of lane_counts name of None \<Rightarrow> True | Some n \<Rightarrow> list_all (operand_below n) args)"

text \<open>A table of handlers matches the instruction table: the same names in the same order, and
  each handler takes the operands its instruction has and behaves as that instruction.\<close>

definition entry_ok :: "(string \<Rightarrow> Insn) \<Rightarrow> op_spec \<Rightarrow> handler_entry \<Rightarrow> bool" where
  "entry_ok C sp h \<longleftrightarrow> camel_name sp = fst h \<and>
     (\<forall>args i. map ty_of args = field_tys sp \<longrightarrow> lanes_ok (fst h) args \<longrightarrow> flow_ok (C (fst h)) i (snd h args i))"

lemma entry_okI [ok_simps]: "sound tys (C n) h \<Longrightarrow> entry_ok C (sn, n, tys) (n, h)"
  by (simp add: entry_ok_def sound_def)

lemma ops_control_ok: "list_all2 (entry_ok BaseI) ops_control h_ops_control"
  unfolding ops_control_def h_ops_control_def h_ops_jump_def h_ops_br_x_def
  by (simp add: ok_simps control_handler_defs Let_def)

lemma ops_br_imm_ok: "list_all2 (entry_ok BaseI) ops_br_imm h_ops_br_imm"
  unfolding ops_br_imm_def h_ops_br_imm_def
  by (simp add: ok_simps frame_oks br_if_imm_def Let_def)

lemma ops_x_arith_ok: "list_all2 (entry_ok BaseI) ops_x_arith h_ops_x_arith"
  unfolding ops_x_arith_def h_ops_x_arith_def h_ops_x_const_def h_ops_x_add_def
  by (simp add: ok_simps integer_handler_defs Let_def)

lemma ops_x_bits_ok: "list_all2 (entry_ok BaseI) ops_x_bits h_ops_x_bits"
  unfolding ops_x_bits_def h_ops_x_bits_def h_ops_x_count_def h_ops_x_shift_def h_ops_x_cmp_def
  by (simp add: ok_simps integer_handler_defs Let_def)

lemma ops_x_mem_ok: "list_all2 (entry_ok BaseI) ops_x_mem h_ops_x_mem"
  unfolding ops_x_mem_def h_ops_x_mem_def h_ops_x_mem_o32_def h_ops_x_mem_z_def h_ops_x_mem_g32_def h_ops_x_mem_g32bne_def
  by (simp add: ok_simps memory_handler_defs Let_def load_oks store_oks)

lemma ops_frame_logic_ok: "list_all2 (entry_ok BaseI) ops_frame_logic h_ops_frame_logic"
  unfolding ops_frame_logic_def h_ops_frame_logic_def h_ops_frame_def h_ops_x_ext_def h_ops_x_abs_def h_ops_x_div_def h_ops_x_logic_def h_ops_x_minmax_def h_ops_x_select_def
  by (simp add: ok_simps frame_oks division_oks)
    (simp add: ok_simps control_handler_defs integer_handler_defs set_sp_unchecked_def Let_def)

lemma check_xnn_from_f64_ok: "part_ok I i (check_xnn_from_f64 N I val b i)"
  by (auto simp: check_xnn_from_f64_def Let_def part_ok_def ok_simps done_trap_kind_def split: prod.splits)

lemma check_xnn_from_f32_ok: "part_ok I i (check_xnn_from_f32 N I val b i)"
  by (simp add: check_xnn_from_f32_def check_xnn_from_f64_ok split: prod.splits)

lemma conversion_oks:
  "flow_ok I i (x32_from_f32 N I s dst src i)" "flow_ok I i (x64_from_f32 N I s dst src i)"
  "flow_ok I i (x32_from_f64 N I s dst src i)" "flow_ok I i (x64_from_f64 N I s dst src i)"
  unfolding x32_from_f32_def x64_from_f32_def x32_from_f64_def x64_from_f64_def Let_def cvt_bounds res.case
  by (intro flow_ok_bind check_xnn_from_f32_ok check_xnn_from_f64_ok; simp add: ok_simps)+

lemma v_load_widen_ok: "flow_ok I i (v_load_widen I into dst addr i)"
  unfolding v_load_widen_def by (rule z.load_bind_ok) (simp add: ok_simps)

lemma overflow_oks:
  "flow_ok (ExtI ''Xadd32UoverflowTrap'') i (xadd32_uoverflow_trap o1 i)"
  "flow_ok (ExtI ''Xadd64UoverflowTrap'') i (xadd64_uoverflow_trap o2 i)"
  by (simp_all add: xadd32_uoverflow_trap_def xadd64_uoverflow_trap_def ok_simps Let_def split: option.splits)

text \<open>Lane accesses, with the lane in range.\<close>

lemma length_v_lanes [simp]: "length (v_lanes i r :: 'a::len word list) = 128 div LENGTH('a)"
  by (simp add: v_lanes_def lanes_def)

lemma entry_lane_ok:
  assumes "map_of lane_counts n = Some m"
  shows "(\<And>a b c i. unat c < m \<Longrightarrow> flow_ok (C n) i (kx a b c i)) \<Longrightarrow>
      entry_ok C (sn, n, [T_XReg, T_VReg, T_u8]) (n, arg_XReg (\<lambda>a. arg_VReg (\<lambda>b. arg_u8 (\<lambda>c. no_args (kx a b c)))))"
    "(\<And>a b c i. unat c < m \<Longrightarrow> flow_ok (C n) i (kf a b c i)) \<Longrightarrow>
      entry_ok C (sn, n, [T_FReg, T_VReg, T_u8]) (n, arg_FReg (\<lambda>a. arg_VReg (\<lambda>b. arg_u8 (\<lambda>c. no_args (kf a b c)))))"
    "(\<And>a c i. unat c < m \<Longrightarrow> flow_ok (C n) i (kvx a c i)) \<Longrightarrow>
      entry_ok C (sn, n, [T_BinVVX, T_u8]) (n, arg_BinVVX (\<lambda>a. arg_u8 (\<lambda>b. no_args (kvx a b))))"
    "(\<And>a c i. unat c < m \<Longrightarrow> flow_ok (C n) i (kvf a c i)) \<Longrightarrow>
      entry_ok C (sn, n, [T_BinVVF, T_u8]) (n, arg_BinVVF (\<lambda>a. arg_u8 (\<lambda>b. no_args (kvf a b))))"
    "(\<And>a b c d i. list_all (\<lambda>x. unat x < m) (to_le_bytes 16 d) \<Longrightarrow> flow_ok (C n) i (ks a b c d i)) \<Longrightarrow>
      entry_ok C (sn, n, [T_VReg, T_VReg, T_VReg, T_u128]) (n, arg_VReg (\<lambda>a. arg_VReg (\<lambda>b. arg_VReg (\<lambda>c. arg_u128 (\<lambda>d. no_args (ks a b c d))))))"
  using assms by (auto simp: entry_ok_def map_eq_Cons_conv ty_of_iff lanes_ok_def arg_defs no_args_def)

lemma lane_handler_ok:
  assumes "unat c < 128 div LENGTH('a::len)"
  shows "(\<And>d (a :: 'a word) i. get_done (put d a i) = get_done i \<and> get_stack (put d a i) = get_stack i) \<Longrightarrow>
      flow_ok I i (v_extract put dst src c i)"
    "flow_ok I i (v_insert (into :: 'b::len word \<Rightarrow> 'a word) get ops c i)"
  using assms by (simp_all add: v_extract_def v_insert_def Let_def ok_simps)

lemma vshuffle_ok: "list_all (\<lambda>x. unat x < 32) (to_le_bytes 16 m) \<Longrightarrow> flow_ok I i (vshuffle dst a b m i)"
  by (simp add: vshuffle_def Let_def ok_simps word_less_nat_alt)

lemma lane_entries [ok_simps]:
  "entry_ok ExtI (sn, ''XExtractV8x16'', [T_XReg, T_VReg, T_u8])
     (''XExtractV8x16'', arg_XReg (\<lambda>a. arg_VReg (\<lambda>b. arg_u8 (\<lambda>c. no_args (v_extract (\<lambda>dst (a :: u8). x_set32 dst (ucast a)) a b c)))))"
  "entry_ok ExtI (sn, ''XExtractV16x8'', [T_XReg, T_VReg, T_u8])
     (''XExtractV16x8'', arg_XReg (\<lambda>a. arg_VReg (\<lambda>b. arg_u8 (\<lambda>c. no_args (v_extract (\<lambda>dst (a :: u16). x_set32 dst (ucast a)) a b c)))))"
  "entry_ok ExtI (sn, ''XExtractV32x4'', [T_XReg, T_VReg, T_u8])
     (''XExtractV32x4'', arg_XReg (\<lambda>a. arg_VReg (\<lambda>b. arg_u8 (\<lambda>c. no_args (v_extract (\<lambda>dst (a :: u32). x_set32 dst a) a b c)))))"
  "entry_ok ExtI (sn, ''XExtractV64x2'', [T_XReg, T_VReg, T_u8])
     (''XExtractV64x2'', arg_XReg (\<lambda>a. arg_VReg (\<lambda>b. arg_u8 (\<lambda>c. no_args (v_extract (\<lambda>dst (a :: u64). x_set64 dst a) a b c)))))"
  "entry_ok ExtI (sn, ''FExtractV32x4'', [T_FReg, T_VReg, T_u8])
     (''FExtractV32x4'', arg_FReg (\<lambda>a. arg_VReg (\<lambda>b. arg_u8 (\<lambda>c. no_args (v_extract (f_set32 :: FReg \<Rightarrow> u32 \<Rightarrow> Interpreter \<Rightarrow> Interpreter) a b c)))))"
  "entry_ok ExtI (sn, ''FExtractV64x2'', [T_FReg, T_VReg, T_u8])
     (''FExtractV64x2'', arg_FReg (\<lambda>a. arg_VReg (\<lambda>b. arg_u8 (\<lambda>c. no_args (v_extract (f_set64 :: FReg \<Rightarrow> u64 \<Rightarrow> Interpreter \<Rightarrow> Interpreter) a b c)))))"
  "entry_ok ExtI (sn, ''VInsertX8'', [T_BinVVX, T_u8])
     (''VInsertX8'', arg_BinVVX (\<lambda>a. arg_u8 (\<lambda>b. no_args (v_insert (ucast :: u32 \<Rightarrow> u8) x_get32 a b))))"
  "entry_ok ExtI (sn, ''VInsertX16'', [T_BinVVX, T_u8])
     (''VInsertX16'', arg_BinVVX (\<lambda>a. arg_u8 (\<lambda>b. no_args (v_insert (ucast :: u32 \<Rightarrow> u16) x_get32 a b))))"
  "entry_ok ExtI (sn, ''VInsertX32'', [T_BinVVX, T_u8])
     (''VInsertX32'', arg_BinVVX (\<lambda>a. arg_u8 (\<lambda>b. no_args (v_insert (\<lambda>a :: u32. a) x_get32 a b))))"
  "entry_ok ExtI (sn, ''VInsertX64'', [T_BinVVX, T_u8])
     (''VInsertX64'', arg_BinVVX (\<lambda>a. arg_u8 (\<lambda>b. no_args (v_insert (\<lambda>a :: u64. a) x_get64 a b))))"
  "entry_ok ExtI (sn, ''VInsertF32'', [T_BinVVF, T_u8])
     (''VInsertF32'', arg_BinVVF (\<lambda>a. arg_u8 (\<lambda>b. no_args (v_insert (\<lambda>a :: u32. a) f_get32 a b))))"
  "entry_ok ExtI (sn, ''VInsertF64'', [T_BinVVF, T_u8])
     (''VInsertF64'', arg_BinVVF (\<lambda>a. arg_u8 (\<lambda>b. no_args (v_insert (\<lambda>a :: u64. a) f_get64 a b))))"
  "entry_ok ExtI (sn, ''VShuffle'', [T_VReg, T_VReg, T_VReg, T_u128])
     (''VShuffle'', arg_VReg (\<lambda>a. arg_VReg (\<lambda>b. arg_VReg (\<lambda>c. arg_u128 (\<lambda>d. no_args (vshuffle a b c d))))))"
  by (rule entry_lane_ok, code_simp, simp add: lane_handler_ok ok_simps vshuffle_ok)+

lemma ext_misc_ok: "list_all2 (entry_ok ExtI) ext_misc (h_ext_misc)"
  unfolding ext_misc_def h_ext_misc_def
  by (simp add: ok_simps overflow_oks) (simp add: ok_simps extended_handler_defs x_unop32_def x_unop64_def x_binop64_def Let_def)

lemma ext_mem_ok: "list_all2 (entry_ok ExtI) ext_mem (h_ext_mem)"
  unfolding ext_mem_def h_ext_mem_def h_ext_mem_o32_def h_ext_mem_f_z_def h_ext_mem_f_g32_def
    h_ext_mem_v_o32_def h_ext_mem_v_z_def h_ext_mem_v_g32_def
  by (simp add: ok_simps extended_handler_defs Let_def load_oks store_oks)

lemma ext_float_conv_ok: "list_all2 (entry_ok ExtI) ext_float_conv (h_ext_float_conv1 @ h_ext_float_conv2 @ h_ext_float_conv3 N @ h_ext_float_conv4 N @ h_ext_float_conv5)"
  unfolding ext_float_conv_def h_ext_float_conv1_def h_ext_float_conv2_def h_ext_float_conv3_def h_ext_float_conv4_def h_ext_float_conv5_def
  by (simp add: ok_simps conversion_oks extended_handler_defs vector_handler_defs Let_def)

lemma ext_float_arith_ok: "list_all2 (entry_ok ExtI) ext_float_arith (h_ext_float_arith1 N @ h_ext_float_arith2 N @ h_ext_float_arith3 N @ h_ext_float_arith4 N @ h_ext_float_arith5 N @ h_ext_float_arith6 N @ h_ext_float_arith7 N)"
  unfolding ext_float_arith_def h_ext_float_arith1_def h_ext_float_arith2_def h_ext_float_arith3_def h_ext_float_arith4_def h_ext_float_arith5_def h_ext_float_arith6_def h_ext_float_arith7_def
  by (simp add: ok_simps v_load_widen_ok vector_handler_defs Let_def)

lemma ext_vec_arith_ok: "list_all2 (entry_ok ExtI) ext_vec_arith (h_ext_vec_arith1 @ h_ext_vec_arith2 N @ h_ext_vec_arith3 @ h_ext_vec_arith4 @ h_ext_vec_arith5)"
  unfolding ext_vec_arith_def h_ext_vec_arith1_def h_ext_vec_arith2_def h_ext_vec_arith3_def h_ext_vec_arith4_def h_ext_vec_arith5_def
  by (simp add: ok_simps v_load_widen_ok vector_handler_defs Let_def)

lemma ext_vec_conv_ok: "list_all2 (entry_ok ExtI) ext_vec_conv (h_ext_vec_conv1 @ h_ext_vec_conv2 N @ h_ext_vec_conv3 N @ h_ext_vec_conv4 N @ h_ext_vec_conv5)"
  unfolding ext_vec_conv_def h_ext_vec_conv1_def h_ext_vec_conv2_def h_ext_vec_conv3_def h_ext_vec_conv4_def h_ext_vec_conv5_def
  by (simp add: ok_simps v_load_widen_ok vector_handler_defs Let_def)

lemma ext_vec_cmp_ok: "list_all2 (entry_ok ExtI) ext_vec_cmp (h_ext_vec_cmp1 @ h_ext_vec_cmp2 @ h_ext_vec_cmp3 @ h_ext_vec_cmp4 N @ h_ext_vec_cmp5 N)"
  unfolding ext_vec_cmp_def h_ext_vec_cmp1_def h_ext_vec_cmp2_def h_ext_vec_cmp3_def h_ext_vec_cmp4_def h_ext_vec_cmp5_def
  by (simp add: ok_simps v_load_widen_ok vector_handler_defs Let_def)

lemma ext_wide_ok: "list_all2 (entry_ok ExtI) ext_wide (h_ext_wide)"
  unfolding ext_wide_def h_ext_wide_def h_ext_wide_arith_def h_ext_mem_be_z_def
  by (simp add: ok_simps extended_handler_defs set_i128_def Let_def load_oks store_oks)

lemma base_handlers_ok: "list_all2 (entry_ok BaseI) for_each_op base_handlers"
  unfolding for_each_op_def base_handlers_def
  by (intro list_all2_appendI ops_control_ok ops_br_imm_ok ops_x_arith_ok ops_x_bits_ok ops_x_mem_ok ops_frame_logic_ok)

lemma extended_handlers_ok: "list_all2 (entry_ok ExtI) for_each_extended_op (extended_handlers N)"
  using list_all2_appendI [OF ext_misc_ok list_all2_appendI [OF ext_mem_ok list_all2_appendI [OF ext_float_conv_ok
    list_all2_appendI [OF ext_float_arith_ok list_all2_appendI [OF ext_vec_arith_ok list_all2_appendI [OF ext_vec_conv_ok
    list_all2_appendI [OF ext_vec_cmp_ok ext_wide_ok]]]]]]]
  by (simp add: for_each_extended_op_def extended_handlers_def)

section \<open>Dispatch\<close>

fun insn_of :: "Op \<Rightarrow> Insn" where
  "insn_of (Op name args) = BaseI name"
| "insn_of (ExtendedOp name args) = ExtI name"

fun op_lanes_ok :: "Op \<Rightarrow> bool" where
  "op_lanes_ok (Op name args) = lanes_ok name args"
| "op_lanes_ok (ExtendedOp name args) = lanes_ok name args"

lemma handler_lookup:
  assumes "list_all2 (entry_ok C) tbl hs" "lookup_op tbl name = Some tys"
  shows "\<exists>h. map_of hs name = Some h \<and>
    (\<forall>args i. map ty_of args = tys \<longrightarrow> lanes_ok name args \<longrightarrow> flow_ok (C name) i (h args i))"
  using assms
proof (induction rule: list_all2_induct)
  case (Cons sp tbl h hs)
  then show ?case by (cases sp; cases h) (auto simp: entry_ok_def lookup_op_def split: if_splits)
qed (simp add: lookup_op_def)

lemma visit_Op_ok:
  assumes "wf_Op op" "op_lanes_ok op"
  shows "flow_ok (insn_of op) i (visit_Op N op i)"
proof (cases op)
  case (Op name args)
  then obtain tys where "lookup_op for_each_op name = Some tys" "map ty_of args = tys"
    using assms(1) by (auto simp: wf_args_def split: option.splits)
  then show ?thesis
    using handler_lookup [OF base_handlers_ok] assms(2) Op by fastforce
next
  case (ExtendedOp name args)
  then obtain tys where "lookup_op for_each_extended_op name = Some tys" "map ty_of args = tys"
    using assms(1) by (auto simp: wf_args_def split: option.splits)
  then show ?thesis
    using handler_lookup [OF extended_handlers_ok [of N]] assms(2) ExtendedOp by fastforce
qed

section \<open>One step\<close>

interpretation interp: op_visitor "InterpreterVisitor N" for N
  by unfold_locales (simp_all add: InterpreterVisitor_def set_pc_def)

lemma Op_width_insn: "ucast (Op_width op) = (ucast (insn_WIDTH (insn_of op)) :: u64)"
  by (cases op) simp_all

lemma step_encoded:
  assumes "wf_Op op" "mem_read (i_mem i) (i_pc i) (length (Op_bytes op)) = Op_bytes op"
  shows "step N i = Ok (visit_Op N op (set_pc (i_pc i + ucast (Op_width op)) i))"
proof -
  have "decode_one (UnsafeStream (i_mem i)) MaterializeOpsVisitor (i_pc i) =
      Ok (op, unsafe_advance (i_pc i) (unat (Op_width op)))"
    using assms by (intro unsafe.decode_one_encoded) (simp_all add: unsafe_holds_def)
  then show ?thesis
    unfolding step_def interp.decode_one_factor Let_def
    by (simp add: InterpreterVisitor_def visit_and_finish_def unsafe_advance_def split: prod.split)
qed

lemma step_ok:
  assumes "wf_Op op" "op_lanes_ok op" "mem_read (i_mem i) (i_pc i) (length (Op_bytes op)) = Op_bytes op"
    and "step N i = r"
  obtains j where "r = Ok (Continue (), j)" "get_done j = get_done i" "get_stack j = get_stack i"
  | j d where "r = Ok (Break, j)" "get_done j = Some d" "get_stack j = get_stack i"
      "\<And>pc k. d = Trap pc k \<Longrightarrow> pc = i_pc i"
proof -
  let ?i = "set_pc (i_pc i + ucast (Op_width op)) i"
  have r: "r = Ok (visit_Op N op ?i)" using step_encoded [OF assms(1,3)] assms(4) by simp
  have "current_pc (insn_of op) ?i = i_pc i"
    by (simp add: current_pc_def unsafe_offset_def Op_width_insn)
  then show ?thesis
    using visit_Op_ok [OF assms(1,2), of ?i N] that unfolding r
    by (cases "visit_Op N op ?i"; cases "fst (visit_Op N op ?i)")
      (auto simp: flow_ok_def split: option.splits DoneReason.splits)
qed

section \<open>Runs\<close>

text \<open>The states an execution passes through before it stops.\<close>

inductive reaches :: "NaNs \<Rightarrow> Interpreter \<Rightarrow> Interpreter \<Rightarrow> bool" for N where
  reaches_refl: "reaches N i i"
| reaches_step: "step N i = Ok (Continue (), j) \<Longrightarrow> reaches N j k \<Longrightarrow> reaches N i k"

text \<open>The program counter points to a valid instruction with its immediates in range. This is what
  the interpreter trusts its bytecode for, in every state it reaches.\<close>

definition at_instruction :: "Interpreter \<Rightarrow> bool" where
  "at_instruction i \<longleftrightarrow>
     (\<exists>op. wf_Op op \<and> op_lanes_ok op \<and> mem_read (i_mem i) (i_pc i) (length (Op_bytes op)) = Op_bytes op)"

definition trusted :: "NaNs \<Rightarrow> Interpreter \<Rightarrow> bool" where
  "trusted N i \<longleftrightarrow> (\<forall>j. reaches N i j \<longrightarrow> at_instruction j)"

lemma trusted_step: "trusted N i \<Longrightarrow> step N i = Ok (Continue (), j) \<Longrightarrow> trusted N j"
  by (auto simp: trusted_def intro: reaches_step)

lemma trusted_at: "trusted N i \<Longrightarrow> at_instruction i"
  by (auto simp: trusted_def intro: reaches_refl)

lemma at_instruction_step:
  assumes "at_instruction i" "step N i = r"
  obtains j where "r = Ok (Continue (), j)" "get_done j = get_done i" "get_stack j = get_stack i"
  | j d where "r = Ok (Break, j)" "get_done j = Some d" "get_stack j = get_stack i"
      "\<And>pc k. d = Trap pc k \<Longrightarrow> pc = i_pc i"
  using assms step_ok unfolding at_instruction_def by metis

text \<open>How an execution from \<open>i\<close> ends: in a last state \<open>k\<close> whose instruction records the reason
  \<open>d\<close> for stopping; if that is a trap, it names \<open>k\<close>'s program counter.\<close>

definition ends_in :: "NaNs \<Rightarrow> Interpreter \<Rightarrow> Interpreter \<Rightarrow> bool" where
  "ends_in N i j \<longleftrightarrow>
     (\<exists>k d. reaches N i k \<and> step N k = Ok (Break, j) \<and> get_done j = Some d \<and>
       get_stack j = get_stack i \<and> (\<forall>pc kind. d = Trap pc kind \<longrightarrow> pc = i_pc k))"

lemma ends_in_step:
  assumes "step N i = Ok (Continue (), j)" "get_stack j = get_stack i" "ends_in N j l"
  shows "ends_in N i l"
  using assms by (auto simp: ends_in_def dest: reaches_step [OF assms(1)])

lemma run_trusted:
  assumes "run N i = Some r" "trusted N i"
  shows "\<exists>j. r = Ok j \<and> ends_in N i j"
proof -
  have "trusted N i \<longrightarrow> (\<exists>j. r = Ok j \<and> ends_in N i j)"
  proof (rule run.raw_induct [OF _ assms(1)], rule impI)
    fix run' N i r
    assume IH: "\<And>N i r. run' N i = Some r \<Longrightarrow> trusted N i \<longrightarrow> (\<exists>j. r = Ok j \<and> ends_in N i j)"
      and eq: "(case step N i of Ok (Continue u, i) \<Rightarrow> run' N i | Ok (Break, i) \<Rightarrow> Some (Ok i)
        | Ok (Unwind, i) \<Rightarrow> Some Panic | Err e \<Rightarrow> Some (Err e) | Panic \<Rightarrow> Some Panic) = Some r"
      and t: "trusted N i"
    show "\<exists>j. r = Ok j \<and> ends_in N i j"
    proof (rule at_instruction_step [OF trusted_at [OF t] refl, of N])
      fix j assume j: "step N i = Ok (Continue (), j)" "get_stack j = get_stack i"
      then have "run' N j = Some r" using eq by simp
      then show ?thesis using IH [of N j r] trusted_step [OF t j(1)] ends_in_step [OF j] by auto
    next
      fix j d assume "step N i = Ok (Break, j)" "get_done j = Some d" "get_stack j = get_stack i"
        "\<And>pc k. d = Trap pc k \<Longrightarrow> pc = i_pc i"
      then show ?thesis using eq reaches_refl [of N i] unfolding ends_in_def by force
    qed
  qed
  then show ?thesis using assms(2) by simp
qed

section \<open>Calls\<close>

definition val_fits :: "Val list \<Rightarrow> bool" where
  "val_fits args \<longleftrightarrow> length (filter (\<lambda>v. case v of Val_XReg _ \<Rightarrow> True | _ \<Rightarrow> False) args) \<le> 15 \<and>
     length (filter (\<lambda>v. case v of Val_FReg _ \<Rightarrow> True | _ \<Rightarrow> False) args) \<le> 16 \<and>
     length (filter (\<lambda>v. case v of Val_VReg _ \<Rightarrow> True | _ \<Rightarrow> False) args) \<le> 16"

definition ret_fits :: "RegType list \<Rightarrow> bool" where
  "ret_fits rets \<longleftrightarrow> length (filter ((=) RegType_XReg) rets) \<le> 15 \<and>
     length (filter ((=) RegType_FReg) rets) \<le> 16 \<and> length (filter ((=) RegType_VReg) rets) \<le> 16"

lemma assign_args_Ok:
  assumes "length (filter (\<lambda>v. case v of Val_XReg _ \<Rightarrow> True | _ \<Rightarrow> False) args) \<le> length xs"
    "length (filter (\<lambda>v. case v of Val_FReg _ \<Rightarrow> True | _ \<Rightarrow> False) args) \<le> length fs"
    "length (filter (\<lambda>v. case v of Val_VReg _ \<Rightarrow> True | _ \<Rightarrow> False) args) \<le> length vs"
  shows "\<exists>st'. assign_args args xs fs vs st = Ok st' \<and> ms_lr st' = ms_lr st \<and> ms_stack st' = ms_stack st \<and>
    done_reason st' = done_reason st \<and> ms_fp st' = ms_fp st"
  using assms
  by (induction args xs fs vs st rule: assign_args.induct) (auto split: Val.splits if_splits)

lemma read_rets_Ok:
  assumes "length (filter ((=) RegType_XReg) rets) \<le> length xs"
    "length (filter ((=) RegType_FReg) rets) \<le> length fs" "length (filter ((=) RegType_VReg) rets) \<le> length vs"
  shows "\<exists>r. read_rets rets xs fs vs st = Ok r \<and> length r = length rets"
  using assms
  by (induction rets xs fs vs st rule: read_rets.induct) (auto split: if_splits, metis RegType.exhaust)

lemma length_reg_lists: "length (take 15 XReg_all) = 15" "length (take 16 FReg_all) = 16" "length (take 16 VReg_all) = 16"
  by (simp_all add: XReg_all_def FReg_all_def VReg_all_def)

lemma call_start_Ok:
  assumes "val_fits args"
  shows "\<exists>st'. call_start args st = Ok (ms_lr st, st') \<and> ms_lr st' = HOST_RETURN_ADDR \<and>
    ms_stack st' = ms_stack st \<and> done_reason st' = done_reason st"
  using assign_args_Ok [of args "take 15 XReg_all" "take 16 FReg_all" "take 16 VReg_all" st] assms
  unfolding call_start_def val_fits_def length_reg_lists by auto

lemma call_end_Ok:
  assumes "ret_fits rets"
  shows "\<exists>vs. call_end lr rets st = Ok (vs, st\<lparr>ms_lr := lr\<rparr>) \<and> length vs = length rets"
  using read_rets_Ok [of rets "take 15 XReg_all" "take 16 FReg_all" "take 16 VReg_all" "st\<lparr>ms_lr := lr\<rparr>"] assms
  unfolding call_end_def ret_fits_def length_reg_lists Let_def by auto

lemma call_run_trusted:
  assumes "trusted N \<lparr>i_state = st, i_pc = func, i_mem = m\<rparr>"
    and "call_run N func (st, m) = Some r"
  shows "\<exists>d st' m'. r = Ok (d, st', m') \<and> done_reason st' = None \<and> ms_stack st' = ms_stack st"
proof -
  let ?i = "\<lparr>i_state = st, i_pc = func, i_mem = m\<rparr>"
  obtain q where q: "run N ?i = Some q" using assms(2) by (auto simp: call_run_def split: option.splits)
  then obtain j d where "q = Ok j" "get_done j = Some d" "get_stack j = get_stack ?i"
    using run_trusted [OF _ assms(1)] by (auto simp: ends_in_def)
  then show ?thesis
    using assms(2) q by (auto simp: call_run_def done_decode_def get_done_def get_stack_def)
qed

lemma Vm_call_trusted:
  assumes "val_fits args" "ret_fits rets"
    and "\<And>st'. call_start args st = Ok (ms_lr st, st') \<Longrightarrow> trusted N \<lparr>i_state = st', i_pc = func, i_mem = m\<rparr>"
    and "Vm_call N func args rets (st, m) = Some r"
  shows "\<exists>d st' m'. r = Ok (d, st', m') \<and> done_reason st' = None \<and> ms_stack st' = ms_stack st \<and>
    (\<forall>vs. d = ReturnToHost vs \<longrightarrow> length vs = length rets \<and> ms_lr st' = ms_lr st)"
proof -
  obtain st1 where s: "call_start args st = Ok (ms_lr st, st1)" "ms_stack st1 = ms_stack st"
    using call_start_Ok [OF assms(1)] by blast
  obtain q where q: "call_run N func (st1, m) = Some q"
    using assms(4) s by (auto simp: Vm_call_def split: option.splits)
  obtain d st2 m2 where d: "q = Ok (d, st2, m2)" "done_reason st2 = None" "ms_stack st2 = ms_stack st1"
    using call_run_trusted [OF assms(3) [OF s(1)] q] by blast
  obtain vs where "call_end (ms_lr st) rets st2 = Ok (vs, st2\<lparr>ms_lr := ms_lr st\<rparr>)" "length vs = length rets"
    using call_end_Ok [OF assms(2)] by blast
  then show ?thesis
    using assms(4) s q d by (cases d) (auto simp: Vm_call_def)
qed

section \<open>Safety of every instruction\<close>

definition no_NaNs :: NaNs where
  "no_NaNs = \<lparr>nan32 = (\<lambda>_. 0x7fc00000), nan64 = (\<lambda>_. 0x7ff8000000000000)\<rparr>"

text \<open>C1: Every instruction of both opcode tables, executed on any machine state with operands of the types the
  table lists and lane indices in range, continues or stops with a recorded reason: it does not panic, a trap
  it records names its own address, an instruction that continues leaves the reason untouched, and
  none replaces the stack allocation. This is about executions in which the raw pointers that the instruction uses are
  valid: memory of the model has a byte at every address, and a jump to any address is taken, so it says nothing about an access through a null or
  unmapped pointer, which the interpreter requires its bytecode not to make.\<close>

theorem every_handler_sound:
  assumes "wf_Op op" "op_lanes_ok op"
  shows "flow_ok (insn_of op) i (visit_Op N op i)"
  by (rule visit_Op_ok [OF assms])

theorem every_handler_sound_witness:
  "flow_ok (ExtI ''X32FromF32S'') zero_interp
     (visit_Op no_NaNs (ExtendedOp ''X32FromF32S'' [O_XReg X1, O_FReg F2]) zero_interp)"
proof -
  let ?op = "ExtendedOp ''X32FromF32S'' [O_XReg X1, O_FReg F2]"
  have "wf_Op ?op" "op_lanes_ok ?op" by code_simp+
  from every_handler_sound [OF this, of zero_interp no_NaNs] show ?thesis by simp
qed

text \<open>C13: One turn of the interpreter loop, at an address where memory holds the encoding of an
  instruction, is that instruction's handler run with the program counter past the encoding:
  decoding through the opcode tables and dispatching is transparent.\<close>

theorem step_runs_encoded:
  assumes "wf_Op op" "mem_read (i_mem i) (i_pc i) (length (Op_encode op [])) = Op_encode op []"
  shows "step N i = Ok (visit_Op N op (set_pc (i_pc i + ucast (Op_width op)) i))"
  using step_encoded [OF assms(1)] assms(2) by (simp add: Op_bytes_def)

theorem step_runs_encoded_witness:
  "let i = set_pc 4096 (set_mem (mem_write (\<lambda>_. 0) 4096 [68, 3, 255]) zero_interp)
   in step no_NaNs i = Ok (visit_Op no_NaNs (Op ''Xconst8'' [O_XReg X3, O_i8 255]) (set_pc 4099 i))"
proof -
  let ?op = "Op ''Xconst8'' [O_XReg X3, O_i8 255]"
  let ?i = "set_pc 4096 (set_mem (mem_write (\<lambda>_. 0) 4096 [68, 3, 255]) zero_interp)"
  have wf: "wf_Op ?op" and w: "Op_width ?op = 3" and e: "Op_encode ?op [] = [68, 3, 255]" by code_simp+
  show ?thesis
    using step_runs_encoded [OF wf, of ?i no_NaNs] mem_read_write_same [of "[68, 3, 255]" "\<lambda>_. 0" 4096]
    unfolding w e by (simp add: Let_def del: visit_Op.simps)
qed

end
