(* ===== verification/Pulley_Programs.thy ===== *)
theory Pulley_Programs
  imports Pulley_Sound
begin

text \<open>
  Programs in memory, executed by the interpreter of \<open>src/wasmtime/pulley/src/interp.rs\<close>: what
  \<open>run\<close> and \<open>Vm::call\<close> promise for valid bytecode, and a loop that is shown to come to an end.
\<close>

section \<open>Programs in memory\<close>

text \<open>Memory holds the encodings of \<open>ops\<close> from address \<open>p\<close> on; the offset of the \<open>k\<close>-th
  instruction is the number of bytes of those before it.\<close>

definition holds_code :: "Op list \<Rightarrow> u64 \<Rightarrow> memory \<Rightarrow> bool" where
  "holds_code ops p m \<longleftrightarrow>
     mem_read m p (length (concat (map Op_bytes ops))) = concat (map Op_bytes ops)"

definition op_offset :: "Op list \<Rightarrow> nat \<Rightarrow> nat" where
  "op_offset ops k = length (concat (map Op_bytes (take k ops)))"

lemma holds_code_nth:
  assumes "holds_code ops p m" "k < length ops"
  shows "mem_read m (p + of_nat (op_offset ops k)) (length (Op_bytes (ops ! k))) = Op_bytes (ops ! k)"
proof -
  let ?a = "concat (map Op_bytes (take k ops))" and ?b = "Op_bytes (ops ! k)"
    and ?c = "concat (map Op_bytes (drop (Suc k) ops))"
  have split: "concat (map Op_bytes ops) = ?a @ ?b @ ?c"
    using assms(2) by (metis append_take_drop_id Cons_nth_drop_Suc concat.simps(2) concat_append list.map(2) map_append)
  have "mem_read m p (length ?a + (length ?b + length ?c)) = ?a @ ?b @ ?c"
    using assms(1) unfolding holds_code_def split by simp
  then show ?thesis
    unfolding mem_read_append op_offset_def by (simp add: append_eq_append_conv)
qed

lemma step_in_code:
  assumes "holds_code ops p (i_mem i)" "k < length ops" "wf_Op (ops ! k)" "i_pc i = p + of_nat (op_offset ops k)"
  shows "step N i = Ok (visit_Op N (ops ! k) (set_pc (i_pc i + ucast (Op_width (ops ! k))) i))"
  using assms holds_code_nth [OF assms(1,2)] by (intro step_encoded) simp_all

section \<open>A loop\<close>

text \<open>The loop \<open>l: x0 = x0 - 1; br_if x0, l; ret\<close>, its instructions being 4, 6 and 1 bytes long.\<close>

definition countdown :: "Op list" where
  "countdown = [Op ''Xsub32U8'' [O_XReg X0, O_XReg X0, O_u8 1],
     Op ''BrIf'' [O_XReg X0, O_PcRelOffset (PcRelOffset (- 4))], Op ''Ret'' []]"

lemma countdown_wf: "list_all (\<lambda>op. wf_Op op \<and> op_lanes_ok op) countdown"
  by code_simp

lemma countdown_offsets: "op_offset countdown 0 = 0" "op_offset countdown 1 = 4" "op_offset countdown 2 = 10"
  by code_simp+

lemma countdown_widths: "map Op_width countdown = [4, 6, 1]"
  by code_simp

lemma countdown_lookup:
  "map_of base_handlers ''Ret'' = Some (no_args ret)"
  "map_of base_handlers ''BrIf'' = Some (arg_XReg (\<lambda>a. arg_PcRelOffset (\<lambda>b. no_args (br_if32 a b))))"
  "map_of base_handlers ''Xsub32U8'' = Some (arg_XReg (\<lambda>a. arg_XReg (\<lambda>b. arg_u8 (\<lambda>c. no_args (x_imm32 (-) a b (ucast c))))))"
  by (simp_all add: base_handlers_def h_ops_control_def h_ops_jump_def h_ops_br_x_def h_ops_x_const_def h_ops_x_add_def h_ops_x_arith_def h_ops_br_imm_def map_add_def)

lemma set_pc_write:
  "set_pc p (set_pc q i) = set_pc p i" "x_set64 r v (set_pc p i) = set_pc p (x_set64 r v i)"
  "x_set64 r v (x_set64 r w i) = x_set64 r v i"
  by (simp_all add: access_defs)

lemma XReg_set_u32_twice: "XReg_set_u32 x (XReg_set_u32 y v) = XReg_set_u32 x v"
  unfolding XReg_set_u32_def by (rule bit_word_eqI) (auto simp: bit_simps dest: bit_imp_le_length)

lemma countdown_steps:
  assumes c: "holds_code countdown p (i_mem i)"
  shows "i_pc i = p \<Longrightarrow> step N i = Ok (Continue (), x_set32 X0 (x_get32 i X0 - 1) (set_pc (p + 4) i))"
    and "i_pc i = p + 4 \<Longrightarrow>
      step N i = Ok (Continue (), set_pc (if x_get32 i X0 \<noteq> 0 then p else p + 10) i)"
    and "i_pc i = p + 10 \<Longrightarrow> get_lr i = HOST_RETURN_ADDR \<Longrightarrow>
      step N i = Ok (Break, set_done (ReturnToHost ()) (set_pc (p + 11) i))"
proof -
  have w: "k < 3 \<Longrightarrow> wf_Op (countdown ! k)" for k
    using countdown_wf by (simp add: list_all_length countdown_def)
  have ops: "countdown ! 0 = Op ''Xsub32U8'' [O_XReg X0, O_XReg X0, O_u8 1]"
    "countdown ! 1 = Op ''BrIf'' [O_XReg X0, O_PcRelOffset (PcRelOffset (- 4))]"
    "countdown ! 2 = Op ''Ret'' []" and len: "length countdown = 3"
    by (simp_all add: countdown_def)
  have wd: "Op_width (countdown ! 0) = 4" "Op_width (countdown ! 1) = 6" "Op_width (countdown ! 2) = 1"
    by code_simp+
  have brif: "insn_WIDTH (BaseI ''BrIf'') = 6" by code_simp
  note s = step_in_code [OF c, unfolded len, OF _ w, where N = N]
  show "i_pc i = p \<Longrightarrow> step N i = Ok (Continue (), x_set32 X0 (x_get32 i X0 - 1) (set_pc (p + 4) i))"
    using s [of 0] unfolding wd countdown_offsets unfolding ops
    by (simp add: countdown_lookup x_imm32_def Let_def arg_XReg_def arg_u8_def no_args_def x_get32_eq)
  show "i_pc i = p + 4 \<Longrightarrow>
      step N i = Ok (Continue (), set_pc (if x_get32 i X0 \<noteq> 0 then p else p + 10) i)"
    using s [of 1] unfolding wd countdown_offsets unfolding ops
    by (simp add: countdown_lookup br_if32_def Let_def arg_XReg_def arg_PcRelOffset_def no_args_def x_get32_eq
        pc_rel_jump_def pc_rel_def current_pc_def brif unsafe_offset_def set_pc_write add.commute [of p] del: insn_WIDTH.simps)
  show "i_pc i = p + 10 \<Longrightarrow> get_lr i = HOST_RETURN_ADDR \<Longrightarrow>
      step N i = Ok (Break, set_done (ReturnToHost ()) (set_pc (p + 11) i))"
    using s [of 2] unfolding wd countdown_offsets unfolding ops
    by (simp add: countdown_lookup ret_def Let_def no_args_def done_return_to_host_def add.commute [of p])
qed

lemma word_pred_less: "(x :: u32) \<noteq> 0 \<Longrightarrow> unat (x - 1) < unat x"
  by (simp add: unat_minus_one unat_gt_0)

definition after_countdown :: "u64 \<Rightarrow> Interpreter \<Rightarrow> Interpreter" where
  "after_countdown p i = set_done (ReturnToHost ()) (set_pc (p + 11) (x_set32 X0 0 i))"

lemma countdown_runs:
  assumes "holds_code countdown p (i_mem i)" "i_pc i = p" "get_lr i = HOST_RETURN_ADDR"
  shows "run N i = Some (Ok (after_countdown p i))"
  using assms
proof (induction "unat (x_get32 i X0 - 1)" arbitrary: i rule: less_induct)
  case less
  let ?x = "x_get32 i X0 - 1"
  let ?i1 = "x_set32 X0 ?x (set_pc (p + 4) i)"
  let ?i2 = "set_pc (if ?x \<noteq> 0 then p else p + 10) ?i1"
  have x1: "x_get32 ?i1 X0 = ?x" by (simp add: x_set32_def x_get32_eq)
  have "run N i = run N ?i1"
    using countdown_steps(1) [OF less(2,3)] by (subst run.simps) simp
  also have "\<dots> = run N ?i2"
    using countdown_steps(2) [of p ?i1 N] less(2) x1 by (subst run.simps) (simp add: x_set32_def)
  also have "\<dots> = Some (Ok (after_countdown p i))"
  proof (cases "?x = 0")
    case True
    then show ?thesis
      using countdown_steps(3) [of p ?i2 N] less(2,4)
      by (subst run.simps) (simp add: x_set32_def after_countdown_def set_pc_write)
  next
    case False
    then have "unat (x_get32 ?i2 X0 - 1) < unat ?x"
      using word_pred_less [of ?x] by (simp add: x_set32_def x_get32_eq)
    then have "run N ?i2 = Some (Ok (after_countdown p ?i2))"
      using less(1) [of ?i2] less(2,4) False by (simp add: x_set32_def)
    then show ?thesis using False by (simp add: after_countdown_def x_set32_def set_pc_write XReg_set_u32_twice)
  qed
  finally show ?case .
qed

lemma countdown_trusted:
  assumes "holds_code countdown p (i_mem i)" "i_pc i = p" "get_lr i = HOST_RETURN_ADDR"
  shows "trusted N i"
proof -
  let ?inv = "\<lambda>j. holds_code countdown p (i_mem j) \<and> get_lr j = HOST_RETURN_ADDR \<and> i_pc j \<in> {p, p + 4, p + 10}"
  have "?inv i \<longrightarrow> ?inv j" if "reaches N i j" for j
    using that
  proof (induction rule: reaches.induct)
    case (reaches_step i j k)
    show ?case
      using reaches_step(1,3) countdown_steps [of p i N] by (auto simp: x_set32_def split: if_splits)
  qed simp
  moreover have "at_instruction j" if "?inv j" for j
  proof -
    have *: "at_instruction j" if "k < 3" "i_pc j = p + of_nat (op_offset countdown k)" for k
      using that holds_code_nth [of countdown p "i_mem j" k] \<open>?inv j\<close> countdown_wf
      unfolding at_instruction_def by (intro exI [of _ "countdown ! k"]) (simp add: list_all_length countdown_def)
    show ?thesis using that * [of 0] * [of 1] * [of 2] unfolding countdown_offsets by auto
  qed
  ultimately show ?thesis using assms by (auto simp: trusted_def)
qed

section \<open>Execution\<close>

text \<open>C11: The interpreter's loop, started anywhere on bytecode that is a valid instruction wherever the
  program counter gets to, either runs forever or stops normally: it never panics and never decodes
  an invalid opcode, the last instruction executed recorded the reason for stopping, a trap names that
  instruction's address, and the stack allocation is the one it started with.\<close>

theorem run_stops_with_reason:
  assumes "trusted N i"
  shows "run N i = None \<or> (\<exists>j. run N i = Some (Ok j) \<and> ends_in N i j)"
  using run_trusted [OF _ assms] by (cases "run N i") auto

definition countdown_vm :: "Interpreter" where
  "countdown_vm = set_pc 4096 (set_lr HOST_RETURN_ADDR (x_set64 X0 3
     (set_mem (mem_write (\<lambda>_. 0) 4096 (concat (map Op_bytes countdown))) zero_interp)))"

lemma countdown_written: "holds_code countdown 4096 (mem_write (\<lambda>_. 0) 4096 (concat (map Op_bytes countdown)))"
proof -
  have "length (concat (map Op_bytes countdown)) = 11" by code_simp
  then show ?thesis unfolding holds_code_def by (intro mem_read_write_same) simp
qed

lemma countdown_vm_holds: "holds_code countdown 4096 (i_mem countdown_vm)" "i_pc countdown_vm = 4096"
  "get_lr countdown_vm = HOST_RETURN_ADDR"
  using countdown_written by (simp_all add: countdown_vm_def)

theorem run_stops_with_reason_witness:
  "\<exists>j. run no_NaNs countdown_vm = Some (Ok j) \<and> ends_in no_NaNs countdown_vm j"
  using run_stops_with_reason [OF countdown_trusted [OF countdown_vm_holds]]
    countdown_runs [OF countdown_vm_holds] by auto

text \<open>C12: \<open>Vm::call\<close> with arguments and results that fit the registers of the calling convention, on a
  function whose bytecode is valid wherever execution gets to, never panics: in particular the stored reason
  for stopping is there to be taken, and is taken. A normal return yields one value per declared result
  and restores the link register of before the call.\<close>

theorem vm_call_sound:
  assumes "val_fits args" "ret_fits rets"
    and "\<forall>lr st'. call_start args st = Ok (lr, st') \<longrightarrow> trusted N \<lparr>i_state = st', i_pc = func, i_mem = m\<rparr>"
  shows "Vm_call N func args rets (st, m) = None \<or>
    (\<exists>d st' m'. Vm_call N func args rets (st, m) = Some (Ok (d, st', m')) \<and> done_reason st' = None \<and>
      ms_stack st' = ms_stack st \<and>
      (\<forall>vs. d = ReturnToHost vs \<longrightarrow> length vs = length rets \<and> ms_lr st' = ms_lr st))"
  using Vm_call_trusted [OF assms(1,2), of st N func m] assms(3)
  by (cases "Vm_call N func args rets (st, m)") auto

lemma countdown_call:
  assumes "holds_code countdown p m"
  shows "\<exists>st'. Vm_call N p [Val_XReg w] [RegType_XReg] (st, m) =
    Some (Ok (ReturnToHost [Val_XReg (XReg_set_u32 0 w)], st', m))"
proof -
  define st1 where "st1 = st\<lparr>x_regs := (x_regs st)(X0 := w), ms_lr := HOST_RETURN_ADDR\<rparr>"
  let ?i = "\<lparr>i_state = st1, i_pc = p, i_mem = m\<rparr>"
  have start: "call_start [Val_XReg w] st = Ok (ms_lr st, st1)"
    by (simp add: call_start_def XReg_all_def FReg_all_def VReg_all_def st1_def)
  have "run N ?i = Some (Ok (after_countdown p ?i))"
    using assms by (intro countdown_runs) (simp_all add: st1_def get_lr_def)
  then have "call_run N p (st1, m) = Some (Ok (ReturnToHost (), (i_state (x_set32 X0 0 ?i))\<lparr>done_reason := None\<rparr>, m))"
    by (simp add: call_run_def after_countdown_def done_decode_def set_done_def set_pc_def x_set32_def x_set64_def)
  then show ?thesis
    unfolding Vm_call_def
    by (simp add: start call_end_def XReg_all_def FReg_all_def VReg_all_def x_set32_def x_set64_def x_get64_def st1_def)
qed

theorem vm_call_sound_witness:
  "\<exists>vs st' m'. Vm_call no_NaNs 4096 [Val_XReg 3] [RegType_XReg]
      (i_state zero_interp, mem_write (\<lambda>_. 0) 4096 (concat (map Op_bytes countdown))) =
    Some (Ok (ReturnToHost vs, st', m')) \<and> length vs = 1 \<and> ms_lr st' = ms_lr (i_state zero_interp)"
proof -
  let ?m = "mem_write (\<lambda>_. 0) 4096 (concat (map Op_bytes countdown))" and ?st = "i_state zero_interp"
  have "trusted no_NaNs \<lparr>i_state = st', i_pc = 4096, i_mem = ?m\<rparr>"
    if "call_start [Val_XReg 3] ?st = Ok (lr, st')" for lr st'
    using that call_start_Ok [of "[Val_XReg 3]" ?st] countdown_written
    by (intro countdown_trusted) (auto simp: get_lr_def val_fits_def)
  then show ?thesis
    using vm_call_sound [of "[Val_XReg 3]" "[RegType_XReg]" ?st no_NaNs 4096 ?m]
      countdown_call [OF countdown_written, of no_NaNs 3 ?st]
    by (fastforce simp: val_fits_def ret_fits_def)
qed

text \<open>C32: The countdown loop, wherever its code lies in memory and whatever it is called with, returns to
  the host (a zero counter wraps and goes round \<open>2 ^ 32\<close> times), with the low 32 bits of the
  result zero, the high ones those of the argument, and memory unchanged.\<close>

theorem countdown_returns:
  assumes "holds_code countdown p m"
  shows "\<exists>st'. Vm_call N p [Val_XReg w] [RegType_XReg] (st, m) =
    Some (Ok (ReturnToHost [Val_XReg (XReg_set_u32 0 w)], st', m))"
  by (rule countdown_call [OF assms])

theorem countdown_returns_witness:
  "\<exists>st'. Vm_call no_NaNs 4096 [Val_XReg 0x500000007] [RegType_XReg]
      (i_state zero_interp, mem_write (\<lambda>_. 0) 4096 (concat (map Op_bytes countdown))) =
    Some (Ok (ReturnToHost [Val_XReg 0x500000000], st', mem_write (\<lambda>_. 0) 4096 (concat (map Op_bytes countdown))))"
proof -
  have "XReg_set_u32 0 0x500000007 = 0x500000000" by (simp add: XReg_set_u32_def mask_eq_exp_minus_1)
  then show ?thesis
    using countdown_returns [OF countdown_written, of no_NaNs "0x500000007" "i_state zero_interp"] by simp
qed

end
