(* ===== verification/Float_Laws.thy ===== *)
theory Float_Laws
  imports Wasm_Float
begin

unbundle bit_operations_syntax

text \<open>
  What the float model of \<open>Wasm_Float\<close> computes, over the real numbers: packing is inverse to classifying,
  a number that fits a format is not changed by rounding to it, comparison is comparison of values,
  and the integer part of a float is exact. From these follow the rules of \<open>wasm_maximum\<close> and
  \<open>wasm_minimum\<close> of \<open>crates/core/src/math.rs\<close>.
\<close>

section \<open>Packing and classifying\<close>

text \<open>A format fills its words: sign, exponent and fraction, with at least two bits of exponent and the
  integers of the fraction's size in range.\<close>

definition fits_format :: "float_format \<Rightarrow> 'a::len itself \<Rightarrow> bool" where
  "fits_format F t \<longleftrightarrow> LENGTH('a) = mant_bits F + exp_bits F + 1 \<and> 2 \<le> exp_bits F \<and> int (mant_bits F) \<le> bias F"

lemma fits_formats: "fits_format binary32 TYPE(32)" "fits_format binary64 TYPE(64)"
  by (simp_all add: fits_format_def binary32_def binary64_def bias_def)

text \<open>The least exponent of a float, that of the subnormal numbers.\<close>

definition emin :: "float_format \<Rightarrow> int" where
  "emin F = 1 - bias F - int (mant_bits F)"

lemma uint_with_sign:
  assumes "fits_format F TYPE('a::len)" "0 \<le> n" "n < 2 ^ (mant_bits F + exp_bits F)"
  shows "uint (with_sign F s n :: 'a word) = n + (if s then 2 ^ (mant_bits F + exp_bits F) else 0)"
proof -
  have "0 \<le> n + (if s then 2 ^ (mant_bits F + exp_bits F) else 0) \<and>
      n + (if s then 2 ^ (mant_bits F + exp_bits F) else 0) < 2 ^ LENGTH('a)"
    using assms by (simp add: fits_format_def)
  then show ?thesis unfolding with_sign_def uint_word_of_int by (simp only: mod_pos_pos_trivial)
qed

lemma with_sign_fields:
  assumes "fits_format F TYPE('a::len)" "0 \<le> n" "n < 2 ^ (mant_bits F + exp_bits F)"
  shows "uint (take_bit (exp_bits F) (drop_bit (mant_bits F) (with_sign F s n :: 'a word))) = n div 2 ^ mant_bits F"
    and "uint (take_bit (mant_bits F) (with_sign F s n :: 'a word)) = n mod 2 ^ mant_bits F"
    and "sign_bit F (with_sign F s n :: 'a word) = s"
proof -
  let ?w = "with_sign F s n :: 'a word"
  let ?M = "2 ^ mant_bits F :: int" and ?E = "2 ^ exp_bits F :: int" and ?h = "if s then 1 else 0 :: int"
  have u: "uint ?w = ?h * ?E * ?M + n"
    using uint_with_sign [OF assms] by (simp add: power_add)
  have q: "uint ?w div ?M = ?h * ?E + n div ?M" unfolding u by simp
  have d: "n div ?M < ?E" "0 \<le> n div ?M"
    using assms(2,3) by (simp_all add: int_div_less power_add mult.commute pos_imp_zdiv_nonneg_iff)
  have "uint (take_bit (exp_bits F) (drop_bit (mant_bits F) ?w)) = (uint ?w div ?M) mod ?E"
    unfolding unsigned_take_bit_eq unsigned_drop_bit_eq by (simp add: take_bit_eq_mod [of _ "_ :: int"] drop_bit_eq_div [of _ "_ :: int"])
  then show "uint (take_bit (exp_bits F) (drop_bit (mant_bits F) ?w)) = n div ?M"
    unfolding q using d by simp
  have "uint (take_bit (mant_bits F) ?w) = uint ?w mod ?M"
    unfolding unsigned_take_bit_eq by (simp add: take_bit_eq_mod [of _ "_ :: int"])
  then show "uint (take_bit (mant_bits F) ?w) = n mod ?M" unfolding u by simp
  have "uint ?w div (?M * ?E) = uint ?w div ?M div ?E" by (rule zdiv_zmult2_eq) simp
  then have "uint ?w div 2 ^ (mant_bits F + exp_bits F) = ?h" unfolding q power_add using d by simp
  moreover have "mant_bits F + exp_bits F < LENGTH('a)" using assms(1) by (simp add: fits_format_def)
  ultimately show "sign_bit F ?w = s"
    using bit_uint_iff [of ?w "mant_bits F + exp_bits F"] bit_iff_odd [of "uint ?w" "mant_bits F + exp_bits F"]
    by (auto simp: sign_bit_def split: if_splits)
qed

lemma classify_with_sign:
  assumes F: "fits_format F TYPE('a::len)" and n: "0 \<le> n" "n < (2 ^ exp_bits F - 1) * 2 ^ mant_bits F"
  shows "classify F (with_sign F s n :: 'a word) =
    (if n < 2 ^ mant_bits F then Finite s n (emin F)
     else Finite s (n mod 2 ^ mant_bits F + 2 ^ mant_bits F) (n div 2 ^ mant_bits F - 1 + emin F))"
proof -
  let ?M = "2 ^ mant_bits F :: int"
  have "(2 ^ exp_bits F - 1) * ?M \<le> 2 ^ exp_bits F * ?M" by (intro mult_right_mono) simp_all
  then have "n < 2 ^ (mant_bits F + exp_bits F)" using n(2) unfolding power_add by (simp only: mult.commute)
  note f = with_sign_fields [OF F n(1) this]
  have "n div ?M \<noteq> 2 ^ exp_bits F - 1" using int_div_less [OF n(2)] by simp
  moreover have "n div ?M = 0 \<longleftrightarrow> n < ?M"
    using n(1) by (auto simp: zdiv_eq_0_iff)
  ultimately show ?thesis
    using n(1) by (auto simp: classify_def f Let_def emin_def)
qed

section \<open>Values\<close>

definition fval :: "bool \<Rightarrow> int \<Rightarrow> int \<Rightarrow> real" where
  "fval s m e = of_int (negate_if s m) * 2 powi e"

lemma fval_scale: "fval s (m * 2 ^ k) e = fval s m (e + int k)"
  by (simp add: fval_def negate_if_def power_int_add)

lemma fval_at:
  assumes "g \<le> e"
  shows "fval s m e = of_int (negate_if s (m * 2 ^ nat (e - g))) * 2 powi g"
  using fval_scale [of s m "nat (e - g)" g] assms by (simp add: fval_def)

lemma finite_less_fval: "finite_less s m e t n f \<longleftrightarrow> fval s m e < fval t n f"
proof -
  have "0 < (2 :: real) powi min e f" by simp
  then show ?thesis
    using fval_at [of "min e f" e s m] fval_at [of "min e f" f t n]
    by (simp add: finite_less_def Let_def)
qed

lemma fval_eq_iff: "fval s m e = fval t n f \<longleftrightarrow> \<not> finite_less s m e t n f \<and> \<not> finite_less t n f s m e"
  unfolding finite_less_fval by linarith

section \<open>Exact results\<close>

lemma exp_range: "fits_format F t \<Longrightarrow> 2 ^ exp_bits F = 2 * bias F + 2 \<and> 1 \<le> bias F"
  by (cases "exp_bits F") (auto simp: fits_format_def bias_def self_le_power)

lemma classify_finite_bounds:
  assumes F: "fits_format F TYPE('a::len)" and c: "classify F (w :: 'a word) = Finite s m e"
  shows "0 \<le> m" "m < 2 ^ (mant_bits F + 1)" "emin F \<le> e" "e \<le> bias F - int (mant_bits F)" "s = sign_bit F w"
proof -
  define ex fr where "ex = uint (take_bit (exp_bits F) (drop_bit (mant_bits F) w))" and "fr = uint (take_bit (mant_bits F) w)"
  have "ex < 2 ^ exp_bits F" "fr < 2 ^ mant_bits F"
    unfolding ex_def fr_def unsigned_take_bit_eq by simp_all
  moreover have "0 \<le> ex" "0 \<le> fr" "(2 :: int) ^ mant_bits F < 2 * 2 ^ mant_bits F" by (simp_all add: ex_def fr_def)
  ultimately show "0 \<le> m" "m < 2 ^ (mant_bits F + 1)" "emin F \<le> e" "e \<le> bias F - int (mant_bits F)" "s = sign_bit F w"
    using c exp_range [OF F] unfolding classify_def Let_def ex_def [symmetric] fr_def [symmetric] emin_def
    by (auto split: if_splits)
qed

lemma bitlen_range: "0 < m \<Longrightarrow> bitlen m = int b \<Longrightarrow> 0 < b \<and> 2 ^ (b - 1) \<le> m \<and> m < 2 ^ b"
  using bitlen_bounds [of m] by (cases "b = 0") (auto simp: nat_diff_distrib)

lemma round_shift_exact: "round_shift (n * 2 ^ k) k = n"
  by (simp add: round_shift_def)

lemma power2_between:
  "(2 :: int) ^ a \<le> x * 2 ^ k \<Longrightarrow> a = b + k \<Longrightarrow> 2 ^ b \<le> x" "x * 2 ^ k < (2 :: int) ^ a \<Longrightarrow> a = b + k \<Longrightarrow> x < 2 ^ b"
  by (simp_all add: power_add)

text \<open>The significand at the exponent that rounding chooses.\<close>

lemma round_exact:
  fixes M :: nat
  assumes m: "m = m0 * 2 ^ k" "0 < m0" "m0 < 2 ^ (M + 1)" and e: "l \<le> e"
    and q: "q = max (e + bitlen m - 1 - int M) l"
    and n: "n = (if q \<le> e then m * 2 ^ nat (e - q) else round_shift m (nat (q - e)))"
  shows "fval s n q = fval s m e" "0 < n" "n < 2 ^ (M + 1)" "q = l \<or> 2 ^ M \<le> n"
proof -
  obtain b where b: "bitlen m = int b" using bitlen_nonneg [of m] nonneg_int_cases by blast
  have m_pos: "0 < m" using m by simp
  note r = bitlen_range [OF m_pos b]
  have bk: "int b \<le> int M + 1 + int k"
    using bitlen_pow2 [OF m(2), of k] bitlen_le_iff_power [of m0 "int (M + 1)", unfolded nat_int] m b by simp
  have "fval s n q = fval s m e \<and> 0 < n \<and> n < 2 ^ (M + 1) \<and> (q = l \<or> 2 ^ M \<le> n)"
  proof (cases "q \<le> e")
    case True
    define j where "j = nat (e - q)"
    have n': "n = m * 2 ^ j" "e = q + int j" using True n by (simp_all add: j_def)
    have "b + j \<le> M + 1" using q b r n'(2) by auto
    then have "(2 :: int) ^ (b + j) \<le> 2 ^ (M + 1)" by (intro power_increasing) simp_all
    moreover have "m * 2 ^ j < 2 ^ (b + j)" "2 ^ (b - 1 + j) \<le> m * 2 ^ j"
      using r unfolding power_add by (simp_all only: mult_less_cancel_right_pos mult_le_cancel_right_pos zero_less_power zero_less_numeral)
    moreover have "q = l \<or> M = b - 1 + j" using q b r n'(2) by auto
    ultimately show ?thesis
      using n' m_pos fval_scale [of s m j q] by auto
  next
    case False
    define j where "j = nat (q - e)"
    have qj: "q = e + int j" and j: "j \<le> k" "b = M + 1 + j" using False q e b bk r by (auto simp: j_def)
    have n': "n = m0 * 2 ^ (k - j)" "n * 2 ^ j = m"
      using False n m(1) j(1) round_shift_exact [of "m0 * 2 ^ (k - j)" j]
      by (simp_all add: j_def [symmetric] mult.assoc flip: power_add)
    have "2 ^ M \<le> n" "n < 2 ^ (M + 1)"
      using power2_between(1) [of "b - 1" n j M] power2_between(2) [of n j b "M + 1"] r n'(2) j(2) by auto
    then show ?thesis using n' m(2) fval_scale [of s n j e] qj by auto
  qed
  then show "fval s n q = fval s m e" "0 < n" "n < 2 ^ (M + 1)" "q = l \<or> 2 ^ M \<le> n" by simp_all
qed

text \<open>A number with no more significant bits than the format has, above its least exponent and below its
  greatest, is not changed by rounding.\<close>

lemma round_pack_exact:
  assumes F: "fits_format F TYPE('a::len)"
    and m: "m = m0 * 2 ^ k" "0 \<le> m0" "m0 < 2 ^ (mant_bits F + 1)"
    and e: "emin F \<le> e" "e + bitlen m - 1 \<le> bias F"
  shows "\<exists>n f. classify F (round_pack F s m e :: 'a word) = Finite s n f \<and> fval s n f = fval s m e"
proof (cases "m0 = 0")
  case True
  then show ?thesis
    using classify_with_sign [OF F, of 0 s] exp_range [OF F] m(1)
    by (auto simp: round_pack_def fval_def negate_if_def)
next
  case False
  let ?M = "2 ^ mant_bits F :: int"
  define q where "q = max (e + bitlen m - 1 - int (mant_bits F)) (emin F)"
  define n where "n = (if q \<le> e then m * 2 ^ nat (e - q) else round_shift m (nat (q - e)))"
  have m0: "0 < m0" using False m(2) by simp
  note r = round_exact [OF m(1) m0 m(3) e(1) q_def n_def]
  have qb: "q + int (mant_bits F) \<le> bias F" "emin F \<le> q"
    using e exp_range [OF F] by (auto simp: q_def emin_def)
  define w where "w = (q - emin F) * ?M + n"
  have "(q - emin F) * ?M \<le> (2 ^ exp_bits F - 3) * ?M"
    using qb exp_range [OF F] by (intro mult_right_mono) (simp_all add: emin_def)
  then have w: "0 \<le> w" "w < (2 ^ exp_bits F - 1) * ?M"
    using r(2,3) qb by (simp_all add: w_def left_diff_distrib)
  have "round_pack F s m e = (with_sign F s w :: 'a word)"
    using False m w(2) unfolding round_pack_def Let_def q_def [unfolded emin_def, symmetric]
    by (simp add: n_def [symmetric] w_def emin_def algebra_simps)
  moreover have "classify F (with_sign F s w :: 'a word) = Finite s n q"
  proof (cases "n < ?M")
    case True
    then show ?thesis using classify_with_sign [OF F w, of s] r(4) by (simp add: w_def)
  next
    case False
    moreover have "0 \<le> (q - emin F) * ?M" using qb(2) by simp
    ultimately have "?M \<le> w" unfolding w_def by linarith
    have "w = (q - emin F + 1) * ?M + (n - ?M)" "0 \<le> n - ?M" "n - ?M < ?M"
      using r(3) False by (simp_all add: w_def distrib_right)
    then have "w div ?M = q - emin F + 1" "w mod ?M = n - ?M"
      using int_div_pos_eq [of w ?M "q - emin F + 1" "n - ?M"] int_mod_pos_eq [of w ?M "q - emin F + 1" "n - ?M"]
      by (simp_all add: mult.commute)
    then show ?thesis using classify_with_sign [OF F w, of s] \<open>?M \<le> w\<close> by simp
  qed
  ultimately show ?thesis using r(1) by auto
qed

section \<open>Truncation and conversion\<close>

lemma fval_int: "fval s m 0 = of_int (negate_if s m)"
  by (simp add: fval_def)

lemma bitlen_le: "0 \<le> m \<Longrightarrow> m < 2 ^ k \<Longrightarrow> bitlen m \<le> int k"
  using bitlen_le_iff_power [of m "int k"] by simp

text \<open>The integer part of a float of the format is a float of the format.\<close>

lemma trunc_mag_shape:
  assumes F: "fits_format F TYPE('a::len)" and c: "classify F (w :: 'a word) = Finite s m e"
  obtains m0 k where "trunc_mag m e = m0 * 2 ^ k" "0 \<le> m0" "m0 < 2 ^ (mant_bits F + 1)"
    "bitlen (trunc_mag m e) - 1 \<le> bias F"
proof -
  note b = classify_finite_bounds [OF assms]
  show ?thesis
  proof (cases "0 \<le> e")
    case True
    then show ?thesis
      using that [of m "nat e"] b bitlen_le [OF b(1,2)] bitlen_pow2 [of m "nat e"] exp_range [OF F] bitlen_le [of 0 0]
      by (cases "m = 0") (simp_all add: trunc_mag_def)
  next
    case False
    have "m div 2 ^ nat (- e) \<le> m" using zdiv_mono2 [of m 1 "2 ^ nat (- e)"] b(1) by simp
    moreover have "0 \<le> m div 2 ^ nat (- e)" using b(1) by (simp add: pos_imp_zdiv_nonneg_iff)
    ultimately show ?thesis
      using that [of "m div 2 ^ nat (- e)" 0] False b(2) F bitlen_le [of "m div 2 ^ nat (- e)" "mant_bits F + 1"]
      by (simp add: trunc_mag_def fits_format_def)
  qed
qed

lemma classify_float_trunc:
  assumes F: "fits_format F TYPE('a::len)" and c: "classify F (w :: 'a word) = Finite s m e"
  shows "\<exists>n f. classify F (float_trunc F w) = Finite s n f \<and> fval s n f = of_int (negate_if s (trunc_mag m e))"
proof -
  obtain m0 k where m: "trunc_mag m e = m0 * 2 ^ k" "0 \<le> m0" "m0 < 2 ^ (mant_bits F + 1)"
    "bitlen (trunc_mag m e) - 1 \<le> bias F"
    using trunc_mag_shape [OF assms] by blast
  moreover have "emin F \<le> 0" using exp_range [OF F] by (simp add: emin_def)
  ultimately show ?thesis
    using round_pack_exact [OF F m(1-3), of 0 s]
    by (simp add: float_trunc_def float_integral_def c fval_int)
qed

lemma classify_f32_to_f64:
  assumes c: "classify binary32 (w :: u32) = Finite s m e"
  shows "\<exists>n f. classify binary64 (float_convert N binary32 binary64 w :: u64) = Finite s n f \<and> fval s n f = fval s m e"
proof -
  note b = classify_finite_bounds [OF fits_formats(1) c]
  have b': "0 \<le> m" "m < 2 ^ 24" "-149 \<le> e" "e \<le> 104"
    using b by (simp_all add: binary32_def emin_def bias_def)
  then have "bitlen m \<le> 24" "m < 2 ^ (mant_bits binary64 + 1)" using bitlen_le [of m 24] by (simp_all add: binary64_def)
  then show ?thesis
    using round_pack_exact [OF fits_formats(2), of m m 0 e s] b' c
    by (simp add: float_convert_def) (simp add: binary64_def emin_def bias_def)
qed

text \<open>Comparison with an integer.\<close>

definition ftrunc_real :: "real \<Rightarrow> int" where
  "ftrunc_real x = (if x < 0 then \<lceil>x\<rceil> else \<lfloor>x\<rfloor>)"

lemma trunc_mag_real: "0 \<le> m \<Longrightarrow> negate_if s (trunc_mag m e) = ftrunc_real (fval s m e)"
proof (cases "0 \<le> e")
  case True
  then have "fval s m e = of_int (negate_if s (trunc_mag m e))"
    using fval_at [of 0 e s m] by (simp add: trunc_mag_def)
  then show ?thesis by (simp add: ftrunc_real_def)
next
  case False
  assume m: "0 \<le> m"
  define y where "y = of_int m / (of_int (2 ^ nat (- e)) :: real)"
  have "(2 :: real) powi e = inverse (2 ^ nat (- e))"
    using False by (simp only: power_int_def if_False power_inverse)
  then have v: "fval s m e = (if s then - y else y)"
    unfolding fval_def y_def negate_if_def divide_inverse by simp
  have y: "trunc_mag m e = \<lfloor>y\<rfloor>" "0 \<le> y"
    using False m unfolding y_def floor_divide_of_int_eq by (simp_all add: trunc_mag_def)
  show ?thesis
  proof (cases "y = 0")
    case True
    then show ?thesis by (simp add: v y(1) ftrunc_real_def negate_if_def)
  next
    case False
    then have "\<not> y < 0" "- y < 0" using y(2) by simp_all
    then show ?thesis by (simp add: v y(1) ftrunc_real_def negate_if_def ceiling_minus)
  qed
qed

lemma trunc_eq:
  assumes "fval s m e = fval t n f" "0 \<le> m" "0 \<le> n"
  shows "negate_if s (trunc_mag m e) = negate_if t (trunc_mag n f)"
  using assms by (simp add: trunc_mag_real)

text \<open>A float beyond a power of two above its precision is beyond it by at least the spacing there.\<close>

lemma trunc_mag_spacing:
  assumes "0 \<le> m" "m < 2 ^ (M + 1)" "2 ^ (M + k) < trunc_mag m e"
  shows "2 ^ (M + k) + 2 ^ k \<le> trunc_mag m e"
proof -
  have "int k \<le> e"
  proof (rule ccontr)
    assume "\<not> int k \<le> e"
    then have e: "e \<le> int k - 1" by simp
    have "trunc_mag m e \<le> 2 ^ (M + k)"
    proof (cases "0 \<le> e")
      case True
      then have "m * 2 ^ nat e \<le> 2 ^ (M + 1) * 2 ^ nat e" using assms(2) by (intro mult_right_mono) simp_all
      also have "\<dots> = 2 ^ (M + 1 + nat e)" by (simp add: power_add)
      also have "\<dots> \<le> 2 ^ (M + k)" using True e by (intro power_increasing) simp_all
      finally show ?thesis using True by (simp add: trunc_mag_def)
    next
      case False
      have "m < 2 ^ (M + nat (- e))"
        using False assms(2) power_increasing [of "M + 1" "M + nat (- e)" "2 :: int"] by (simp add: Suc_le_eq)
      then have "m div 2 ^ nat (- e) < 2 ^ M" by (intro int_div_less) (simp_all add: power_add)
      also have "(2 :: int) ^ M \<le> 2 ^ (M + k)" by (intro power_increasing) simp_all
      finally show ?thesis using False by (simp add: trunc_mag_def)
    qed
    then show False using assms(3) by simp
  qed
  then have "nat e = nat (e - int k) + k" "0 \<le> e" by simp_all
  then have t: "trunc_mag m e = m * 2 ^ nat (e - int k) * 2 ^ k"
    by (simp add: trunc_mag_def power_add)
  have "2 ^ M < m * 2 ^ nat (e - int k)" using assms(3) unfolding t by (simp add: power_add)
  then have "(2 ^ M + 1) * 2 ^ k \<le> m * 2 ^ nat (e - int k) * 2 ^ k" by (intro mult_right_mono) simp_all
  then show ?thesis unfolding t by (simp add: power_add distrib_right)
qed

section \<open>Floats that represent a number\<close>

definition represents :: "float_format \<Rightarrow> 'a::len word \<Rightarrow> real \<Rightarrow> bool" where
  "represents F w x \<longleftrightarrow> (\<exists>s m e. classify F w = Finite s m e \<and> fval s m e = x)"

lemma represents_trunc:
  assumes F: "fits_format F TYPE('a::len)" and r: "represents F (w :: 'a word) x"
  shows "represents F (float_trunc F w) (of_int (ftrunc_real x))"
  using r classify_float_trunc [OF F] classify_finite_bounds(1) [OF F] trunc_mag_real
  unfolding represents_def by metis

lemma represents_convert: "represents binary32 (w :: u32) x \<Longrightarrow> represents binary64 (float_convert N binary32 binary64 w :: u64) x"
  using classify_f32_to_f64 unfolding represents_def by blast

lemma represents_le: "represents F a x \<Longrightarrow> represents F b y \<Longrightarrow> float_le F a b \<longleftrightarrow> x \<le> y"
  by (auto simp: represents_def float_le_def float_eq_def float_lt_def float_is_nan_def finite_less_fval)

lemma represents_eq: "represents F a x \<Longrightarrow> represents F b y \<Longrightarrow> float_eq F a b \<longleftrightarrow> x = y"
  by (auto simp: represents_def float_eq_def float_lt_def float_is_nan_def finite_less_fval)

lemma represents_not_nan: "represents F a x \<Longrightarrow> \<not> float_is_nan F a"
  by (auto simp: represents_def float_is_nan_def)

lemma represents_of_int:
  assumes F: "fits_format F TYPE('a::len)" and n: "\<bar>n\<bar> = m * 2 ^ k" "m < 2 ^ (mant_bits F + 1)"
    and b: "\<bar>n\<bar> < 2 ^ l" "int l \<le> bias F + 1"
  shows "represents F (float_of_int F n :: 'a word) (of_int n)"
proof -
  have "0 \<le> m * 2 ^ k" using n(1) by (metis abs_ge_zero)
  then have m: "0 \<le> m" by (simp add: zero_le_mult_iff)
  have "emin F \<le> 0" using exp_range [OF F] by (simp add: emin_def)
  moreover have "bitlen \<bar>n\<bar> - 1 \<le> bias F" using bitlen_le [OF abs_ge_zero b(1)] b(2) by simp
  ultimately show ?thesis
    using round_pack_exact [OF F n(1) m n(2), of 0 "n < 0"]
    by (auto simp: represents_def float_of_int_def fval_int negate_if_def)
qed

lemmas represents_int32 = represents_of_int [OF fits_formats(1)]
lemmas represents_int64 = represents_of_int [OF fits_formats(2)]

lemma bounds32:
  "represents binary32 (float_of_int binary32 (-1) :: u32) (of_int (-1))"
  "represents binary32 (float_of_int binary32 (-2147483904) :: u32) (of_int (-2147483904))"
  "represents binary32 (float_of_int binary32 (-9223373136366403584) :: u32) (of_int (-9223373136366403584))"
  "represents binary32 (float_of_int binary32 2147483648 :: u32) (of_int 2147483648)"
  "represents binary32 (float_of_int binary32 4294967296 :: u32) (of_int 4294967296)"
  "represents binary32 (float_of_int binary32 9223372036854775808 :: u32) (of_int 9223372036854775808)"
  "represents binary32 (float_of_int binary32 18446744073709551616 :: u32) (of_int 18446744073709551616)"
  by (rule represents_int32 [where m = 1 and k = 0 and l = 1]
      represents_int32 [where m = 8388609 and k = 8 and l = 32] represents_int32 [where m = 8388609 and k = 40 and l = 64]
      represents_int32 [where m = 1 and k = 31 and l = 32] represents_int32 [where m = 1 and k = 32 and l = 33]
      represents_int32 [where m = 1 and k = 63 and l = 64] represents_int32 [where m = 1 and k = 64 and l = 65];
      simp add: binary32_def bias_def; fail)+

lemma bounds64:
  "represents binary64 (float_of_int binary64 (-1) :: u64) (of_int (-1))"
  "represents binary64 (float_of_int binary64 (-2147483649) :: u64) (of_int (-2147483649))"
  "represents binary64 (float_of_int binary64 (-9223372036854777856) :: u64) (of_int (-9223372036854777856))"
  "represents binary64 (float_of_int binary64 2147483648 :: u64) (of_int 2147483648)"
  "represents binary64 (float_of_int binary64 4294967296 :: u64) (of_int 4294967296)"
  "represents binary64 (float_of_int binary64 9223372036854775808 :: u64) (of_int 9223372036854775808)"
  "represents binary64 (float_of_int binary64 18446744073709551616 :: u64) (of_int 18446744073709551616)"
  by (rule represents_int64 [where m = 1 and k = 0 and l = 1]
      represents_int64 [where m = 2147483649 and k = 0 and l = 32] represents_int64 [where m = 4503599627370497 and k = 11 and l = 64]
      represents_int64 [where m = 1 and k = 31 and l = 32] represents_int64 [where m = 1 and k = 32 and l = 33]
      represents_int64 [where m = 1 and k = 63 and l = 64] represents_int64 [where m = 1 and k = 64 and l = 65];
      simp add: binary64_def bias_def; fail)+

lemma represents_lt: "represents F a x \<Longrightarrow> represents F b y \<Longrightarrow> float_lt F a b \<longleftrightarrow> x < y"
  by (auto simp: represents_def float_lt_def finite_less_fval)

section \<open>Minimum and maximum\<close>

text \<open>\<open>wasm_maximum\<close> and \<open>wasm_minimum\<close> follow the WebAssembly rules the two impls encode by hand, in both formats: a NaN
  operand gives a NaN of the host's choice for those operands, two numbers give the larger and the smaller
  one, an infinity wins or loses against every number, and of two zeros the maximum is negative only if both are
  and the minimum is if either is.\<close>

theorem wasm_max_min:
  "(float_is_nan F a \<or> float_is_nan F b \<longrightarrow>
      wasm_maximum N F a b = N [a, b] \<and> wasm_minimum N F a b = N [a, b]) \<and>
   (represents F a x \<and> represents F b y \<longrightarrow>
      represents F (wasm_maximum N F a b) (max x y) \<and> represents F (wasm_minimum N F a b) (min x y)) \<and>
   (classify F a = Infinite s \<and> represents F b y \<longrightarrow>
      wasm_maximum N F a b = (if s then b else a) \<and> wasm_minimum N F a b = (if s then a else b)) \<and>
   (represents F a x \<and> classify F b = Infinite s \<longrightarrow>
      wasm_maximum N F a b = (if s then a else b) \<and> wasm_minimum N F a b = (if s then b else a)) \<and>
   (represents F a 0 \<and> represents F b 0 \<longrightarrow>
      sign_bit F (wasm_maximum N F a b) = (sign_bit F a \<and> sign_bit F b) \<and>
      sign_bit F (wasm_minimum N F a b) = (sign_bit F a \<or> sign_bit F b))"
proof (intro conjI impI)
  assume "float_is_nan F a \<or> float_is_nan F b"
  then show "wasm_maximum N F a b = N [a, b]" "wasm_minimum N F a b = N [a, b]"
    by (auto simp: wasm_maximum_def wasm_minimum_def float_lt_def float_eq_def float_is_nan_def float_add_def
        split: float_class.splits)
next
  assume "represents F a x \<and> represents F b y"
  then have "represents F a x" "represents F b y" "float_lt F a b \<longleftrightarrow> x < y" "float_lt F b a \<longleftrightarrow> y < x" "float_eq F a b \<longleftrightarrow> x = y"
    using represents_lt represents_eq by blast+
  then show "represents F (wasm_maximum N F a b) (max x y)" "represents F (wasm_minimum N F a b) (min x y)"
    by (auto simp: wasm_maximum_def wasm_minimum_def max_def min_def)
next
  assume "represents F a 0 \<and> represents F b 0"
  then have "\<not> float_lt F a b" "\<not> float_lt F b a" "float_eq F a b"
    using represents_lt [of F a 0 b 0] represents_lt [of F b 0 a 0] represents_eq [of F a 0 b 0] by simp_all
  then show "sign_bit F (wasm_maximum N F a b) = (sign_bit F a \<and> sign_bit F b)"
    "sign_bit F (wasm_minimum N F a b) = (sign_bit F a \<or> sign_bit F b)"
    by (auto simp: wasm_maximum_def wasm_minimum_def)
qed (auto simp: wasm_maximum_def wasm_minimum_def float_lt_def represents_def)

theorem wasm_max_min_witness:
  "wasm_maximum (\<lambda>_. 0x7fc00000) binary32 0x80000000 0 = (0 :: u32) \<and>
   wasm_minimum (\<lambda>_. 0x7fc00000) binary32 0x7f800001 (0 :: u32) = 0x7fc00000 \<and>
   represents binary32 (wasm_maximum (\<lambda>_. 0x7fc00000) binary32 0xbf800000 (0x3f800000 :: u32)) (max (-1) 1)"
proof -
  have 1: "represents binary32 (0xbf800000 :: u32) (-1)" "represents binary32 (0x3f800000 :: u32) 1"
  proof -
    have "classify binary32 (0xbf800000 :: u32) = Finite True 8388608 (- 23)"
      "classify binary32 (0x3f800000 :: u32) = Finite False 8388608 (- 23)" by code_simp+
    then show "represents binary32 (0xbf800000 :: u32) (-1)" "represents binary32 (0x3f800000 :: u32) 1"
      by (auto simp: represents_def fval_def negate_if_def power_int_def power_divide)
  qed
  have "wasm_maximum (\<lambda>_. 0x7fc00000) binary32 0x80000000 0 = (0 :: u32)" by code_simp
  moreover have "float_is_nan binary32 (0x7f800001 :: u32)" by code_simp
  ultimately show ?thesis
    using wasm_max_min [of binary32 "0x7f800001 :: u32" 0 "\<lambda>_. 0x7fc00000"]
      wasm_max_min [of binary32 "0xbf800000 :: u32" "0x3f800000" "\<lambda>_. 0x7fc00000" "-1" 1] 1 by simp
qed

end
