(* ===== verification/Pulley_Convert.thy ===== *)
theory Pulley_Convert
  imports Float_Laws Pulley_Sound
begin

text \<open>
  The conversions from floats to integers of \<open>pulley/src/interp.rs\<close>, with the bounds that
  \<open>crates/core/src/math.rs\<close> tabulates for them, against a specification over the integers.
\<close>

section \<open>Range checks\<close>

text \<open>The parameter chooses a NaN.\<close>

definition NaNs_ok :: "NaNs \<Rightarrow> bool" where
  "NaNs_ok N \<longleftrightarrow> (\<forall>xs. classify binary32 (nan32 N xs) = NaN) \<and> (\<forall>xs. classify binary64 (nan64 N xs) = NaN)"

lemma check_f64_number:
  assumes "represents binary64 val x" "represents binary64 lo (of_int L)" "represents binary64 hi (of_int H)"
  shows "check_xnn_from_f64 N I val (lo, hi) i =
    (if ftrunc_real x \<le> L \<or> H \<le> ftrunc_real x then done_trap_kind I (Some IntegerOverflow) i else (Continue (), i))"
proof -
  have "float_eq binary64 val val" using represents_eq [OF assms(1,1)] by simp
  moreover note t = represents_trunc [OF fits_formats(2) assms(1)]
  ultimately show ?thesis
    using represents_le [OF t assms(2)] represents_le [OF assms(3) t] represents_not_nan [OF assms(1)]
    by (simp add: check_xnn_from_f64_def wasm_trunc_def)
qed

lemma check_f64_nan:
  "classify binary64 val = NaN \<Longrightarrow> check_xnn_from_f64 N I val b i = done_trap_kind I (Some BadConversionToInteger) i"
  by (simp add: check_xnn_from_f64_def float_eq_def float_is_nan_def split: prod.split)

lemma check_f64_infinite:
  assumes "classify binary64 val = Infinite s" "represents binary64 lo x" "represents binary64 hi y"
  shows "check_xnn_from_f64 N I val (lo, hi) i = done_trap_kind I (Some IntegerOverflow) i"
  using assms
  by (auto simp: check_xnn_from_f64_def wasm_trunc_def float_trunc_def float_integral_def represents_def float_eq_def
      float_lt_def float_le_def float_is_nan_def)

text \<open>The specification of a trapping conversion to an integer between \<open>lo\<close> and \<open>hi\<close>.\<close>

definition conv_spec :: "float_format \<Rightarrow> int \<Rightarrow> int \<Rightarrow> 'a::len word \<Rightarrow> (int, TrapKind) res" where
  "conv_spec F lo hi a =
     (case classify F a of
        NaN \<Rightarrow> Err BadConversionToInteger
      | Infinite s \<Rightarrow> Err IntegerOverflow
      | Finite s m e \<Rightarrow>
          (let n = negate_if s (trunc_mag m e) in if lo \<le> n \<and> n \<le> hi then Ok n else Err IntegerOverflow))"

definition conv_flow :: "Insn \<Rightarrow> ('b::len word \<Rightarrow> Interpreter \<Rightarrow> Interpreter) \<Rightarrow> (int, TrapKind) res \<Rightarrow> handler" where
  "conv_flow I put r i =
     (case r of
        Ok n \<Rightarrow> (Continue (), put (word_of_int n) i)
      | Err k \<Rightarrow> done_trap_kind I (Some k) i
      | Panic \<Rightarrow> (Unwind, i))"

definition int_lo :: "bool \<Rightarrow> nat \<Rightarrow> int" where
  "int_lo s bits = (if s then - (2 ^ (bits - 1)) else 0)"

definition int_hi :: "bool \<Rightarrow> nat \<Rightarrow> int" where
  "int_hi s bits = (if s then 2 ^ (bits - 1) - 1 else 2 ^ bits - 1)"

text \<open>The bounds of the range check stop exactly the floats whose integer part is out of range.\<close>

definition bounds_exact :: "float_format \<Rightarrow> int \<Rightarrow> int \<Rightarrow> int \<Rightarrow> int \<Rightarrow> 'a::len itself \<Rightarrow> bool" where
  "bounds_exact F L H lo hi t \<longleftrightarrow>
     (\<forall>a :: 'a word. \<forall>s m e. classify F a = Finite s m e \<longrightarrow>
        (let n = negate_if s (trunc_mag m e) in \<not> (n \<le> L \<or> H \<le> n) \<longleftrightarrow> lo \<le> n \<and> n \<le> hi))"

lemma bounds_exactD:
  assumes "bounds_exact F L H lo hi TYPE('a::len)" "classify F (a :: 'a word) = Finite s m e"
  shows "negate_if s (trunc_mag m e) \<le> L \<or> H \<le> negate_if s (trunc_mag m e) \<longleftrightarrow>
    \<not> (lo \<le> negate_if s (trunc_mag m e) \<and> negate_if s (trunc_mag m e) \<le> hi)"
  using assms unfolding bounds_exact_def Let_def by blast

lemma classify_infinity: "classify binary64 (infinity binary64 s :: u64) = Infinite s"
proof -
  have "classify binary64 (infinity binary64 True :: u64) = Infinite True"
    "classify binary64 (infinity binary64 False :: u64) = Infinite False" by code_simp+
  then show ?thesis by (cases s) simp_all
qed

lemma bounds_exact_direct: "bounds_exact F (lo - 1) (hi + 1) lo hi t"
  by (auto simp: bounds_exact_def Let_def)

lemma bounds_exact_spacing:
  assumes "fits_format F TYPE('a::len)"
  shows "bounds_exact F (- (2 ^ (mant_bits F + k) + 2 ^ k)) (hi + 1) (- (2 ^ (mant_bits F + k))) hi TYPE('a)"
  unfolding bounds_exact_def
proof (intro allI impI)
  fix a :: "'a word" and s m e assume c: "classify F a = Finite s m e"
  note b = classify_finite_bounds [OF assms c]
  define P K t where "P = (2 :: int) ^ (mant_bits F + k)" and "K = (2 :: int) ^ k" and "t = trunc_mag m e"
  have "t \<le> P \<or> P + K \<le> t"
    using trunc_mag_spacing [OF b(1,2), of k e] unfolding P_def K_def t_def by linarith
  moreover have "0 < K" "0 < P" "0 \<le> t"
    using b(1) by (simp_all add: P_def K_def t_def trunc_mag_def pos_imp_zdiv_nonneg_iff)
  ultimately show "let n = negate_if s (trunc_mag m e) in
      \<not> (n \<le> - (2 ^ (mant_bits F + k) + 2 ^ k) \<or> hi + 1 \<le> n) \<longleftrightarrow> - (2 ^ (mant_bits F + k)) \<le> n \<and> n \<le> hi"
    unfolding Let_def negate_if_def P_def [symmetric] K_def [symmetric] t_def [symmetric] by (cases s) auto
qed

lemma represents_trunc_mag:
  assumes "fits_format F TYPE('a::len)" "classify F (a :: 'a word) = Finite s m e"
  shows "represents F a (fval s m e) \<and> ftrunc_real (fval s m e) = negate_if s (trunc_mag m e)"
  using assms classify_finite_bounds(1) [OF assms] trunc_mag_real [of m s e] by (auto simp: represents_def)

lemma check_f64_spec:
  assumes lo: "represents binary64 lo (of_int L)" and hi: "represents binary64 hi (of_int H)"
    and ex: "bounds_exact binary64 L H l h TYPE(64)"
  shows "check_xnn_from_f64 N I a (lo, hi) i =
    (case conv_spec binary64 l h a of Ok n \<Rightarrow> (Continue (), i) | Err k \<Rightarrow> done_trap_kind I (Some k) i | Panic \<Rightarrow> (Unwind, i))"
proof (cases "classify binary64 a")
  case NaN
  then show ?thesis by (simp add: conv_spec_def check_f64_nan)
next
  case (Infinite s)
  then show ?thesis using check_f64_infinite [OF Infinite lo hi] by (simp add: conv_spec_def)
next
  case (Finite s m e)
  then show ?thesis
    using check_f64_number [OF _ lo hi, of a "fval s m e"] represents_trunc_mag [OF fits_formats(2) Finite]
      bounds_exactD [OF ex Finite]
    by (simp add: conv_spec_def Let_def del: de_Morgan_conj)
qed

lemma check_f32_spec:
  assumes N: "NaNs_ok N"
    and lo: "represents binary32 lo (of_int L)" and hi: "represents binary32 hi (of_int H)"
    and ex: "bounds_exact binary32 L H l h TYPE(32)"
  shows "check_xnn_from_f32 N I a (lo, hi) i =
    (case conv_spec binary32 l h a of Ok n \<Rightarrow> (Continue (), i) | Err k \<Rightarrow> done_trap_kind I (Some k) i | Panic \<Rightarrow> (Unwind, i))"
proof -
  note lo' = represents_convert [OF lo, of "nan64 N"] and hi' = represents_convert [OF hi, of "nan64 N"]
  show ?thesis
  proof (cases "classify binary32 a")
    case NaN
    then have "classify binary64 (f32_to_f64 N a) = NaN" using N by (simp add: float_convert_def NaNs_ok_def)
    then show ?thesis using NaN by (simp add: conv_spec_def check_xnn_from_f32_def check_f64_nan)
  next
    case (Infinite s)
    then have "classify binary64 (f32_to_f64 N a) = Infinite s" by (simp add: float_convert_def classify_infinity)
    then show ?thesis
      using check_f64_infinite [OF _ lo' hi'] Infinite by (simp add: conv_spec_def check_xnn_from_f32_def)
  next
    case (Finite s m e)
    then show ?thesis
      using check_f64_number [OF _ lo' hi', of "f32_to_f64 N a" "fval s m e"] represents_convert [of a _ "nan64 N"]
        represents_trunc_mag [OF fits_formats(1) Finite] bounds_exactD [OF ex Finite]
      by (simp add: conv_spec_def Let_def check_xnn_from_f32_def del: de_Morgan_conj)
  qed
qed

lemma as_int_in_range: "conv_spec F l h a = Ok n \<Longrightarrow> float_as_int F l h a = n"
  by (auto simp: conv_spec_def float_as_int_def Let_def split: float_class.splits if_splits)

lemma checked_conversion:
  assumes "check = (case r of Ok n \<Rightarrow> (Continue (), i) | Err e \<Rightarrow> done_trap_kind I (Some e) i | Panic \<Rightarrow> (Unwind, i))"
    and "\<And>n. r = Ok n \<Longrightarrow> w = word_of_int n"
  shows "flow_bind check (\<lambda>_ i. (Continue (), put w i)) = conv_flow I put r i"
  using assms by (cases r) (auto simp: conv_flow_def done_trap_kind_def)

lemma as_int_words:
  assumes "conv_spec F (int_lo s LENGTH('b)) (int_hi s LENGTH('b)) a = Ok n"
  shows "(if s then float_as_sint F a else float_as_uint F a :: 'b::len word) = word_of_int n"
  using as_int_in_range [OF assms] by (simp add: float_as_sint_def float_as_uint_def int_lo_def int_hi_def split: if_splits)

lemma bounds_exact_tables:
  "bounds_exact binary32 (-2147483904) 2147483648 (int_lo True 32) (int_hi True 32) TYPE(32)"
  "bounds_exact binary32 (-9223373136366403584) 9223372036854775808 (int_lo True 64) (int_hi True 64) TYPE(32)"
  "bounds_exact binary64 (-2147483649) 2147483648 (int_lo True 32) (int_hi True 32) TYPE(64)"
  "bounds_exact binary64 (-9223372036854777856) 9223372036854775808 (int_lo True 64) (int_hi True 64) TYPE(64)"
  "bounds_exact F (-1) 4294967296 (int_lo False 32) (int_hi False 32) t"
  "bounds_exact F (-1) 18446744073709551616 (int_lo False 64) (int_hi False 64) t"
  using bounds_exact_spacing [OF fits_formats(1), of 8 "int_hi True 32"] bounds_exact_spacing [OF fits_formats(1), of 40 "int_hi True 64"]
    bounds_exact_spacing [OF fits_formats(2), of 11 "int_hi True 64"] bounds_exact_direct [of binary64 "int_lo True 32" "int_hi True 32" "TYPE(64)"]
    bounds_exact_direct [of F "int_lo False 32" "int_hi False 32" t] bounds_exact_direct [of F "int_lo False 64" "int_hi False 64" t]
  by (simp_all add: int_lo_def int_hi_def binary32_def [THEN arg_cong [where f = mant_bits]]
      binary64_def [THEN arg_cong [where f = mant_bits]])

lemma check_bounds_f32:
  assumes N: "NaNs_ok N"
  shows "check_xnn_from_f32 N I a
      (if s then (float_of_int binary32 (-2147483904), float_of_int binary32 2147483648)
       else (float_of_int binary32 (-1), float_of_int binary32 4294967296)) i =
      (case conv_spec binary32 (int_lo s 32) (int_hi s 32) a of
         Ok n \<Rightarrow> (Continue (), i) | Err k \<Rightarrow> done_trap_kind I (Some k) i | Panic \<Rightarrow> (Unwind, i))"
    "check_xnn_from_f32 N I a
      (if s then (float_of_int binary32 (-9223373136366403584), float_of_int binary32 9223372036854775808)
       else (float_of_int binary32 (-1), float_of_int binary32 18446744073709551616)) i =
      (case conv_spec binary32 (int_lo s 64) (int_hi s 64) a of
         Ok n \<Rightarrow> (Continue (), i) | Err k \<Rightarrow> done_trap_kind I (Some k) i | Panic \<Rightarrow> (Unwind, i))"
  using check_f32_spec [OF N bounds32(2,4) bounds_exact_tables(1)] check_f32_spec [OF N bounds32(1,5) bounds_exact_tables(5)]
    check_f32_spec [OF N bounds32(3,6) bounds_exact_tables(2)] check_f32_spec [OF N bounds32(1,7) bounds_exact_tables(6)]
  by (cases s; simp only: if_True if_False)+

lemma check_bounds_f64:
  shows "check_xnn_from_f64 N I a
      (if s then (float_of_int binary64 (-2147483649), float_of_int binary64 2147483648)
       else (float_of_int binary64 (-1), float_of_int binary64 4294967296)) i =
      (case conv_spec binary64 (int_lo s 32) (int_hi s 32) a of
         Ok n \<Rightarrow> (Continue (), i) | Err k \<Rightarrow> done_trap_kind I (Some k) i | Panic \<Rightarrow> (Unwind, i))"
    "check_xnn_from_f64 N I a
      (if s then (float_of_int binary64 (-9223372036854777856), float_of_int binary64 9223372036854775808)
       else (float_of_int binary64 (-1), float_of_int binary64 18446744073709551616)) i =
      (case conv_spec binary64 (int_lo s 64) (int_hi s 64) a of
         Ok n \<Rightarrow> (Continue (), i) | Err k \<Rightarrow> done_trap_kind I (Some k) i | Panic \<Rightarrow> (Unwind, i))"
  using check_f64_spec [OF bounds64(2,4) bounds_exact_tables(3)] check_f64_spec [OF bounds64(1,5) bounds_exact_tables(5)]
    check_f64_spec [OF bounds64(3,6) bounds_exact_tables(4)] check_f64_spec [OF bounds64(1,7) bounds_exact_tables(6)]
  by (cases s; simp only: if_True if_False)+

section \<open>Properties\<close>

text \<open>C24: The trapping conversions from a float to an integer register are exact: whichever of the two float formats,
  integer widths and signednesses, a NaN traps as a bad conversion, an infinity and a number whose integer part
  is out of the integer type's range trap as an overflow, and every other number gives its integer part. So the
  bounds tabulated in \<open>f32_cvt_to_int_bounds\<close> and \<open>f64_cvt_to_int_bounds\<close> reject no convertible number and
  accept no other.\<close>

theorem trapping_conversions_exact:
  assumes "NaNs_ok N"
  shows "x32_from_f32 N I s dst src i =
      conv_flow I (x_set32 dst) (conv_spec binary32 (int_lo s 32) (int_hi s 32) (f_get32 i src)) i \<and>
    x64_from_f32 N I s dst src i =
      conv_flow I (x_set64 dst) (conv_spec binary32 (int_lo s 64) (int_hi s 64) (f_get32 i src)) i \<and>
    x32_from_f64 N I s dst src i =
      conv_flow I (x_set32 dst) (conv_spec binary64 (int_lo s 32) (int_hi s 32) (f_get64 i src)) i \<and>
    x64_from_f64 N I s dst src i =
      conv_flow I (x_set64 dst) (conv_spec binary64 (int_lo s 64) (int_hi s 64) (f_get64 i src)) i"
  unfolding x32_from_f32_def x64_from_f32_def x32_from_f64_def x64_from_f64_def Let_def cvt_bounds res.case
  by (intro conjI checked_conversion check_bounds_f32 [OF assms] check_bounds_f64 as_int_words) simp_all

lemma no_NaNs_ok: "NaNs_ok no_NaNs"
proof -
  have "classify binary32 (0x7fc00000 :: u32) = NaN" "classify binary64 (0x7ff8000000000000 :: u64) = NaN" by code_simp+
  then show ?thesis by (simp add: NaNs_ok_def no_NaNs_def)
qed

theorem trapping_conversions_exact_witness:
  "x32_from_f32 no_NaNs (ExtI ''X32FromF32S'') True X1 F2 (f_set64 F2 0xc0200000 zero_interp) =
     (Continue (), x_set32 X1 (- 2) (f_set64 F2 0xc0200000 zero_interp)) \<and>
   x32_from_f32 no_NaNs (ExtI ''X32FromF32S'') True X1 F2 (f_set64 F2 0x4f000000 zero_interp) =
     done_trap_kind (ExtI ''X32FromF32S'') (Some IntegerOverflow) (f_set64 F2 0x4f000000 zero_interp)"
proof -
  have "f_get32 (f_set64 F2 w zero_interp) F2 = ucast w" for w by (simp add: f_get32_def f_set64_def FReg_get_f32_def)
  moreover have "conv_spec binary32 (int_lo True 32) (int_hi True 32) (ucast (0xc0200000 :: u64) :: u32) = Ok (- 2)"
    "conv_spec binary32 (int_lo True 32) (int_hi True 32) (ucast (0x4f000000 :: u64) :: u32) = Err IntegerOverflow"
    by code_simp+
  ultimately show ?thesis
    using trapping_conversions_exact [OF no_NaNs_ok, of _ True X1 F2] by (simp add: conv_flow_def)
qed

end
