(* ===== verification/Pulley_Lanes.thy ===== *)
theory Pulley_Lanes
  imports Pulley_Sound
begin

unbundle bit_operations_syntax

text \<open>
  The vector instructions on integer lanes (\<open>src/wasmtime/pulley/src/interp.rs\<close>), executed through the dispatcher,
  against what they are to compute on integers. A lane of a register is a quotient and a remainder of the register's value, and an
  operation is an operation on integers with its result wrapped or clamped to the lane, so the specification shares nothing
  with the handlers: it fails if an instruction is dispatched to another operation, works at another lane width,
  mixes up signed and unsigned, or touches anything but its destination.
\<close>

section \<open>The handler of an instruction\<close>

text \<open>No two extended instructions have the same name, which the kernel checks by sorting the names by their bits; so the
  dispatcher finds the one entry of the table that has the name.\<close>

fun parts :: "bool list list \<Rightarrow> bool list list \<Rightarrow> bool list list \<Rightarrow> (bool list list \<times> bool list list) option" where
  "parts [] ts fs = Some (ts, fs)"
| "parts ([] # xs) ts fs = None"
| "parts ((True # x) # xs) ts fs = parts xs (x # ts) fs"
| "parts ((False # x) # xs) ts fs = parts xs ts (x # fs)"

fun all_differ :: "nat \<Rightarrow> bool list list \<Rightarrow> bool" where
  "all_differ _ [] = True"
| "all_differ _ [x] = True"
| "all_differ 0 (x # y # xs) = False"
| "all_differ (Suc n) (x # y # xs) =
     (case parts (x # y # xs) [] [] of None \<Rightarrow> False | Some (ts, fs) \<Rightarrow> all_differ n ts \<and> all_differ n fs)"

fun name_bits :: "string \<Rightarrow> bool list" where
  "name_bits [] = [False]"
| "name_bits (Char a b c d e f g h # cs) = True # a # b # c # d # e # name_bits cs"

lemma parts_distinct:
  "parts xs ts fs = Some (ts', fs') \<Longrightarrow> distinct ts' \<Longrightarrow> distinct fs' \<Longrightarrow>
     distinct (xs @ map ((#) True) ts @ map ((#) False) fs)"
  by (induction xs ts fs rule: parts.induct) (auto simp: distinct_map)

lemma all_differ_distinct: "all_differ n xs \<Longrightarrow> distinct xs"
proof (induction n xs rule: all_differ.induct)
  case (4 n x y xs)
  then obtain ts fs where "parts (x # y # xs) [] [] = Some (ts, fs)" "distinct ts" "distinct fs"
    by (auto split: option.splits)
  then show ?case using parts_distinct [of "x # y # xs" "[]" "[]" ts fs] by simp
qed simp_all

lemma extended_names: "all_differ 150 (map (\<lambda>sp. name_bits (camel_name sp)) for_each_extended_op)"
  by code_simp

lemma handler_names: "list_all2 (entry_ok C) tbl hs \<Longrightarrow> map fst hs = map camel_name tbl"
  by (induction rule: list_all2_induct) (simp_all add: entry_ok_def)

lemma extended_lookup:
  assumes "(name, h) \<in> set (extended_handlers N)"
  shows "map_of (extended_handlers N) name = Some h"
proof -
  have "distinct (map name_bits (map camel_name for_each_extended_op))"
    using all_differ_distinct [OF extended_names] by (simp add: comp_def)
  then have "distinct (map fst (extended_handlers N))"
    unfolding handler_names [OF extended_handlers_ok] by (simp only: distinct_map)
  then show ?thesis using assms by (rule map_of_is_SomeI)
qed

section \<open>Lanes as integers\<close>

text \<open>The \<open>k\<close>-th lane of \<open>w\<close> bits of a 128-bit value, as an unsigned integer, and an unsigned integer of \<open>w\<close>
  bits read as a signed one.\<close>

definition lane :: "nat \<Rightarrow> nat \<Rightarrow> u128 \<Rightarrow> int" where
  "lane w k v = uint v div 2 ^ (w * k) mod 2 ^ w"

definition to_signed :: "nat \<Rightarrow> int \<Rightarrow> int" where
  "to_signed w x = (if x < 2 ^ (w - 1) then x else x - 2 ^ w)"

text \<open>What the operations compute, on integers: the result of \<open>f\<close> wrapped to \<open>w\<close> bits, of \<open>f\<close> on the signed
  readings wrapped likewise, clamped to the range of the unsigned and of the signed integers, and the
  all-ones mask of a comparison.\<close>

definition wrapped :: "(int \<Rightarrow> int \<Rightarrow> int) \<Rightarrow> nat \<Rightarrow> int \<Rightarrow> int \<Rightarrow> int" where
  "wrapped f w a b = f a b mod 2 ^ w"

definition wrapped_signed :: "(int \<Rightarrow> int \<Rightarrow> int) \<Rightarrow> nat \<Rightarrow> int \<Rightarrow> int \<Rightarrow> int" where
  "wrapped_signed f w a b = f (to_signed w a) (to_signed w b) mod 2 ^ w"

definition clamped :: "(int \<Rightarrow> int \<Rightarrow> int) \<Rightarrow> nat \<Rightarrow> int \<Rightarrow> int \<Rightarrow> int" where
  "clamped f w a b = max 0 (min (2 ^ w - 1) (f a b))"

definition clamped_signed :: "(int \<Rightarrow> int \<Rightarrow> int) \<Rightarrow> nat \<Rightarrow> int \<Rightarrow> int \<Rightarrow> int" where
  "clamped_signed f w a b = max (- (2 ^ (w - 1))) (min (2 ^ (w - 1) - 1) (f (to_signed w a) (to_signed w b))) mod 2 ^ w"

definition masked :: "(int \<Rightarrow> int \<Rightarrow> bool) \<Rightarrow> nat \<Rightarrow> int \<Rightarrow> int \<Rightarrow> int" where
  "masked p w a b = (if p a b then 2 ^ w - 1 else 0)"

definition masked_signed :: "(int \<Rightarrow> int \<Rightarrow> bool) \<Rightarrow> nat \<Rightarrow> int \<Rightarrow> int \<Rightarrow> int" where
  "masked_signed p w a b = (if p (to_signed w a) (to_signed w b) then 2 ^ w - 1 else 0)"

text \<open>The instructions that compute a lane of two integer lanes: name, width of a lane, and result.\<close>

definition at_widths :: "(nat \<Rightarrow> int \<Rightarrow> int \<Rightarrow> int) \<Rightarrow> (string \<times> nat) list \<Rightarrow> (string \<times> nat \<times> (int \<Rightarrow> int \<Rightarrow> int)) list" where
  "at_widths f = map (\<lambda>(name, w). (name, w, f w))"

definition vector_arithmetic :: "(string \<times> nat \<times> (int \<Rightarrow> int \<Rightarrow> int)) list" where
  "vector_arithmetic =
     at_widths (wrapped (+)) [(''VAddI8x16'', 8), (''VAddI16x8'', 16), (''VAddI32x4'', 32), (''VAddI64x2'', 64)] @
     at_widths (wrapped (-)) [(''VSubI8x16'', 8), (''VSubI16x8'', 16), (''VSubI32x4'', 32), (''VSubI64x2'', 64)] @
     at_widths (wrapped (*)) [(''VMulI8x16'', 8), (''VMulI16x8'', 16), (''VMulI32x4'', 32), (''VMulI64x2'', 64)] @
     at_widths (clamped_signed (+)) [(''VAddI8x16Sat'', 8), (''VAddI16x8Sat'', 16)] @
     at_widths (clamped_signed (-)) [(''VSubI8x16Sat'', 8), (''VSubI16x8Sat'', 16)] @
     at_widths (clamped (+)) [(''VAddU8x16Sat'', 8), (''VAddU16x8Sat'', 16)] @
     at_widths (clamped (-)) [(''VSubU8x16Sat'', 8), (''VSubU16x8Sat'', 16)] @
     at_widths (clamped_signed (\<lambda>a b. (a * b + 2 ^ 14) div 2 ^ 15)) [(''VQmulrsI16x8'', 16)] @
     at_widths (\<lambda>w a b. (a + b + 1) div 2) [(''Vavground8x16'', 8), (''Vavground16x8'', 16)]"

definition vector_order :: "(string \<times> nat \<times> (int \<Rightarrow> int \<Rightarrow> int)) list" where
  "vector_order =
     at_widths (wrapped_signed min) [(''Vmin8x16S'', 8), (''Vmin16x8S'', 16), (''Vmin32x4S'', 32)] @
     at_widths (wrapped_signed max) [(''Vmax8x16S'', 8), (''Vmax16x8S'', 16), (''Vmax32x4S'', 32)] @
     at_widths (\<lambda>w. min) [(''Vmin8x16U'', 8), (''Vmin16x8U'', 16), (''Vmin32x4U'', 32)] @
     at_widths (\<lambda>w. max) [(''Vmax8x16U'', 8), (''Vmax16x8U'', 16), (''Vmax32x4U'', 32)] @
     at_widths (masked (=)) [(''Veq8x16'', 8), (''Veq16x8'', 16), (''Veq32x4'', 32), (''Veq64x2'', 64)] @
     at_widths (masked (\<noteq>)) [(''Vneq8x16'', 8), (''Vneq16x8'', 16), (''Vneq32x4'', 32), (''Vneq64x2'', 64)] @
     at_widths (masked (<)) [(''Vult8x16'', 8), (''Vult16x8'', 16), (''Vult32x4'', 32), (''Vult64x2'', 64)] @
     at_widths (masked (\<le>)) [(''Vulteq8x16'', 8), (''Vulteq16x8'', 16), (''Vulteq32x4'', 32), (''Vulteq64x2'', 64)] @
     at_widths (masked_signed (<)) [(''Vslt8x16'', 8), (''Vslt16x8'', 16), (''Vslt32x4'', 32), (''Vslt64x2'', 64)] @
     at_widths (masked_signed (\<le>)) [(''Vslteq8x16'', 8), (''Vslteq16x8'', 16), (''Vslteq32x4'', 32), (''Vslteq64x2'', 64)]"

text \<open>Executing the instruction writes one vector register and changes nothing else, and every lane of what it
  writes is the result for the lanes of the two sources.\<close>

definition computes :: "NaNs \<Rightarrow> string \<times> nat \<times> (int \<Rightarrow> int \<Rightarrow> int) \<Rightarrow> bool" where
  "computes N = (\<lambda>(name, w, result).
     \<forall>operands i. \<exists>v. visit_Op N (ExtendedOp name [O_BinV operands]) i = (Continue (), v_set128 (bo_dst operands) v i) \<and>
       (\<forall>k < 128 div w. lane w k v =
          result (lane w k (v_get128 i (bo_src1 operands))) (lane w k (v_get128 i (bo_src2 operands)))))"

lemma lane_nth:
  assumes "k < 128 div LENGTH('a)"
  shows "lane LENGTH('a) k v = uint (lanes v ! k :: 'a::len word)"
proof -
  have "uint (ucast (drop_bit (k * LENGTH('a)) v) :: 'a word) = take_bit LENGTH('a) (drop_bit (k * LENGTH('a)) (uint v))"
    using uint_bounded [of v] by (simp add: unsigned_ucast_eq unsigned_drop_bit_eq take_bit_int_eq_self)
  then show ?thesis
    using assms by (simp add: lanes_def lane_def take_bit_eq_mod drop_bit_eq_div mult.commute)
qed

lemma computesI:
  assumes entry: "(name, arg_BinV (\<lambda>a. no_args (v_binop (f :: 'a::len word \<Rightarrow> 'a word \<Rightarrow> 'a word) a))) \<in> set (extended_handlers N)"
    and w: "LENGTH('a) dvd 128" and f: "\<And>x y. uint (f x y) = result (uint x) (uint y)"
  shows "computes N (name, LENGTH('a), result)"
  unfolding computes_def prod.case
proof (intro allI)
  fix operands :: "(VReg, VReg, VReg) BinaryOperands" and i
  let ?a = "v_lanes i (bo_src1 operands) :: 'a word list" and ?b = "v_lanes i (bo_src2 operands) :: 'a word list"
  let ?v = "of_lanes (map2 f ?a ?b) :: u128"
  have "visit_Op N (ExtendedOp name [O_BinV operands]) i = (Continue (), v_set128 (bo_dst operands) ?v i)"
    by (simp add: extended_lookup [OF entry] arg_BinV_def no_args_def v_binop_def v_set_lanes_def Let_def)
  moreover have "lanes ?v = map2 f ?a ?b" using w by (intro lanes_of_lanes) simp
  then have "lane LENGTH('a) k ?v = result (lane LENGTH('a) k (v_get128 i (bo_src1 operands)))
      (lane LENGTH('a) k (v_get128 i (bo_src2 operands)))" if "k < 128 div LENGTH('a)" for k
    using that f by (simp add: lane_nth v_lanes_def)
  ultimately show "\<exists>v. visit_Op N (ExtendedOp name [O_BinV operands]) i = (Continue (), v_set128 (bo_dst operands) v i) \<and>
      (\<forall>k < 128 div LENGTH('a). lane LENGTH('a) k v = result (lane LENGTH('a) k (v_get128 i (bo_src1 operands)))
        (lane LENGTH('a) k (v_get128 i (bo_src2 operands))))" by blast
qed

section \<open>The lane operations on integers\<close>

lemma uint_word_of_int_exact: "0 \<le> x \<Longrightarrow> x < 2 ^ LENGTH('a) \<Longrightarrow> uint (word_of_int x :: 'a::len word) = x"
  by (simp add: uint_word_of_int)

lemma sint_to_signed: "sint (x :: 'a::len word) = to_signed LENGTH('a) (uint x)"
proof -
  have p: "(2 :: int) ^ LENGTH('a) = 2 * 2 ^ (LENGTH('a) - 1)" by (metis len_gt_0 power_minus_mult mult.commute)
  have "sint x = (uint x + 2 ^ (LENGTH('a) - 1)) mod 2 ^ LENGTH('a) - 2 ^ (LENGTH('a) - 1)"
    using int_word_sint [of "uint x", where 'a = 'a] by simp
  moreover have b: "0 \<le> uint x" "uint x < 2 ^ LENGTH('a)" by simp_all
  moreover have "(uint x + 2 ^ (LENGTH('a) - 1)) mod 2 ^ LENGTH('a) = uint x - 2 ^ (LENGTH('a) - 1)"
    if "2 ^ (LENGTH('a) - 1) \<le> uint x"
  proof -
    have "uint x + 2 ^ (LENGTH('a) - 1) = uint x - 2 ^ (LENGTH('a) - 1) + 2 ^ LENGTH('a)" unfolding p by linarith
    then have "(uint x + 2 ^ (LENGTH('a) - 1)) mod 2 ^ LENGTH('a) = (uint x - 2 ^ (LENGTH('a) - 1)) mod 2 ^ LENGTH('a)"
      by (simp only: mod_add_self2)
    also have "\<dots> = uint x - 2 ^ (LENGTH('a) - 1)"
      by (rule mod_pos_pos_trivial) (use that b zero_less_power [of "2 :: int" "LENGTH('a) - 1"] in \<open>linarith+\<close>)
    finally show ?thesis .
  qed
  moreover have "(uint x + 2 ^ (LENGTH('a) - 1)) mod 2 ^ LENGTH('a) = uint x + 2 ^ (LENGTH('a) - 1)"
    if "uint x < 2 ^ (LENGTH('a) - 1)"
    by (rule mod_pos_pos_trivial) (use that b p in \<open>linarith+\<close>)
  ultimately show ?thesis unfolding to_signed_def p by (cases "uint x < 2 ^ (LENGTH('a) - 1)") simp_all
qed

lemma to_signed_mod: "to_signed LENGTH('a) (uint (x :: 'a::len word)) mod 2 ^ LENGTH('a) = uint x"
  by (simp add: to_signed_def mod_diff_right_eq [symmetric])

lemma wrapping_laws:
  "uint (x + y :: 'a::len word) = wrapped (+) LENGTH('a) (uint x) (uint y)"
  "uint (x - y :: 'a::len word) = wrapped (-) LENGTH('a) (uint x) (uint y)"
  "uint (x * y :: 'a::len word) = wrapped (*) LENGTH('a) (uint x) (uint y)"
  by (simp_all add: wrapped_def uint_word_ariths)

lemma saturating_laws:
  "uint (saturating_add_s x y :: 'a::len word) = clamped_signed (+) LENGTH('a) (uint x) (uint y)"
  "uint (saturating_sub_s x y :: 'a::len word) = clamped_signed (-) LENGTH('a) (uint x) (uint y)"
  by (simp_all add: saturating_add_s_def saturating_sub_s_def clamped_signed_def sint_to_signed uint_word_of_int)

lemma saturating_unsigned_laws:
  "uint (saturating_add_u x y :: 'a::len word) = clamped (+) LENGTH('a) (uint x) (uint y)"
  "uint (saturating_sub_u x y :: 'a::len word) = clamped (-) LENGTH('a) (uint x) (uint y)"
proof -
  have b: "0 \<le> uint x" "0 \<le> uint y" "uint x < 2 ^ LENGTH('a)" by simp_all
  show "uint (saturating_add_u x y) = clamped (+) LENGTH('a) (uint x) (uint y)"
    unfolding saturating_add_u_def clamped_def using b by (subst uint_word_of_int_exact) auto
  show "uint (saturating_sub_u x y) = clamped (-) LENGTH('a) (uint x) (uint y)"
    unfolding saturating_sub_u_def clamped_def using b by (subst uint_word_of_int_exact) auto
qed

lemma minmax_laws:
  "uint (min_s x y :: 'a::len word) = wrapped_signed min LENGTH('a) (uint x) (uint y)"
  "uint (max_s x y :: 'a::len word) = wrapped_signed max LENGTH('a) (uint x) (uint y)"
  "uint (min x y :: 'a::len word) = min (uint x) (uint y)"
  "uint (max x y :: 'a::len word) = max (uint x) (uint y)"
  using sint_eqI [of x y]
  by (auto simp: min_s_def max_s_def wrapped_signed_def sint_to_signed to_signed_mod min_def max_def word_le_def)

lemma mask_laws:
  "uint (lane_mask (=) x y :: 'a::len word) = masked (=) LENGTH('a) (uint x) (uint y)"
  "uint (lane_mask (\<noteq>) x y :: 'a word) = masked (\<noteq>) LENGTH('a) (uint x) (uint y)"
  "uint (lane_mask (<) x y :: 'a word) = masked (<) LENGTH('a) (uint x) (uint y)"
  "uint (lane_mask (\<le>) x y :: 'a word) = masked (\<le>) LENGTH('a) (uint x) (uint y)"
  "uint (lane_mask slt x y :: 'a word) = masked_signed (<) LENGTH('a) (uint x) (uint y)"
  "uint (lane_mask sle x y :: 'a word) = masked_signed (\<le>) LENGTH('a) (uint x) (uint y)"
  using word_uint_eqI [of x y]
  by (auto simp: lane_mask_def masked_def masked_signed_def slt_def sle_def sint_to_signed word_le_def word_less_def
      unsigned_minus_1_eq_mask mask_eq_exp_minus_1)

lemma avground_law:
  assumes "LENGTH('a) \<le> 16"
  shows "uint (avground x y :: 'a::len word) = (uint x + uint y + 1) div 2"
proof -
  have l: "(2 :: int) ^ LENGTH('a) \<le> 2 ^ 16" using assms by (intro power_increasing) simp_all
  have b: "0 \<le> uint x" "0 \<le> uint y" "uint x < 2 ^ LENGTH('a)" "uint y < 2 ^ LENGTH('a)" by simp_all
  have u: "uint (ucast z :: u32) = uint z" for z :: "'a word" 
    using order.strict_trans2 [OF uint_bounded [of z] l] by (simp add: unsigned_ucast_eq take_bit_int_eq_self)
  have "0 \<le> uint x + uint y + 1" using b by linarith
  moreover have "uint x < 2 ^ 16" "uint y < 2 ^ 16" using b(3,4) l by (meson order.strict_trans2)+
  then have "uint x + uint y + 1 < 2 ^ 32" by simp
  ultimately have "uint (ucast x + ucast y + 1 :: u32) = uint x + uint y + 1"
    by (simp add: uint_word_ariths u mod_simps)
  then have "uint ((ucast x + ucast y + 1 :: u32) div 2) = (uint x + uint y + 1) div 2" by (simp add: uint_div)
  moreover have "(uint x + uint y + 1) div 2 < 2 ^ LENGTH('a)" "0 \<le> (uint x + uint y + 1) div 2" using b by linarith+
  ultimately show ?thesis by (simp add: avground_def unsigned_ucast_eq take_bit_int_eq_self)
qed

lemma qmulrs_law: "uint (qmulrs x y) = clamped_signed (\<lambda>a b. (a * b + 2 ^ 14) div 2 ^ 15) 16 (uint x) (uint y)"
proof -
  let ?p = "(scast x :: u32) * scast y + wrapping_shl 1 14"
  have s: "- 32768 \<le> sint z" "sint z < 32768" for z :: u16 using sint_lt [of z] sint_ge [of z] by simp_all
  then have "\<bar>sint x\<bar> \<le> 32768" "\<bar>sint y\<bar> \<le> 32768" by (simp_all add: abs_le_iff less_imp_le minus_le_iff)
  then have "\<bar>sint x * sint y\<bar> \<le> 32768 * 32768" unfolding abs_mult by (intro mult_mono) auto
  then have m: "- 1073741824 \<le> sint x * sint y" "sint x * sint y \<le> 1073741824" by (simp_all add: abs_le_iff)
  have "?p = word_of_int (sint x * sint y + 2 ^ 14)"
    by (simp add: wrapping_shl_def)
  then have p: "sint ?p = sint x * sint y + 2 ^ 14" using m by (simp only:) (rule sint_word_of_int, simp_all)
  have d: "sint (wrapping_sshr ?p 15) = (sint x * sint y + 2 ^ 14) div 2 ^ 15"
    unfolding wrapping_sshr_def sint_signed_drop_bit_eq p drop_bit_eq_div by simp
  have mm: "sint (max_s a b) = max (sint a) (sint b)" "sint (min_s a b) = min (sint a) (sint b)" for a b :: u32
    by (simp_all add: max_s_def min_s_def)
  have k: "sint (scast (0x8000 :: u16) :: u32) = - 32768" "sint (scast (0x7FFF :: u16) :: u32) = 32767" by simp_all
  have c: "uint (ucast z :: u16) = sint z mod 2 ^ 16" for z :: u32
    using mod_mult_self1 [of "uint z" "- 65536" 65536]
    by (simp add: sint_to_signed to_signed_def unsigned_ucast_eq take_bit_eq_mod)
  have t: "to_signed 16 (uint z) = sint z" for z :: u16 using sint_to_signed [of z] by simp
  show ?thesis unfolding qmulrs_def Let_def c mm d k clamped_signed_def t by (simp add: min.commute)
qed

section \<open>The instructions\<close>

lemma vector_entries:
  "set (h_ext_vec_arith2 N) \<subseteq> set (extended_handlers N)" "set (h_ext_vec_conv2 N) \<subseteq> set (extended_handlers N)"
  "set (h_ext_vec_conv3 N) \<subseteq> set (extended_handlers N)" "set (h_ext_vec_conv4 N) \<subseteq> set (extended_handlers N)"
  "set h_ext_vec_cmp1 \<subseteq> set (extended_handlers N)" "set h_ext_vec_cmp2 \<subseteq> set (extended_handlers N)"
  "set h_ext_vec_cmp3 \<subseteq> set (extended_handlers N)" "set (h_ext_vec_cmp4 N) \<subseteq> set (extended_handlers N)"
  "set (h_ext_vec_cmp5 N) \<subseteq> set (extended_handlers N)"
  by (auto simp: extended_handlers_def)

lemmas vector_tables =
  h_ext_vec_arith2_def h_ext_vec_conv2_def h_ext_vec_conv3_def h_ext_vec_conv4_def
  h_ext_vec_cmp1_def h_ext_vec_cmp2_def h_ext_vec_cmp3_def h_ext_vec_cmp4_def h_ext_vec_cmp5_def

lemmas computes_at =
  computesI [where 'a = 8, simplified] computesI [where 'a = 16, simplified]
  computesI [where 'a = 32, simplified] computesI [where 'a = 64, simplified]

lemmas lane_laws = wrapping_laws saturating_laws saturating_unsigned_laws minmax_laws mask_laws avground_law qmulrs_law

lemma vector_arithmetic_computes: "list_all (computes N) vector_arithmetic"
  unfolding vector_arithmetic_def at_widths_def list_all_append list.map list.pred_inject(2) prod.case
  using vector_entries [of N] unfolding vector_tables list.set insert_subset
  by (elim conjE, intro conjI list.pred_inject(1)) (rule computes_at, assumption, simp (no_asm) add: lane_laws)+

lemma vector_order_computes: "list_all (computes N) vector_order"
  unfolding vector_order_def at_widths_def list_all_append list.map list.pred_inject(2) prod.case
  using vector_entries [of N] unfolding vector_tables list.set insert_subset
  by (elim conjE, intro conjI list.pred_inject(1)) (rule computes_at, assumption, simp (no_asm) add: lane_laws)+

section \<open>Properties\<close>

text \<open>C40: Executing one of the 59 instructions that compute a vector of integer lanes from two vectors, through the dispatcher and at
  any state, writes the destination register and changes nothing else: no other register of any class, no
  memory, no program counter. Every lane of what it writes is the integer result for that lane of the two sources, read
  before the destination is written: the sum, the difference and the product modulo the lane size; the sum and the
  difference clamped to the signed and to the unsigned range; the rounded Q15 product clamped to the signed range; the rounded
  average; the signed and the unsigned minimum and maximum; and all ones or zero for each of the six comparisons.\<close>

theorem vector_integer_instructions: "list_all (computes N) (vector_arithmetic @ vector_order)"
  unfolding list_all_append using vector_arithmetic_computes vector_order_computes by blast

end
