(* ===== verification/BTree_Map.thy ===== *)
theory BTree_Map
  imports Main
begin

text \<open>
  The ordered maps of Rust's standard library (\<open>BTreeMap\<close>), as lists of entries by ascending key: what
  the free list of the garbage collectors uses of them. \<open>map_of\<close> is \<open>get\<close>, and \<open>bt_range\<close> with
  \<open>bt_first\<close> and \<open>bt_last\<close> is \<open>range\<close> with \<open>next\<close> and \<open>next_back\<close>.
\<close>

section \<open>Ordered maps\<close>

type_synonym ('k, 'v) BTreeMap = "('k \<times> 'v) list"

fun bt_insert :: "'k::linorder \<Rightarrow> 'v \<Rightarrow> ('k, 'v) BTreeMap \<Rightarrow> ('k, 'v) BTreeMap" where
  "bt_insert k v [] = [(k, v)]"
| "bt_insert k v ((k', v') # m) =
     (if k < k' then (k, v) # (k', v') # m else if k = k' then (k, v) # m else (k', v') # bt_insert k v m)"

definition bt_remove :: "'k \<Rightarrow> ('k, 'v) BTreeMap \<Rightarrow> ('k, 'v) BTreeMap" where
  "bt_remove k m = filter (\<lambda>(k', v). k' \<noteq> k) m"

definition bt_last :: "('k, 'v) BTreeMap \<Rightarrow> ('k \<times> 'v) option" where
  "bt_last m = (if m = [] then None else Some (last m))"

definition bt_first :: "('k, 'v) BTreeMap \<Rightarrow> ('k \<times> 'v) option" where
  "bt_first m = (if m = [] then None else Some (hd m))"

definition bt_range :: "('k \<Rightarrow> bool) \<Rightarrow> ('k, 'v) BTreeMap \<Rightarrow> ('k, 'v) BTreeMap" where
  "bt_range p m = filter (\<lambda>(k, v). p k) m"

text \<open>The keys ascend strictly.\<close>

definition bt_wf :: "('k::linorder, 'v) BTreeMap \<Rightarrow> bool" where
  "bt_wf m \<longleftrightarrow> sorted_wrt (<) (map fst m)"

lemma bt_wf_Nil [simp]: "bt_wf []"
  by (simp add: bt_wf_def)

lemma bt_wf_Cons: "bt_wf ((k, v) # m) \<longleftrightarrow> bt_wf m \<and> (\<forall>k' v'. map_of m k' = Some v' \<longrightarrow> k < k')"
proof -
  have "(\<forall>k' \<in> fst ` set m. k < k') \<longleftrightarrow> (\<forall>k' v'. map_of m k' = Some v' \<longrightarrow> k < k')"
    unfolding dom_map_of_conv_image_fst [symmetric] by auto
  then show ?thesis by (auto simp: bt_wf_def)
qed

lemma bt_wf_distinct: "bt_wf m \<Longrightarrow> distinct (map fst m)"
  by (simp add: bt_wf_def strict_sorted_iff)

lemma map_of_bt_insert [simp]: "map_of (bt_insert k v m) = (map_of m)(k \<mapsto> v)"
  by (induction k v m rule: bt_insert.induct) auto

lemma bt_insert_wf [simp]: "bt_wf m \<Longrightarrow> bt_wf (bt_insert k v m)"
  by (induction k v m rule: bt_insert.induct) (fastforce simp: bt_wf_Cons split: if_splits)+

lemma map_of_bt_remove [simp]: "map_of (bt_remove k m) = (map_of m)(k := None)"
  by (induction m) (auto simp: bt_remove_def)

lemma map_of_bt_range [simp]: "map_of (bt_range p m) = (\<lambda>k. if p k then map_of m k else None)"
  by (induction m) (auto simp: bt_range_def)

lemma bt_filter_wf: "bt_wf m \<Longrightarrow> bt_wf (filter p m)"
  by (induction m) (auto simp: bt_wf_def)

lemma bt_remove_wf [simp]: "bt_wf m \<Longrightarrow> bt_wf (bt_remove k m)"
  unfolding bt_remove_def by (rule bt_filter_wf)

lemma bt_range_wf [simp]: "bt_wf m \<Longrightarrow> bt_wf (bt_range p m)"
  unfolding bt_range_def by (rule bt_filter_wf)

lemma bt_last_Some:
  assumes "bt_wf m"
  shows "bt_last m = Some (k, v) \<longleftrightarrow> map_of m k = Some v \<and> (\<forall>k' v'. map_of m k' = Some v' \<longrightarrow> k' \<le> k)"
proof (cases m rule: rev_exhaust)
  case (snoc l x)
  obtain a b where x: "x = (a, b)" by fastforce
  have d: "distinct (map fst m)" and l: "\<forall>k' \<in> fst ` set l. k' < a"
    using bt_wf_distinct [OF assms] assms snoc by (auto simp: bt_wf_def sorted_wrt_append x)
  then have "map_of m a = Some b" "\<And>k' v'. map_of m k' = Some v' \<Longrightarrow> k' \<le> a"
    using snoc map_of_is_SomeI [OF d, of a b] by (fastforce simp: x dest!: map_of_SomeD)+
  then show ?thesis using snoc by (fastforce simp: bt_last_def x)
qed (simp add: bt_last_def)

lemma bt_first_Some:
  assumes "bt_wf m"
  shows "bt_first m = Some (k, v) \<longleftrightarrow> map_of m k = Some v \<and> (\<forall>k' v'. map_of m k' = Some v' \<longrightarrow> k \<le> k')"
proof (cases m)
  case (Cons x l)
  obtain a b where x: "x = (a, b)" by fastforce
  have a: "map_of m a = Some b" "\<And>k' v'. map_of m k' = Some v' \<Longrightarrow> a \<le> k'"
    using assms Cons x by (simp_all add: bt_wf_Cons less_imp_le split: if_splits)
  show ?thesis
  proof
    assume "bt_first m = Some (k, v)"
    then show "map_of m k = Some v \<and> (\<forall>k' v'. map_of m k' = Some v' \<longrightarrow> k \<le> k')"
      using a Cons x by (auto simp: bt_first_def)
  next
    assume k: "map_of m k = Some v \<and> (\<forall>k' v'. map_of m k' = Some v' \<longrightarrow> k \<le> k')"
    then have "k = a" using a by (metis order.antisym)
    then show "bt_first m = Some (k, v)" using k a Cons x by (simp add: bt_first_def)
  qed
qed (simp add: bt_first_def)

lemma bt_None: "bt_last m = None \<longleftrightarrow> map_of m = Map.empty" "bt_first m = None \<longleftrightarrow> map_of m = Map.empty"
  by (auto simp: bt_last_def bt_first_def)

end
