(* ===== verification/Gc_Free_List.thy ===== *)
theory Gc_Free_List
  imports Prelude BTree_Map
begin

unbundle bit_operations_syntax

text \<open>
  The free list of the garbage-collected heaps, \<open>FreeList\<close> of
  \<open>crates/wasmtime/src/runtime/vm/gc/enabled/free_list.rs\<close>: a bump region and an ordered map of free
  blocks, with a second map from lengths to the blocks of that length. Logging is left out, arithmetic wraps
  as in a release build, and the integrity check, which does nothing there, is a definition of its own.
\<close>

section \<open>The free list\<close>

text \<open>No operation returns an error; \<open>Panic\<close> stands for a panic and for undefined behaviour.\<close>

type_synonym 'a may_panic = "('a, unit) res"

definition ALIGN_U32 :: u32 where "ALIGN_U32 = 16"
definition ALIGN_USIZE :: u64 where "ALIGN_USIZE = ucast ALIGN_U32"

record FreeList =
  fl_capacity :: u64
  free_block_index_to_len :: "(u32, u32) BTreeMap"
  free_block_len_to_indices :: "(u32, u32 list) BTreeMap"
  bump_ptr :: u32
  bump_end :: u32

definition round_u32_down_to_pow2 :: "u32 \<Rightarrow> u32 \<Rightarrow> u32" where
  "round_u32_down_to_pow2 value divisor = value AND NOT (divisor - 1)"

definition round_usize_down_to_pow2 :: "u64 \<Rightarrow> u64 \<Rightarrow> u64" where
  "round_usize_down_to_pow2 value divisor = value AND NOT (divisor - 1)"

definition try_u32 :: "u64 \<Rightarrow> u32 option" where
  "try_u32 n = (if n \<le> 0xFFFFFFFF then Some (ucast n) else None)"

definition u32_MAX :: u32 where "u32_MAX = -1"

definition aligned_size :: "u32 \<Rightarrow> u32 option" where
  "aligned_size sz =
     (case checked_add sz ALIGN_U32 of
        None \<Rightarrow> None
      | Some s \<Rightarrow> Some ((s - 1) AND NOT (ALIGN_U32 - 1)))"

definition can_align_to :: "u64 \<Rightarrow> bool" where
  "can_align_to align \<longleftrightarrow> align \<le> ALIGN_USIZE"

definition saturating_sub_u32 :: "u32 \<Rightarrow> u32 \<Rightarrow> u32" where
  "saturating_sub_u32 a b = (if b \<le> a then a - b else 0)"

definition saturating_add_u64 :: "u64 \<Rightarrow> u64 \<Rightarrow> u64" where
  "saturating_add_u64 a b = (case checked_add a b of Some c \<Rightarrow> c | None \<Rightarrow> -1)"

definition FreeList_new :: "u64 \<Rightarrow> FreeList" where
  "FreeList_new capacity =
     (let start = ALIGN_U32;
          free_list = \<lparr>fl_capacity = capacity, free_block_index_to_len = [], free_block_len_to_indices = [],
            bump_ptr = start, bump_end = start\<rparr>;
          end' = (case try_u32 capacity of Some e \<Rightarrow> e | None \<Rightarrow> u32_MAX);
          len = round_u32_down_to_pow2 (saturating_sub_u32 end' start) ALIGN_U32
      in if ALIGN_U32 \<le> len then free_list\<lparr>bump_end := start + len\<rparr> else free_list)"

text \<open>Removing an index from the bucket of its length; the bucket is there, or the source panics.\<close>

definition remove_from_block_len_to_index :: "u32 \<Rightarrow> u32 \<Rightarrow> FreeList \<Rightarrow> FreeList may_panic" where
  "remove_from_block_len_to_index block_index block_len fl =
     (case map_of (free_block_len_to_indices fl) block_len of
        None \<Rightarrow> Panic
      | Some indices \<Rightarrow>
          (let indices = removeAll block_index indices
           in Ok (fl\<lparr>free_block_len_to_indices :=
             if indices = [] then bt_remove block_len (free_block_len_to_indices fl)
             else bt_insert block_len indices (free_block_len_to_indices fl)\<rparr>)))"

text \<open>\<open>entry(len).or_default().insert(index)\<close>.\<close>

definition add_to_block_len :: "u32 \<Rightarrow> u32 \<Rightarrow> FreeList \<Rightarrow> FreeList" where
  "add_to_block_len len index fl =
     (let indices = (case map_of (free_block_len_to_indices fl) len of Some s \<Rightarrow> s | None \<Rightarrow> [])
      in fl\<lparr>free_block_len_to_indices := bt_insert len (insort_insert index indices) (free_block_len_to_indices fl)\<rparr>)"

definition set_block_len :: "u32 \<Rightarrow> u32 \<Rightarrow> FreeList \<Rightarrow> FreeList" where
  "set_block_len index len fl = fl\<lparr>free_block_index_to_len := bt_insert index len (free_block_index_to_len fl)\<rparr>"

definition remove_block :: "u32 \<Rightarrow> FreeList \<Rightarrow> FreeList" where
  "remove_block index fl = fl\<lparr>free_block_index_to_len := bt_remove index (free_block_index_to_len fl)\<rparr>"

definition blocks_are_contiguous :: "u32 \<Rightarrow> u32 \<Rightarrow> u32 \<Rightarrow> bool" where
  "blocks_are_contiguous prev_index prev_len next_index \<longleftrightarrow>
     (let end_of_prev = prev_index + prev_len; delta_to_next = next_index - end_of_prev
      in delta_to_next < ALIGN_U32)"

text \<open>The last block becomes part of the bump region if they touch.\<close>

definition absorb_last :: "FreeList \<Rightarrow> FreeList may_panic" where
  "absorb_last fl =
     (case bt_last (free_block_index_to_len fl) of
        None \<Rightarrow> Ok fl
      | Some (block_index, block_len) \<Rightarrow>
          if block_index + block_len = bump_ptr fl
          then remove_from_block_len_to_index block_index block_len
            (remove_block block_index (fl\<lparr>bump_ptr := block_index\<rparr>))
          else Ok fl)"

text \<open>\<open>get_mut(&index).unwrap()\<close>, assigned to.\<close>

definition update_block_len :: "u32 \<Rightarrow> u32 \<Rightarrow> FreeList \<Rightarrow> FreeList may_panic" where
  "update_block_len index len fl =
     and_then (unwrap (map_of (free_block_index_to_len fl) index)) (\<lambda>_. Ok (set_block_len index len fl))"

definition merge_block :: "u32 \<Rightarrow> u32 \<Rightarrow> FreeList \<Rightarrow> FreeList may_panic" where
  "merge_block index alloc_size fl =
     (let prev_block = bt_last (bt_range (\<lambda>k. k < index) (free_block_index_to_len fl));
          next_block = bt_first (bt_range (\<lambda>k. index + 1 \<le> k) (free_block_index_to_len fl));
          prev_touches = (case prev_block of
            Some (prev_index, prev_len) \<Rightarrow> blocks_are_contiguous prev_index prev_len index | None \<Rightarrow> False);
          next_touches = (case next_block of
            Some (next_index, next_len) \<Rightarrow> blocks_are_contiguous index alloc_size next_index | None \<Rightarrow> False)
      in case (prev_block, next_block) of
           (Some (prev_index, prev_len), Some (next_index, next_len)) \<Rightarrow>
             if prev_touches \<and> next_touches then
               (let merged_block_len = next_index + next_len - prev_index in
                and_then (remove_from_block_len_to_index next_index next_len (remove_block next_index fl)) (\<lambda>fl.
                and_then (update_block_len prev_index merged_block_len fl) (\<lambda>fl.
                and_then (remove_from_block_len_to_index prev_index prev_len fl) (\<lambda>fl.
                  Ok (add_to_block_len merged_block_len prev_index fl)))))
             else if prev_touches then
               (let merged_block_len = index + alloc_size - prev_index in
                and_then (update_block_len prev_index merged_block_len fl) (\<lambda>fl.
                and_then (remove_from_block_len_to_index prev_index prev_len fl) (\<lambda>fl.
                  Ok (add_to_block_len merged_block_len prev_index fl))))
             else if next_touches then
               (let merged_block_len = next_index + next_len - index in
                and_then (remove_from_block_len_to_index next_index next_len (remove_block next_index fl)) (\<lambda>fl.
                  Ok (add_to_block_len merged_block_len index (set_block_len index merged_block_len fl))))
             else Ok (add_to_block_len alloc_size index (set_block_len index alloc_size fl))
         | (Some (prev_index, prev_len), None) \<Rightarrow>
             if prev_touches then
               (let merged_block_len = index + alloc_size - prev_index in
                and_then (update_block_len prev_index merged_block_len fl) (\<lambda>fl.
                and_then (remove_from_block_len_to_index prev_index prev_len fl) (\<lambda>fl.
                  Ok (add_to_block_len merged_block_len prev_index fl))))
             else Ok (add_to_block_len alloc_size index (set_block_len index alloc_size fl))
         | (None, Some (next_index, next_len)) \<Rightarrow>
             if next_touches then
               (let merged_block_len = next_index + next_len - index in
                and_then (remove_from_block_len_to_index next_index next_len (remove_block next_index fl)) (\<lambda>fl.
                  Ok (add_to_block_len merged_block_len index (set_block_len index merged_block_len fl))))
             else Ok (add_to_block_len alloc_size index (set_block_len index alloc_size fl))
         | (None, None) \<Rightarrow> Ok (add_to_block_len alloc_size index (set_block_len index alloc_size fl)))"

definition dealloc_impl :: "u32 \<Rightarrow> u32 \<Rightarrow> FreeList \<Rightarrow> FreeList may_panic" where
  "dealloc_impl index alloc_size fl =
     (if index + alloc_size = bump_ptr fl then absorb_last (fl\<lparr>bump_ptr := index\<rparr>)
      else if bump_end fl = index then
        (let fl = fl\<lparr>bump_end := index + alloc_size\<rparr> in
         case map_of (free_block_index_to_len fl) (bump_end fl) of
           None \<Rightarrow> Ok fl
         | Some block_len \<Rightarrow>
             and_then (remove_from_block_len_to_index (bump_end fl) block_len (remove_block (bump_end fl) fl)) (\<lambda>fl.
               Ok (fl\<lparr>bump_end := bump_end fl + block_len\<rparr>)))
      else and_then (merge_block index alloc_size fl) absorb_last)"

definition insert_free_block :: "u32 \<Rightarrow> u32 \<Rightarrow> FreeList \<Rightarrow> FreeList may_panic" where
  "insert_free_block index sz fl = dealloc_impl index sz fl"

text \<open>The first block of the first bucket, from \<open>alloc_size\<close> on, that has one.\<close>

definition find_block :: "u32 \<Rightarrow> FreeList \<Rightarrow> (u32 \<times> u32) option" where
  "find_block alloc_size fl =
     map_option (\<lambda>(block_len, indices). (hd indices, block_len))
       (List.find (\<lambda>(block_len, indices). indices \<noteq> [])
          (bt_range (\<lambda>k. alloc_size \<le> k) (free_block_len_to_indices fl)))"

text \<open>\<open>NonZeroU32::new_unchecked\<close> of zero is undefined behaviour.\<close>

definition nonzero_unchecked :: "u32 \<Rightarrow> u32 may_panic" where
  "nonzero_unchecked n = (if n = 0 then Panic else Ok n)"

definition alloc_slow :: "u32 \<Rightarrow> FreeList \<Rightarrow> (u32 option \<times> FreeList) may_panic" where
  "alloc_slow alloc_size fl =
     (let remaining_ptr = bump_ptr fl; remaining = bump_end fl - bump_ptr fl;
          fl = fl\<lparr>bump_ptr := ALIGN_U32, bump_end := ALIGN_U32\<rparr> in
      and_then (if ALIGN_U32 \<le> remaining then insert_free_block remaining_ptr remaining fl else Ok fl) (\<lambda>fl.
      case find_block alloc_size fl of
        None \<Rightarrow> Ok (None, fl)
      | Some (block_index, block_len) \<Rightarrow>
          and_then (remove_from_block_len_to_index block_index block_len fl) (\<lambda>fl.
          let fl = remove_block block_index fl;
              fl = fl\<lparr>bump_ptr := block_index + alloc_size, bump_end := block_index + block_len\<rparr> in
          and_then (nonzero_unchecked block_index) (\<lambda>r. Ok (Some r, fl)))))"

definition alloc_impl :: "u32 \<Rightarrow> FreeList \<Rightarrow> (u32 option \<times> FreeList) may_panic" where
  "alloc_impl alloc_size fl =
     (case checked_add (bump_ptr fl) alloc_size of
        Some new_ptr \<Rightarrow>
          if new_ptr \<le> bump_end fl then
            (let result = bump_ptr fl; fl = fl\<lparr>bump_ptr := new_ptr\<rparr> in
             and_then (nonzero_unchecked result) (\<lambda>r. Ok (Some r, fl)))
          else alloc_slow alloc_size fl
      | None \<Rightarrow> alloc_slow alloc_size fl)"

definition alloc_fast :: "u32 \<Rightarrow> FreeList \<Rightarrow> (u32 option \<times> FreeList) may_panic" where
  "alloc_fast alloc_size fl = alloc_impl alloc_size fl"

definition dealloc_fast :: "u32 \<Rightarrow> u32 \<Rightarrow> FreeList \<Rightarrow> FreeList may_panic" where
  "dealloc_fast index alloc_size fl = dealloc_impl index alloc_size fl"

definition add_capacity :: "u64 \<Rightarrow> FreeList \<Rightarrow> FreeList may_panic" where
  "add_capacity additional fl =
     (let old_cap = fl_capacity fl;
          fl = fl\<lparr>fl_capacity := saturating_add_u64 (fl_capacity fl) additional\<rparr>;
          old_cap_rounded = round_usize_down_to_pow2 old_cap ALIGN_USIZE in
      case try_u32 old_cap_rounded of
        None \<Rightarrow> Ok fl
      | Some old_cap_rounded \<Rightarrow>
          (let index = (if old_cap_rounded = 0 then ALIGN_U32 else old_cap_rounded);
               new_cap = (case try_u32 (fl_capacity fl) of Some c \<Rightarrow> c | None \<Rightarrow> u32_MAX);
               new_cap = round_u32_down_to_pow2 new_cap ALIGN_U32 in
           if new_cap < index then Ok fl
           else let size' = new_cap - index in
             if size' = 0 then Ok fl else dealloc_impl index size' fl))"

definition iter_free_blocks :: "FreeList \<Rightarrow> (u32 \<times> u32) list" where
  "iter_free_blocks fl =
     free_block_index_to_len fl @
       (if bump_ptr fl < bump_end fl then [(bump_ptr fl, bump_end fl - bump_ptr fl)] else [])"

section \<open>The two maps\<close>

text \<open>The blocks as the map by index and as the buckets by length record them.\<close>

definition by_index :: "FreeList \<Rightarrow> (u32 \<times> u32) set" where
  "by_index fl = {(i, l). map_of (free_block_index_to_len fl) i = Some l}"

definition by_len :: "FreeList \<Rightarrow> (u32 \<times> u32) set" where
  "by_len fl = {(i, l). \<exists>is. map_of (free_block_len_to_indices fl) l = Some is \<and> i \<in> set is}"

definition bucket_ok :: "u32 list \<Rightarrow> bool" where
  "bucket_ok s \<longleftrightarrow> s \<noteq> [] \<and> sorted s \<and> distinct s"

definition maps_wf :: "FreeList \<Rightarrow> bool" where
  "maps_wf fl \<longleftrightarrow> bt_wf (free_block_index_to_len fl) \<and> bt_wf (free_block_len_to_indices fl) \<and>
     (\<forall>s \<in> ran (map_of (free_block_len_to_indices fl)). bucket_ok s)"

definition same_bump :: "FreeList \<Rightarrow> FreeList \<Rightarrow> bool" where
  "same_bump fl fl' \<longleftrightarrow> bump_ptr fl' = bump_ptr fl \<and> bump_end fl' = bump_end fl \<and> fl_capacity fl' = fl_capacity fl"

lemma by_index_iff: "(i, l) \<in> by_index fl \<longleftrightarrow> map_of (free_block_index_to_len fl) i = Some l"
  by (simp add: by_index_def)

lemma by_index_update [simp]:
  "by_index (fl\<lparr>bump_ptr := p\<rparr>) = by_index fl" "by_index (fl\<lparr>bump_end := p\<rparr>) = by_index fl"
  "by_index (fl\<lparr>fl_capacity := c\<rparr>) = by_index fl"
  "by_len (fl\<lparr>bump_ptr := p\<rparr>) = by_len fl" "by_len (fl\<lparr>bump_end := p\<rparr>) = by_len fl"
  "by_len (fl\<lparr>fl_capacity := c\<rparr>) = by_len fl"
  "maps_wf (fl\<lparr>bump_ptr := p\<rparr>) = maps_wf fl" "maps_wf (fl\<lparr>bump_end := p\<rparr>) = maps_wf fl"
  "maps_wf (fl\<lparr>fl_capacity := c\<rparr>) = maps_wf fl"
  by (simp_all add: by_index_def by_len_def maps_wf_def)

lemma ran_update: "ran (m(k := None)) \<subseteq> ran m" "ran (m(k \<mapsto> v)) \<subseteq> insert v (ran m)"
  by (auto simp: ran_def split: if_splits)

lemma remove_block_sets:
  "by_index (remove_block i fl) = {(j, l) \<in> by_index fl. j \<noteq> i}" "by_len (remove_block i fl) = by_len fl"
  "maps_wf fl \<Longrightarrow> maps_wf (remove_block i fl)" "same_bump fl (remove_block i fl)"
  by (auto simp: remove_block_def by_index_def by_len_def maps_wf_def same_bump_def split: if_splits)

lemma set_block_len_sets:
  "by_index (set_block_len i n fl) = insert (i, n) {(j, l) \<in> by_index fl. j \<noteq> i}"
  "by_len (set_block_len i n fl) = by_len fl"
  "maps_wf fl \<Longrightarrow> maps_wf (set_block_len i n fl)" "same_bump fl (set_block_len i n fl)"
  by (auto simp: set_block_len_def by_index_def by_len_def maps_wf_def same_bump_def split: if_splits)

lemma maps_wf_bucket: "maps_wf fl \<Longrightarrow> map_of (free_block_len_to_indices fl) n = Some s \<Longrightarrow> bucket_ok s"
  by (auto simp: maps_wf_def intro: ranI)

lemma maps_wf_set_bucket:
  assumes "maps_wf fl" "bucket_ok s"
  shows "maps_wf (fl\<lparr>free_block_len_to_indices := bt_insert n s (free_block_len_to_indices fl)\<rparr>)"
  using assms ran_update(2) [of "map_of (free_block_len_to_indices fl)" n s] by (auto simp: maps_wf_def)

lemma maps_wf_remove_bucket:
  assumes "maps_wf fl"
  shows "maps_wf (fl\<lparr>free_block_len_to_indices := bt_remove n (free_block_len_to_indices fl)\<rparr>)"
  using assms ran_update(1) [of "map_of (free_block_len_to_indices fl)" n] by (auto simp: maps_wf_def)

lemma bucket_insert: "set (insort_insert i s) = insert i (set s)" "sorted s \<Longrightarrow> distinct s \<Longrightarrow> bucket_ok (insort_insert i s)"
  by (auto simp: bucket_ok_def set_insort_insert sorted_insort_insert distinct_insort_insert
      dest: arg_cong [where f = set])

lemma add_to_block_len_sets:
  "by_len (add_to_block_len n i fl) = insert (i, n) (by_len fl)" "by_index (add_to_block_len n i fl) = by_index fl"
  "maps_wf fl \<Longrightarrow> maps_wf (add_to_block_len n i fl)" "same_bump fl (add_to_block_len n i fl)"
proof -
  define s where "s = (case map_of (free_block_len_to_indices fl) n of Some s \<Rightarrow> s | None \<Rightarrow> [])"
  have eq: "add_to_block_len n i fl =
      fl\<lparr>free_block_len_to_indices := bt_insert n (insort_insert i s) (free_block_len_to_indices fl)\<rparr>"
    by (simp add: add_to_block_len_def s_def Let_def)
  have s: "j \<in> set s \<longleftrightarrow> (j, n) \<in> by_len fl" for j
    by (cases "map_of (free_block_len_to_indices fl) n") (simp_all add: s_def by_len_def)
  have "(j, l) \<in> by_len (add_to_block_len n i fl) \<longleftrightarrow> (j, l) \<in> insert (i, n) (by_len fl)" for j l
    using s [of j] by (auto simp: eq by_len_def bucket_insert(1))
  then show "by_len (add_to_block_len n i fl) = insert (i, n) (by_len fl)" by auto
  show "by_index (add_to_block_len n i fl) = by_index fl" "same_bump fl (add_to_block_len n i fl)"
    by (simp_all add: eq by_index_def same_bump_def)
  show "maps_wf (add_to_block_len n i fl)" if "maps_wf fl"
  proof -
    have "sorted s \<and> distinct s"
      using maps_wf_bucket [OF that, of n] by (cases "map_of (free_block_len_to_indices fl) n") (simp_all add: s_def bucket_ok_def)
    then show ?thesis unfolding eq using that by (intro maps_wf_set_bucket bucket_insert(2)) simp_all
  qed
qed

lemma remove_from_block_len_sets:
  assumes "(i, n) \<in> by_len fl"
  obtains fl' where "remove_from_block_len_to_index i n fl = Ok fl'"
    "by_len fl' = by_len fl - {(i, n)}" "by_index fl' = by_index fl"
    "maps_wf fl \<Longrightarrow> maps_wf fl'" "same_bump fl fl'"
proof -
  obtain s where s: "map_of (free_block_len_to_indices fl) n = Some s" "i \<in> set s"
    using assms by (auto simp: by_len_def)
  define t where "t = removeAll i s"
  define fl' where "fl' = fl\<lparr>free_block_len_to_indices := if t = [] then bt_remove n (free_block_len_to_indices fl)
    else bt_insert n t (free_block_len_to_indices fl)\<rparr>"
  have t: "set t = set s - {i}" by (simp add: t_def)
  show ?thesis
  proof (rule that)
    show "remove_from_block_len_to_index i n fl = Ok fl'"
      using s by (simp add: remove_from_block_len_to_index_def Let_def t_def fl'_def)
    have "(j, l) \<in> by_len fl' \<longleftrightarrow> (j, l) \<in> by_len fl - {(i, n)}" for j l
      using s t by (cases "l = n"; cases "t = []") (auto simp: by_len_def fl'_def)
    then show "by_len fl' = by_len fl - {(i, n)}" by auto
    show "by_index fl' = by_index fl" "same_bump fl fl'" by (simp_all add: by_index_def same_bump_def fl'_def)
    show "maps_wf fl'" if "maps_wf fl"
    proof -
      have "sorted t" "distinct t" using maps_wf_bucket [OF that s(1)]
        by (simp_all add: t_def bucket_ok_def removeAll_filter_not_eq sorted_wrt_filter)
      then show ?thesis unfolding fl'_def using that
        by (cases "t = []") (simp_all add: maps_wf_remove_bucket maps_wf_set_bucket bucket_ok_def)
    qed
  qed
qed

definition maps_ok :: "FreeList \<Rightarrow> bool" where
  "maps_ok fl \<longleftrightarrow> maps_wf fl \<and> by_len fl = by_index fl"

lemma maps_ok_update [simp]:
  "maps_ok (fl\<lparr>bump_ptr := p\<rparr>) = maps_ok fl" "maps_ok (fl\<lparr>bump_end := p\<rparr>) = maps_ok fl"
  "maps_ok (fl\<lparr>fl_capacity := c\<rparr>) = maps_ok fl"
  by (simp_all add: maps_ok_def)

lemma same_bump_trans: "same_bump a b \<Longrightarrow> same_bump b c \<Longrightarrow> same_bump a c"
  by (simp add: same_bump_def)

lemma by_index_functional: "(i, l) \<in> by_index fl \<Longrightarrow> (i, k) \<in> by_index fl \<Longrightarrow> k = l"
  by (simp add: by_index_iff)

lemma by_index_minus: "(i, l) \<in> by_index fl \<Longrightarrow> {(j, k) \<in> by_index fl. j \<noteq> i} = by_index fl - {(i, l)}"
  by (auto dest: by_index_functional)

lemma drop_block:
  assumes "maps_ok fl" "(i, l) \<in> by_index fl"
  obtains fl' where "remove_from_block_len_to_index i l (remove_block i fl) = Ok fl'" "maps_ok fl'"
    "by_index fl' = by_index fl - {(i, l)}" "same_bump fl fl'"
proof -
  let ?f = "remove_block i fl"
  have "(i, l) \<in> by_len ?f" using assms by (simp add: remove_block_sets maps_ok_def)
  then obtain fl' where f: "remove_from_block_len_to_index i l ?f = Ok fl'" "by_len fl' = by_len ?f - {(i, l)}"
    "by_index fl' = by_index ?f" "maps_wf ?f \<Longrightarrow> maps_wf fl'" "same_bump ?f fl'"
    by (rule remove_from_block_len_sets) blast
  have "by_index ?f = by_index fl - {(i, l)}" "by_len ?f = by_index fl" "maps_wf ?f"
    using assms by (simp_all add: remove_block_sets maps_ok_def by_index_minus)
  then show ?thesis
    using f that [of fl'] same_bump_trans [OF remove_block_sets(4) f(5)] by (simp add: maps_ok_def)
qed

lemma put_block:
  assumes "maps_ok fl" "\<And>l. (i, l) \<notin> by_index fl"
  shows "maps_ok (add_to_block_len n i (set_block_len i n fl))"
    "by_index (add_to_block_len n i (set_block_len i n fl)) = insert (i, n) (by_index fl)"
    "same_bump fl (add_to_block_len n i (set_block_len i n fl))"
proof -
  have "{(j, k) \<in> by_index fl. j \<noteq> i} = by_index fl" using assms(2) by auto
  then show "maps_ok (add_to_block_len n i (set_block_len i n fl))"
    "by_index (add_to_block_len n i (set_block_len i n fl)) = insert (i, n) (by_index fl)"
    using assms(1) by (simp_all add: maps_ok_def add_to_block_len_sets set_block_len_sets)
  show "same_bump fl (add_to_block_len n i (set_block_len i n fl))"
    by (rule same_bump_trans [OF set_block_len_sets(4) add_to_block_len_sets(4)])
qed

lemma grow_block:
  assumes "maps_ok fl" "(i, l) \<in> by_index fl"
  obtains fl' where "and_then (update_block_len i n fl) (\<lambda>fl. and_then (remove_from_block_len_to_index i l fl) (\<lambda>fl.
      Ok (add_to_block_len n i fl))) = Ok fl'" "maps_ok fl'"
    "by_index fl' = insert (i, n) (by_index fl - {(i, l)})" "same_bump fl fl'"
proof -
  let ?f = "set_block_len i n fl"
  have "(i, l) \<in> by_len ?f" using assms by (simp add: set_block_len_sets maps_ok_def)
  then obtain g where f: "remove_from_block_len_to_index i l ?f = Ok g" "by_len g = by_len ?f - {(i, l)}"
    "by_index g = by_index ?f" "maps_wf ?f \<Longrightarrow> maps_wf g" "same_bump ?f g"
    by (rule remove_from_block_len_sets) blast
  have "by_index ?f = insert (i, n) (by_index fl - {(i, l)})" "by_len ?f = by_index fl" "maps_wf ?f"
    using assms by (simp_all add: set_block_len_sets maps_ok_def by_index_minus)
  then show ?thesis
    using f assms(2) that [of "add_to_block_len n i g"]
      same_bump_trans [OF same_bump_trans [OF set_block_len_sets(4) f(5)] add_to_block_len_sets(4)]
    by (simp add: maps_ok_def update_block_len_def by_index_iff add_to_block_len_sets)
qed

text \<open>The neighbours of an index.\<close>

definition is_prev :: "FreeList \<Rightarrow> u32 \<Rightarrow> u32 \<times> u32 \<Rightarrow> bool" where
  "is_prev fl index b \<longleftrightarrow> b \<in> by_index fl \<and> fst b < index \<and> (\<forall>j k. (j, k) \<in> by_index fl \<longrightarrow> j < index \<longrightarrow> j \<le> fst b)"

definition is_next :: "FreeList \<Rightarrow> u32 \<Rightarrow> u32 \<times> u32 \<Rightarrow> bool" where
  "is_next fl index b \<longleftrightarrow> b \<in> by_index fl \<and> index + 1 \<le> fst b \<and>
     (\<forall>j k. (j, k) \<in> by_index fl \<longrightarrow> index + 1 \<le> j \<longrightarrow> fst b \<le> j)"

lemma neighbours:
  assumes "maps_ok fl"
  shows "bt_last (bt_range (\<lambda>k. k < index) (free_block_index_to_len fl)) = Some b \<longleftrightarrow> is_prev fl index b"
    "bt_first (bt_range (\<lambda>k. index + 1 \<le> k) (free_block_index_to_len fl)) = Some b \<longleftrightarrow> is_next fl index b"
    "bt_last (bt_range (\<lambda>k. k < index) (free_block_index_to_len fl)) = None \<longleftrightarrow> (\<forall>(j, k) \<in> by_index fl. \<not> j < index)"
    "bt_first (bt_range (\<lambda>k. index + 1 \<le> k) (free_block_index_to_len fl)) = None \<longleftrightarrow> (\<forall>(j, k) \<in> by_index fl. \<not> index + 1 \<le> j)"
proof -
  have wf: "bt_wf (free_block_index_to_len fl)" using assms by (simp add: maps_ok_def maps_wf_def)
  show "bt_last (bt_range (\<lambda>k. k < index) (free_block_index_to_len fl)) = Some b \<longleftrightarrow> is_prev fl index b"
    using wf by (cases b) (auto simp: bt_last_Some is_prev_def by_index_iff split: if_splits)
  show "bt_first (bt_range (\<lambda>k. index + 1 \<le> k) (free_block_index_to_len fl)) = Some b \<longleftrightarrow> is_next fl index b"
    using wf by (cases b) (auto simp: bt_first_Some is_next_def by_index_iff split: if_splits)
  show "bt_last (bt_range (\<lambda>k. k < index) (free_block_index_to_len fl)) = None \<longleftrightarrow> (\<forall>(j, k) \<in> by_index fl. \<not> j < index)"
    "bt_first (bt_range (\<lambda>k. index + 1 \<le> k) (free_block_index_to_len fl)) = None \<longleftrightarrow> (\<forall>(j, k) \<in> by_index fl. \<not> index + 1 \<le> j)"
    by (auto simp: bt_None fun_eq_iff by_index_def split: if_splits)
qed

text \<open>Merging takes out the neighbours that touch and puts in one block from \<open>s\<close> to \<open>e\<close>.\<close>

definition takes_prev :: "FreeList \<Rightarrow> u32 \<Rightarrow> (u32 \<times> u32) set \<Rightarrow> u32 \<Rightarrow> bool" where
  "takes_prev fl index P s \<longleftrightarrow>
     (P = {} \<and> s = index \<and> (\<forall>b. is_prev fl index b \<longrightarrow> \<not> blocks_are_contiguous (fst b) (snd b) index)) \<or>
     (\<exists>b. P = {b} \<and> s = fst b \<and> is_prev fl index b \<and> blocks_are_contiguous (fst b) (snd b) index)"

definition takes_next :: "FreeList \<Rightarrow> u32 \<Rightarrow> u32 \<Rightarrow> (u32 \<times> u32) set \<Rightarrow> u32 \<Rightarrow> bool" where
  "takes_next fl index n N e \<longleftrightarrow>
     (N = {} \<and> e = index + n \<and> (\<forall>b. is_next fl index b \<longrightarrow> \<not> blocks_are_contiguous index n (fst b))) \<or>
     (\<exists>b. N = {b} \<and> e = fst b + snd b \<and> is_next fl index b \<and> blocks_are_contiguous index n (fst b))"

definition merged :: "FreeList \<Rightarrow> u32 \<Rightarrow> u32 \<Rightarrow> FreeList \<Rightarrow> bool" where
  "merged fl index n fl' \<longleftrightarrow> maps_ok fl' \<and> same_bump fl fl' \<and>
     (\<exists>P N s e. takes_prev fl index P s \<and> takes_next fl index n N e \<and>
        by_index fl' = insert (s, e - s) (by_index fl - P - N))"

lemma merge_block_prev:
  assumes ok: "maps_ok fl" and mx: "index \<noteq> -1"
    and prev: "is_prev fl index (pi, pl)" "blocks_are_contiguous pi pl index"
  shows "\<exists>fl'. merge_block index n fl = Ok fl' \<and> merged fl index n fl'"
proof -
  define pb where "pb = bt_last (bt_range (\<lambda>k. k < index) (free_block_index_to_len fl))"
  define nb where "nb = bt_first (bt_range (\<lambda>k. index + 1 \<le> k) (free_block_index_to_len fl))"
  have p: "pb = Some b \<longleftrightarrow> is_prev fl index b" for b by (simp add: pb_def neighbours [OF ok])
  have q: "nb = Some b \<longleftrightarrow> is_next fl index b" for b by (simp add: nb_def neighbours [OF ok])
  have b: "pb = Some (pi, pl)" "blocks_are_contiguous pi pl index" using p prev by simp_all
  have pin: "(pi, pl) \<in> by_index fl" and tp: "takes_prev fl index {(pi, pl)} pi" and pil: "pi < index"
    using prev by (auto simp: takes_prev_def is_prev_def)
  have "index < 1 + index" using mx by (simp add: word_less_nat_alt unatSuc add_eq_0_iff)
  then have lt: "index < index + 1" by (simp only: add.commute)
  show ?thesis
  proof (cases "\<exists>c. nb = Some c \<and> blocks_are_contiguous index n (fst c)")
    case True
    then obtain ni nl where c: "nb = Some (ni, nl)" "blocks_are_contiguous index n ni" by auto
    then have nin: "(ni, nl) \<in> by_index fl" and tn: "takes_next fl index n {(ni, nl)} (ni + nl)" and "index + 1 \<le> ni"
      using q by (auto simp: takes_next_def is_next_def)
    then have "pi \<noteq> ni" using pil lt by auto
    obtain g where g: "remove_from_block_len_to_index ni nl (remove_block ni fl) = Ok g" "maps_ok g"
      "by_index g = by_index fl - {(ni, nl)}" "same_bump fl g" using drop_block [OF ok nin] by blast
    then have "(pi, pl) \<in> by_index g" using pin \<open>pi \<noteq> ni\<close> by simp
    then obtain h where h: "and_then (update_block_len pi (ni + nl - pi) g) (\<lambda>fl. and_then (remove_from_block_len_to_index pi pl fl) (\<lambda>fl.
        Ok (add_to_block_len (ni + nl - pi) pi fl))) = Ok h" "maps_ok h"
      "by_index h = insert (pi, ni + nl - pi) (by_index g - {(pi, pl)})" "same_bump g h"
      using grow_block [OF g(2)] by blast
    have "merge_block index n fl = Ok h"
      unfolding merge_block_def Let_def pb_def [symmetric] nb_def [symmetric] using b c g(1) h(1) by simp
    moreover have "by_index h = insert (pi, (ni + nl) - pi) (by_index fl - {(pi, pl)} - {(ni, nl)})"
      using h(3) g(3) by auto
    ultimately show ?thesis unfolding merged_def using h(2) same_bump_trans [OF g(4) h(4)] tp tn by blast
  next
    case False
    then have tn: "takes_next fl index n {} (index + n)" using q by (auto simp: takes_next_def)
    obtain h where h: "and_then (update_block_len pi (index + n - pi) fl) (\<lambda>fl. and_then (remove_from_block_len_to_index pi pl fl) (\<lambda>fl.
        Ok (add_to_block_len (index + n - pi) pi fl))) = Ok h" "maps_ok h"
      "by_index h = insert (pi, index + n - pi) (by_index fl - {(pi, pl)})" "same_bump fl h"
      using grow_block [OF ok pin] by blast
    have "merge_block index n fl = Ok h"
      unfolding merge_block_def Let_def pb_def [symmetric] nb_def [symmetric]
      using b False h(1) by (cases nb) auto
    moreover have "by_index h = insert (pi, (index + n) - pi) (by_index fl - {(pi, pl)} - {})" using h(3) by auto
    ultimately show ?thesis unfolding merged_def using h(2,4) tp tn by blast
  qed
qed

lemma merge_block_no_prev:
  assumes ok: "maps_ok fl" and new: "\<And>l. (index, l) \<notin> by_index fl"
    and prev: "\<not> (\<exists>b. is_prev fl index b \<and> blocks_are_contiguous (fst b) (snd b) index)"
  shows "\<exists>fl'. merge_block index n fl = Ok fl' \<and> merged fl index n fl'"
proof -
  define pb where "pb = bt_last (bt_range (\<lambda>k. k < index) (free_block_index_to_len fl))"
  define nb where "nb = bt_first (bt_range (\<lambda>k. index + 1 \<le> k) (free_block_index_to_len fl))"
  have p: "pb = Some b \<longleftrightarrow> is_prev fl index b" for b by (simp add: pb_def neighbours [OF ok])
  have q: "nb = Some b \<longleftrightarrow> is_next fl index b" for b by (simp add: nb_def neighbours [OF ok])
  have np: "\<not> (\<exists>b. pb = Some b \<and> blocks_are_contiguous (fst b) (snd b) index)" using p prev by simp
  have tp: "takes_prev fl index {} index" using prev by (auto simp: takes_prev_def)
  show ?thesis
  proof (cases "\<exists>c. nb = Some c \<and> blocks_are_contiguous index n (fst c)")
    case True
    then obtain ni nl where c: "nb = Some (ni, nl)" "blocks_are_contiguous index n ni" by auto
    then have nin: "(ni, nl) \<in> by_index fl" and tn: "takes_next fl index n {(ni, nl)} (ni + nl)"
      using q by (auto simp: takes_next_def is_next_def)
    obtain g where g: "remove_from_block_len_to_index ni nl (remove_block ni fl) = Ok g" "maps_ok g"
      "by_index g = by_index fl - {(ni, nl)}" "same_bump fl g" using drop_block [OF ok nin] by blast
    then have "(index, l) \<notin> by_index g" for l using new by simp
    note h = put_block [OF g(2) this, of "ni + nl - index"]
    have "merge_block index n fl = Ok (add_to_block_len (ni + nl - index) index (set_block_len index (ni + nl - index) g))"
      unfolding merge_block_def Let_def pb_def [symmetric] nb_def [symmetric] using np c g(1) by (cases pb) auto
    moreover have "by_index (add_to_block_len (ni + nl - index) index (set_block_len index (ni + nl - index) g)) =
        insert (index, (ni + nl) - index) (by_index fl - {} - {(ni, nl)})" using h(2) g(3) by auto
    ultimately show ?thesis unfolding merged_def using h(1) same_bump_trans [OF g(4) h(3)] tp tn by blast
  next
    case False
    then have tn: "takes_next fl index n {} (index + n)" using q by (auto simp: takes_next_def)
    note h = put_block [OF ok new, of n]
    have "merge_block index n fl = Ok (add_to_block_len n index (set_block_len index n fl))"
      unfolding merge_block_def Let_def pb_def [symmetric] nb_def [symmetric]
      using np False by (cases pb; cases nb) auto
    moreover have "by_index (add_to_block_len n index (set_block_len index n fl)) =
        insert (index, (index + n) - index) (by_index fl - {} - {})" using h(2) by auto
    ultimately show ?thesis unfolding merged_def using h(1,3) tp tn by blast
  qed
qed

lemma merge_block_sets:
  assumes "maps_ok fl" "\<And>l. (index, l) \<notin> by_index fl" "index \<noteq> -1"
  shows "\<exists>fl'. merge_block index n fl = Ok fl' \<and> merged fl index n fl'"
  using merge_block_prev [OF assms(1,3)] merge_block_no_prev [OF assms(1,2)] by fastforce

section \<open>Geometry of the blocks\<close>

text \<open>The end of the memory that blocks may lie in: the capacity as far as a \<open>u32\<close> goes, rounded down.\<close>

definition usable_end :: "u64 \<Rightarrow> u32" where
  "usable_end cap = round_u32_down_to_pow2 (case try_u32 cap of Some c \<Rightarrow> c | None \<Rightarrow> u32_MAX) ALIGN_U32"

definition region :: "u32 \<times> u32 \<Rightarrow> nat set" where
  "region b = {unat (fst b) ..< unat (fst b) + unat (snd b)}"

definition block_in :: "u32 \<Rightarrow> u32 \<times> u32 \<Rightarrow> bool" where
  "block_in cap b \<longleftrightarrow> 16 \<le> unat (fst b) \<and> 16 dvd unat (fst b) \<and> 16 dvd unat (snd b) \<and> 0 < unat (snd b) \<and>
     unat (fst b) + unat (snd b) \<le> unat cap"

text \<open>A range that no block overlaps, with the bump region wholly on one side.\<close>

definition clear :: "FreeList \<Rightarrow> nat \<Rightarrow> nat \<Rightarrow> bool" where
  "clear fl p n \<longleftrightarrow>
     (\<forall>b \<in> by_index fl. p + n \<le> unat (fst b) \<or> unat (fst b) + unat (snd b) \<le> p) \<and>
     (unat (bump_end fl) \<le> p \<or> p + n \<le> unat (bump_ptr fl))"

definition blocks_ok :: "FreeList \<Rightarrow> bool" where
  "blocks_ok fl \<longleftrightarrow> maps_ok fl \<and>
     (\<forall>b \<in> by_index fl. block_in (usable_end (fl_capacity fl)) b) \<and>
     (\<forall>b \<in> by_index fl. \<forall>c \<in> by_index fl. fst b < fst c \<longrightarrow> unat (fst b) + unat (snd b) < unat (fst c))"

definition fl_ok :: "FreeList \<Rightarrow> bool" where
  "fl_ok fl \<longleftrightarrow> blocks_ok fl \<and> 16 \<le> unat (bump_ptr fl) \<and> 16 dvd unat (bump_ptr fl) \<and> 16 dvd unat (bump_end fl) \<and>
     bump_ptr fl \<le> bump_end fl \<and> unat (bump_end fl) \<le> max 16 (unat (usable_end (fl_capacity fl))) \<and>
     (\<forall>b \<in> by_index fl. unat (bump_end fl) \<le> unat (fst b) \<or> unat (fst b) + unat (snd b) \<le> unat (bump_ptr fl))"

definition free_bytes :: "FreeList \<Rightarrow> nat set" where
  "free_bytes fl = (\<Union>b \<in> by_index fl. region b) \<union> {unat (bump_ptr fl) ..< unat (bump_end fl)}"

lemma unat_u32_add: "unat (a :: u32) + unat b \<le> unat (c :: u32) \<Longrightarrow> unat (a + b) = unat a + unat b"
  using unsigned_less [of c, where 'a = nat] by (intro unat_add_lem [THEN iffD1]) simp

lemma unat_u32_sub: "unat (b :: u32) \<le> unat a \<Longrightarrow> unat (a - b) = unat a - unat b"
  by (simp add: unat_sub word_le_nat_alt)

lemma contiguous_iff:
  assumes "unat pi + unat pl \<le> unat index" "16 dvd unat pi" "16 dvd unat pl" "16 dvd unat index"
  shows "blocks_are_contiguous pi pl index \<longleftrightarrow> unat pi + unat pl = unat index"
proof -
  have "unat (index - (pi + pl)) = unat index - (unat pi + unat pl)"
    using assms(1) by (simp add: unat_u32_add unat_u32_sub)
  moreover have "16 dvd unat index - (unat pi + unat pl)" using assms by simp
  ultimately show ?thesis
    using assms(1) by (auto simp: blocks_are_contiguous_def Let_def word_less_nat_alt ALIGN_U32_def dest: dvd_imp_le)
qed

text \<open>What merging with the blocks \<open>P\<close> below and \<open>N\<close> above an index means for the memory they cover.\<close>

definition lower_part :: "FreeList \<Rightarrow> u32 \<Rightarrow> (u32 \<times> u32) set \<Rightarrow> u32 \<Rightarrow> bool" where
  "lower_part fl index P s \<longleftrightarrow>
     P \<subseteq> by_index fl \<and> (\<forall>b \<in> P. fst b = s) \<and> 16 \<le> unat s \<and> 16 dvd unat s \<and> unat s \<le> unat index \<and>
     (\<Union>b \<in> P. region b) = {unat s ..< unat index} \<and>
     (\<forall>b \<in> by_index fl - P. fst b < index \<longrightarrow> unat (fst b) + unat (snd b) < unat s)"

definition upper_part :: "FreeList \<Rightarrow> u32 \<Rightarrow> u32 \<Rightarrow> (u32 \<times> u32) set \<Rightarrow> u32 \<Rightarrow> bool" where
  "upper_part fl index n N e \<longleftrightarrow>
     N \<subseteq> by_index fl \<and> (\<forall>b \<in> N. unat (fst b) = unat index + unat n) \<and> unat e \<le> unat (usable_end (fl_capacity fl)) \<and>
     16 dvd unat e \<and> unat index + unat n \<le> unat e \<and> (\<Union>b \<in> N. region b) = {unat index + unat n ..< unat e} \<and>
     (\<forall>b \<in> by_index fl - N. index < fst b \<longrightarrow> unat e < unat (fst b))"

lemma block_functional: "b \<in> by_index fl \<Longrightarrow> c \<in> by_index fl \<Longrightarrow> fst b = fst c \<Longrightarrow> b = c"
  by (cases b; cases c) (auto dest: by_index_functional)

lemma prev_geometry:
  assumes ok: "blocks_ok fl" and i: "16 dvd unat index" "16 \<le> unat index"
    and c: "\<And>b. b \<in> by_index fl \<Longrightarrow> fst b < index \<Longrightarrow> unat (fst b) + unat (snd b) \<le> unat index"
    and t: "takes_prev fl index P s"
  shows "lower_part fl index P s"
proof -
  have contig: "blocks_are_contiguous (fst b) (snd b) index \<longleftrightarrow> unat (fst b) + unat (snd b) = unat index"
    if "b \<in> by_index fl" "fst b < index" for b
    using ok that c i by (intro contiguous_iff) (auto simp: blocks_ok_def block_in_def)
  have order: "unat (fst b) + unat (snd b) < unat (fst d)" if "b \<in> by_index fl" "d \<in> by_index fl" "fst b < fst d" for b d
    using ok that by (auto simp: blocks_ok_def)
  from t consider "P = {}" "s = index" "\<forall>b. is_prev fl index b \<longrightarrow> \<not> blocks_are_contiguous (fst b) (snd b) index"
    | b where "P = {b}" "s = fst b" "is_prev fl index b" "blocks_are_contiguous (fst b) (snd b) index"
    unfolding takes_prev_def by blast
  then show ?thesis
  proof cases
    case 1
    have "unat (fst b) + unat (snd b) < unat index" if b: "b \<in> by_index fl" "fst b < index" for b
    proof (rule ccontr)
      assume "\<not> unat (fst b) + unat (snd b) < unat index"
      then have e: "unat (fst b) + unat (snd b) = unat index" using c [OF b] by simp
      have "j \<le> fst b" if "(j, k) \<in> by_index fl" "j < index" for j k
        using order [OF b(1) that(1)] that(2) e by (fastforce simp: word_less_nat_alt word_le_nat_alt)
      then have "is_prev fl index b" using b by (simp add: is_prev_def)
      then show False using 1(3) contig [OF b] e by blast
    qed
    then show ?thesis using 1 i by (simp add: lower_part_def)
  next
    case (2 b)
    then have b: "b \<in> by_index fl" "fst b < index" by (simp_all add: is_prev_def)
    then have e: "unat (fst b) + unat (snd b) = unat index" using contig 2(4) by simp
    have "unat (fst d) + unat (snd d) < unat (fst b)" if "d \<in> by_index fl" "d \<noteq> b" "fst d < index" for d
    proof -
      have "fst d \<le> fst b" using 2(3) that by (cases d) (auto simp: is_prev_def)
      moreover have "fst d \<noteq> fst b" using block_functional [OF that(1) b(1)] that(2) by blast
      ultimately show ?thesis using order [OF that(1) b(1)] by simp
    qed
    moreover have "block_in (usable_end (fl_capacity fl)) b" using ok b by (simp add: blocks_ok_def)
    ultimately show ?thesis using 2 b e by (auto simp: lower_part_def block_in_def region_def word_less_nat_alt)
  qed
qed

lemma next_geometry:
  assumes ok: "blocks_ok fl" and i: "16 dvd unat index" "16 dvd unat n" "unat index + unat n \<le> unat (usable_end (fl_capacity fl))"
    and n: "0 < unat n"
    and c: "\<And>b. b \<in> by_index fl \<Longrightarrow> index < fst b \<Longrightarrow> unat index + unat n \<le> unat (fst b)"
    and t: "takes_next fl index n N e"
  shows "upper_part fl index n N e"
proof -
  have suc: "index + 1 \<le> j \<longleftrightarrow> index < j" for j
    using unat_u32_add [of index 1 "usable_end (fl_capacity fl)"] i(3) n by (simp add: word_le_nat_alt word_less_nat_alt Suc_le_eq)
  have contig: "blocks_are_contiguous index n (fst b) \<longleftrightarrow> unat index + unat n = unat (fst b)"
    if "b \<in> by_index fl" "index < fst b" for b
    using ok that c i by (intro contiguous_iff) (auto simp: blocks_ok_def block_in_def)
  have order: "unat (fst b) + unat (snd b) < unat (fst d)" if "b \<in> by_index fl" "d \<in> by_index fl" "fst b < fst d" for b d
    using ok that by (auto simp: blocks_ok_def)
  have bi: "block_in (usable_end (fl_capacity fl)) b" if "b \<in> by_index fl" for b using ok that by (simp add: blocks_ok_def)
  from t consider "N = {}" "e = index + n" "\<forall>b. is_next fl index b \<longrightarrow> \<not> blocks_are_contiguous index n (fst b)"
    | b where "N = {b}" "e = fst b + snd b" "is_next fl index b" "blocks_are_contiguous index n (fst b)"
    unfolding takes_next_def by blast
  then show ?thesis
  proof cases
    case 1
    have "unat index + unat n < unat (fst b)" if b: "b \<in> by_index fl" "index < fst b" for b
    proof (rule ccontr)
      assume "\<not> unat index + unat n < unat (fst b)"
      then have e: "unat index + unat n = unat (fst b)" using c [OF b] by simp
      have "is_next fl index b"
        unfolding is_next_def suc using b c e by (fastforce simp: word_le_nat_alt)
      then show False using 1(3) contig [OF b] e by blast
    qed
    then show ?thesis using 1 i by (simp add: upper_part_def unat_u32_add)
  next
    case (2 b)
    then have b: "b \<in> by_index fl" "index < fst b" by (simp_all add: is_next_def suc)
    then have e: "unat index + unat n = unat (fst b)" using contig 2(4) by simp
    have eb: "unat e = unat (fst b) + unat (snd b)" using bi [OF b(1)] 2(2) unat_u32_add by (auto simp: block_in_def)
    have "unat e < unat (fst d)" if "d \<in> by_index fl" "d \<noteq> b" "index < fst d" for d
    proof -
      have "fst b \<le> fst d" using 2(3) that by (cases d) (auto simp: is_next_def suc)
      moreover have "fst d \<noteq> fst b" using block_functional [OF that(1) b(1)] that(2) by blast
      ultimately show ?thesis using order [OF b(1) that(1)] eb by simp
    qed
    then show ?thesis using 2 b e bi [OF b(1)] eb by (auto simp: upper_part_def block_in_def region_def word_less_nat_alt)
  qed
qed

lemma apart_iff:
  fixes a b c d :: nat
  assumes "a < b" "c < d"
  shows "{a ..< b} \<inter> {c ..< d} = {} \<longleftrightarrow> b \<le> c \<or> d \<le> a"
  using assms by (auto simp: disjoint_iff)

text \<open>The block from \<open>s\<close> to \<open>e\<close> covers the freed range and the blocks \<open>R\<close> it swallows, and touches no other.\<close>

definition swallows :: "FreeList \<Rightarrow> u32 \<Rightarrow> u32 \<Rightarrow> (u32 \<times> u32) set \<Rightarrow> u32 \<Rightarrow> u32 \<Rightarrow> bool" where
  "swallows fl index n R s e \<longleftrightarrow>
     R \<subseteq> by_index fl \<and> unat s \<le> unat index \<and> unat index + unat n \<le> unat e \<and> unat s < unat e \<and> unat (e - s) = unat e - unat s \<and>
     block_in (usable_end (fl_capacity fl)) (s, e - s) \<and>
     region (s, e - s) = (\<Union>b \<in> R. region b) \<union> region (index, n) \<and>
     (\<forall>b \<in> R. fst b = s \<or> unat (fst b) = unat index + unat n) \<and>
     (\<forall>b \<in> by_index fl - R. unat (fst b) + unat (snd b) < unat s \<or> unat e < unat (fst b))"

lemma swallows_parts:
  assumes ok: "blocks_ok fl" and b: "block_in (usable_end (fl_capacity fl)) (index, n)"
    and c: "\<And>b. b \<in> by_index fl \<Longrightarrow> unat index + unat n \<le> unat (fst b) \<or> unat (fst b) + unat (snd b) \<le> unat index"
    and lower: "lower_part fl index P s" and upper: "upper_part fl index n N e"
  shows "swallows fl index n (P \<union> N) s e"
proof -
  have l: "P \<subseteq> by_index fl" "16 \<le> unat s" "16 dvd unat s" "unat s \<le> unat index" "(\<Union>b \<in> P. region b) = {unat s ..< unat index}"
    "\<And>b. b \<in> P \<Longrightarrow> fst b = s" "\<And>d. d \<in> by_index fl - P \<Longrightarrow> fst d < index \<Longrightarrow> unat (fst d) + unat (snd d) < unat s"
    using lower unfolding lower_part_def by blast+
  have u: "N \<subseteq> by_index fl" "16 dvd unat e" "unat index + unat n \<le> unat e" "unat e \<le> unat (usable_end (fl_capacity fl))"
    "(\<Union>b \<in> N. region b) = {unat index + unat n ..< unat e}" "\<And>b. b \<in> N \<Longrightarrow> unat (fst b) = unat index + unat n"
    "\<And>d. d \<in> by_index fl - N \<Longrightarrow> index < fst d \<Longrightarrow> unat e < unat (fst d)"
    using upper unfolding upper_part_def by blast+
  have n: "0 < unat n" using b by (simp add: block_in_def)
  then have se: "unat s < unat e" "unat (e - s) = unat e - unat s"
    using l(4) u(3) unat_u32_sub [of s e] by linarith+
  have reg: "region (s, e - s) = (\<Union>b \<in> P \<union> N. region b) \<union> region (index, n)"
    unfolding UN_Un l(5) u(5) unfolding region_def fst_conv snd_conv se(2) using se(1) l(4) u(3) by auto
  have bi: "block_in (usable_end (fl_capacity fl)) (s, e - s)"
    unfolding block_in_def fst_conv snd_conv se(2) using se(1) l(2,3) u(2,4) by simp
  have far: "unat (fst d) + unat (snd d) < unat s \<or> unat e < unat (fst d)" if d: "d \<in> by_index fl - (P \<union> N)" for d
  proof -
    have "block_in (usable_end (fl_capacity fl)) d" using d ok by (simp add: blocks_ok_def)
    then have "0 < unat (snd d)" by (simp add: block_in_def)
    then have "unat (fst d) \<noteq> unat index" using c [of d] d n by force
    then have "fst d < index \<or> index < fst d" by (auto simp: word_less_nat_alt)
    then show ?thesis using l(7) [of d] u(7) [of d] d by blast
  qed
  show ?thesis unfolding swallows_def
    by (intro conjI se bi reg ballI l(4) u(3) far) (use l(1,6) u(1,6) in blast)+
qed

lemma merged_swallows:
  assumes ok: "blocks_ok fl" and b: "block_in (usable_end (fl_capacity fl)) (index, n)"
    and c: "\<And>b. b \<in> by_index fl \<Longrightarrow> unat index + unat n \<le> unat (fst b) \<or> unat (fst b) + unat (snd b) \<le> unat index"
    and m: "merged fl index n fl'"
  obtains R s e where "by_index fl' = insert (s, e - s) (by_index fl - R)" "swallows fl index n R s e"
proof -
  obtain P N s e where t: "takes_prev fl index P s" "takes_next fl index n N e"
    "by_index fl' = insert (s, e - s) (by_index fl - P - N)" using m by (auto simp: merged_def)
  have i: "16 dvd unat index" "16 \<le> unat index" "16 dvd unat n" "0 < unat n" "unat index + unat n \<le> unat (usable_end (fl_capacity fl))"
    using b by (simp_all add: block_in_def)
  have lo: "unat (fst d) + unat (snd d) \<le> unat index" if "d \<in> by_index fl" "fst d < index" for d
    using c [OF that(1)] that(2) by (auto simp: word_less_nat_alt)
  have hi: "unat index + unat n \<le> unat (fst d)" if "d \<in> by_index fl" "index < fst d" for d
    using c [OF that(1)] that(2) by (auto simp: word_less_nat_alt)
  have "lower_part fl index P s" by (rule prev_geometry [OF ok i(1,2) _ t(1)]) (rule lo)
  moreover have "upper_part fl index n N e" by (rule next_geometry [OF ok i(1,3,5,4) _ t(2)]) (rule hi)
  ultimately have "swallows fl index n (P \<union> N) s e" by (intro swallows_parts [OF ok b]) (use c in auto)
  moreover have "by_index fl' = insert (s, e - s) (by_index fl - (P \<union> N))" using t(3) by auto
  ultimately show ?thesis using that by blast
qed

lemma swallows_away:
  assumes s: "swallows fl index n R s e" and k: "0 < k" "q + k \<le> unat index \<or> unat index + unat n \<le> q"
    and d: "\<And>b. b \<in> R \<Longrightarrow> {q ..< q + k} \<inter> region b = {}"
  shows "q + k \<le> unat s \<or> unat e \<le> q"
proof -
  have "{q ..< q + k} \<inter> region (index, n) = {}" using k(2) by (auto simp: region_def)
  then have "{q ..< q + k} \<inter> region (s, e - s) = {}" using s d by (auto simp: swallows_def)
  then show ?thesis using apart_iff [of q "q + k" "unat s" "unat e"] k(1) s by (auto simp: region_def swallows_def)
qed

lemma swallows_bump:
  assumes ok: "fl_ok fl" and c: "clear fl (unat index) (unat n)" and be: "bump_end fl \<noteq> index"
    and bp: "unat index + unat n \<noteq> unat (bump_ptr fl)" and s: "swallows fl index n R s e"
  shows "unat (bump_end fl) \<le> unat s \<or> unat e \<le> unat (bump_ptr fl)"
proof (cases "unat (bump_ptr fl) < unat (bump_end fl)")
  case True
  let ?p = "unat (bump_ptr fl)" and ?k = "unat (bump_end fl) - unat (bump_ptr fl)"
  have "?p + ?k \<le> unat index \<or> unat index + unat n \<le> ?p" using c True by (auto simp: clear_def)
  moreover have "{?p ..< ?p + ?k} \<inter> region b = {}" if "b \<in> R" for b
    using that s ok True by (fastforce simp: swallows_def fl_ok_def region_def disjoint_iff)
  ultimately show ?thesis using swallows_away [OF s, of ?k ?p] True by simp
next
  case False
  then have e: "bump_end fl = bump_ptr fl" using ok by (auto simp: fl_ok_def word_le_nat_alt intro: word_unat_eq_iff [THEN iffD2])
  show ?thesis
  proof (rule ccontr)
    assume n: "\<not> (unat (bump_end fl) \<le> unat s \<or> unat e \<le> unat (bump_ptr fl))"
    then have "unat (bump_ptr fl) \<in> region (s, e - s)" using s e by (simp add: region_def swallows_def)
    moreover have "unat (bump_ptr fl) \<notin> region (index, n)" using c e be by (auto simp: clear_def region_def word_unat_eq_iff)
    ultimately obtain b where b: "b \<in> R" "unat (bump_ptr fl) \<in> region b" using s by (auto simp: swallows_def)
    then have "b \<in> by_index fl" using s by (auto simp: swallows_def)
    then have "unat (fst b) = unat (bump_ptr fl)" using ok b(2) e by (fastforce simp: fl_ok_def region_def)
    then show False using s b(1) n bp e by (auto simp: swallows_def)
  qed
qed

lemma swallows_ordered:
  assumes bok: "blocks_ok fl" and sw: "swallows fl index n R s e"
    and that: "b \<in> insert (s, e - s) (by_index fl - R)" "d \<in> insert (s, e - s) (by_index fl - R)" "fst b < fst d"
  shows "unat (fst b) + unat (snd b) < unat (fst d)"
proof -
  have far: "unat (fst x) + unat (snd x) < unat s \<or> unat e < unat (fst x)" if "x \<in> by_index fl - R" for x
    using sw that by (simp add: swallows_def)
  have new: "unat (fst (s, e - s)) + unat (snd (s, e - s)) = unat e" "unat s < unat e" using sw by (simp_all add: swallows_def)
  show ?thesis
  proof (cases "b = (s, e - s)")
    case True
    then have "d \<in> by_index fl - R" "unat s < unat (fst d)" using that by (auto simp: word_less_nat_alt)
    then show ?thesis unfolding True new(1) using far [of d] by linarith
  next
    case False
    then have b: "b \<in> by_index fl - R" using that(1) by simp
    show ?thesis
    proof (cases "d = (s, e - s)")
      case True
      then show ?thesis using far [OF b] that(3) new(2) by (auto simp: word_less_nat_alt)
    qed (use b that bok in \<open>simp add: blocks_ok_def\<close>)
  qed
qed

lemma merged_ok:
  assumes ok: "fl_ok fl" and b: "block_in (usable_end (fl_capacity fl)) (index, n)"
    and c: "clear fl (unat index) (unat n)" and be: "bump_end fl \<noteq> index" and bp: "unat index + unat n \<noteq> unat (bump_ptr fl)"
    and m: "merged fl index n fl'"
  shows "fl_ok fl'" "free_bytes fl' = free_bytes fl \<union> region (index, n)"
    "\<And>q k. 0 < k \<Longrightarrow> clear fl q k \<Longrightarrow> q + k \<le> unat index \<or> unat index + unat n \<le> q \<Longrightarrow> clear fl' q k"
proof -
  have bok: "blocks_ok fl" using ok by (simp add: fl_ok_def)
  obtain R s e where g: "by_index fl' = insert (s, e - s) (by_index fl - R)" and sw: "swallows fl index n R s e"
    by (rule merged_swallows [OF bok b _ m]) (use c in \<open>auto simp: clear_def\<close>)
  have same: "bump_ptr fl' = bump_ptr fl" "bump_end fl' = bump_end fl" "fl_capacity fl' = fl_capacity fl" "maps_ok fl'"
    using m by (simp_all add: merged_def same_bump_def)
  show "free_bytes fl' = free_bytes fl \<union> region (index, n)"
    unfolding free_bytes_def g same using sw by (auto simp: swallows_def)
  show "clear fl' q k" if k: "0 < k" "clear fl q k" "q + k \<le> unat index \<or> unat index + unat n \<le> q" for q k
  proof -
    have "{q ..< q + k} \<inter> region b = {}" if "b \<in> R" for b
      using that sw k(2) by (fastforce simp: clear_def region_def disjoint_iff swallows_def)
    then show ?thesis using swallows_away [OF sw k(1,3)] k(2) sw by (auto simp: clear_def g same swallows_def)
  qed
  have "unat (fst b) + unat (snd b) < unat (fst d)"
    if "b \<in> insert (s, e - s) (by_index fl - R)" "d \<in> insert (s, e - s) (by_index fl - R)" "fst b < fst d" for b d
    using swallows_ordered [OF bok sw that] .
  moreover have "block_in (usable_end (fl_capacity fl)) x" if "x \<in> insert (s, e - s) (by_index fl - R)" for x
    using that bok sw by (auto simp: blocks_ok_def swallows_def)
  ultimately have "blocks_ok fl'" unfolding blocks_ok_def g same(3) by (intro conjI same(4) ballI impI) simp_all
  then show "fl_ok fl'"
    using ok swallows_bump [OF ok c be bp sw] sw by (auto simp: fl_ok_def g same swallows_def)
qed

section \<open>Giving memory back\<close>

text \<open>
  The contract of the operations that give memory back: the bytes \<open>r\<close> become free, nothing else does,
  and a range that was clear of the free list and is disjoint from \<open>r\<close> stays so.
\<close>

definition freed :: "FreeList \<Rightarrow> nat set \<Rightarrow> FreeList \<Rightarrow> bool" where
  "freed fl r fl' \<longleftrightarrow> fl_ok fl' \<and> fl_capacity fl' = fl_capacity fl \<and> free_bytes fl' = free_bytes fl \<union> r \<and>
     (\<forall>q k. 0 < k \<longrightarrow> clear fl q k \<longrightarrow> {q ..< q + k} \<inter> r = {} \<longrightarrow> clear fl' q k)"

lemma freed_refl: "fl_ok fl \<Longrightarrow> freed fl {} fl"
  by (simp add: freed_def)

lemma freed_trans: "freed fl r fl' \<Longrightarrow> freed fl' r' fl'' \<Longrightarrow> freed fl (r \<union> r') fl''"
  unfolding freed_def by (metis Int_Un_distrib Un_assoc Un_empty)

lemma clear_regions: "clear fl q k \<Longrightarrow> b \<in> by_index fl \<Longrightarrow> {q ..< q + k} \<inter> region b = {}"
  by (force simp: clear_def region_def)

lemma extend_bump:
  assumes ok: "fl_ok fl" and fl': "maps_ok fl'" "by_index fl' = by_index fl - R" "fl_capacity fl' = fl_capacity fl"
    and R: "R \<subseteq> by_index fl" "{unat (bump_ptr fl') ..< unat (bump_ptr fl)} \<union> {unat (bump_end fl) ..< unat (bump_end fl')} = r \<union> \<Union> (region ` R)"
    and p: "unat (bump_ptr fl') \<le> unat (bump_ptr fl)" "16 \<le> unat (bump_ptr fl')" "16 dvd unat (bump_ptr fl')"
    and e: "unat (bump_end fl) \<le> unat (bump_end fl')" "16 dvd unat (bump_end fl')" "unat (bump_end fl') \<le> max 16 (unat (usable_end (fl_capacity fl)))"
    and away: "\<And>b. b \<in> by_index fl - R \<Longrightarrow> unat (bump_end fl') \<le> unat (fst b) \<or> unat (fst b) + unat (snd b) \<le> unat (bump_ptr fl')"
  shows "freed fl r fl'"
proof -
  have be: "unat (bump_ptr fl) \<le> unat (bump_end fl)" using ok by (simp add: fl_ok_def word_le_nat_alt)
  then have split: "{unat (bump_ptr fl') ..< unat (bump_end fl')} = {unat (bump_ptr fl) ..< unat (bump_end fl)} \<union> (r \<union> \<Union> (region ` R))"
    unfolding R(2) [symmetric] using p(1) e(1) by auto
  have "\<Union> (region ` by_index fl) = \<Union> (region ` (by_index fl - R)) \<union> \<Union> (region ` R)" using R(1) by blast
  then have fb: "free_bytes fl' = free_bytes fl \<union> r" unfolding free_bytes_def fl'(2) split by blast
  have "blocks_ok fl'" using ok fl' by (auto simp: fl_ok_def blocks_ok_def)
  then have "fl_ok fl'" unfolding fl_ok_def fl'(2,3) word_le_nat_alt using p e be away by simp
  moreover have "clear fl' q k" if "0 < k" "clear fl q k" "{q ..< q + k} \<inter> r = {}" for q k
  proof -
    have "{q ..< q + k} \<inter> (r \<union> \<Union> (region ` R)) = {}" using that(3) clear_regions [OF that(2)] R(1) by blast
    then have d: "{q ..< q + k} \<inter> {unat (bump_ptr fl') ..< unat (bump_ptr fl)} = {}"
      "{q ..< q + k} \<inter> {unat (bump_end fl) ..< unat (bump_end fl')} = {}" unfolding R(2) [symmetric] by blast+
    have "unat (bump_end fl') \<le> q \<or> q + k \<le> unat (bump_ptr fl')"
    proof (rule ccontr)
      assume n: "\<not> ?thesis"
      have "unat (bump_end fl) \<le> q \<or> q + k \<le> unat (bump_ptr fl)" using that(2) by (simp add: clear_def)
      then have "q \<in> {unat (bump_end fl) ..< unat (bump_end fl')} \<or> q + k - 1 \<in> {unat (bump_ptr fl') ..< unat (bump_ptr fl)}"
        using n that(1) by auto
      moreover have "q \<in> {q ..< q + k}" "q + k - 1 \<in> {q ..< q + k}" using that(1) by simp_all
      ultimately show False using d by blast
    qed
    then show ?thesis using that(2) by (simp add: clear_def fl'(2))
  qed
  ultimately show ?thesis by (simp add: freed_def fb fl'(3))
qed

lemma absorb_last_ok:
  assumes ok: "fl_ok fl"
  obtains fl' where "absorb_last fl = Ok fl'" "freed fl {} fl'"
proof (cases "\<exists>i l. bt_last (free_block_index_to_len fl) = Some (i, l) \<and> i + l = bump_ptr fl")
  case False
  then have "absorb_last fl = Ok fl"
    by (cases "bt_last (free_block_index_to_len fl)") (auto simp: absorb_last_def)
  then show ?thesis using that freed_refl [OF ok] by blast
next
  case True
  then obtain i l where last: "bt_last (free_block_index_to_len fl) = Some (i, l)" "i + l = bump_ptr fl" by blast
  have bok: "blocks_ok fl" and wf: "bt_wf (free_block_index_to_len fl)" and mok: "maps_ok fl"
    using ok by (simp_all add: fl_ok_def blocks_ok_def maps_ok_def maps_wf_def)
  have il: "(i, l) \<in> by_index fl" using last(1) bt_last_Some [OF wf] by (simp add: by_index_iff)
  obtain fl' where f: "remove_from_block_len_to_index i l (remove_block i (fl\<lparr>bump_ptr := i\<rparr>)) = Ok fl'" "maps_ok fl'"
    "by_index fl' = by_index (fl\<lparr>bump_ptr := i\<rparr>) - {(i, l)}" "same_bump (fl\<lparr>bump_ptr := i\<rparr>) fl'"
    by (rule drop_block [of "fl\<lparr>bump_ptr := i\<rparr>" i l]) (use mok il in auto)
  have bi: "block_in (usable_end (fl_capacity fl)) (i, l)" using bok il by (simp add: blocks_ok_def)
  then have "unat (i + l) = unat i + unat l" by (intro unat_u32_add) (auto simp: block_in_def)
  then have bp: "unat (bump_ptr fl) = unat i + unat l" using last(2) by simp
  have away: "unat (bump_end fl) \<le> unat (fst b) \<or> unat (fst b) + unat (snd b) \<le> unat i" if b: "b \<in> by_index fl - {(i, l)}" for b
  proof -
    have "fst b \<noteq> i" using b il block_functional [of b fl "(i, l)"] by auto
    moreover have "\<not> i < fst b" using last(1) bt_last_Some [OF wf] b by (cases b) (auto simp: by_index_iff not_less)
    ultimately have "fst b < i" by simp
    then show ?thesis using bok b il by (fastforce simp: blocks_ok_def)
  qed
  have "freed fl {} fl'"
    by (rule extend_bump [OF ok f(2), where R = "{(i, l)}"])
      (use f(3,4) il bi bp away ok in \<open>auto simp: same_bump_def block_in_def fl_ok_def region_def\<close>)
  moreover have "absorb_last fl = Ok fl'" using last f(1) by (simp add: absorb_last_def)
  ultimately show ?thesis using that by blast
qed

lemma freed_absorb: "freed fl r fl' \<Longrightarrow> freed fl' {} fl'' \<Longrightarrow> freed fl r fl''"
  using freed_trans [of fl r fl' "{}" fl''] by simp

lemma dealloc_below_bump:
  assumes ok: "fl_ok fl" and b: "block_in (usable_end (fl_capacity fl)) (index, n)" and c: "clear fl (unat index) (unat n)"
    and bp: "unat index + unat n = unat (bump_ptr fl)"
  shows "freed fl (region (index, n)) (fl\<lparr>bump_ptr := index\<rparr>)"
proof (rule extend_bump [OF ok, where R = "{}"])
  fix d
  assume "d \<in> by_index fl - {}"
  then have "0 < unat (snd d)" "unat (bump_end fl) \<le> unat (fst d) \<or> unat (fst d) + unat (snd d) \<le> unat (bump_ptr fl)"
    "unat index + unat n \<le> unat (fst d) \<or> unat (fst d) + unat (snd d) \<le> unat index"
    using ok c by (auto simp: fl_ok_def blocks_ok_def block_in_def clear_def)
  then show "unat (bump_end (fl\<lparr>bump_ptr := index\<rparr>)) \<le> unat (fst d) \<or> unat (fst d) + unat (snd d) \<le> unat (bump_ptr (fl\<lparr>bump_ptr := index\<rparr>))"
    using bp by auto
qed (use ok b bp in \<open>auto simp: fl_ok_def blocks_ok_def block_in_def region_def\<close>)

lemma dealloc_above_bump:
  assumes ok: "fl_ok fl" and b: "block_in (usable_end (fl_capacity fl)) (index, n)" and c: "clear fl (unat index) (unat n)"
    and be: "bump_end fl = index"
  shows "freed fl (region (index, n)) (fl\<lparr>bump_end := index + n\<rparr>)"
proof (rule extend_bump [OF ok, where R = "{}"])
  have e: "unat (index + n) = unat index + unat n" using b by (intro unat_u32_add) (auto simp: block_in_def)
  fix d
  assume "d \<in> by_index fl - {}"
  then have "0 < unat (snd d)" "unat (bump_end fl) \<le> unat (fst d) \<or> unat (fst d) + unat (snd d) \<le> unat (bump_ptr fl)"
    "unat index + unat n \<le> unat (fst d) \<or> unat (fst d) + unat (snd d) \<le> unat index"
    using ok c by (auto simp: fl_ok_def blocks_ok_def block_in_def clear_def)
  then show "unat (bump_end (fl\<lparr>bump_end := index + n\<rparr>)) \<le> unat (fst d) \<or> unat (fst d) + unat (snd d) \<le> unat (bump_ptr (fl\<lparr>bump_end := index + n\<rparr>))"
    using e be by auto
qed (use ok b be unat_u32_add [of index n "usable_end (fl_capacity fl)"] in
    \<open>auto simp: fl_ok_def blocks_ok_def block_in_def region_def\<close>)

lemma absorb_next_ok:
  assumes ok: "fl_ok fl" and m: "map_of (free_block_index_to_len fl) (bump_end fl) = Some l"
  obtains fl' where "remove_from_block_len_to_index (bump_end fl) l (remove_block (bump_end fl) fl) = Ok fl'"
    "freed fl {} (fl'\<lparr>bump_end := bump_end fl' + l\<rparr>)"
proof -
  let ?i = "bump_end fl"
  have bok: "blocks_ok fl" and mok: "maps_ok fl" and il: "(?i, l) \<in> by_index fl"
    using ok m by (simp_all add: fl_ok_def blocks_ok_def by_index_iff)
  obtain fl' where f: "remove_from_block_len_to_index ?i l (remove_block ?i fl) = Ok fl'" "maps_ok fl'"
    "by_index fl' = by_index fl - {(?i, l)}" "same_bump fl fl'"
    by (rule drop_block [OF mok il]) blast
  have bi: "block_in (usable_end (fl_capacity fl)) (?i, l)" using bok il by (simp add: blocks_ok_def)
  then have e: "unat (?i + l) = unat ?i + unat l" by (intro unat_u32_add) (auto simp: block_in_def)
  have away: "unat (?i + l) \<le> unat (fst b) \<or> unat (fst b) + unat (snd b) \<le> unat (bump_ptr fl)" if b: "b \<in> by_index fl - {(?i, l)}" for b
  proof -
    have ne: "fst b \<noteq> ?i" using b il block_functional [of b fl "(?i, l)"] by auto
    have "unat ?i \<le> unat (fst b) \<or> unat (fst b) + unat (snd b) \<le> unat (bump_ptr fl)" using ok b by (simp add: fl_ok_def)
    moreover have "?i < fst b \<Longrightarrow> unat ?i + unat l < unat (fst b)" using bok b il by (fastforce simp: blocks_ok_def)
    ultimately show ?thesis using ne e by (auto simp: word_less_nat_alt word_unat_eq_iff)
  qed
  have "freed fl {} (fl'\<lparr>bump_end := bump_end fl' + l\<rparr>)"
    by (rule extend_bump [OF ok, where R = "{(?i, l)}"])
      (use f(2-4) il bi e away ok in \<open>auto simp: same_bump_def block_in_def fl_ok_def region_def\<close>)
  then show ?thesis using that f(1) by blast
qed

lemma dealloc_impl_ok:
  assumes ok: "fl_ok fl" and b: "block_in (usable_end (fl_capacity fl)) (index, n)" and c: "clear fl (unat index) (unat n)"
  shows "\<exists>fl'. dealloc_impl index n fl = Ok fl' \<and> freed fl (region (index, n)) fl'"
proof -
  have e: "unat (index + n) = unat index + unat n" using b by (intro unat_u32_add) (auto simp: block_in_def)
  consider "index + n = bump_ptr fl" | "index + n \<noteq> bump_ptr fl" "bump_end fl = index"
    | "index + n \<noteq> bump_ptr fl" "bump_end fl \<noteq> index" by blast
  then show ?thesis
  proof cases
    case 1
    then have "unat index + unat n = unat (bump_ptr fl)" using e by simp
    note f = dealloc_below_bump [OF ok b c this]
    then obtain fl' where "absorb_last (fl\<lparr>bump_ptr := index\<rparr>) = Ok fl'" "freed (fl\<lparr>bump_ptr := index\<rparr>) {} fl'"
      using absorb_last_ok [of "fl\<lparr>bump_ptr := index\<rparr>"] by (auto simp: freed_def)
    then show ?thesis using 1 freed_absorb [OF f] by (auto simp: dealloc_impl_def)
  next
    case 2
    note f = dealloc_above_bump [OF ok b c 2(2)]
    let ?g = "fl\<lparr>bump_end := index + n\<rparr>"
    show ?thesis
    proof (cases "map_of (free_block_index_to_len ?g) (bump_end ?g)")
      case None
      then show ?thesis using 2 f by (simp add: dealloc_impl_def)
    next
      case (Some l)
      obtain fl' where "remove_from_block_len_to_index (bump_end ?g) l (remove_block (bump_end ?g) ?g) = Ok fl'"
        "freed ?g {} (fl'\<lparr>bump_end := bump_end fl' + l\<rparr>)"
        by (rule absorb_next_ok [OF _ Some]) (use f in \<open>auto simp: freed_def\<close>)
      then show ?thesis using 2 Some freed_absorb [OF f] by (auto simp: dealloc_impl_def)
    qed
  next
    case 3
    have new: "(index, l) \<notin> by_index fl" for l
      using ok b c by (fastforce simp: fl_ok_def blocks_ok_def block_in_def clear_def)
    have "index \<noteq> -1" using b by (auto simp: block_in_def unsigned_minus_1_eq_mask mask_eq_exp_minus_1)
    moreover have "maps_ok fl" using ok by (simp add: fl_ok_def blocks_ok_def)
    ultimately obtain g where g: "merge_block index n fl = Ok g" "merged fl index n g"
      using merge_block_sets [OF _ new] by blast
    note m = merged_ok [OF ok b c 3(2) _ g(2)]
    have "unat index + unat n \<noteq> unat (bump_ptr fl)" using 3(1) e by (metis word_unat_eq_iff)
    note m = m [OF this]
    have "q + k \<le> unat index \<or> unat index + unat n \<le> q" if "0 < k" "{q ..< q + k} \<inter> region (index, n) = {}" for q k
      using apart_iff [of q "q + k" "unat index" "unat index + unat n"] that b by (auto simp: region_def block_in_def)
    then have f: "freed fl (region (index, n)) g"
      using m g(2) by (auto simp: freed_def merged_def same_bump_def)
    then obtain fl' where "absorb_last g = Ok fl'" "freed g {} fl'"
      using absorb_last_ok [of g] by (auto simp: freed_def)
    then show ?thesis using 3 g freed_absorb [OF f] by (auto simp: dealloc_impl_def)
  qed
qed

section \<open>Taking memory\<close>

text \<open>
  The contract of an allocation of \<open>n\<close> bytes that returns \<open>r\<close>: a block it returns was free and is no longer,
  no byte becomes free, and clear ranges stay clear. Unless the bump region starts at the first aligned index
  no other byte is lost; an allocation that fails loses none at all and leaves only shorter blocks.
\<close>

definition took :: "FreeList \<Rightarrow> u32 \<Rightarrow> u32 option \<Rightarrow> FreeList \<Rightarrow> bool" where
  "took fl n r fl' \<longleftrightarrow> fl_ok fl' \<and> fl_capacity fl' = fl_capacity fl \<and>
     (\<forall>q k. 0 < k \<longrightarrow> 16 \<le> q \<longrightarrow> clear fl q k \<longrightarrow> clear fl' q k) \<and>
     (case r of
        None \<Rightarrow> free_bytes fl' = free_bytes fl \<and> (\<forall>b \<in> by_index fl'. snd b < n)
      | Some p \<Rightarrow> block_in (usable_end (fl_capacity fl)) (p, n) \<and> clear fl' (unat p) (unat n) \<and>
          region (p, n) \<subseteq> free_bytes fl \<and> free_bytes fl' \<subseteq> free_bytes fl - region (p, n) \<and>
          (unat (bump_ptr fl) \<noteq> 16 \<longrightarrow> free_bytes fl' = free_bytes fl - region (p, n)))"

lemma bump_alloc_ok:
  assumes ok: "fl_ok fl" and n: "16 dvd unat n" "0 < unat n" and fit: "unat (bump_ptr fl) + unat n \<le> unat (bump_end fl)"
  shows "took fl n (Some (bump_ptr fl)) (fl\<lparr>bump_ptr := bump_ptr fl + n\<rparr>)"
proof -
  let ?p = "bump_ptr fl" and ?fl' = "fl\<lparr>bump_ptr := bump_ptr fl + n\<rparr>"
  have e: "unat (?p + n) = unat ?p + unat n" by (rule unat_u32_add [OF fit])
  have away: "unat (bump_end fl) \<le> unat (fst b) \<or> unat (fst b) + unat (snd b) \<le> unat ?p" "0 < unat (snd b)"
    if "b \<in> by_index fl" for b using ok that by (auto simp: fl_ok_def blocks_ok_def block_in_def)
  have "fl_ok ?fl'" using ok n fit e away by (fastforce simp: fl_ok_def blocks_ok_def word_le_nat_alt)
  moreover have bi: "block_in (usable_end (fl_capacity fl)) (?p, n)"
    using ok n fit by (auto simp: fl_ok_def block_in_def)
  moreover have "clear ?fl' (unat ?p) (unat n)" using away fit e by (force simp: clear_def)
  moreover have "clear ?fl' q k" if "clear fl q k" for q k using that e by (auto simp: clear_def)
  moreover have "(\<Union>b \<in> by_index fl. region b) \<inter> region (?p, n) = {}" using away(1) fit by (fastforce simp: region_def)
  moreover have "{unat ?p ..< unat (bump_end fl)} = region (?p, n) \<union> {unat (?p + n) ..< unat (bump_end fl)}"
    "region (?p, n) \<inter> {unat (?p + n) ..< unat (bump_end fl)} = {}" using e fit by (auto simp: region_def)
  ultimately show ?thesis unfolding took_def free_bytes_def by auto
qed

text \<open>The slow path first gives the rest of the bump region back.\<close>

definition put_back :: "FreeList \<Rightarrow> FreeList may_panic" where
  "put_back fl =
     (let remaining_ptr = bump_ptr fl; remaining = bump_end fl - bump_ptr fl; fl = fl\<lparr>bump_ptr := ALIGN_U32, bump_end := ALIGN_U32\<rparr>
      in if ALIGN_U32 \<le> remaining then insert_free_block remaining_ptr remaining fl else Ok fl)"

lemma alloc_slow_put_back:
  "alloc_slow n fl = and_then (put_back fl) (\<lambda>fl.
      case find_block n fl of
        None \<Rightarrow> Ok (None, fl)
      | Some (block_index, block_len) \<Rightarrow>
          and_then (remove_from_block_len_to_index block_index block_len fl) (\<lambda>fl.
          let fl = remove_block block_index fl; fl = fl\<lparr>bump_ptr := block_index + n, bump_end := block_index + block_len\<rparr> in
          and_then (nonzero_unchecked block_index) (\<lambda>r. Ok (Some r, fl))))"
  by (simp add: alloc_slow_def put_back_def Let_def)

lemma fl_ok_no_bump:
  assumes "fl_ok fl"
  shows "fl_ok (fl\<lparr>bump_ptr := ALIGN_U32, bump_end := ALIGN_U32\<rparr>)"
  using assms by (auto simp: fl_ok_def blocks_ok_def block_in_def ALIGN_U32_def)

lemma put_back_freed:
  assumes ok: "fl_ok fl"
  obtains fl' where "put_back fl = Ok fl'"
    "freed (fl\<lparr>bump_ptr := ALIGN_U32, bump_end := ALIGN_U32\<rparr>) {unat (bump_ptr fl) ..< unat (bump_end fl)} fl'"
proof (cases "bump_ptr fl = bump_end fl")
  case True
  then have "put_back fl = Ok (fl\<lparr>bump_ptr := ALIGN_U32, bump_end := ALIGN_U32\<rparr>)" by (simp add: put_back_def ALIGN_U32_def)
  then show ?thesis using that freed_refl [OF fl_ok_no_bump [OF ok]] True by simp
next
  case False
  let ?g = "fl\<lparr>bump_ptr := ALIGN_U32, bump_end := ALIGN_U32\<rparr>" and ?b = "(bump_ptr fl, bump_end fl - bump_ptr fl)"
  have le: "unat (bump_ptr fl) < unat (bump_end fl)"
    using ok False by (auto simp: fl_ok_def word_le_nat_alt le_less word_unat_eq_iff)
  then have u: "unat (bump_end fl - bump_ptr fl) = unat (bump_end fl) - unat (bump_ptr fl)" by (simp add: unat_u32_sub)
  have b: "block_in (usable_end (fl_capacity ?g)) ?b" using ok le u by (auto simp: fl_ok_def block_in_def)
  moreover have "clear ?g (unat (fst ?b)) (unat (snd ?b))"
    using ok le u by (auto simp: fl_ok_def clear_def ALIGN_U32_def)
  ultimately obtain fl' where f: "dealloc_impl (fst ?b) (snd ?b) ?g = Ok fl'" "freed ?g (region ?b) fl'"
    using dealloc_impl_ok [OF fl_ok_no_bump [OF ok], of "fst ?b" "snd ?b"] by auto
  have "16 \<le> unat (bump_end fl) - unat (bump_ptr fl)" using b u by (auto simp: block_in_def intro: dvd_imp_le)
  then have "put_back fl = Ok fl'" using f(1) u by (simp add: put_back_def insert_free_block_def ALIGN_U32_def word_le_nat_alt)
  moreover have "region ?b = {unat (bump_ptr fl) ..< unat (bump_end fl)}" using le u by (simp add: region_def)
  ultimately show ?thesis using that f(2) by simp
qed

lemma put_back_ok:
  assumes ok: "fl_ok fl"
  obtains fl' where "put_back fl = Ok fl'" "fl_ok fl'" "fl_capacity fl' = fl_capacity fl" "free_bytes fl' = free_bytes fl"
    "\<And>q k. 0 < k \<Longrightarrow> 16 \<le> q \<Longrightarrow> clear fl q k \<Longrightarrow> clear fl' q k"
proof -
  let ?g = "fl\<lparr>bump_ptr := ALIGN_U32, bump_end := ALIGN_U32\<rparr>"
  obtain fl' where f: "put_back fl = Ok fl'" "freed ?g {unat (bump_ptr fl) ..< unat (bump_end fl)} fl'"
    by (rule put_back_freed [OF ok])
  have "free_bytes fl = free_bytes ?g \<union> {unat (bump_ptr fl) ..< unat (bump_end fl)}" by (simp add: free_bytes_def)
  moreover have "clear fl' q k" if "0 < k" "16 \<le> q" "clear fl q k" for q k
  proof -
    have "clear ?g q k" using that by (auto simp: clear_def ALIGN_U32_def)
    moreover have "{q ..< q + k} \<inter> {unat (bump_ptr fl) ..< unat (bump_end fl)} = {}" using that(3) by (auto simp: clear_def)
    ultimately show ?thesis using f(2) that(1) unfolding freed_def by blast
  qed
  ultimately show ?thesis using that f by (auto simp: freed_def)
qed

lemma remove_from_keeps_bump_end: "remove_from_block_len_to_index i n fl = Ok fl' \<Longrightarrow> bump_end fl' = bump_end fl"
  by (auto simp: remove_from_block_len_to_index_def Let_def split: option.splits)

lemma update_keeps_bump_end: "update_block_len i n fl = Ok fl' \<Longrightarrow> bump_end fl' = bump_end fl"
  by (cases "map_of (free_block_index_to_len fl) i") (auto simp: update_block_len_def set_block_len_def)

lemmas keeps_bump_end = remove_from_keeps_bump_end update_keeps_bump_end
lemmas keeps_bump_end_defs = set_block_len_def add_to_block_len_def remove_block_def Let_def

lemma merge_block_keeps_bump_end: "merge_block i n fl = Ok fl' \<Longrightarrow> bump_end fl' = bump_end fl"
  unfolding merge_block_def Let_def
  by (auto simp: keeps_bump_end_defs and_then_Ok_iff split: option.splits if_splits dest!: keeps_bump_end)

lemma absorb_last_keeps_bump_end: "absorb_last fl = Ok fl' \<Longrightarrow> bump_end fl' = bump_end fl"
  by (auto simp: absorb_last_def keeps_bump_end_defs split: option.splits if_splits dest!: keeps_bump_end)

lemma dealloc_keeps_bump_end: "dealloc_impl i n fl = Ok fl' \<Longrightarrow> bump_end fl \<noteq> i \<Longrightarrow> bump_end fl' = bump_end fl"
  by (auto simp: dealloc_impl_def and_then_Ok_iff split: if_splits dest!: merge_block_keeps_bump_end absorb_last_keeps_bump_end)

lemma put_back_no_bump:
  assumes ok: "fl_ok fl" and f: "put_back fl = Ok fl'" "fl_ok fl'" and p: "unat (bump_ptr fl) \<noteq> 16"
  shows "bump_ptr fl' = bump_end fl'"
proof -
  have "ALIGN_U32 \<noteq> bump_ptr fl" using p by (auto simp: ALIGN_U32_def)
  then have "bump_end fl' = ALIGN_U32"
    using f(1) dealloc_keeps_bump_end [of "bump_ptr fl" _ "fl\<lparr>bump_ptr := ALIGN_U32, bump_end := ALIGN_U32\<rparr>"]
    by (auto simp: put_back_def Let_def insert_free_block_def split: if_splits)
  then show ?thesis using f(2) by (auto simp: fl_ok_def ALIGN_U32_def word_le_nat_alt word_unat_eq_iff)
qed

lemma find_block_ok:
  assumes "maps_ok fl"
  shows "find_block n fl = Some (i, l) \<Longrightarrow> (i, l) \<in> by_index fl \<and> n \<le> l"
    "find_block n fl = None \<Longrightarrow> b \<in> by_index fl \<Longrightarrow> snd b < n"
proof -
  have d: "distinct (map fst (free_block_len_to_indices fl))"
    using assms by (simp add: maps_ok_def maps_wf_def bt_wf_def strict_sorted_iff)
  have eq: "by_len fl = by_index fl" using assms by (simp add: maps_ok_def)
  have mem: "(l, s) \<in> set (bt_range (\<lambda>k. n \<le> k) (free_block_len_to_indices fl)) \<longleftrightarrow>
      n \<le> l \<and> map_of (free_block_len_to_indices fl) l = Some s" for l s
    using d by (auto simp: bt_range_def)
  show "(i, l) \<in> by_index fl \<and> n \<le> l" if f: "find_block n fl = Some (i, l)"
  proof -
    obtain s where s: "List.find (\<lambda>(block_len, indices). indices \<noteq> []) (bt_range (\<lambda>k. n \<le> k) (free_block_len_to_indices fl)) = Some (l, s)"
      "i = hd s" using f by (auto simp: find_block_def)
    then have "s \<noteq> []" "(l, s) \<in> set (bt_range (\<lambda>k. n \<le> k) (free_block_len_to_indices fl))"
      by (auto simp: find_Some_iff in_set_conv_nth)
    then show ?thesis using mem s(2) unfolding eq [symmetric] by (auto simp: by_len_def)
  qed
  show "snd b < n" if f: "find_block n fl = None" and b: "b \<in> by_index fl" for b
  proof (rule ccontr)
    assume "\<not> snd b < n"
    moreover obtain s where "map_of (free_block_len_to_indices fl) (snd b) = Some s" "s \<noteq> []"
      using b unfolding eq [symmetric] by (fastforce simp: by_len_def)
    ultimately have s: "(snd b, s) \<in> set (bt_range (\<lambda>k. n \<le> k) (free_block_len_to_indices fl))" "s \<noteq> []"
      by (simp_all add: mem not_less)
    then show False using f unfolding find_block_def map_option_is_None find_None_iff by auto
  qed
qed

lemma remove_block_commutes:
  assumes "remove_from_block_len_to_index i l (remove_block i fl) = Ok fl'"
  obtains g where "remove_from_block_len_to_index i l fl = Ok g" "remove_block i g = fl'"
  using assms that by (auto simp: remove_from_block_len_to_index_def remove_block_def Let_def split: option.splits)

lemma take_out: "F = V \<union> L \<Longrightarrow> L = r \<union> T \<Longrightarrow> r \<inter> T = {} \<Longrightarrow> V \<inter> r = {} \<Longrightarrow> B \<inter> r = {} \<Longrightarrow> V \<union> T \<union> B = F \<union> B - r"
  by blast

lemma take_block_ok:
  assumes ok: "fl_ok fl" and il: "(i, l) \<in> by_index fl" and n: "16 dvd unat n" "0 < unat n" "n \<le> l"
    and h: "maps_ok h" "by_index h = by_index fl - {(i, l)}" "fl_capacity h = fl_capacity fl" "bump_ptr h = i + n" "bump_end h = i + l"
  shows "fl_ok h" "block_in (usable_end (fl_capacity fl)) (i, n)" "clear h (unat i) (unat n)"
    "\<And>q k. clear fl q k \<Longrightarrow> clear h q k" "region (i, n) \<subseteq> free_bytes fl"
    "free_bytes h \<union> {unat (bump_ptr fl) ..< unat (bump_end fl)} = free_bytes fl - region (i, n)"
proof -
  have bi: "block_in (usable_end (fl_capacity fl)) (i, l)" and nl: "unat n \<le> unat l"
    using ok il n(3) by (auto simp: fl_ok_def blocks_ok_def word_le_nat_alt)
  have e: "unat (i + l) = unat i + unat l" "unat (i + n) = unat i + unat n"
    using bi nl by (auto simp: block_in_def intro!: unat_u32_add [where c = "usable_end (fl_capacity fl)"])
  have order: "unat (fst b) + unat (snd b) < unat (fst c)" if "b \<in> by_index fl" "c \<in> by_index fl" "fst b < fst c" for b c
    using ok that by (simp add: fl_ok_def blocks_ok_def)
  have away: "unat (fst d) + unat (snd d) < unat i \<or> unat i + unat l < unat (fst d)" if d: "d \<in> by_index fl - {(i, l)}" for d
  proof -
    have "fst d \<noteq> i" using d il block_functional [of d fl "(i, l)"] by auto
    then have "fst d < i \<or> i < fst d" by auto
    then show ?thesis using order [of d "(i, l)"] order [of "(i, l)" d] il d by auto
  qed
  have B: "16 \<le> unat i" "16 dvd unat i" "16 dvd unat l" "unat i + unat l \<le> unat (usable_end (fl_capacity fl))"
    using bi by (simp_all add: block_in_def)
  have "blocks_ok h" using ok h by (auto simp: fl_ok_def blocks_ok_def)
  moreover have "unat i + unat l \<le> unat (fst d) \<or> unat (fst d) + unat (snd d) \<le> unat i + unat n" if "d \<in> by_index fl - {(i, l)}" for d
    using away [OF that] by auto
  ultimately show "fl_ok h" unfolding fl_ok_def h word_le_nat_alt e using B nl n(1) by simp
  show "block_in (usable_end (fl_capacity fl)) (i, n)" using bi n nl by (auto simp: block_in_def)
  show "clear h (unat i) (unat n)" unfolding clear_def h(2,4) using away nl e by force
  show "clear h q k" if "clear fl q k" for q k using that il e nl unfolding clear_def h(2,4,5) by auto
  show "region (i, n) \<subseteq> free_bytes fl" using il nl by (force simp: free_bytes_def region_def)
  have bump: "unat (bump_end fl) \<le> unat i \<or> unat i + unat l \<le> unat (bump_ptr fl)" using ok il by (auto simp: fl_ok_def)
  have "region (i, l) = region (i, n) \<union> {unat (i + n) ..< unat (i + l)}" "region (i, n) \<inter> {unat (i + n) ..< unat (i + l)} = {}"
    unfolding e using nl by (auto simp: region_def)
  moreover have "region d \<inter> region (i, n) = {}" if "d \<in> by_index fl - {(i, l)}" for d using away [OF that] nl by (auto simp: region_def)
  then have "\<Union> (region ` (by_index fl - {(i, l)})) \<inter> region (i, n) = {}" by blast
  moreover have "{unat (bump_ptr fl) ..< unat (bump_end fl)} \<inter> region (i, n) = {}" using bump nl by (auto simp: region_def)
  moreover have "\<Union> (region ` by_index fl) = \<Union> (region ` (by_index fl - {(i, l)})) \<union> region (i, l)" using il by blast
  ultimately show "free_bytes h \<union> {unat (bump_ptr fl) ..< unat (bump_end fl)} = free_bytes fl - region (i, n)"
    unfolding free_bytes_def h(2,4,5) by (intro take_out) assumption+
qed

lemma alloc_slow_ok:
  assumes ok: "fl_ok fl" and n: "16 dvd unat n" "0 < unat n"
  obtains r fl' where "alloc_slow n fl = Ok (r, fl')" "took fl n r fl'"
proof -
  obtain g where g: "put_back fl = Ok g" "fl_ok g" "fl_capacity g = fl_capacity fl" "free_bytes g = free_bytes fl"
    "\<And>q k. 0 < k \<Longrightarrow> 16 \<le> q \<Longrightarrow> clear fl q k \<Longrightarrow> clear g q k" by (rule put_back_ok [OF ok]) blast
  have mok: "maps_ok g" using g(2) by (simp add: fl_ok_def blocks_ok_def)
  show ?thesis
  proof (cases "find_block n g")
    case None
    then have "alloc_slow n fl = Ok (None, g)" by (simp add: alloc_slow_put_back g(1))
    moreover have "took fl n None g" using g find_block_ok(2) [OF mok None] by (simp add: took_def)
    ultimately show ?thesis using that by blast
  next
    case (Some il)
    obtain i l where il: "il = (i, l)" by (cases il)
    have b: "(i, l) \<in> by_index g" "n \<le> l" using find_block_ok(1) [OF mok] Some il by auto
    obtain h where h: "remove_from_block_len_to_index i l (remove_block i g) = Ok h" "maps_ok h"
      "by_index h = by_index g - {(i, l)}" "same_bump g h" by (rule drop_block [OF mok b(1)])
    obtain g' where g': "remove_from_block_len_to_index i l g = Ok g'" "remove_block i g' = h"
      by (rule remove_block_commutes [OF h(1)])
    let ?h = "h\<lparr>bump_ptr := i + n, bump_end := i + l\<rparr>"
    note t = take_block_ok [OF g(2) b(1) n b(2), of ?h]
    have eqs: "maps_ok ?h" "by_index ?h = by_index g - {(i, l)}" "fl_capacity ?h = fl_capacity g" "bump_ptr ?h = i + n" "bump_end ?h = i + l"
      using h by (simp_all add: same_bump_def)
    note t = t [OF this]
    have "{unat (bump_ptr g) ..< unat (bump_end g)} = {}" if "unat (bump_ptr fl) \<noteq> 16"
      using put_back_no_bump [OF ok g(1,2) that] by simp
    then have "took fl n (Some i) ?h" using t g(3-5) eqs(3) unfolding took_def option.case by (auto simp del: atLeastLessThan_empty_iff)
    moreover have "i \<noteq> 0" using t(2) by (auto simp: block_in_def)
    then have "alloc_slow n fl = Ok (Some i, ?h)"
      using Some il g(1) g' by (simp add: alloc_slow_put_back Let_def nonzero_unchecked_def)
    ultimately show ?thesis using that by blast
  qed
qed

lemma alloc_impl_ok:
  assumes ok: "fl_ok fl" and n: "16 dvd unat n" "0 < unat n"
  shows "\<exists>r fl'. alloc_impl n fl = Ok (r, fl') \<and> took fl n r fl'"
proof (cases "unat (bump_ptr fl) + unat n \<le> unat (bump_end fl)")
  case True
  then have e: "unat (bump_ptr fl + n) = unat (bump_ptr fl) + unat n" by (rule unat_u32_add)
  have "unat (bump_ptr fl) + unat n < 2 ^ LENGTH(32)" using True unsigned_less [of "bump_end fl", where 'a = nat] by linarith
  then have "checked_add (bump_ptr fl) n = Some (bump_ptr fl + n)" unfolding checked_add_unat by simp
  moreover have "bump_ptr fl \<noteq> 0" using ok by (auto simp: fl_ok_def)
  ultimately have "alloc_impl n fl = Ok (Some (bump_ptr fl), fl\<lparr>bump_ptr := bump_ptr fl + n\<rparr>)"
    using True e by (simp add: alloc_impl_def Let_def nonzero_unchecked_def word_le_nat_alt)
  then show ?thesis using bump_alloc_ok [OF ok n True] by blast
next
  case False
  have "alloc_impl n fl = alloc_slow n fl"
  proof (cases "checked_add (bump_ptr fl) n")
    case (Some c)
    then have c: "c = bump_ptr fl + n" "unat (bump_ptr fl) + unat n < 2 ^ LENGTH(32)" by (auto simp: checked_add_unat split: if_splits)
    then have "unat c = unat (bump_ptr fl) + unat n" using unat_add_lem [of "bump_ptr fl" n] by blast
    then show ?thesis using Some False by (simp add: alloc_impl_def word_le_nat_alt)
  qed (simp add: alloc_impl_def)
  then show ?thesis using alloc_slow_ok [OF ok n] by metis
qed

section \<open>Creation and growth\<close>

lemma unat_round_down: "unat ((v :: 'a::len word) AND NOT (16 - 1)) = 16 * (unat v div 16)"
proof -
  have "v AND NOT (16 - 1) = push_bit 4 (drop_bit 4 v)"
  proof (rule bit_word_eqI)
    fix k
    assume "k < LENGTH('a)"
    have "bit (16 - 1 :: 'a word) k \<longleftrightarrow> bit (mask 4 :: 'a word) k" by (simp add: mask_eq_exp_minus_1)
    then show "bit (v AND NOT (16 - 1)) k \<longleftrightarrow> bit (push_bit 4 (drop_bit 4 v)) k"
      using \<open>k < LENGTH('a)\<close> by (auto simp: bit_simps)
  qed
  moreover have "16 * (unat v div 16) < 2 ^ LENGTH('a)" by (rule le_less_trans [OF times_div_less_eq_dividend unsigned_less])
  then have "take_bit LENGTH('a) (push_bit 4 (drop_bit 4 (take_bit LENGTH('a) (unat v)))) = 16 * (unat v div 16)"
    by (simp add: push_bit_eq_mult drop_bit_eq_div take_bit_nat_eq_self mult.commute)
  ultimately show ?thesis by (simp only: unsigned_push_bit_eq unsigned_drop_bit_eq)
qed

lemma unat_usable_end: "unat (usable_end cap) = 16 * (min (unat cap) 4294967295 div 16)"
proof (cases "cap \<le> 0xFFFFFFFF")
  case True
  then have c: "unat cap \<le> 4294967295" by (simp add: word_le_nat_alt)
  then have "unat (ucast cap :: u32) = unat cap" by (simp add: unsigned_ucast_eq take_bit_nat_eq_self)
  then show ?thesis using True c unfolding usable_end_def round_u32_down_to_pow2_def ALIGN_U32_def unat_round_down by (simp add: try_u32_def)
next
  case False
  then have c: "4294967295 \<le> unat cap" by (simp add: word_le_nat_alt)
  have "unat (- 1 :: u32) = 4294967295" by (simp add: unsigned_minus_1_eq_mask mask_eq_exp_minus_1)
  then show ?thesis using False c unfolding usable_end_def round_u32_down_to_pow2_def ALIGN_U32_def unat_round_down
    by (simp add: try_u32_def u32_MAX_def)
qed

lemma FreeList_new_bump: "bump_ptr (FreeList_new cap) = 16" "unat (bump_end (FreeList_new cap)) = max 16 (unat (usable_end cap))"
proof -
  define e where "e = (case try_u32 cap of Some e \<Rightarrow> e | None \<Rightarrow> u32_MAX)"
  define n where "n = round_u32_down_to_pow2 (saturating_sub_u32 e ALIGN_U32) ALIGN_U32"
  have u: "unat (usable_end cap) = 16 * (unat e div 16)"
    unfolding usable_end_def e_def [symmetric] round_u32_down_to_pow2_def ALIGN_U32_def by (rule unat_round_down)
  have "unat n = 16 * (unat (saturating_sub_u32 e ALIGN_U32) div 16)"
    unfolding n_def round_u32_down_to_pow2_def ALIGN_U32_def by (rule unat_round_down)
  also have "unat (saturating_sub_u32 e ALIGN_U32) = unat e - 16"
    by (auto simp: saturating_sub_u32_def ALIGN_U32_def word_le_nat_alt unat_u32_sub)
  finally have n: "unat n = 16 * ((unat e - 16) div 16)" .
  show "bump_ptr (FreeList_new cap) = 16" by (simp add: FreeList_new_def Let_def ALIGN_U32_def)
  show "unat (bump_end (FreeList_new cap)) = max 16 (unat (usable_end cap))"
  proof (cases "16 \<le> unat n")
    case True
    then have e16: "16 \<le> unat e" using n by (cases "16 \<le> unat e") simp_all
    then have "unat (16 :: u32) + unat n = unat (usable_end cap)" unfolding u n by (simp add: le_div_geq)
    then have "unat (16 + n) = unat (usable_end cap)" using unat_u32_add [of 16 n "usable_end cap"] by simp
    moreover have "bump_end (FreeList_new cap) = 16 + n"
      using True by (simp add: FreeList_new_def Let_def e_def n_def ALIGN_U32_def word_le_nat_alt)
    ultimately show ?thesis using \<open>unat 16 + unat n = unat (usable_end cap)\<close> by simp
  next
    case False
    then have "unat e div 16 \<le> 1" using n by (cases "16 \<le> unat e") (auto simp: le_div_geq)
    then show ?thesis unfolding u using False by (simp add: FreeList_new_def Let_def e_def n_def ALIGN_U32_def word_le_nat_alt)
  qed
qed

lemma FreeList_new_ok:
  "fl_ok (FreeList_new cap)" "fl_capacity (FreeList_new cap) = cap" "free_bytes (FreeList_new cap) = {16 ..< unat (usable_end cap)}"
proof -
  have m: "free_block_index_to_len (FreeList_new cap) = []" "free_block_len_to_indices (FreeList_new cap) = []"
    and c: "fl_capacity (FreeList_new cap) = cap" by (simp_all add: FreeList_new_def Let_def)
  show "fl_capacity (FreeList_new cap) = cap" by (rule c)
  have b: "by_index (FreeList_new cap) = {}" "maps_ok (FreeList_new cap)"
    by (simp_all add: by_index_def by_len_def maps_ok_def maps_wf_def bt_wf_def m)
  have "16 dvd unat (usable_end cap)" unfolding unat_usable_end by simp
  then show "fl_ok (FreeList_new cap)"
    using FreeList_new_bump [of cap] b by (auto simp: fl_ok_def blocks_ok_def word_le_nat_alt c max_def)
  show "free_bytes (FreeList_new cap) = {16 ..< unat (usable_end cap)}"
    using FreeList_new_bump [of cap] b by (auto simp: free_bytes_def)
qed

text \<open>Growth frees the bytes between the old and the new end of the usable memory.\<close>

lemma fl_ok_capacity:
  assumes "fl_ok fl" "unat (usable_end (fl_capacity fl)) \<le> unat (usable_end cap)"
  shows "fl_ok (fl\<lparr>fl_capacity := cap\<rparr>)"
  using assms by (fastforce simp: fl_ok_def blocks_ok_def block_in_def)

lemma unat_saturating_add: "unat a \<le> unat (saturating_add_u64 a b)"
  using unsigned_less [of a, where 'a = nat]
  by (auto simp: saturating_add_u64_def checked_add_unat unsigned_minus_1_eq_mask mask_eq_exp_minus_1 unat_word_ariths)

lemma add_capacity_ok:
  assumes ok: "fl_ok fl"
  shows "\<exists>fl'. add_capacity additional fl = Ok fl' \<and>
    freed (fl\<lparr>fl_capacity := saturating_add_u64 (fl_capacity fl) additional\<rparr>)
      {max 16 (unat (usable_end (fl_capacity fl))) ..< unat (usable_end (saturating_add_u64 (fl_capacity fl) additional))} fl'"
proof -
  define new where "new = saturating_add_u64 (fl_capacity fl) additional"
  define r where "r = round_usize_down_to_pow2 (fl_capacity fl) ALIGN_USIZE"
  let ?g = "fl\<lparr>fl_capacity := new\<rparr>" and ?old = "unat (usable_end (fl_capacity fl))"
  have "unat (fl_capacity fl) \<le> unat new" unfolding new_def by (rule unat_saturating_add)
  then have mono: "?old \<le> unat (usable_end new)" unfolding unat_usable_end by (simp add: div_le_mono)
  have okg: "fl_ok ?g" by (rule fl_ok_capacity [OF ok mono])
  have r: "unat r = 16 * (unat (fl_capacity fl) div 16)"
    unfolding r_def round_usize_down_to_pow2_def ALIGN_USIZE_def ALIGN_U32_def using unat_round_down [of "fl_capacity fl"] by simp
  show ?thesis
  proof (cases "try_u32 r")
    case None
    then have "4294967295 < unat r" by (simp add: try_u32_def word_le_nat_alt split: if_splits)
    then have "4294967295 \<le> unat (fl_capacity fl)" "4294967295 \<le> unat new"
      using r \<open>unat (fl_capacity fl) \<le> unat new\<close> by (auto intro: order.trans [OF _ times_div_less_eq_dividend [of 16]])
    then have "?old = unat (usable_end new)" unfolding unat_usable_end by simp
    moreover have "add_capacity additional fl = Ok ?g" using None by (simp add: add_capacity_def Let_def r_def new_def)
    ultimately show ?thesis using freed_refl [OF okg] by (simp add: new_def)
  next
    case (Some c)
    then have "unat r \<le> 4294967295" "c = ucast r" by (auto simp: try_u32_def word_le_nat_alt split: if_splits)
    moreover from this(1) have "unat (fl_capacity fl) \<le> 4294967295" unfolding r by presburger
    ultimately have c: "unat c = ?old" unfolding unat_usable_end using r by (simp add: unsigned_ucast_eq take_bit_nat_eq_self)
    define index where "index = (if c = 0 then ALIGN_U32 else c)"
    have d: "16 dvd unat c" unfolding c unat_usable_end by simp
    have "16 \<le> unat c" if "c \<noteq> 0" using that d by (intro dvd_imp_le) (simp_all add: unat_gt_0)
    then have index: "unat index = max 16 ?old" "16 dvd unat index"
      using c d by (auto simp: index_def ALIGN_U32_def max_def)
    have eq: "add_capacity additional fl = (if usable_end new \<le> index then Ok ?g else dealloc_impl index (usable_end new - index) ?g)"
      using Some by (auto simp: add_capacity_def Let_def r_def [symmetric] new_def [symmetric] index_def [symmetric] usable_end_def)
    show ?thesis
    proof (cases "usable_end new \<le> index")
      case True
      then show ?thesis using eq freed_refl [OF okg] index(1) by (simp add: new_def word_le_nat_alt)
    next
      case False
      let ?n = "usable_end new - index"
      have n: "unat ?n = unat (usable_end new) - unat index" and lt: "unat index < unat (usable_end new)"
        using False by (auto simp: word_le_nat_alt unat_u32_sub)
      have "16 dvd unat (usable_end new)" unfolding unat_usable_end by simp
      then have b: "block_in (usable_end (fl_capacity ?g)) (index, ?n)" using n lt index by (auto simp: block_in_def)
      have "clear ?g (unat index) (unat ?n)"
        using ok index(1) by (fastforce simp: clear_def fl_ok_def blocks_ok_def block_in_def)
      then obtain fl' where "dealloc_impl index ?n ?g = Ok fl'" "freed ?g (region (index, ?n)) fl'"
        using dealloc_impl_ok [OF okg b] by blast
      moreover have "region (index, ?n) = {max 16 ?old ..< unat (usable_end new)}" using n lt index(1) by (simp add: region_def)
      ultimately show ?thesis using eq False by (simp add: new_def)
    qed
  qed
qed

end
