(* ===== verification/Gc_Free_List_Use.thy ===== *)
theory Gc_Free_List_Use
  imports Gc_Free_List
begin

text \<open>
  What the garbage collectors rely on of their free list: over any sequence of allocations, releases and
  growth the blocks in use stay apart from each other and from the free memory, no operation panics, the
  integrity check passes, released memory comes back, and allocation fails only for want of memory, except
  for the memory the slow path loses.
\<close>

section \<open>The blocks in use\<close>

text \<open>
  The life of a free list in a collector: it is created for a heap of some size, objects are allocated
  through the aligned size and given back with it, and the heap grows. The second component is the set of
  blocks that are allocated and not yet given back.
\<close>

inductive fl_reach :: "FreeList \<Rightarrow> (u32 \<times> u32) set \<Rightarrow> bool" where
  reach_new: "fl_reach (FreeList_new capacity) {}"
| reach_alloc: "fl_reach fl live \<Longrightarrow> 0 < sz \<Longrightarrow> aligned_size sz = Some n \<Longrightarrow> alloc_fast n fl = Ok (Some p, fl') \<Longrightarrow>
    fl_reach fl' (insert (p, n) live)"
| reach_full: "fl_reach fl live \<Longrightarrow> 0 < sz \<Longrightarrow> aligned_size sz = Some n \<Longrightarrow> alloc_fast n fl = Ok (None, fl') \<Longrightarrow>
    fl_reach fl' live"
| reach_dealloc: "fl_reach fl live \<Longrightarrow> (p, n) \<in> live \<Longrightarrow> dealloc_fast p n fl = Ok fl' \<Longrightarrow> fl_reach fl' (live - {(p, n)})"
| reach_grow: "fl_reach fl live \<Longrightarrow> add_capacity additional fl = Ok fl' \<Longrightarrow> fl_reach fl' live"

definition live_ok :: "FreeList \<Rightarrow> (u32 \<times> u32) set \<Rightarrow> bool" where
  "live_ok fl live \<longleftrightarrow> fl_ok fl \<and>
     (\<forall>b \<in> live. block_in (usable_end (fl_capacity fl)) b \<and> clear fl (unat (fst b)) (unat (snd b))) \<and>
     (\<forall>b \<in> live. \<forall>c \<in> live. b \<noteq> c \<longrightarrow> region b \<inter> region c = {})"

lemma aligned_size_ok:
  assumes "aligned_size sz = Some n"
  shows "16 dvd unat n" "sz \<le> n" "unat n < unat sz + 16" "0 < sz \<Longrightarrow> 0 < unat n"
proof -
  have lt: "unat sz + 16 < 2 ^ LENGTH(32)" and n: "n = (sz + 16 - 1) AND NOT (16 - 1)"
    using assms by (auto simp: aligned_size_def ALIGN_U32_def checked_add_unat split: if_splits)
  have "unat (sz + 15) = unat sz + 15" using lt by (simp add: unat_word_ariths)
  then have u: "unat n = 16 * ((unat sz + 15) div 16)" unfolding n unat_round_down by (simp add: add.commute)
  then show "16 dvd unat n" "unat n < unat sz + 16" by simp_all
  show le: "sz \<le> n" unfolding word_le_nat_alt u by presburger
  show "0 < unat n" if "0 < sz" using le that by (simp add: word_le_nat_alt word_less_nat_alt)
qed

lemma clear_disjoint:
  assumes "clear fl (unat (fst b)) (unat (snd b))"
  shows "region b \<inter> free_bytes fl = {}"
  using assms clear_regions [OF assms] by (auto simp: free_bytes_def clear_def region_def)

lemma live_ok_took:
  assumes ok: "live_ok fl live" and t: "took fl n r fl'"
  shows "live_ok fl' (case r of None \<Rightarrow> live | Some p \<Rightarrow> insert (p, n) live)"
proof -
  have keep: "block_in (usable_end (fl_capacity fl')) b \<and> clear fl' (unat (fst b)) (unat (snd b))" "region b \<inter> free_bytes fl = {}"
    if "b \<in> live" for b
    using ok t that clear_disjoint by (auto simp: live_ok_def took_def block_in_def)
  show ?thesis
  proof (cases r)
    case None
    then show ?thesis using ok t keep by (auto simp: live_ok_def took_def)
  next
    case (Some p)
    then have "region (p, n) \<subseteq> free_bytes fl" "block_in (usable_end (fl_capacity fl')) (p, n)" "clear fl' (unat p) (unat n)" "fl_ok fl'"
      using t by (auto simp: took_def)
    moreover from this(1) have "region b \<inter> region (p, n) = {}" if "b \<in> live" for b using keep(2) [OF that] by blast
    ultimately show ?thesis using ok Some keep by (auto simp: live_ok_def Int_commute)
  qed
qed

lemma live_ok_freed:
  assumes ok: "live_ok fl live" and l: "live' \<subseteq> live" and f: "freed fl r fl'" and d: "\<And>b. b \<in> live' \<Longrightarrow> region b \<inter> r = {}"
  shows "live_ok fl' live'"
proof -
  have "block_in (usable_end (fl_capacity fl')) b \<and> clear fl' (unat (fst b)) (unat (snd b))" if "b \<in> live'" for b
    using ok l f d [OF that] that by (auto simp: live_ok_def freed_def block_in_def region_def)
  moreover have "\<forall>b \<in> live'. \<forall>c \<in> live'. b \<noteq> c \<longrightarrow> region b \<inter> region c = {}" using ok l unfolding live_ok_def by blast
  ultimately show ?thesis using f by (simp add: live_ok_def freed_def)
qed

lemma live_ok_dealloc:
  assumes ok: "live_ok fl live" and b: "(p, n) \<in> live"
  obtains fl' where "dealloc_fast p n fl = Ok fl'" "freed fl (region (p, n)) fl'" "live_ok fl' (live - {(p, n)})"
proof -
  have "block_in (usable_end (fl_capacity fl)) (p, n)" "clear fl (unat p) (unat n)" "fl_ok fl" using ok b by (auto simp: live_ok_def)
  then obtain fl' where "dealloc_fast p n fl = Ok fl'" "freed fl (region (p, n)) fl'"
    using dealloc_impl_ok unfolding dealloc_fast_def by blast
  moreover from this(2) have "live_ok fl' (live - {(p, n)})"
    by (rule live_ok_freed [OF ok Diff_subset]) (use ok b in \<open>auto simp: live_ok_def\<close>)
  ultimately show ?thesis using that by blast
qed

lemma live_ok_grow:
  assumes ok: "live_ok fl live"
  obtains fl' where "add_capacity additional fl = Ok fl'" "live_ok fl' live"
proof -
  let ?cap = "saturating_add_u64 (fl_capacity fl) additional" and ?old = "unat (usable_end (fl_capacity fl))"
  obtain fl' where f: "add_capacity additional fl = Ok fl'"
    "freed (fl\<lparr>fl_capacity := ?cap\<rparr>) {max 16 ?old ..< unat (usable_end ?cap)} fl'"
    using add_capacity_ok [of fl additional] ok unfolding live_ok_def by blast
  have mono: "?old \<le> unat (usable_end ?cap)"
    unfolding unat_usable_end using unat_saturating_add [of "fl_capacity fl" additional] by (simp add: div_le_mono)
  then have g: "live_ok (fl\<lparr>fl_capacity := ?cap\<rparr>) live"
    using ok fl_ok_capacity [of fl ?cap] by (force simp: live_ok_def block_in_def clear_def)
  have "region b \<inter> {max 16 ?old ..< unat (usable_end ?cap)} = {}" if "b \<in> live" for b
    using ok that by (fastforce simp: live_ok_def block_in_def region_def)
  then have "live_ok fl' live" by (intro live_ok_freed [OF g order.refl f(2)]) simp
  then show ?thesis using that f(1) by blast
qed

lemma alloc_fast_ok:
  assumes "fl_ok fl" "0 < sz" "aligned_size sz = Some n"
  obtains r fl' where "alloc_fast n fl = Ok (r, fl')" "took fl n r fl'"
  using alloc_impl_ok [OF assms(1) aligned_size_ok(1) [OF assms(3)] aligned_size_ok(4) [OF assms(3,2)]]
  unfolding alloc_fast_def by blast

lemma fl_reach_ok: "fl_reach fl live \<Longrightarrow> live_ok fl live"
proof (induction rule: fl_reach.induct)
  case (reach_new capacity)
  then show ?case by (simp add: live_ok_def FreeList_new_ok)
next
  case (reach_alloc fl live sz n p fl')
  then have "took fl n (Some p) fl'" using alloc_fast_ok [of fl sz n] by (auto simp: live_ok_def)
  then show ?case using live_ok_took [OF reach_alloc.IH] by fastforce
next
  case (reach_full fl live sz n fl')
  then have "took fl n None fl'" using alloc_fast_ok [of fl sz n] by (auto simp: live_ok_def)
  then show ?case using live_ok_took [OF reach_full.IH] by fastforce
next
  case (reach_dealloc fl live p n fl')
  then show ?case by (metis live_ok_dealloc res.inject(1))
next
  case (reach_grow fl live additional fl')
  then show ?case by (metis live_ok_grow res.inject(1))
qed

section \<open>The integrity check\<close>

text \<open>
  \<open>check_integrity\<close>, compiled in for fuzzing builds: \<open>False\<close> where one of its assertions fails.
\<close>

fun check_blocks :: "FreeList \<Rightarrow> u32 option \<Rightarrow> (u32 \<times> u32) list \<Rightarrow> bool" where
  "check_blocks fl prev_end [] \<longleftrightarrow> True"
| "check_blocks fl prev_end ((index, len) # blocks) \<longleftrightarrow>
     (let end' = index + len in
      ucast end' \<le> fl_capacity fl \<and>
      (case prev_end of Some p \<Rightarrow> p < index | None \<Rightarrow> True) \<and>
      index mod ALIGN_U32 = 0 \<and> len mod ALIGN_U32 = 0 \<and>
      (case map_of (free_block_len_to_indices fl) len of Some indices \<Rightarrow> index \<in> set indices | None \<Rightarrow> False) \<and>
      check_blocks fl (Some end') blocks)"

definition check_buckets :: "FreeList \<Rightarrow> bool" where
  "check_buckets fl \<longleftrightarrow>
     list_all (\<lambda>(len, indices). indices \<noteq> [] \<and>
       list_all (\<lambda>idx. map_of (free_block_index_to_len fl) idx = Some len) indices) (free_block_len_to_indices fl)"

definition check_bump :: "FreeList \<Rightarrow> bool" where
  "check_bump fl \<longleftrightarrow>
     bump_ptr fl \<le> bump_end fl \<and> bump_ptr fl \<noteq> 0 \<and> bump_end fl \<noteq> 0 \<and>
     (bump_ptr fl < bump_end fl \<longrightarrow>
        bump_ptr fl mod ALIGN_U32 = 0 \<and> bump_end fl mod ALIGN_U32 = 0 \<and> ucast (bump_end fl) \<le> fl_capacity fl \<and>
        list_all (\<lambda>(index, len). bump_end fl \<le> index \<or> index + len \<le> bump_ptr fl) (free_block_index_to_len fl))"

definition check_integrity :: "FreeList \<Rightarrow> bool" where
  "check_integrity fl \<longleftrightarrow> check_blocks fl None (free_block_index_to_len fl) \<and> check_buckets fl \<and> check_bump fl"

lemma usable_end_le: "unat (usable_end cap) \<le> unat cap"
  unfolding unat_usable_end by linarith

lemma within_capacity: "unat (e :: u32) \<le> unat (usable_end cap) \<Longrightarrow> ucast e \<le> cap"
  using usable_end_le [of cap] by (simp add: word_le_nat_alt unsigned_ucast_eq le_trans [OF take_bit_nat_less_eq_self])

lemma mod_ALIGN: "16 dvd unat i \<Longrightarrow> i mod ALIGN_U32 = 0"
  by (simp add: ALIGN_U32_def word_unat_eq_iff unat_mod dvd_eq_mod_eq_0)

lemma check_blocks_ok:
  assumes ok: "blocks_ok fl"
  shows "set bs \<subseteq> by_index fl \<Longrightarrow> sorted_wrt (<) (map fst bs) \<Longrightarrow>
    (\<forall>p b. prev_end = Some p \<longrightarrow> b \<in> set bs \<longrightarrow> p < fst b) \<Longrightarrow> check_blocks fl prev_end bs"
proof (induction bs arbitrary: prev_end)
  case (Cons b bs)
  obtain i l where b: "b = (i, l)" by (cases b)
  have bi: "block_in (usable_end (fl_capacity fl)) (i, l)" and il: "(i, l) \<in> by_index fl" using Cons.prems(1) ok b by (auto simp: blocks_ok_def)
  then have e: "unat (i + l) = unat i + unat l" "ucast (i + l) \<le> fl_capacity fl"
    using unat_u32_add [of i l "usable_end (fl_capacity fl)"] within_capacity [of "i + l"] by (auto simp: block_in_def)
  have "(i, l) \<in> by_len fl" using il ok by (simp add: blocks_ok_def maps_ok_def)
  moreover have "check_blocks fl (Some (i + l)) bs"
  proof (rule Cons.IH)
    show "\<forall>p c. Some (i + l) = Some p \<longrightarrow> c \<in> set bs \<longrightarrow> p < fst c"
      using ok Cons.prems(1,2) il b e(1) by (fastforce simp: blocks_ok_def word_less_nat_alt)
  qed (use Cons.prems b in auto)
  ultimately show ?case using Cons.prems(3) bi e(2) b
    by (auto simp: Let_def block_in_def mod_ALIGN by_len_def split: option.splits)
qed simp

lemma fl_ok_check_integrity:
  assumes ok: "fl_ok fl"
  shows "check_integrity fl"
proof -
  have bok: "blocks_ok fl" and mok: "maps_ok fl" using ok by (simp_all add: fl_ok_def blocks_ok_def)
  then have wf: "bt_wf (free_block_index_to_len fl)" "bt_wf (free_block_len_to_indices fl)" "by_len fl = by_index fl"
    by (simp_all add: maps_ok_def maps_wf_def)
  have d: "distinct (map fst (free_block_index_to_len fl))" "distinct (map fst (free_block_len_to_indices fl))"
    using wf(1,2) by (simp_all add: bt_wf_def strict_sorted_iff)
  have set: "set (free_block_index_to_len fl) = by_index fl" using d(1) by (auto simp: by_index_def)
  have "check_blocks fl None (free_block_index_to_len fl)"
    by (rule check_blocks_ok [OF bok]) (use wf(1) set in \<open>auto simp: bt_wf_def\<close>)
  moreover have "check_buckets fl"
    unfolding check_buckets_def list_all_iff
  proof (intro ballI, clarify)
    fix l s
    assume "(l, s) \<in> set (free_block_len_to_indices fl)"
    then have m: "map_of (free_block_len_to_indices fl) l = Some s" using d(2) by simp
    then have "map_of (free_block_index_to_len fl) i = Some l" if "i \<in> set s" for i
      using that wf(3) by (auto simp: by_len_def by_index_def)
    then show "s \<noteq> [] \<and> (\<forall>i \<in> set s. map_of (free_block_index_to_len fl) i = Some l)"
      using maps_wf_bucket [OF _ m] mok by (simp add: maps_ok_def bucket_ok_def)
  qed
  moreover have "check_bump fl"
  proof -
    have "bump_end fl \<le> i \<or> i + l \<le> bump_ptr fl" if "(i, l) \<in> by_index fl" for i l
      using ok that unat_u32_add [of i l "usable_end (fl_capacity fl)"]
      by (fastforce simp: fl_ok_def blocks_ok_def block_in_def word_le_nat_alt)
    moreover have "bump_ptr fl \<noteq> 0" "bump_end fl \<noteq> 0" "bump_ptr fl \<le> bump_end fl" "16 dvd unat (bump_ptr fl)" "16 dvd unat (bump_end fl)"
      using ok by (auto simp: fl_ok_def word_le_nat_alt)
    moreover have "ucast (bump_end fl) \<le> fl_capacity fl" if "bump_ptr fl < bump_end fl"
      using ok that by (intro within_capacity) (auto simp: fl_ok_def word_less_nat_alt)
    ultimately show ?thesis unfolding check_bump_def by (auto simp: list_all_iff set mod_ALIGN)
  qed
  ultimately show ?thesis by (simp add: check_integrity_def)
qed

section \<open>What the collectors rely on\<close>

text \<open>C3: In every state a free list can reach, the blocks in use lie in the usable memory, are aligned, disjoint
  from each other and disjoint from every byte the free list may hand out, and the list is well formed.
\<close>

theorem free_list_reachable:
  assumes "fl_reach fl live"
  shows "fl_ok fl \<and> (\<forall>b \<in> live. 16 dvd unat (fst b) \<and> region b \<subseteq> {16 ..< unat (usable_end (fl_capacity fl))} \<and> region b \<inter> free_bytes fl = {}) \<and>
    (\<forall>b \<in> live. \<forall>c \<in> live. b \<noteq> c \<longrightarrow> region b \<inter> region c = {})"
proof -
  have "live_ok fl live" by (rule fl_reach_ok [OF assms])
  then have "fl_ok fl" "\<forall>b \<in> live. \<forall>c \<in> live. b \<noteq> c \<longrightarrow> region b \<inter> region c = {}"
    by (simp_all add: live_ok_def)
  moreover have b: "block_in (usable_end (fl_capacity fl)) b" "region b \<inter> free_bytes fl = {}" if "b \<in> live" for b
    using \<open>live_ok fl live\<close> that clear_disjoint by (simp_all add: live_ok_def)
  moreover have "16 dvd unat (fst b) \<and> region b \<subseteq> {16 ..< unat (usable_end (fl_capacity fl))}" if "b \<in> live" for b
    using b(1) [OF that] by (auto simp: block_in_def region_def)
  ultimately show ?thesis by blast
qed

text \<open>A free list written out, for the concrete runs below.\<close>

abbreviation flist :: "u64 \<Rightarrow> (u32 \<times> u32) list \<Rightarrow> (u32 \<times> u32 list) list \<Rightarrow> u32 \<Rightarrow> u32 \<Rightarrow> FreeList" where
  "flist capacity blocks buckets p e \<equiv> \<lparr>fl_capacity = capacity, free_block_index_to_len = blocks,
     free_block_len_to_indices = buckets, bump_ptr = p, bump_end = e\<rparr>"

lemma reach_two_blocks: "fl_reach (flist 128 [] [] 80 128) {(48, 32), (16, 32)}"
proof -
  have "alloc_fast 32 (FreeList_new 128) = Ok (Some 16, flist 128 [] [] 48 128)" "aligned_size 30 = Some 32"
    "alloc_fast 32 (flist 128 [] [] 48 128) = Ok (Some 48, flist 128 [] [] 80 128)" by code_simp+
  then show ?thesis using reach_alloc [OF reach_alloc [OF reach_new, of 30 32 128 16], of _ 30 32 48] by simp
qed

theorem free_list_reachable_witness:
  "fl_reach (flist 128 [] [] 80 128) {(48, 32), (16, 32)} \<and> region (16, 32) \<inter> region (48, 32) = {} \<and>
   region (16, 32) \<inter> free_bytes (flist 128 [] [] 80 128) = {}"
  using free_list_reachable [OF reach_two_blocks] reach_two_blocks by simp

text \<open>C4: In every reachable state no operation panics or returns a null pointer: allocating any size that has an aligned
  size, giving back any block in use, and growing all return.
\<close>

theorem free_list_never_panics:
  assumes "fl_reach fl live"
  shows "(0 < sz \<and> aligned_size sz = Some n \<longrightarrow> (\<exists>r fl'. alloc_fast n fl = Ok (r, fl') \<and> r \<noteq> Some 0)) \<and>
    ((p, k) \<in> live \<longrightarrow> (\<exists>fl'. dealloc_fast p k fl = Ok fl')) \<and> (\<exists>fl'. add_capacity additional fl = Ok fl')"
proof -
  have ok: "live_ok fl live" by (rule fl_reach_ok [OF assms])
  have "\<exists>r fl'. alloc_fast n fl = Ok (r, fl') \<and> r \<noteq> Some 0" if z: "0 < sz" "aligned_size sz = Some n"
  proof -
    obtain r fl' where "alloc_fast n fl = Ok (r, fl')" "took fl n r fl'"
      using alloc_fast_ok [OF _ z, of fl] ok unfolding live_ok_def by blast
    then show ?thesis by (auto simp: took_def block_in_def)
  qed
  moreover have "\<exists>fl'. dealloc_fast p k fl = Ok fl'" if "(p, k) \<in> live" using live_ok_dealloc [OF ok that] by blast
  moreover have "\<exists>fl'. add_capacity additional fl = Ok fl'" using live_ok_grow [OF ok] by blast
  ultimately show ?thesis by blast
qed

theorem free_list_never_panics_witness:
  "fl_reach (flist 128 [] [] 80 128) {(48, 32), (16, 32)} \<and> aligned_size 100 = Some 112 \<and>
   (\<exists>r fl'. alloc_fast 112 (flist 128 [] [] 80 128) = Ok (r, fl') \<and> r \<noteq> Some 0) \<and>
   (\<exists>fl'. dealloc_fast 16 32 (flist 128 [] [] 80 128) = Ok fl') \<and> (\<exists>fl'. add_capacity 5 (flist 128 [] [] 80 128) = Ok fl')"
proof -
  have "aligned_size 100 = Some 112" by code_simp
  then show ?thesis using free_list_never_panics [OF reach_two_blocks, of 100 112 16 32 5] reach_two_blocks by simp
qed

text \<open>C26: A block that is allocated and given back at once: the allocation takes exactly its bytes, and afterwards the
  free bytes are what they were, wherever the block was found and however it was merged, unless the bump region
  started at the first aligned index.
\<close>

theorem alloc_dealloc_roundtrip:
  assumes "fl_reach fl live" "0 < sz" "aligned_size sz = Some n" "alloc_fast n fl = Ok (Some p, fl')" "bump_ptr fl \<noteq> 16"
  shows "free_bytes fl' = free_bytes fl - region (p, n) \<and> region (p, n) \<subseteq> free_bytes fl \<and>
    (\<exists>fl''. dealloc_fast p n fl' = Ok fl'' \<and> free_bytes fl'' = free_bytes fl)"
proof -
  have ok: "fl_ok fl" using fl_reach_ok [OF assms(1)] by (simp add: live_ok_def)
  have "unat (bump_ptr fl) \<noteq> 16" using assms(5) by (auto simp: word_unat_eq_iff)
  moreover have t: "took fl n (Some p) fl'" by (rule alloc_fast_ok [OF ok assms(2,3)]) (use assms(4) in simp)
  ultimately have eq: "free_bytes fl' = free_bytes fl - region (p, n)" "region (p, n) \<subseteq> free_bytes fl" by (auto simp: took_def)
  have "live_ok fl' (insert (p, n) live)" using live_ok_took [OF fl_reach_ok [OF assms(1)] t] by simp
  then obtain fl'' where "dealloc_fast p n fl' = Ok fl''" "freed fl' (region (p, n)) fl''"
    using live_ok_dealloc [of fl' "insert (p, n) live" p n] by blast
  then show ?thesis using eq by (auto simp: freed_def)
qed

theorem alloc_dealloc_roundtrip_witness:
  "alloc_fast 48 (flist 128 [] [] 80 128) = Ok (Some 80, flist 128 [] [] 128 128) \<and>
   (\<exists>fl''. dealloc_fast 80 48 (flist 128 [] [] 128 128) = Ok fl'' \<and> free_bytes fl'' = free_bytes (flist 128 [] [] 80 128))"
proof -
  have "alloc_fast 48 (flist 128 [] [] 80 128) = Ok (Some 80, flist 128 [] [] 128 128)" "aligned_size 48 = Some 48" by code_simp+
  then show ?thesis using alloc_dealloc_roundtrip [OF reach_two_blocks, of 48 48 80 "flist 128 [] [] 128 128"] by simp
qed

text \<open>C27: The integrity check of the free list, which fuzzing builds run after every operation, passes in every reachable
  state: blocks in range, aligned and not touching, the two maps consistent, the bump region valid and apart from
  the blocks.\<close>

theorem integrity_check_passes:
  assumes "fl_reach fl live"
  shows "check_integrity fl"
  using fl_ok_check_integrity fl_reach_ok [OF assms] by (simp add: live_ok_def)

theorem integrity_check_passes_witness:
  "fl_reach (flist 128 [] [] 80 128) {(48, 32), (16, 32)} \<and> check_integrity (flist 128 [] [] 80 128)"
  using integrity_check_passes [OF reach_two_blocks] reach_two_blocks by simp

text \<open>A run of bytes covered by blocks that do not touch lies in one of them.\<close>

lemma run_in_block:
  assumes ok: "blocks_ok fl" and n: "0 < n" and r: "{p ..< p + n} \<subseteq> (\<Union>b \<in> by_index fl. region b)"
  obtains b where "b \<in> by_index fl" "n \<le> unat (snd b)"
proof -
  obtain b where b: "b \<in> by_index fl" "p \<in> region b" using r n by force
  have "p + n \<le> unat (fst b) + unat (snd b)"
  proof (rule ccontr)
    let ?e = "unat (fst b) + unat (snd b)"
    assume "\<not> ?thesis"
    then have "?e \<in> {p ..< p + n}" using b(2) by (simp add: region_def)
    then obtain c where c: "c \<in> by_index fl" "?e \<in> region c" using r by blast
    have order: "unat (fst x) + unat (snd x) < unat (fst y)" if "x \<in> by_index fl" "y \<in> by_index fl" "fst x < fst y" for x y
      using ok that by (simp add: blocks_ok_def)
    consider "fst b < fst c" | "fst c < fst b" | "fst b = fst c" by fastforce
    then show False
    proof cases
      case 3
      then show False using block_functional [OF b(1) c(1)] c(2) by (simp add: region_def)
    qed (use order [OF b(1) c(1)] order [OF c(1) b(1)] c(2) in \<open>auto simp: region_def\<close>)
  qed
  then show ?thesis using that b by (simp add: region_def)
qed

lemma alloc_None_put_back: "alloc_impl n fl = Ok (None, fl') \<Longrightarrow> put_back fl = Ok fl'"
  by (auto simp: alloc_impl_def alloc_slow_put_back Let_def and_then_Ok_iff nonzero_unchecked_def split: option.splits if_splits)

text \<open>C25: An allocation fails only when memory is exhausted: unless the bump region starts at the first aligned
  index, there is then no run of that many free bytes anywhere.
\<close>

theorem alloc_fails_only_when_full:
  assumes "fl_reach fl live" "0 < sz" "aligned_size sz = Some n" "alloc_fast n fl = Ok (None, fl')" "bump_ptr fl \<noteq> 16"
  shows "\<not> {p ..< p + unat n} \<subseteq> free_bytes fl"
proof
  assume sub: "{p ..< p + unat n} \<subseteq> free_bytes fl"
  have ok: "fl_ok fl" using fl_reach_ok [OF assms(1)] by (simp add: live_ok_def)
  have t: "took fl n None fl'" by (rule alloc_fast_ok [OF ok assms(2,3)]) (use assms(4) in simp)
  have "put_back fl = Ok fl'" using assms(4) by (intro alloc_None_put_back) (simp add: alloc_fast_def)
  then have "bump_ptr fl' = bump_end fl'"
    by (rule put_back_no_bump [OF ok]) (use t assms(5) in \<open>auto simp: took_def word_unat_eq_iff\<close>)
  then have "{p ..< p + unat n} \<subseteq> (\<Union>b \<in> by_index fl'. region b)" using sub t by (simp add: took_def free_bytes_def)
  moreover have "blocks_ok fl'" using t by (simp add: took_def fl_ok_def)
  ultimately obtain b where "b \<in> by_index fl'" "unat n \<le> unat (snd b)"
    using run_in_block aligned_size_ok(4) [OF assms(3,2)] by blast
  then show False using t by (fastforce simp: took_def word_less_nat_alt)
qed

theorem alloc_fails_only_when_full_witness:
  "alloc_fast 64 (flist 128 [] [] 80 128) = Ok (None, flist 128 [(80, 48)] [(48, [80])] 16 16) \<and>
   \<not> {70 ..< 70 + 64} \<subseteq> free_bytes (flist 128 [] [] 80 128)"
proof -
  have "alloc_fast 64 (flist 128 [] [] 80 128) = Ok (None, flist 128 [(80, 48)] [(48, [80])] 16 16)" "aligned_size 64 = Some 64"
    "unat (64 :: u32) = 64" by code_simp+
  then show ?thesis using alloc_fails_only_when_full [OF reach_two_blocks, of 64 64 _ 70] by simp
qed

text \<open>C28: The slow path loses memory when the bump region starts at the first aligned index: a list over 128 bytes can
  reach a state in which every block has been given back and the bytes from 16 to 48 are not free any more, although a
  new list over the same memory has them free.
\<close>

theorem alloc_slow_leaks:
  "\<exists>fl. fl_reach fl {} \<and> fl_capacity fl = 128 \<and> free_bytes fl = {48 ..< 128} \<and> free_bytes (FreeList_new 128) = {16 ..< 128}"
proof -
  have sizes: "aligned_size 16 = Some 16" "aligned_size 32 = Some 32" "aligned_size 64 = Some 64" by code_simp+
  have s0: "alloc_fast 32 (FreeList_new 128) = Ok (Some 16, flist 128 [] [] 48 128)" by code_simp
  have s1: "alloc_fast 16 (flist 128 [] [] 48 128) = Ok (Some 48, flist 128 [] [] 64 128)" by code_simp
  have s2: "alloc_fast 64 (flist 128 [] [] 64 128) = Ok (Some 64, flist 128 [] [] 128 128)" by code_simp
  have s3: "dealloc_fast 16 32 (flist 128 [] [] 128 128) = Ok (flist 128 [(16, 32)] [(32, [16])] 128 128)" by code_simp
  have s4: "alloc_fast 16 (flist 128 [(16, 32)] [(32, [16])] 128 128) = Ok (Some 16, flist 128 [] [] 32 48)" by code_simp
  have s5: "dealloc_fast 16 16 (flist 128 [] [] 32 48) = Ok (flist 128 [] [] 16 48)" by code_simp
  have s6: "dealloc_fast 64 64 (flist 128 [] [] 16 48) = Ok (flist 128 [(64, 64)] [(64, [64])] 16 48)" by code_simp
  have s7: "alloc_fast 64 (flist 128 [(64, 64)] [(64, [64])] 16 48) = Ok (Some 64, flist 128 [] [] 128 128)" by code_simp
  have s8: "dealloc_fast 64 64 (flist 128 [] [] 128 128) = Ok (flist 128 [] [] 64 128)" by code_simp
  have s9: "dealloc_fast 48 16 (flist 128 [] [] 64 128) = Ok (flist 128 [] [] 48 128)" by code_simp
  have pos: "(0 :: u32) < 16" "(0 :: u32) < 32" "(0 :: u32) < 64" by simp_all
  note r3 = reach_alloc [OF reach_alloc [OF reach_alloc [OF reach_new pos(2) sizes(2) s0] pos(1) sizes(1) s1] pos(3) sizes(3) s2]
  note r5 = reach_alloc [OF reach_dealloc [OF r3 _ s3] pos(1) sizes(1) s4]
  note r7 = reach_dealloc [OF reach_dealloc [OF r5 _ s5] _ s6]
  note r10 = reach_dealloc [OF reach_dealloc [OF reach_alloc [OF r7 pos(3) sizes(3) s7] _ s8] _ s9]
  have "fl_reach (flist 128 [] [] 48 128) {}" using r10 by (simp add: insert_Diff_if)
  moreover have "free_bytes (flist 128 [] [] 48 128) = {48 ..< 128}" by (simp add: free_bytes_def by_index_def)
  moreover have "free_bytes (FreeList_new 128) = {16 ..< 128}" by (simp add: FreeList_new_ok unat_usable_end)
  ultimately show ?thesis by (intro exI [of _ "flist 128 [] [] 48 128"]) simp
qed

end
