(* ===== verification/Code_Sections.thy ===== *)
theory Code_Sections
  imports Prelude
begin

text \<open>
  What the readers and writers of the metadata sections of compiled code share: the functions of the
  \<open>object\<close> crate they call, which is not part of the repository and hence a parameter, and the binary search of the
  standard library over the sorted tables. A table of \<open>U32<LittleEndian>\<close> is a list of its values.
\<close>

section \<open>The object crate\<close>

record object_crate =
  Bytes_read :: "u8 list \<Rightarrow> (u32 \<times> u8 list) option"
  slice_from_bytes :: "u8 list \<Rightarrow> nat \<Rightarrow> (u32 list \<times> u8 list) option"
  slice_from_all_bytes :: "u8 list \<Rightarrow> u32 list option"
  bytes_of_slice :: "u32 list \<Rightarrow> u8 list"

text \<open>
  What the crate documents: reading takes a value off the front, a slice of values is read back from its bytes, and
  reading more than there is fails.
\<close>

definition object_laws :: "object_crate \<Rightarrow> bool" where
  "object_laws obj \<longleftrightarrow>
     (\<forall>w bs. Bytes_read obj (to_le_bytes 4 w @ bs) = Some (w, bs)) \<and>
     (\<forall>ws bs. slice_from_bytes obj (bytes_of_slice obj ws @ bs) (length ws) = Some (ws, bs)) \<and>
     (\<forall>ws. slice_from_all_bytes obj (bytes_of_slice obj ws) = Some ws) \<and>
     (\<forall>ws. length (bytes_of_slice obj ws) = 4 * length ws) \<and>
     (\<forall>bs. length bs < 4 \<longrightarrow> Bytes_read obj bs = None) \<and>
     (\<forall>bs n. length bs < 4 * n \<longrightarrow> slice_from_bytes obj bs n = None)"

text \<open>An instance, for the witnesses: the values lie in the bytes one after the other.\<close>

fun le_words :: "nat \<Rightarrow> u8 list \<Rightarrow> u32 list" where
  "le_words 0 bs = []"
| "le_words (Suc n) bs = from_le_bytes (take 4 bs) # le_words n (drop 4 bs)"

definition le_object :: object_crate where
  "le_object = \<lparr>
     Bytes_read = (\<lambda>bs. if length bs < 4 then None else Some (from_le_bytes (take 4 bs), drop 4 bs)),
     slice_from_bytes = (\<lambda>bs n. if length bs < 4 * n then None else Some (le_words n bs, drop (4 * n) bs)),
     slice_from_all_bytes = (\<lambda>bs. if length bs mod 4 = 0 then Some (le_words (length bs div 4) bs) else None),
     bytes_of_slice = (\<lambda>ws. concat (map (to_le_bytes 4) ws))\<rparr>"

lemma length_concat_words: "length (concat (map (to_le_bytes 4) ws)) = 4 * length ws"
  by (induction ws) simp_all

lemma le_words_concat: "le_words (length ws) (concat (map (to_le_bytes 4) ws) @ bs) = ws"
  by (induction ws) (simp_all add: take_append)

lemma object_laws_le_object: "object_laws le_object"
  using le_words_concat [of _ "[]"] by (simp add: object_laws_def le_object_def le_words_concat length_concat_words)

lemma object_lawsD:
  assumes "object_laws obj"
  shows "Bytes_read obj (to_le_bytes 4 w @ bs) = Some (w, bs)" "slice_from_bytes obj (bytes_of_slice obj ws @ bs) (length ws) = Some (ws, bs)"
    "slice_from_all_bytes obj (bytes_of_slice obj ws) = Some ws" "length (bytes_of_slice obj ws) = 4 * length ws"
    "length bs < 4 \<Longrightarrow> Bytes_read obj bs = None" "length bs < 4 * n \<Longrightarrow> slice_from_bytes obj bs n = None"
  using assms by (simp_all add: object_laws_def)

section \<open>Binary search\<close>

text \<open>\<open>binary_search_by_key\<close> of the standard library: \<open>Ok\<close> the position of a match, \<open>Err\<close> the
  position where the key would go.\<close>

function search_base :: "'k::linorder list \<Rightarrow> 'k \<Rightarrow> nat \<Rightarrow> nat \<Rightarrow> nat" where
  "search_base keys key base sz =
     (if sz \<le> 1 then base
      else let half = sz div 2; mid = base + half
           in search_base keys key (if key < keys ! mid then base else mid) (sz - half))"
  by pat_completeness auto
termination by (relation "measure (\<lambda>(keys, key, base, sz). sz)") auto

declare search_base.simps [simp del]

definition binary_search :: "'k::linorder list \<Rightarrow> 'k \<Rightarrow> (nat, nat) res" where
  "binary_search keys key =
     (if keys = [] then Err 0
      else let base = search_base keys key 0 (length keys)
           in if keys ! base = key then Ok base else Err (if keys ! base < key then base + 1 else base))"

lemma search_base_spec:
  fixes key :: "'k::linorder"
  assumes "sorted keys" "0 < sz" "base + sz \<le> length keys" "base = 0 \<or> keys ! base \<le> key"
    "\<forall>j. base + sz \<le> j \<longrightarrow> j < length keys \<longrightarrow> key < keys ! j"
  shows "search_base keys key base sz < length keys \<and>
    (search_base keys key base sz = 0 \<or> keys ! search_base keys key base sz \<le> key) \<and>
    (\<forall>j. search_base keys key base sz < j \<longrightarrow> j < length keys \<longrightarrow> key < keys ! j)"
  using assms
proof (induction keys key base sz rule: search_base.induct)
  case (1 keys key base sz)
  show ?case
  proof (cases "sz \<le> 1")
    case True
    then have "sz = 1" using 1(3) by simp
    then show ?thesis using 1(4-6) by (subst (1 2 3 4) search_base.simps) (auto simp: Suc_le_eq)
  next
    case False
    define half where "half = sz div 2"
    define b where "b = (if key < keys ! (base + half) then base else base + half)"
    have h: "0 < half" "half < sz" using False by (auto simp: half_def)
    have eq: "search_base keys key base sz = search_base keys key b (sz - half)"
      using False by (subst search_base.simps) (simp add: Let_def half_def b_def)
    have up: "\<forall>j. b + (sz - half) \<le> j \<longrightarrow> j < length keys \<longrightarrow> key < keys ! j"
    proof (intro allI impI)
      fix j
      assume j: "b + (sz - half) \<le> j" "j < length keys"
      show "key < keys ! j"
      proof (cases "key < keys ! (base + half)")
        case True
        then have "base + half \<le> j" using j(1) h by (auto simp: b_def half_def)
        then have "keys ! (base + half) \<le> keys ! j" using 1(2) j(2) by (intro sorted_nth_mono) auto
        then show ?thesis using True by order
      next
        case f: False
        then show ?thesis using 1(6) j h by (simp add: b_def)
      qed
    qed
    have "0 < sz - half" "b + (sz - half) \<le> length keys" "b = 0 \<or> keys ! b \<le> key"
      using h 1(4,5) by (auto simp: b_def not_less)
    then show ?thesis unfolding eq by (intro 1(1) [OF False half_def refl 1(2), folded b_def] up)
  qed
qed

lemma binary_search_spec:
  assumes "sorted keys"
  shows "(case binary_search keys key of
      Ok i \<Rightarrow> i < length keys \<and> keys ! i = key
    | Err i \<Rightarrow> i \<le> length keys \<and> (\<forall>j < i. keys ! j < key) \<and> (\<forall>j. i \<le> j \<longrightarrow> j < length keys \<longrightarrow> key < keys ! j)
    | Panic \<Rightarrow> False)"
proof (cases "keys = []")
  case False
  define b where "b = search_base keys key 0 (length keys)"
  have b: "b < length keys" "b = 0 \<or> keys ! b \<le> key" "\<forall>j. b < j \<longrightarrow> j < length keys \<longrightarrow> key < keys ! j"
    using search_base_spec [OF assms, of "length keys" 0 key] False by (simp_all add: b_def)
  consider "keys ! b = key" | "keys ! b < key" | "key < keys ! b" by fastforce
  then show ?thesis
  proof cases
    case 1
    then show ?thesis using b False by (simp add: binary_search_def b_def [symmetric])
  next
    case 2
    have "keys ! j < key" if "j < b + 1" for j using sorted_nth_mono [OF assms, of j b] that b(1) 2 by (simp add: order.strict_trans1)
    then show ?thesis using 2 b False by (simp add: binary_search_def b_def [symmetric] Suc_le_eq)
  next
    case 3
    then have "b = 0" using b(2) by auto
    have "key < keys ! j" if "j < length keys" for j using b(3) 3 \<open>b = 0\<close> that by (cases "j = 0") auto
    moreover have "\<not> keys ! b < key" "keys ! b \<noteq> key" using 3 by auto
    ultimately show ?thesis using b(1) False \<open>b = 0\<close> by (simp add: binary_search_def b_def [symmetric])
  qed
qed (simp add: binary_search_def)

lemma binary_search_found:
  assumes "sorted_wrt (<) keys" "i < length keys"
  shows "binary_search keys (keys ! i) = Ok i"
proof -
  have s: "sorted keys" "distinct keys" using assms(1) by (simp_all add: strict_sorted_iff)
  show ?thesis
  proof (cases "binary_search keys (keys ! i)")
    case (Ok j)
    then have "j < length keys" "keys ! j = keys ! i" using binary_search_spec [OF s(1), of "keys ! i"] by simp_all
    then show ?thesis using Ok s(2) assms(2) by (simp add: nth_eq_iff_index_eq)
  next
    case (Err j)
    then have "i < j \<longrightarrow> keys ! i < keys ! i" "j \<le> i \<longrightarrow> keys ! i < keys ! i" using binary_search_spec [OF s(1), of "keys ! i"] assms(2) by auto
    then show ?thesis by fastforce
  next
    case Panic
    then show ?thesis using binary_search_spec [OF s(1), of "keys ! i"] by simp
  qed
qed

lemma binary_search_missing:
  assumes "sorted keys" "key \<notin> set keys"
  obtains i where "binary_search keys key = Err i"
  using binary_search_spec [OF assms(1), of key] assms(2) by (cases "binary_search keys key") auto

end
