(* ===== verification/Compound_Bitset.thy ===== *)
theory Compound_Bitset
  imports Scalar_Bitset
begin

text \<open>
  \<open>cranelift/bitset/src/compound.rs\<close>: \<open>CompoundBitSet<T>\<close>, a growable set of numbers kept in
  a boxed slice of scalar bitsets, with its maximum cached. Positions and capacities are \<open>usize\<close> in the source and
  \<open>nat\<close> here, with the one addition that may wrap written out. The host's allocator is a parameter: \<open>host n\<close> says whether the storage can grow to
  \<open>n\<close> words. An operation that allocates and reports failure returns the set beside the result, since it
  changes the set in either case; \<open>Err ()\<close> is \<open>OutOfMemory\<close>.
\<close>

record 's CompoundBitSet =
  cbs_elems :: "'s list"
  cbs_max_elem :: "u32 option"

definition cbs_default :: "'a::len ScalarBitSet CompoundBitSet" where
  "cbs_default = \<lparr>cbs_elems = [], cbs_max_elem = None\<rparr>"

definition BITS_PER_SCALAR :: "'a::len ScalarBitSet CompoundBitSet \<Rightarrow> nat" where
  "BITS_PER_SCALAR s = LENGTH('a) div 8 * 8"

definition cbs_len :: "'a::len ScalarBitSet CompoundBitSet \<Rightarrow> nat" where
  "cbs_len s = sum_list (map bs_len (cbs_elems s))"

definition cbs_capacity :: "'a::len ScalarBitSet CompoundBitSet \<Rightarrow> nat" where
  "cbs_capacity s = length (cbs_elems s) * BITS_PER_SCALAR s"

definition cbs_is_empty :: "'a::len ScalarBitSet CompoundBitSet \<Rightarrow> bool" where
  "cbs_is_empty s \<longleftrightarrow> cbs_len s = 0"

definition word_and_bit :: "'a::len ScalarBitSet CompoundBitSet \<Rightarrow> nat \<Rightarrow> (nat \<times> nat, unit) res" where
  "word_and_bit s i =
     (let word = i div BITS_PER_SCALAR s; b = i mod BITS_PER_SCALAR s
      in and_then (rust_assert (b < 256)) (\<lambda>_. Ok (word, b)))"

definition cbs_elem :: "'a::len ScalarBitSet CompoundBitSet \<Rightarrow> nat \<Rightarrow> nat \<Rightarrow> nat" where
  "cbs_elem s word b = word * BITS_PER_SCALAR s + b"

definition cbs_contains :: "'a::len ScalarBitSet CompoundBitSet \<Rightarrow> nat \<Rightarrow> (bool, unit) res" where
  "cbs_contains s i =
     and_then (word_and_bit s i) (\<lambda>(word, b).
       if word < length (cbs_elems s) then bs_contains (cbs_elems s ! word) b else Ok False)"

definition cbs_try_ensure_capacity :: "(nat \<Rightarrow> bool) \<Rightarrow> nat \<Rightarrow> 'a::len ScalarBitSet CompoundBitSet \<Rightarrow> (unit, unit) res \<times> 'a ScalarBitSet CompoundBitSet" where
  "cbs_try_ensure_capacity host n s =
     (if n = 0 then (Ok (), s)
      else case word_and_bit s (n - 1) of
        Ok (word, b) \<Rightarrow>
          if word < length (cbs_elems s) then (Ok (), s)
          else if \<not> int word < 2 ^ 63 - 1 then (Panic, s)
          else
            (let delta = word - length (cbs_elems s);
                 to_grow = delta + 1;
                 to_grow = max to_grow (length (cbs_elems s));
                 to_grow = max to_grow 4;
                 new_elems = cbs_elems s;
                 s = s\<lparr>cbs_elems := []\<rparr>
             in if host (length new_elems + to_grow) then (Ok (), s\<lparr>cbs_elems := new_elems @ replicate to_grow bs_new\<rparr>)
                else (Err (), s))
      | _ \<Rightarrow> (Panic, s))"

definition cbs_ensure_capacity :: "(nat \<Rightarrow> bool) \<Rightarrow> nat \<Rightarrow> 'a::len ScalarBitSet CompoundBitSet \<Rightarrow> ('a ScalarBitSet CompoundBitSet, unit) res" where
  "cbs_ensure_capacity host n s =
     (case cbs_try_ensure_capacity host n s of (Ok _, s) \<Rightarrow> Ok s | _ \<Rightarrow> Panic)"

definition cbs_try_with_capacity :: "(nat \<Rightarrow> bool) \<Rightarrow> nat \<Rightarrow> ('a::len ScalarBitSet CompoundBitSet, unit) res" where
  "cbs_try_with_capacity host capacity =
     (case cbs_try_ensure_capacity host capacity cbs_default of (r, s) \<Rightarrow> and_then r (\<lambda>_. Ok s))"

definition cbs_with_capacity :: "(nat \<Rightarrow> bool) \<Rightarrow> nat \<Rightarrow> ('a::len ScalarBitSet CompoundBitSet, unit) res" where
  "cbs_with_capacity host capacity = (case cbs_try_with_capacity host capacity of Ok s \<Rightarrow> Ok s | _ \<Rightarrow> Panic)"

definition cbs_insert :: "(nat \<Rightarrow> bool) \<Rightarrow> nat \<Rightarrow> 'a::len ScalarBitSet CompoundBitSet \<Rightarrow> (bool \<times> 'a ScalarBitSet CompoundBitSet, unit) res" where
  "cbs_insert host i s =
     and_then (cbs_ensure_capacity host (nat ((int i + 1) mod 2 ^ 64)) s) (\<lambda>s.
     and_then (word_and_bit s i) (\<lambda>(word, b).
     and_then (rust_assert (word < length (cbs_elems s))) (\<lambda>_.
     and_then (bs_insert (cbs_elems s ! word) b) (\<lambda>(is_new, sub).
     and_then (rust_assert (int i < 2 ^ 32)) (\<lambda>_.
     let s = s\<lparr>cbs_elems := (cbs_elems s)[word := sub]\<rparr>;
         max_elem = (case cbs_max_elem s of Some m \<Rightarrow> max m (of_nat i) | None \<Rightarrow> of_nat i)
     in Ok (is_new, s\<lparr>cbs_max_elem := Some max_elem\<rparr>))))))"

definition cbs_max :: "'a::len ScalarBitSet CompoundBitSet \<Rightarrow> nat option" where
  "cbs_max s = map_option unat (cbs_max_elem s)"

text \<open>The last non-empty word up to \<open>word_of_old_max\<close> gives the new maximum; an element number that does
  not fit in 32 bits is a panic.\<close>

fun last_max :: "'a::len ScalarBitSet CompoundBitSet \<Rightarrow> (nat \<times> 'a ScalarBitSet) list \<Rightarrow> (u32 option, unit) res" where
  "last_max s [] = Ok None"
| "last_max s ((word, sub) # subs) =
     (case bs_max sub of
        None \<Rightarrow> last_max s subs
      | Some b \<Rightarrow> and_then (rust_assert (int (cbs_elem s word b) < 2 ^ 32)) (\<lambda>_. Ok (Some (of_nat (cbs_elem s word b)))))"

definition update_max :: "nat \<Rightarrow> 'a::len ScalarBitSet CompoundBitSet \<Rightarrow> ('a ScalarBitSet CompoundBitSet, unit) res" where
  "update_max word_of_old_max s =
     and_then (rust_assert (word_of_old_max + 1 \<le> length (cbs_elems s))) (\<lambda>_.
     and_then (last_max s (rev (enumerate 0 (take (word_of_old_max + 1) (cbs_elems s))))) (\<lambda>m.
     Ok (s\<lparr>cbs_max_elem := m\<rparr>)))"

definition cbs_remove :: "nat \<Rightarrow> 'a::len ScalarBitSet CompoundBitSet \<Rightarrow> (bool \<times> 'a ScalarBitSet CompoundBitSet, unit) res" where
  "cbs_remove i s =
     and_then (word_and_bit s i) (\<lambda>(word, b).
       if word < length (cbs_elems s) then
         and_then (bs_remove (cbs_elems s ! word) b) (\<lambda>(was_present, sub).
         let s = s\<lparr>cbs_elems := (cbs_elems s)[word := sub]\<rparr> in
         and_then (if was_present \<and> cbs_max s = Some i then update_max word s else Ok s) (\<lambda>s.
         Ok (was_present, s)))
       else Ok (False, s))"

definition cbs_pop :: "'a::len ScalarBitSet CompoundBitSet \<Rightarrow> (nat option \<times> 'a ScalarBitSet CompoundBitSet, unit) res" where
  "cbs_pop s =
     (case cbs_max s of
        None \<Rightarrow> Ok (None, s)
      | Some m \<Rightarrow> and_then (cbs_remove m s) (\<lambda>(_, s). Ok (Some m, s)))"

definition cbs_clear :: "'a::len ScalarBitSet CompoundBitSet \<Rightarrow> ('a ScalarBitSet CompoundBitSet, unit) res" where
  "cbs_clear s =
     (case cbs_max s of
        None \<Rightarrow> Ok s
      | Some m \<Rightarrow>
          and_then (word_and_bit s m) (\<lambda>(word, b).
          and_then (rust_assert (word < length (cbs_elems s))) (\<lambda>_.
          Ok (s\<lparr>cbs_elems := replicate (word + 1) bs_new @ drop (word + 1) (cbs_elems s), cbs_max_elem := None\<rparr>))))"

text \<open>What the iterator yields: the bits of each word in turn.\<close>

fun iter_words :: "'a::len ScalarBitSet CompoundBitSet \<Rightarrow> nat \<Rightarrow> 'a ScalarBitSet list \<Rightarrow> nat list option" where
  "iter_words s word [] = Some []"
| "iter_words s word (sub # subs) =
     (case (bs_iter sub, iter_words s (word + 1) subs) of
        (Some bits, Some rest) \<Rightarrow> Some (map (cbs_elem s word) bits @ rest)
      | _ \<Rightarrow> None)"

definition cbs_iter :: "'a::len ScalarBitSet CompoundBitSet \<Rightarrow> nat list option" where
  "cbs_iter s = iter_words s 0 (cbs_elems s)"

definition cbs_iter_scalars :: "'a::len ScalarBitSet CompoundBitSet \<Rightarrow> 'a ScalarBitSet list" where
  "cbs_iter_scalars s =
     (let nwords = (case cbs_max_elem s of Some n \<Rightarrow> 1 + unat n div BITS_PER_SCALAR s | None \<Rightarrow> 0)
      in take nwords (cbs_elems s))"

section \<open>The set of elements\<close>

definition cbs_elements :: "'a::len ScalarBitSet CompoundBitSet \<Rightarrow> nat set" where
  "cbs_elements s = {i. i div LENGTH('a) < length (cbs_elems s) \<and> i mod LENGTH('a) \<in> elements (cbs_elems s ! (i div LENGTH('a)))}"

text \<open>The storage types of the source are whole bytes wide and have at most 256 bits.\<close>

definition scalar_sized :: "'a::len ScalarBitSet CompoundBitSet \<Rightarrow> bool" where
  "scalar_sized s \<longleftrightarrow> 8 dvd LENGTH('a) \<and> LENGTH('a) \<le> 256"

definition cbs_ok :: "'a::len ScalarBitSet CompoundBitSet \<Rightarrow> bool" where
  "cbs_ok s \<longleftrightarrow> scalar_sized s \<and> (\<forall>i \<in> cbs_elements s. i < 2 ^ 32) \<and>
     cbs_max s = (if cbs_elements s = {} then None else Some (Max (cbs_elements s)))"

lemma scalar_sized_lengths [simp]:
  "scalar_sized (s8 :: u8 CompoundBitSet)" "scalar_sized (s16 :: u16 CompoundBitSet)" "scalar_sized (s32 :: u32 CompoundBitSet)"
  "scalar_sized (s64 :: u64 CompoundBitSet)" "scalar_sized (s128 :: u128 CompoundBitSet)"
  by (simp_all add: scalar_sized_def)

lemma scalar_sized_cong: "scalar_sized (s :: 'a::len word CompoundBitSet) \<Longrightarrow> scalar_sized (t :: 'a word CompoundBitSet)"
  by (simp add: scalar_sized_def)

lemma byte_sized_scalar: "scalar_sized (s :: 'a::len word CompoundBitSet) \<Longrightarrow> byte_sized (w :: 'a word)"
  by (simp add: scalar_sized_def byte_sized_def)

lemma BITS_PER_SCALAR_eq: "scalar_sized s \<Longrightarrow> BITS_PER_SCALAR s = LENGTH('a)" for s :: "'a::len word CompoundBitSet"
  by (simp add: BITS_PER_SCALAR_def scalar_sized_def)

lemma word_and_bit_eq:
  fixes s :: "'a::len word CompoundBitSet"
  assumes "scalar_sized s"
  shows "word_and_bit s i = Ok (i div LENGTH('a), i mod LENGTH('a))"
proof -
  have "i mod LENGTH('a) < LENGTH('a)" "LENGTH('a) \<le> 256" using assms by (simp_all add: scalar_sized_def)
  then have "i mod LENGTH('a) < 256" by (rule less_le_trans)
  then show ?thesis using assms by (simp add: word_and_bit_def BITS_PER_SCALAR_eq Let_def)
qed

lemma cbs_elem_eq: "scalar_sized s \<Longrightarrow> cbs_elem s w b = w * LENGTH('a) + b" for s :: "'a::len word CompoundBitSet"
  by (simp add: cbs_elem_def BITS_PER_SCALAR_eq)

lemma finite_cbs_elements [simp]: "finite (cbs_elements (s :: 'a::len word CompoundBitSet))"
proof (rule finite_subset)
  show "cbs_elements s \<subseteq> {..< length (cbs_elems s) * LENGTH('a)}"
    by (auto simp: cbs_elements_def less_mult_imp_div_less div_less_iff_less_mult)
qed simp

lemma cbs_elements_cong: "cbs_elems s = cbs_elems t \<Longrightarrow> cbs_elements s = cbs_elements t"
  by (simp add: cbs_elements_def)

lemma cbs_elements_default [simp]: "cbs_elements cbs_default = {}"
  by (simp add: cbs_elements_def cbs_default_def)

lemma cbs_elements_append_new:
  fixes s t :: "'a::len word CompoundBitSet"
  assumes "cbs_elems t = cbs_elems s @ replicate n bs_new"
  shows "cbs_elements t = cbs_elements s"
proof (rule set_eqI)
  fix j
  show "j \<in> cbs_elements t \<longleftrightarrow> j \<in> cbs_elements s"
    by (cases "j div LENGTH('a) < length (cbs_elems s)") (auto simp: assms cbs_elements_def nth_append)
qed

lemma div_mod_eq_iff: "i div k = j div k \<and> i mod k = j mod k \<longleftrightarrow> i = j" for i j k :: nat
  by (metis div_mult_mod_eq)

lemma cbs_elements_update:
  fixes s t :: "'a::len word CompoundBitSet"
  assumes "cbs_elems t = (cbs_elems s)[i div LENGTH('a) := sub]" "i div LENGTH('a) < length (cbs_elems s)"
  shows "elements sub = insert (i mod LENGTH('a)) (elements (cbs_elems s ! (i div LENGTH('a)))) \<Longrightarrow> cbs_elements t = insert i (cbs_elements s)"
    "elements sub = elements (cbs_elems s ! (i div LENGTH('a))) - {i mod LENGTH('a)} \<Longrightarrow> cbs_elements t = cbs_elements s - {i}"
proof -
  have t: "j \<in> cbs_elements t \<longleftrightarrow> (if j div LENGTH('a) = i div LENGTH('a) then j mod LENGTH('a) \<in> elements sub else j \<in> cbs_elements s)" for j
    using assms by (simp add: cbs_elements_def nth_list_update)
  have eq: "j mod LENGTH('a) = i mod LENGTH('a) \<longleftrightarrow> j = i" if "j div LENGTH('a) = i div LENGTH('a)" for j
    using div_mod_eq_iff [of j "LENGTH('a)" i] that by blast
  have s: "j \<in> cbs_elements s \<longleftrightarrow> j mod LENGTH('a) \<in> elements (cbs_elems s ! (i div LENGTH('a)))" if "j div LENGTH('a) = i div LENGTH('a)" for j
    using that assms(2) by (simp add: cbs_elements_def)
  show "cbs_elements t = insert i (cbs_elements s)"
    if "elements sub = insert (i mod LENGTH('a)) (elements (cbs_elems s ! (i div LENGTH('a))))"
    by (rule set_eqI, unfold t) (auto simp: that eq s)
  show "cbs_elements t = cbs_elements s - {i}"
    if "elements sub = elements (cbs_elems s ! (i div LENGTH('a))) - {i mod LENGTH('a)}"
    by (rule set_eqI, unfold t) (auto simp: that eq s)
qed

lemma cbs_contains_spec: "scalar_sized s \<Longrightarrow> cbs_contains s i = Ok (i \<in> cbs_elements s)" for s :: "'a::len word CompoundBitSet"
  by (simp add: cbs_contains_def word_and_bit_eq bs_contains_spec [OF byte_sized_scalar] cbs_elements_def)

lemma try_ensure_capacity_spec:
  fixes s :: "'a::len word CompoundBitSet"
  assumes s: "scalar_sized s" and n: "n < 2 ^ 63" and host: "\<And>k. host k"
  obtains t where "cbs_try_ensure_capacity host n s = (Ok (), t)" "cbs_elements t = cbs_elements s" "cbs_max_elem t = cbs_max_elem s"
    "0 < n \<Longrightarrow> (n - 1) div LENGTH('a) < length (cbs_elems t)"
proof (cases "n = 0 \<or> (n - 1) div LENGTH('a) < length (cbs_elems s)")
  case True
  then have "cbs_try_ensure_capacity host n s = (Ok (), s)" by (auto simp: cbs_try_ensure_capacity_def word_and_bit_eq [OF s])
  then show ?thesis using that True by blast
next
  case False
  let ?w = "(n - 1) div LENGTH('a)" and ?l = "length (cbs_elems s)"
  define g where "g = max (max (?w - ?l + 1) ?l) 4"
  define t where "t = s\<lparr>cbs_elems := cbs_elems s @ replicate g bs_new\<rparr>"
  have "?w \<le> n - 1" by (rule div_le_dividend)
  then have "?w < 2 ^ 63 - 1" using n False by linarith
  then have "int ?w < int (2 ^ 63 - 1)" by (simp only: of_nat_less_iff)
  then have "int ?w < 2 ^ 63 - 1" by simp
  then have "cbs_try_ensure_capacity host n s = (Ok (), t)"
    using False host by (simp add: cbs_try_ensure_capacity_def word_and_bit_eq [OF s] Let_def g_def t_def)
  moreover have "cbs_elements t = cbs_elements s" by (rule cbs_elements_append_new) (simp add: t_def)
  moreover have "?w < length (cbs_elems t)" using False by (simp add: t_def g_def)
  ultimately show ?thesis using that by (simp add: t_def)
qed

lemma Max_insert_word:
  assumes "finite A" "\<forall>i \<in> A. i < 2 ^ 32" "i < 2 ^ 32" "map_option unat m = (if A = {} then None else Some (Max A))"
  shows "unat ((case m of Some m \<Rightarrow> max m (of_nat i) | None \<Rightarrow> of_nat i) :: u32) = Max (insert i A)"
proof -
  have i: "unat (of_nat i :: u32) = i" using assms(3) by (simp add: unsigned_of_nat take_bit_nat_eq_self)
  have "unat (max a b) = max (unat a) (unat b)" for a b :: u32 by (simp add: max_def word_le_nat_alt)
  then show ?thesis using assms i by (cases m) (simp_all add: Max_insert max.commute split: if_splits)
qed

lemma cbs_insert_spec:
  fixes s :: "'a::len word CompoundBitSet"
  assumes ok: "cbs_ok s" and i: "i < 2 ^ 32" and host: "\<And>k. host k"
  obtains t where "cbs_insert host i s = Ok (i \<notin> cbs_elements s, t)" "cbs_ok t" "cbs_elements t = insert i (cbs_elements s)"
proof -
  have s: "scalar_sized s" using ok by (simp add: cbs_ok_def)
  have ii: "nat ((int i + 1) mod 2 ^ 64) = i + 1" using i by simp
  obtain t where t: "cbs_try_ensure_capacity host (i + 1) s = (Ok (), t)" "cbs_elements t = cbs_elements s"
    "cbs_max_elem t = cbs_max_elem s" "i div LENGTH('a) < length (cbs_elems t)"
    by (rule try_ensure_capacity_spec [OF s, of "i + 1" host]) (use i host in auto)
  have st: "scalar_sized t" by (rule scalar_sized_cong [OF s])
  have m: "i mod LENGTH('a) < LENGTH('a)" by simp
  have mem: "i mod LENGTH('a) \<in> elements (cbs_elems t ! (i div LENGTH('a))) \<longleftrightarrow> i \<in> cbs_elements s"
    unfolding t(2) [symmetric] using t(4) by (simp add: cbs_elements_def)
  obtain sub where sub: "bs_insert (cbs_elems t ! (i div LENGTH('a))) (i mod LENGTH('a)) = Ok (i \<notin> cbs_elements s, sub)"
    "elements sub = insert (i mod LENGTH('a)) (elements (cbs_elems t ! (i div LENGTH('a))))"
    using bs_insert_spec [OF byte_sized_scalar [OF st] m, of "cbs_elems t ! (i div LENGTH('a))"] unfolding mem by blast
  define u where "u = t\<lparr>cbs_elems := (cbs_elems t)[i div LENGTH('a) := sub],
    cbs_max_elem := Some (case cbs_max_elem t of Some m \<Rightarrow> max m (of_nat i) | None \<Rightarrow> of_nat i)\<rparr>"
  have "cbs_insert host i s = Ok (i \<notin> cbs_elements s, u)"
    unfolding cbs_insert_def ii cbs_ensure_capacity_def t(1) using t(4) sub(1) i by (simp add: word_and_bit_eq [OF st] Let_def u_def)
  moreover have e: "cbs_elements u = insert i (cbs_elements s)"
    unfolding t(2) [symmetric] by (rule cbs_elements_update(1) [OF _ t(4) sub(2)]) (simp add: u_def)
  moreover have "cbs_ok u"
    using Max_insert_word [of "cbs_elements s" i "cbs_max_elem s"] ok i e scalar_sized_cong [OF s]
    by (auto simp: cbs_ok_def cbs_max_def u_def t(3))
  ultimately show ?thesis using that by blast
qed

section \<open>The cached maximum\<close>

definition below :: "'a::len word CompoundBitSet \<Rightarrow> nat \<Rightarrow> nat set" where
  "below s k = {i \<in> cbs_elements s. i div LENGTH('a) < k}"

lemma below_Suc_empty:
  fixes s :: "'a::len word CompoundBitSet"
  assumes "elements (cbs_elems s ! k) = {}"
  shows "below s (Suc k) = below s k"
  using assms by (auto simp: below_def cbs_elements_def less_Suc_eq)

lemma Max_below_Suc:
  fixes s :: "'a::len word CompoundBitSet"
  assumes k: "k < length (cbs_elems s)" and b: "b \<in> elements (cbs_elems s ! k)" "\<forall>c \<in> elements (cbs_elems s ! k). c \<le> b"
  shows "k * LENGTH('a) + b \<in> below s (Suc k)" "Max (below s (Suc k)) = k * LENGTH('a) + b"
proof -
  have "b < LENGTH('a)" by (rule elements_less [OF b(1)])
  then show mem: "k * LENGTH('a) + b \<in> below s (Suc k)" using k b(1) by (simp add: below_def cbs_elements_def)
  have "j \<le> k * LENGTH('a) + b" if j: "j \<in> below s (Suc k)" for j
  proof (cases "j div LENGTH('a) = k")
    case True
    then have "j mod LENGTH('a) \<le> b" using j b(2) by (auto simp: below_def cbs_elements_def)
    then show ?thesis using div_mult_mod_eq [of j "LENGTH('a)"] True by simp
  next
    case False
    then have "j div LENGTH('a) < k" using j by (simp add: below_def)
    then have "j < k * LENGTH('a)" by (simp add: div_less_iff_less_mult)
    then show ?thesis by simp
  qed
  moreover have "finite (below s (Suc k))" by (rule finite_subset [OF _ finite_cbs_elements [of s]]) (auto simp: below_def)
  ultimately show "Max (below s (Suc k)) = k * LENGTH('a) + b" using mem by (intro Max_eqI) auto
qed

lemma last_max_spec:
  fixes s :: "'a::len word CompoundBitSet"
  assumes s: "scalar_sized s" and lt: "\<forall>i \<in> cbs_elements s. i < 2 ^ 32"
  shows "k \<le> length (cbs_elems s) \<Longrightarrow> \<exists>m. last_max s (rev (enumerate 0 (take k (cbs_elems s)))) = Ok m \<and>
    map_option unat m = (if below s k = {} then None else Some (Max (below s k)))"
proof (induction k)
  case 0
  then show ?case by (simp add: below_def)
next
  case (Suc k)
  then have k: "k < length (cbs_elems s)" by simp
  let ?w = "cbs_elems s ! k"
  have eq: "last_max s (rev (enumerate 0 (take (Suc k) (cbs_elems s)))) =
      last_max s ((k, ?w) # rev (enumerate 0 (take k (cbs_elems s))))"
    using k by (simp add: take_Suc_conv_app_nth enumerate_append_eq)
  have mx: "bs_max ?w = (if elements ?w = {} then None else Some (Max (elements ?w)))" by (rule bs_max_spec [OF byte_sized_scalar [OF s]])
  show ?case
  proof (cases "elements ?w = {}")
    case True
    then show ?thesis unfolding eq below_Suc_empty [OF True] using Suc mx by simp
  next
    case False
    then have b: "Max (elements ?w) \<in> elements ?w" "\<forall>c \<in> elements ?w. c \<le> Max (elements ?w)" by simp_all
    define e where "e = k * LENGTH('a) + Max (elements ?w)"
    note m = Max_below_Suc [OF k b, folded e_def]
    have "e < 2 ^ 32" using m(1) lt by (simp add: below_def)
    then have "int e < 2 ^ 32" "unat (of_nat e :: u32) = e" by (simp_all add: unsigned_of_nat take_bit_nat_eq_self)
    moreover have "below s (Suc k) \<noteq> {}" using m(1) by blast
    moreover have "cbs_elem s k (Max (elements ?w)) = e" by (simp add: cbs_elem_eq [OF s] e_def)
    ultimately show ?thesis unfolding eq m(2) using False mx by simp
  qed
qed

lemma cbs_remove_spec:
  fixes s :: "'a::len word CompoundBitSet"
  assumes ok: "cbs_ok s"
  obtains t where "cbs_remove i s = Ok (i \<in> cbs_elements s, t)" "cbs_ok t" "cbs_elements t = cbs_elements s - {i}"
proof (cases "i div LENGTH('a) < length (cbs_elems s)")
  case False
  then have "i \<notin> cbs_elements s" by (simp add: cbs_elements_def)
  moreover have "cbs_remove i s = Ok (False, s)" using False ok by (simp add: cbs_remove_def word_and_bit_eq cbs_ok_def)
  ultimately show ?thesis using that [of s] ok by simp
next
  case True
  have s: "scalar_sized s" using ok by (simp add: cbs_ok_def)
  have mem: "i mod LENGTH('a) \<in> elements (cbs_elems s ! (i div LENGTH('a))) \<longleftrightarrow> i \<in> cbs_elements s"
    using True by (simp add: cbs_elements_def)
  obtain sub where sub: "bs_remove (cbs_elems s ! (i div LENGTH('a))) (i mod LENGTH('a)) = Ok (i \<in> cbs_elements s, sub)"
    "elements sub = elements (cbs_elems s ! (i div LENGTH('a))) - {i mod LENGTH('a)}"
    using bs_remove_spec [OF byte_sized_scalar [OF s] mod_less_divisor [OF len_gt_0], of "cbs_elems s ! (i div LENGTH('a))" i] unfolding mem by blast
  define t where "t = s\<lparr>cbs_elems := (cbs_elems s)[i div LENGTH('a) := sub]\<rparr>"
  have st: "scalar_sized t" by (rule scalar_sized_cong [OF s])
  have e: "cbs_elements t = cbs_elements s - {i}" by (rule cbs_elements_update(2) [OF _ True sub(2)]) (simp add: t_def)
  have mt: "cbs_max t = cbs_max s" by (simp add: cbs_max_def t_def)
  have step: "cbs_remove i s = and_then (if i \<in> cbs_elements s \<and> cbs_max s = Some i then update_max (i div LENGTH('a)) t else Ok t)
      (\<lambda>t. Ok (i \<in> cbs_elements s, t))"
    using True sub(1) by (simp add: cbs_remove_def word_and_bit_eq [OF s] Let_def t_def [symmetric] mt)
  show ?thesis
  proof (cases "i \<in> cbs_elements s \<and> cbs_max s = Some i")
    case False
    have "Max (cbs_elements s - {i}) = Max (cbs_elements s)" if "i \<in> cbs_elements s"
      using that False ok Max_in [of "cbs_elements s"] by (intro Max_eqI) (auto simp: cbs_ok_def split: if_splits)
    moreover have "cbs_elements s - {i} \<noteq> {}" if "cbs_elements s \<noteq> {}"
      using that False ok by (auto simp: cbs_ok_def dest: subset_singletonD)
    ultimately have "cbs_ok t" using ok st e unfolding cbs_ok_def by (cases "i \<in> cbs_elements s") (auto simp: cbs_max_def t_def)
    then show ?thesis using that [of t] step False e by auto
  next
    case max: True
    then have m: "Max (cbs_elements s) = i" using ok by (auto simp: cbs_ok_def split: if_splits)
    have lt: "\<forall>i \<in> cbs_elements t. i < 2 ^ 32" using ok e by (auto simp: cbs_ok_def)
    have "j div LENGTH('a) < Suc (i div LENGTH('a))" if "j \<in> cbs_elements s" for j
      using that Max_ge [OF finite_cbs_elements that] m by (simp add: div_le_mono less_Suc_eq_le)
    then have all: "below t (Suc (i div LENGTH('a))) = cbs_elements t" using e by (auto simp: below_def)
    obtain v where v: "last_max t (rev (enumerate 0 (take (Suc (i div LENGTH('a))) (cbs_elems t)))) = Ok v"
      "map_option unat v = (if cbs_elements t = {} then None else Some (Max (cbs_elements t)))"
      using last_max_spec [OF st lt, of "Suc (i div LENGTH('a))"] True unfolding all by (auto simp: t_def)
    let ?u = "t\<lparr>cbs_max_elem := v\<rparr>"
    have "update_max (i div LENGTH('a)) t = Ok ?u" using v(1) True by (simp add: update_max_def t_def)
    moreover have "cbs_elements ?u = cbs_elements t" by (rule cbs_elements_cong) simp
    moreover from this have "cbs_ok ?u" using lt v(2) scalar_sized_cong [OF s] by (simp add: cbs_ok_def cbs_max_def)
    ultimately show ?thesis using that [of ?u] step max e by simp
  qed
qed

lemma cbs_pop_spec:
  assumes ok: "cbs_ok s"
  shows "cbs_elements s = {} \<Longrightarrow> cbs_pop s = Ok (None, s)"
    "cbs_elements s \<noteq> {} \<Longrightarrow> \<exists>t. cbs_pop s = Ok (Some (Max (cbs_elements s)), t) \<and> cbs_ok t \<and> cbs_elements t = cbs_elements s - {Max (cbs_elements s)}"
proof -
  show "cbs_pop s = Ok (None, s)" if "cbs_elements s = {}" using ok that by (simp add: cbs_pop_def cbs_ok_def)
  show "\<exists>t. cbs_pop s = Ok (Some (Max (cbs_elements s)), t) \<and> cbs_ok t \<and> cbs_elements t = cbs_elements s - {Max (cbs_elements s)}" if "cbs_elements s \<noteq> {}"
  proof -
    obtain t where "cbs_remove (Max (cbs_elements s)) s = Ok (Max (cbs_elements s) \<in> cbs_elements s, t)" "cbs_ok t"
      "cbs_elements t = cbs_elements s - {Max (cbs_elements s)}" by (rule cbs_remove_spec [OF ok])
    then show ?thesis using ok that by (simp add: cbs_pop_def cbs_ok_def)
  qed
qed

text \<open>Popping the maximum is one more operation of the kind that drains a set.\<close>

interpretation cbs: popping_set cbs_elements cbs_ok cbs_pop "(\<ge>)"
proof
  fix s :: "'a::len word CompoundBitSet"
  assume "cbs_ok s" "cbs_elements s \<noteq> {}"
  moreover from this have "Max (cbs_elements s) \<in> cbs_elements s" by simp
  ultimately show "\<exists>x s'. cbs_pop s = Ok (Some x, s') \<and> x \<in> cbs_elements s \<and> (\<forall>y \<in> cbs_elements s. x \<ge> y) \<and> cbs_ok s' \<and> cbs_elements s' = cbs_elements s - {x}"
    using cbs_pop_spec(2) [of s] by fastforce
qed (simp_all add: cbs_pop_spec)

lemma elements_beyond_max:
  fixes s :: "'a::len word CompoundBitSet"
  assumes "cbs_ok s" "cbs_elements s \<noteq> {}" "i \<in> cbs_elements s"
  shows "i div LENGTH('a) \<le> Max (cbs_elements s) div LENGTH('a)" "Max (cbs_elements s) div LENGTH('a) < length (cbs_elems s)"
proof -
  show "i div LENGTH('a) \<le> Max (cbs_elements s) div LENGTH('a)" using assms(3) by (simp add: div_le_mono)
  have "Max (cbs_elements s) \<in> cbs_elements s" using assms(2) by simp
  then show "Max (cbs_elements s) div LENGTH('a) < length (cbs_elems s)" by (simp add: cbs_elements_def)
qed

lemma cbs_clear_spec:
  fixes s :: "'a::len word CompoundBitSet"
  assumes ok: "cbs_ok s"
  obtains t where "cbs_clear s = Ok t" "cbs_ok t" "cbs_elements t = {}" "cbs_capacity t = cbs_capacity s"
proof (cases "cbs_elements s = {}")
  case True
  then show ?thesis using that [of s] ok by (simp add: cbs_clear_def cbs_ok_def)
next
  case False
  let ?w = "Max (cbs_elements s) div LENGTH('a)"
  have s: "scalar_sized s" "cbs_max s = Some (Max (cbs_elements s))" using ok False by (simp_all add: cbs_ok_def)
  have w: "?w < length (cbs_elems s)" using elements_beyond_max(2) [OF ok False] False by blast
  define t where "t = s\<lparr>cbs_elems := replicate (?w + 1) bs_new @ drop (?w + 1) (cbs_elems s), cbs_max_elem := None\<rparr>"
  have "cbs_clear s = Ok t" using s w by (simp add: cbs_clear_def word_and_bit_eq t_def)
  moreover have "cbs_elements t = {}"
  proof (rule equals0I)
    fix i
    assume i: "i \<in> cbs_elements t"
    show False
    proof (cases "i div LENGTH('a) < ?w + 1")
      case True
      then show False using i by (simp add: cbs_elements_def t_def nth_append del: replicate_Suc)
    next
      case c: False
      then have "i \<in> cbs_elements s" using i w by (auto simp: cbs_elements_def t_def nth_append simp del: replicate_Suc)
      then show False using elements_beyond_max(1) [OF ok False] c by fastforce
    qed
  qed
  moreover from this have "cbs_ok t" using scalar_sized_cong [OF s(1)] by (simp add: cbs_ok_def cbs_max_def t_def)
  moreover have "cbs_capacity t = cbs_capacity s"
    using w scalar_sized_cong [OF s(1), of t] s(1) by (simp add: cbs_capacity_def BITS_PER_SCALAR_eq) (simp add: t_def)
  ultimately show ?thesis using that by blast
qed

section \<open>Iteration\<close>

lemma bs_iter_list:
  assumes "byte_sized (w :: 'a::len word)"
  obtains xs where "bs_iter w = Some xs" "set xs = elements w" "sorted_wrt (<) xs"
  using sbs_min.drain_list [OF assms bs_card_bound [OF assms]] by (auto simp: bs_iter_def strict_sorted_iff)

lemma iter_words_spec:
  fixes s :: "'a::len word CompoundBitSet"
  assumes s: "scalar_sized s"
  shows "\<exists>xs. iter_words s w subs = Some xs \<and> sorted_wrt (<) xs \<and>
    set xs = {i. w \<le> i div LENGTH('a) \<and> i div LENGTH('a) - w < length subs \<and> i mod LENGTH('a) \<in> elements (subs ! (i div LENGTH('a) - w))}"
proof (induction subs arbitrary: w)
  case Nil
  then show ?case by simp
next
  case (Cons sub subs)
  obtain xs where xs: "iter_words s (w + 1) subs = Some xs" "sorted_wrt (<) xs"
    "set xs = {i. w + 1 \<le> i div LENGTH('a) \<and> i div LENGTH('a) - (w + 1) < length subs \<and> i mod LENGTH('a) \<in> elements (subs ! (i div LENGTH('a) - (w + 1)))}"
    using Cons.IH [of "w + 1"] by blast
  obtain bs where bs: "bs_iter sub = Some bs" "set bs = elements sub" "sorted_wrt (<) bs" by (rule bs_iter_list [OF byte_sized_scalar [OF s]])
  let ?ys = "map (cbs_elem s w) bs"
  have ys: "set ?ys = {i. i div LENGTH('a) = w \<and> i mod LENGTH('a) \<in> elements sub}"
  proof (rule set_eqI)
    fix i
    have "i \<in> set ?ys \<longleftrightarrow> (\<exists>b \<in> elements sub. i = w * LENGTH('a) + b)" using bs(2) by (auto simp: cbs_elem_eq [OF s])
    also have "\<dots> \<longleftrightarrow> i div LENGTH('a) = w \<and> i mod LENGTH('a) \<in> elements sub"
      using elements_less [of _ sub] by (auto intro: bexI [of _ "i mod LENGTH('a)"])
    finally show "i \<in> set ?ys \<longleftrightarrow> i \<in> {i. i div LENGTH('a) = w \<and> i mod LENGTH('a) \<in> elements sub}" by simp
  qed
  have "y < x" if "y \<in> set ?ys" "x \<in> set xs" for x y
  proof -
    have "y div LENGTH('a) < x div LENGTH('a)" using that(1) [unfolded ys] that(2) [unfolded xs(3)] by simp
    then show ?thesis by (meson div_le_mono leD leI)
  qed
  then have "sorted_wrt (<) (?ys @ xs)" using bs(3) xs(2) by (auto simp: sorted_wrt_append sorted_wrt_map cbs_elem_eq [OF s])
  moreover have "i \<in> set (?ys @ xs) \<longleftrightarrow> w \<le> i div LENGTH('a) \<and> i div LENGTH('a) - w < length (sub # subs) \<and>
      i mod LENGTH('a) \<in> elements ((sub # subs) ! (i div LENGTH('a) - w))" for i
    unfolding set_append Un_iff ys xs(3) by (cases "i div LENGTH('a) = w") (auto simp: nth_Cons' Suc_le_eq diff_less_Suc)
  ultimately show ?case using bs(1) xs(1) by auto
qed

lemma cbs_iter_spec:
  assumes "scalar_sized s"
  obtains xs where "cbs_iter s = Some xs" "sorted_wrt (<) xs" "set xs = cbs_elements s"
  using iter_words_spec [OF assms, of 0 "cbs_elems s"] by (auto simp: cbs_iter_def cbs_elements_def)

lemma cbs_iter_scalars_spec:
  fixes s :: "'a::len word CompoundBitSet"
  assumes ok: "cbs_ok s"
  shows "length (cbs_iter_scalars s) = (if cbs_elements s = {} then 0 else Max (cbs_elements s) div LENGTH('a) + 1)"
    "i \<in> cbs_elements s \<longleftrightarrow> i div LENGTH('a) < length (cbs_iter_scalars s) \<and> i mod LENGTH('a) \<in> elements (cbs_iter_scalars s ! (i div LENGTH('a)))"
proof -
  have s: "scalar_sized s" using ok by (simp add: cbs_ok_def)
  have n: "cbs_iter_scalars s = take (if cbs_elements s = {} then 0 else Max (cbs_elements s) div LENGTH('a) + 1) (cbs_elems s)"
    using ok by (auto simp: cbs_iter_scalars_def cbs_ok_def cbs_max_def BITS_PER_SCALAR_eq [OF s] split: option.splits if_splits)
  show len: "length (cbs_iter_scalars s) = (if cbs_elements s = {} then 0 else Max (cbs_elements s) div LENGTH('a) + 1)"
  proof (cases "cbs_elements s = {}")
    case False
    then have "Max (cbs_elements s) div LENGTH('a) < length (cbs_elems s)" using elements_beyond_max(2) [OF ok False] by blast
    then show ?thesis unfolding n using False by simp
  qed (simp add: n)
  show "i \<in> cbs_elements s \<longleftrightarrow> i div LENGTH('a) < length (cbs_iter_scalars s) \<and> i mod LENGTH('a) \<in> elements (cbs_iter_scalars s ! (i div LENGTH('a)))"
  proof
    assume i: "i \<in> cbs_elements s"
    then have ne: "cbs_elements s \<noteq> {}" by blast
    then have "i div LENGTH('a) < length (cbs_iter_scalars s)" unfolding len using elements_beyond_max(1) [OF ok ne i] by simp
    then show "i div LENGTH('a) < length (cbs_iter_scalars s) \<and> i mod LENGTH('a) \<in> elements (cbs_iter_scalars s ! (i div LENGTH('a)))"
      using i by (auto simp: n cbs_elements_def)
  qed (auto simp: n cbs_elements_def)
qed

lemma cbs_len_spec: "scalar_sized s \<Longrightarrow> cbs_len s = card (cbs_elements s)" for s :: "'a::len word CompoundBitSet"
proof -
  assume s: "scalar_sized s"
  have "length xs = sum_list (map bs_len subs)" if "iter_words s w subs = Some xs" for w subs xs
    using that
  proof (induction subs arbitrary: w xs)
    case (Cons sub subs)
    obtain bs where bs: "bs_iter sub = Some bs" "set bs = elements sub" "sorted_wrt (<) bs" by (rule bs_iter_list [OF byte_sized_scalar [OF s]])
    then have "length bs = bs_len sub" using distinct_card [of bs] by (simp add: bs_len_def card_elements strict_sorted_iff)
    then show ?case using Cons bs(1) by (auto split: option.splits)
  qed simp
  moreover obtain xs where "cbs_iter s = Some xs" "sorted_wrt (<) xs" "set xs = cbs_elements s" by (rule cbs_iter_spec [OF s])
  ultimately show ?thesis using distinct_card [of xs] by (simp add: cbs_len_def cbs_iter_def strict_sorted_iff)
qed

section \<open>Properties\<close>

lemma cbs_ok_default: "scalar_sized (cbs_default :: 'a::len word CompoundBitSet) \<Longrightarrow> cbs_ok (cbs_default :: 'a word CompoundBitSet)"
  by (simp add: cbs_ok_def cbs_max_def) (simp add: cbs_default_def)

text \<open>C16: A compound bitset refines a finite set of 32-bit numbers, as long as the host has memory: membership, insertion
  and removal with their answers, popping the maximum, clearing, the number of elements and iteration in ascending order
  are those of the set, and each keeps the cached maximum right.\<close>

theorem compound_bitset_refines:
  assumes "cbs_ok s" "i < 2 ^ 32" "\<And>k. host k"
  shows "cbs_contains s i = Ok (i \<in> cbs_elements s) \<and>
    (\<exists>t. cbs_insert host i s = Ok (i \<notin> cbs_elements s, t) \<and> cbs_ok t \<and> cbs_elements t = insert i (cbs_elements s)) \<and>
    (\<exists>t. cbs_remove i s = Ok (i \<in> cbs_elements s, t) \<and> cbs_ok t \<and> cbs_elements t = cbs_elements s - {i}) \<and>
    (\<exists>t. cbs_pop s = Ok (if cbs_elements s = {} then None else Some (Max (cbs_elements s)), t) \<and> cbs_ok t \<and>
       cbs_elements t = cbs_elements s - (if cbs_elements s = {} then {} else {Max (cbs_elements s)})) \<and>
    (\<exists>t. cbs_clear s = Ok t \<and> cbs_ok t \<and> cbs_elements t = {}) \<and>
    cbs_len s = card (cbs_elements s) \<and> (cbs_is_empty s \<longleftrightarrow> cbs_elements s = {}) \<and>
    (\<exists>xs. cbs_iter s = Some xs \<and> sorted_wrt (<) xs \<and> set xs = cbs_elements s)"
proof (intro conjI)
  have s: "scalar_sized s" using assms(1) by (simp add: cbs_ok_def)
  show "cbs_contains s i = Ok (i \<in> cbs_elements s)" by (rule cbs_contains_spec [OF s])
  show "\<exists>t. cbs_insert host i s = Ok (i \<notin> cbs_elements s, t) \<and> cbs_ok t \<and> cbs_elements t = insert i (cbs_elements s)"
    by (rule cbs_insert_spec [where host = host, OF assms]) blast
  show "\<exists>t. cbs_remove i s = Ok (i \<in> cbs_elements s, t) \<and> cbs_ok t \<and> cbs_elements t = cbs_elements s - {i}"
    using cbs_remove_spec [OF assms(1)] by blast
  show "\<exists>t. cbs_pop s = Ok (if cbs_elements s = {} then None else Some (Max (cbs_elements s)), t) \<and> cbs_ok t \<and>
       cbs_elements t = cbs_elements s - (if cbs_elements s = {} then {} else {Max (cbs_elements s)})"
  proof (cases "cbs_elements s = {}")
    case True
    then show ?thesis using cbs_pop_spec(1) [OF assms(1) True] assms(1) by simp
  next
    case False
    then show ?thesis using cbs_pop_spec(2) [OF assms(1) False] by simp
  qed
  show "\<exists>t. cbs_clear s = Ok t \<and> cbs_ok t \<and> cbs_elements t = {}" using cbs_clear_spec [OF assms(1)] by blast
  show "cbs_len s = card (cbs_elements s)" by (rule cbs_len_spec [OF s])
  show "cbs_is_empty s \<longleftrightarrow> cbs_elements s = {}" by (simp add: cbs_is_empty_def cbs_len_spec [OF s])
  show "\<exists>xs. cbs_iter s = Some xs \<and> sorted_wrt (<) xs \<and> set xs = cbs_elements s" using cbs_iter_spec [OF s] by blast
qed

lemma cbs_ok_example: "cbs_ok (\<lparr>cbs_elems = [2, 5], cbs_max_elem = Some 10\<rparr> :: u8 CompoundBitSet)"
  "cbs_elements (\<lparr>cbs_elems = [2, 5], cbs_max_elem = Some 10\<rparr> :: u8 CompoundBitSet) = {1, 8, 10}"
proof -
  let ?s = "\<lparr>cbs_elems = [2, 5], cbs_max_elem = Some 10\<rparr> :: u8 CompoundBitSet"
  have s: "scalar_sized ?s" by simp
  have "cbs_iter ?s = Some [1, 8, 10]" by code_simp
  then show e: "cbs_elements ?s = {1, 8, 10}" using cbs_iter_spec [OF s] by auto
  show "cbs_ok ?s" using s by (simp add: cbs_ok_def e) (simp add: cbs_max_def)
qed

theorem compound_bitset_refines_witness:
  "\<exists>t. cbs_insert (\<lambda>_. True) 40 (\<lparr>cbs_elems = [2, 5], cbs_max_elem = Some 10\<rparr> :: u8 CompoundBitSet) = Ok (True, t) \<and> cbs_elements t = {40, 1, 8, 10}"
  using compound_bitset_refines [OF cbs_ok_example(1), of 40 "\<lambda>_. True"] by (auto simp: cbs_ok_example(2))

text \<open>C31: Growing that fails for want of memory does not leave the set as it was, although it reports the failure: the elements are gone,
  the cached maximum stays, and popping returns that maximum for ever.\<close>

theorem failed_growth_loses_elements:
  fixes s :: "'a::len word CompoundBitSet"
  assumes "cbs_ok s" "cbs_elements s \<noteq> {}" "cbs_capacity s < n" "n < 2 ^ 63" "\<And>k. \<not> host k"
  shows "\<exists>t. cbs_try_ensure_capacity host n s = (Err (), t) \<and> cbs_elements t = {} \<and> cbs_pop t = Ok (Some (Max (cbs_elements s)), t)"
proof -
  have s: "scalar_sized s" using assms(1) by (simp add: cbs_ok_def)
  let ?t = "s\<lparr>cbs_elems := []\<rparr>" and ?w = "(n - 1) div LENGTH('a)"
  have "length (cbs_elems s) * LENGTH('a) \<le> n - 1" using assms(3) by (simp add: cbs_capacity_def BITS_PER_SCALAR_eq [OF s])
  then have w: "\<not> ?w < length (cbs_elems s)" by (simp add: div_less_iff_less_mult not_less)
  have "?w \<le> n - 1" by (rule div_le_dividend)
  then have "?w < 2 ^ 63 - 1" using assms(3,4) by linarith
  then have "int ?w < int (2 ^ 63 - 1)" by (simp only: of_nat_less_iff)
  then have "int ?w < 2 ^ 63 - 1" by simp
  then have "cbs_try_ensure_capacity host n s = (Err (), ?t)"
    using w assms(3,5) by (simp add: cbs_try_ensure_capacity_def word_and_bit_eq [OF s] Let_def)
  moreover have "cbs_elements ?t = {}" by (simp add: cbs_elements_def)
  moreover have "cbs_max ?t = Some (Max (cbs_elements s))" using assms(1,2) by (simp add: cbs_ok_def cbs_max_def)
  then have "cbs_pop ?t = Ok (Some (Max (cbs_elements s)), ?t)"
    by (simp add: cbs_pop_def cbs_remove_def word_and_bit_eq [OF scalar_sized_cong [OF s]])
  ultimately show ?thesis by blast
qed

theorem failed_growth_loses_elements_witness:
  "\<exists>t. cbs_try_ensure_capacity (\<lambda>_. False) 20 (\<lparr>cbs_elems = [2, 5], cbs_max_elem = Some 10\<rparr> :: u8 CompoundBitSet) = (Err (), t) \<and>
     cbs_elements t = {} \<and> cbs_pop t = Ok (Some 10, t)"
  using failed_growth_loses_elements [OF cbs_ok_example(1), of 20 "\<lambda>_. False"]
  by (simp add: cbs_ok_example(2)) (simp add: cbs_capacity_def BITS_PER_SCALAR_def)

end
