(* ===== verification/Stack_Maps.thy ===== *)
theory Stack_Maps
  imports Code_Sections Compound_Bitset "HOL-Library.Monad_Syntax"
begin

text \<open>
  The stack map section of compiled code, which tells the collector where the live references of a frame are:
  the builder \<open>StackMapSection\<close> of \<open>crates/environ/src/compile/stack_maps.rs\<close> and the reader of
  \<open>crates/environ/src/stack_map.rs\<close>. The offsets of a frame are collected in a compound bitset and read back
  through scalar ones.
\<close>

section \<open>Writing the section\<close>

record StackMapSection =
  sm_pcs :: "u32 list"
  pointers_to_stack_map :: "u32 list"
  stack_map_data :: "u32 list"
  sm_last_offset :: u32

definition StackMapSection_default :: StackMapSection where
  "StackMapSection_default = \<lparr>sm_pcs = [], pointers_to_stack_map = [], stack_map_data = [], sm_last_offset = 0\<rparr>"

fun insert_offsets :: "(nat \<Rightarrow> bool) \<Rightarrow> u32 list \<Rightarrow> u32 CompoundBitSet \<Rightarrow> (u32 CompoundBitSet, unit) res" where
  "insert_offsets host [] bits = Ok bits"
| "insert_offsets host (offset # offsets) bits =
     and_then (rust_assert (offset mod 4 = 0)) (\<lambda>_.
     and_then (cbs_insert host (unat (offset div 4)) bits) (\<lambda>(_, bits).
     insert_offsets host offsets bits))"

definition StackMapSection_push ::
    "(nat \<Rightarrow> bool) \<Rightarrow> u64 \<Rightarrow> u32 \<Rightarrow> u32 list \<Rightarrow> StackMapSection \<Rightarrow> (StackMapSection, unit) res" where
  "StackMapSection_push host code_offset frame_size frame_offsets s =
     and_then (rust_assert (code_offset \<le> 0xFFFFFFFF)) (\<lambda>_.
     let code_offset = ucast code_offset in
     and_then (rust_assert (sm_last_offset s \<le> code_offset)) (\<lambda>_.
     let s = s\<lparr>sm_last_offset := code_offset\<rparr> in
     if frame_offsets = [] then Ok s
     else
       (let s = s\<lparr>sm_pcs := sm_pcs s @ [code_offset]\<rparr> in
        and_then (rust_assert (int (length (stack_map_data s)) < 2 ^ 32)) (\<lambda>_.
        let s = s\<lparr>pointers_to_stack_map := pointers_to_stack_map s @ [of_nat (length (stack_map_data s))]\<rparr>;
            s = s\<lparr>stack_map_data := stack_map_data s @ [frame_size]\<rparr> in
        and_then (insert_offsets host frame_offsets cbs_default) (\<lambda>bits.
        let count = length (cbs_iter_scalars bits);
            s = s\<lparr>stack_map_data := stack_map_data s @ [of_nat count]\<rparr>
        in Ok (s\<lparr>stack_map_data := stack_map_data s @ cbs_iter_scalars bits\<rparr>))))))"

text \<open>The bytes of the section, if one is written.\<close>

definition StackMapSection_append_to :: "object_crate \<Rightarrow> StackMapSection \<Rightarrow> (u8 list option, unit) res" where
  "StackMapSection_append_to obj s =
     (if sm_pcs s = [] then Ok None
      else and_then (rust_assert (int (length (sm_pcs s)) < 2 ^ 32)) (\<lambda>_.
        let amt = of_nat (length (sm_pcs s)) :: u32
        in Ok (Some (to_le_bytes 4 amt @ bytes_of_slice obj (sm_pcs s) @
             bytes_of_slice obj (pointers_to_stack_map s) @ bytes_of_slice obj (stack_map_data s)))))"

section \<open>Reading it\<close>

record StackMapReader =
  rd_pcs :: "u32 list"
  rd_pointers_to_stack_map :: "u32 list"
  rd_stack_map_data :: "u32 list"

definition StackMap_parse :: "object_crate \<Rightarrow> u8 list \<Rightarrow> StackMapReader option" where
  "StackMap_parse obj sect =
     do {
       (pc_count, sect) \<leftarrow> Bytes_read obj sect;
       (pcs, sect) \<leftarrow> slice_from_bytes obj sect (unat pc_count);
       (pointers_to_stack_map, sect) \<leftarrow> slice_from_bytes obj sect (unat pc_count);
       stack_map_data \<leftarrow> slice_from_all_bytes obj sect;
       Some \<lparr>rd_pcs = pcs, rd_pointers_to_stack_map = pointers_to_stack_map, rd_stack_map_data = stack_map_data\<rparr>
     }"

record StackMap =
  frame_size :: u32
  sm_data :: "u32 list"

text \<open>\<open>Err ()\<close> is \<open>None\<close>; an index past the pointers is a panic.\<close>

definition StackMap_get :: "StackMapReader \<Rightarrow> nat \<Rightarrow> (StackMap, unit) res" where
  "StackMap_get s i =
     and_then (rust_assert (i < length (rd_pointers_to_stack_map s))) (\<lambda>_.
     let pointer_to_stack_map = unat (rd_pointers_to_stack_map s ! i) in
     if length (rd_stack_map_data s) < pointer_to_stack_map then Err ()
     else case drop pointer_to_stack_map (rd_stack_map_data s) of
       fsize # count # data \<Rightarrow>
         if length data < unat count then Err () else Ok \<lparr>frame_size = fsize, sm_data = take (unat count) data\<rparr>
     | _ \<Rightarrow> Err ())"

definition StackMapSection_lookup :: "StackMapReader \<Rightarrow> u32 \<Rightarrow> (StackMap, unit) res" where
  "StackMapSection_lookup s pc =
     (case binary_search (rd_pcs s) pc of Ok pc_index \<Rightarrow> StackMap_get s pc_index | Err _ \<Rightarrow> Err () | Panic \<Rightarrow> Panic)"

definition StackMap_lookup :: "object_crate \<Rightarrow> u32 \<Rightarrow> u8 list \<Rightarrow> (StackMap, unit) res" where
  "StackMap_lookup obj pc sect = (case StackMap_parse obj sect of None \<Rightarrow> Err () | Some s \<Rightarrow> StackMapSection_lookup s pc)"

fun scalar_positions :: "nat \<Rightarrow> u32 list \<Rightarrow> u32 list option" where
  "scalar_positions i [] = Some []"
| "scalar_positions i (word # words) =
     (case (bs_iter word, scalar_positions (i + 1) words) of
        (Some bits, Some rest) \<Rightarrow> Some (map (\<lambda>b. of_nat i * 32 + of_nat b) bits @ rest)
      | _ \<Rightarrow> None)"

definition StackMap_offsets :: "StackMap \<Rightarrow> u32 list option" where
  "StackMap_offsets m = map_option (map (\<lambda>pos. pos * 4)) (scalar_positions 0 (sm_data m))"

definition StackMap_sp :: "StackMap \<Rightarrow> u64 \<Rightarrow> u64" where
  "StackMap_sp m fp = fp - ucast (frame_size m)"

text \<open>The addresses of the live references, with the assertion that each lies in the frame.\<close>

fun refs_at :: "u32 \<Rightarrow> u64 \<Rightarrow> u32 list \<Rightarrow> (u64 list, unit) res" where
  "refs_at sz sp [] = Ok []"
| "refs_at sz sp (i # is) =
     (let ptr_to_gc_ref = sp + ucast i; delta = ptr_to_gc_ref - sp in
      and_then (rust_assert (delta < ucast sz)) (\<lambda>_.
      and_then (refs_at sz sp is) (\<lambda>refs. Ok (ptr_to_gc_ref # refs))))"

definition live_gc_refs :: "StackMap \<Rightarrow> u64 \<Rightarrow> (u64 list, unit) res" where
  "live_gc_refs m sp = (case StackMap_offsets m of Some offsets \<Rightarrow> refs_at (frame_size m) sp offsets | None \<Rightarrow> Panic)"

section \<open>The bits of a frame\<close>

lemma insert_offsets_spec:
  assumes "\<forall>k. host k" "\<forall>f \<in> set offsets. f mod 4 = 0" "cbs_ok bits"
  shows "\<exists>t. insert_offsets host offsets bits = Ok t \<and> cbs_ok t \<and> cbs_elements t = (\<lambda>f. unat f div 4) ` set offsets \<union> cbs_elements bits"
  using assms(2,3)
proof (induction offsets arbitrary: bits)
  case (Cons f fs)
  have u: "unat (f div 4) = unat f div 4" by (simp add: unat_div)
  have "unat f div 4 < 2 ^ 32" using unsigned_less [of f, where 'a = nat] by (simp add: div_less_iff_less_mult)
  then obtain t where t: "cbs_insert host (unat f div 4) bits = Ok (unat f div 4 \<notin> cbs_elements bits, t)" "cbs_ok t"
    "cbs_elements t = insert (unat f div 4) (cbs_elements bits)"
    using cbs_insert_spec [where host = host, OF Cons.prems(2)] assms(1) by blast
  obtain t' where "insert_offsets host fs t = Ok t'" "cbs_ok t'" "cbs_elements t' = (\<lambda>f. unat f div 4) ` set fs \<union> cbs_elements t"
    using Cons.IH [OF _ t(2)] Cons.prems(1) by auto
  then show ?case using t Cons.prems(1) u by auto
qed simp

definition frame_bits :: "(nat \<Rightarrow> bool) \<Rightarrow> u32 list \<Rightarrow> u32 CompoundBitSet" where
  "frame_bits host offsets = (case insert_offsets host offsets cbs_default of Ok t \<Rightarrow> t | _ \<Rightarrow> cbs_default)"

lemma frame_bits_spec:
  assumes "\<forall>k. host k" "\<forall>f \<in> set offsets. f mod 4 = 0"
  shows "insert_offsets host offsets cbs_default = Ok (frame_bits host offsets)" "cbs_ok (frame_bits host offsets)"
    "cbs_elements (frame_bits host offsets) = (\<lambda>f. unat f div 4) ` set offsets"
  using insert_offsets_spec [OF assms cbs_ok_default] by (auto simp: frame_bits_def)

text \<open>The words one frame takes in the section.\<close>

definition frame_words :: "u32 list \<Rightarrow> nat" where
  "frame_words offsets = Max ((\<lambda>f. unat f div 4) ` set offsets) div 32 + 1"

lemma length_frame_bits:
  assumes "\<forall>k. host k" "\<forall>f \<in> set offsets. f mod 4 = 0" "offsets \<noteq> []"
  shows "length (cbs_iter_scalars (frame_bits host offsets)) = frame_words offsets"
  using cbs_iter_scalars_spec(1) [OF frame_bits_spec(2) [OF assms(1,2)]] assms(3)
  by (simp add: frame_bits_spec(3) [OF assms(1,2)] frame_words_def)

lemma frame_words_less: "offsets \<noteq> [] \<Longrightarrow> frame_words offsets < 2 ^ 32"
proof -
  assume "offsets \<noteq> []"
  then have "Max ((\<lambda>f. unat f div 4) ` set offsets) \<in> (\<lambda>f. unat f div 4) ` set offsets" by (intro Max_in) simp_all
  then obtain f where "Max ((\<lambda>f. unat f div 4) ` set offsets) = unat (f :: u32) div 4" by blast
  moreover have "unat f < 2 ^ 32" using unsigned_less [of f, where 'a = nat] by simp
  ultimately show ?thesis by (simp add: frame_words_def div_less_iff_less_mult flip: div_mult2_eq)
qed

lemma scalar_positions_eq:
  "scalar_positions i words = map_option (map of_nat) (iter_words (s :: u32 CompoundBitSet) i words)"
proof (induction words arbitrary: i)
  case (Cons w words)
  show ?case
  proof (cases "bs_iter w")
    case (Some bits)
    then show ?thesis using Cons [of "i + 1"]
      by (cases "iter_words s (i + 1) words") (simp_all add: cbs_elem_eq comp_def)
  qed simp
qed simp

lemma StackMap_offsets_spec:
  assumes ok: "cbs_ok bits" and e: "cbs_elements bits = (\<lambda>f. unat f div 4) ` set offsets" and d: "\<forall>f \<in> set offsets. f mod 4 = 0"
  shows "\<exists>xs. StackMap_offsets \<lparr>frame_size = n, sm_data = cbs_iter_scalars bits\<rparr> = Some xs \<and> sorted_wrt (<) xs \<and> set xs = set offsets"
proof -
  have s: "scalar_sized bits" by simp
  obtain ps where ps: "iter_words bits 0 (cbs_iter_scalars bits) = Some ps" "sorted_wrt (<) ps" "set ps = cbs_elements bits"
    using iter_words_spec [OF s, of 0 "cbs_iter_scalars bits"] cbs_iter_scalars_spec(2) [OF ok] by auto
  have b: "unat (of_nat p * 4 :: u32) = p * 4" if p: "p \<in> set ps" for p
  proof -
    obtain f where "f \<in> set offsets" "p = unat f div 4" using p ps(3) e by auto
    then have "p * 4 \<le> unat f" by simp
    then have "p * 4 < 2 ^ 32" using unsigned_less [of f, where 'a = nat] by simp
    then have "unat (of_nat (p * 4) :: u32) = p * 4" unfolding unsigned_of_nat by (simp add: take_bit_nat_eq_self)
    then show ?thesis by simp
  qed
  have mult: "unat f div 4 * 4 = unat f" if "f \<in> set offsets" for f
  proof -
    have "unat f mod 4 = 0" using d that unat_mod [of f 4] by simp
    then show ?thesis using div_mult_mod_eq [of "unat f" 4] by simp
  qed
  let ?xs = "map (\<lambda>p. of_nat p * 4) ps :: u32 list"
  have "StackMap_offsets \<lparr>frame_size = n, sm_data = cbs_iter_scalars bits\<rparr> = Some ?xs"
    using ps(1) by (simp add: StackMap_offsets_def scalar_positions_eq [where s = bits] comp_def)
  moreover have "sorted_wrt (<) ?xs"
    unfolding sorted_wrt_map using ps(2) b by (auto simp: word_less_nat_alt intro: sorted_wrt_mono_rel [rotated])
  moreover have "unat ` set ?xs = unat ` set offsets"
    using b mult by (force simp: ps(3) e image_image image_iff)
  then have "set ?xs = set offsets" by (simp add: inj_image_eq_iff [OF inj_onI] word_unat_eq_iff)
  ultimately show ?thesis by blast
qed

lemma unat_ucast_u32: "unat (ucast (a :: u32) :: u64) = unat a"
proof -
  have "unat a < 2 ^ 64" using unsigned_less [of a, where 'a = nat] by simp
  then show ?thesis by (simp add: unsigned_ucast_eq take_bit_nat_eq_self)
qed

lemma refs_at_spec: "\<forall>f \<in> set fs. f < sz \<Longrightarrow> refs_at sz sp fs = Ok (map (\<lambda>f. sp + ucast f) fs)"
  by (induction fs) (simp_all add: Let_def word_less_nat_alt unat_ucast_u32)

section \<open>The contents of the section\<close>

type_synonym frame_map = "u64 \<times> u32 \<times> u32 list"

fun push_all :: "(nat \<Rightarrow> bool) \<Rightarrow> frame_map list \<Rightarrow> StackMapSection \<Rightarrow> (StackMapSection, unit) res" where
  "push_all host [] s = Ok s"
| "push_all host ((pc, sz, offsets) # ms) s = and_then (StackMapSection_push host pc sz offsets s) (push_all host ms)"

text \<open>Frames that can be recorded: addresses of 32 bits in ascending order and aligned offsets.\<close>

definition maps_valid :: "frame_map list \<Rightarrow> bool" where
  "maps_valid ms \<longleftrightarrow> sorted_wrt (\<lambda>a b. fst a < fst b) ms \<and>
     (\<forall>(pc, sz, offsets) \<in> set ms. pc \<le> 0xFFFFFFFF \<and> (\<forall>f \<in> set offsets. f mod 4 = 0))"

definition nonempty :: "frame_map \<Rightarrow> bool" where
  "nonempty m \<longleftrightarrow> snd (snd m) \<noteq> []"

definition map_size :: "frame_map \<Rightarrow> nat" where
  "map_size m = 2 + frame_words (snd (snd m))"

definition map_words :: "(nat \<Rightarrow> bool) \<Rightarrow> frame_map \<Rightarrow> u32 list" where
  "map_words host m =
     (let bits = cbs_iter_scalars (frame_bits host (snd (snd m))) in fst (snd m) # of_nat (length bits) # bits)"

text \<open>The section holds the frames \<open>ms\<close>.\<close>

definition sect_holds :: "(nat \<Rightarrow> bool) \<Rightarrow> frame_map list \<Rightarrow> StackMapSection \<Rightarrow> bool" where
  "sect_holds host ms s \<longleftrightarrow> sm_pcs s = map (\<lambda>m. ucast (fst m)) ms \<and> stack_map_data s = concat (map (map_words host) ms) \<and>
     pointers_to_stack_map s = map (\<lambda>k. of_nat (length (concat (map (map_words host) (take k ms))))) [0..<length ms]"

lemma length_map_words:
  assumes "\<forall>k. host k" "\<forall>f \<in> set (snd (snd m)). f mod 4 = 0" "nonempty m"
  shows "length (map_words host m) = map_size m"
  using length_frame_bits [OF assms(1,2)] assms(3) by (simp add: map_words_def map_size_def Let_def nonempty_def)

lemma length_concat_map_words:
  assumes "\<forall>k. host k" "\<forall>m \<in> set ms. (\<forall>f \<in> set (snd (snd m)). f mod 4 = 0) \<and> nonempty m"
  shows "length (concat (map (map_words host) ms)) = sum_list (map map_size ms)"
  using assms by (induction ms) (simp_all add: length_map_words)

lemma push_holds:
  assumes host: "\<forall>k. host k" and s: "sect_holds host done s" and pc: "pc \<le> 0xFFFFFFFF" "sm_last_offset s \<le> ucast pc"
    and offsets: "\<forall>f \<in> set offsets. f mod 4 = 0" and room: "length (stack_map_data s) < 2 ^ 32"
  obtains s' where "StackMapSection_push host pc sz offsets s = Ok s'" "sm_last_offset s' = ucast pc"
    "sect_holds host (done @ filter nonempty [(pc, sz, offsets)]) s'"
proof (cases "offsets = []")
  case True
  let ?s = "s\<lparr>sm_last_offset := ucast pc\<rparr>"
  have "StackMapSection_push host pc sz offsets s = Ok ?s" using True pc by (simp add: StackMapSection_push_def Let_def)
  moreover have "sect_holds host (done @ filter nonempty [(pc, sz, offsets)]) ?s" using True s by (simp add: sect_holds_def nonempty_def)
  ultimately show ?thesis using that by simp
next
  case False
  let ?m = "(pc, sz, offsets)" and ?bits = "cbs_iter_scalars (frame_bits host offsets)"
  define s' where "s' = s\<lparr>sm_last_offset := ucast pc, sm_pcs := sm_pcs s @ [ucast pc],
    pointers_to_stack_map := pointers_to_stack_map s @ [of_nat (length (stack_map_data s))], stack_map_data := stack_map_data s @ map_words host ?m\<rparr>"
  have "StackMapSection_push host pc sz offsets s = Ok s'"
    using False pc room frame_bits_spec(1) [OF host offsets]
    by (simp add: StackMapSection_push_def Let_def s'_def map_words_def)
  moreover have "sect_holds host (done @ [?m]) s'"
    using s by (auto simp: sect_holds_def s'_def)
  ultimately show ?thesis using that False by (simp add: nonempty_def s'_def)
qed

lemma push_all_holds:
  assumes host: "\<forall>k. host k"
  shows "maps_valid ms \<Longrightarrow> sect_holds host done s \<Longrightarrow> \<forall>m \<in> set ms. sm_last_offset s \<le> ucast (fst m) \<Longrightarrow>
    \<forall>m \<in> set done. (\<forall>f \<in> set (snd (snd m)). f mod 4 = 0) \<and> nonempty m \<Longrightarrow>
    sum_list (map map_size (done @ filter nonempty ms)) < 2 ^ 32 \<Longrightarrow>
    \<exists>s'. push_all host ms s = Ok s' \<and> sect_holds host (done @ filter nonempty ms) s'"
proof (induction ms arbitrary: s "done")
  case (Cons m ms)
  obtain pc sz offsets where m: "m = (pc, sz, offsets)" by (cases m)
  have pc: "pc \<le> 0xFFFFFFFF" "\<forall>f \<in> set offsets. f mod 4 = 0" "maps_valid ms" "\<forall>m' \<in> set ms. pc < fst m' \<and> fst m' \<le> 0xFFFFFFFF"
    using Cons.prems(1) m by (auto simp: maps_valid_def)
  have "length (stack_map_data s) = sum_list (map map_size done)"
    using Cons.prems(2) length_concat_map_words [OF host Cons.prems(4)] by (simp add: sect_holds_def)
  then have "length (stack_map_data s) < 2 ^ 32" using Cons.prems(5) by simp
  moreover have "sm_last_offset s \<le> ucast pc" using Cons.prems(3) m by simp
  ultimately obtain s' where s': "StackMapSection_push host pc sz offsets s = Ok s'" "sm_last_offset s' = ucast pc"
    "sect_holds host (done @ filter nonempty [m]) s'"
    using push_holds [OF host Cons.prems(2) pc(1) _ pc(2)] m by metis
  have mono: "(ucast pc :: u32) \<le> ucast (fst m')" if "m' \<in> set ms" for m'
    using pc(1,4) that by (fastforce simp: word_le_nat_alt word_less_nat_alt unsigned_ucast_eq take_bit_nat_eq_self)
  have "\<exists>s''. push_all host ms s' = Ok s'' \<and> sect_holds host ((done @ filter nonempty [m]) @ filter nonempty ms) s''"
    by (rule Cons.IH [OF pc(3) s'(3)]) (use mono s'(2) Cons.prems(4,5) pc(2) m in \<open>auto split: if_splits\<close>)
  then show ?case using s'(1) m by auto
qed simp

section \<open>Looking up a frame\<close>

lemma unat_ucast_pc: "a \<le> 0xFFFFFFFF \<Longrightarrow> unat (ucast (a :: u64) :: u32) = unat a"
  by (simp add: word_le_nat_alt unsigned_ucast_eq take_bit_nat_eq_self)

lemma sect_holds_pcs_sorted:
  assumes "maps_valid ms"
  shows "sorted_wrt (<) (map (\<lambda>m. ucast (fst m) :: u32) (filter nonempty ms))"
proof -
  have "sorted_wrt (\<lambda>a b. fst a < fst b) (filter nonempty ms)" using assms by (simp add: maps_valid_def sorted_wrt_filter)
  moreover have "(ucast (fst m) :: u32) < ucast (fst n)" if "m \<in> set (filter nonempty ms)" "n \<in> set (filter nonempty ms)" "fst m < fst n" for m n
  proof -
    have "fst m \<le> 0xFFFFFFFF" "fst n \<le> 0xFFFFFFFF" using assms that(1,2) by (auto simp: maps_valid_def)
    then show ?thesis using that(3) by (simp add: word_less_nat_alt unat_ucast_pc)
  qed
  ultimately show ?thesis unfolding sorted_wrt_map by (rule sorted_wrt_mono_rel [rotated])
qed

lemma get_holds:
  assumes host: "\<forall>k. host k" and s: "sect_holds host ms s" and k: "k < length ms"
    and ms: "\<forall>m \<in> set ms. (\<forall>f \<in> set (snd (snd m)). f mod 4 = 0) \<and> nonempty m" and sz: "sum_list (map map_size ms) < 2 ^ 32"
  shows "StackMap_get \<lparr>rd_pcs = p, rd_pointers_to_stack_map = pointers_to_stack_map s, rd_stack_map_data = stack_map_data s\<rparr> k =
    Ok \<lparr>frame_size = fst (snd (ms ! k)), sm_data = cbs_iter_scalars (frame_bits host (snd (snd (ms ! k))))\<rparr>"
proof -
  let ?f = "map_words host" and ?bits = "cbs_iter_scalars (frame_bits host (snd (snd (ms ! k))))"
  define n where "n = length (concat (map ?f (take k ms)))"
  have split: "concat (map ?f ms) = concat (map ?f (take k ms)) @ ?f (ms ! k) @ concat (map ?f (drop (Suc k) ms))"
    by (subst id_take_nth_drop [OF k]) simp
  have "length (concat (map ?f ms)) < 2 ^ 32" using length_concat_map_words [OF host ms] sz by simp
  then have "n < 2 ^ 32" using split by (simp add: n_def)
  then have n: "unat (of_nat n :: u32) = n" by (simp add: unsigned_of_nat take_bit_nat_eq_self)
  have "ms ! k \<in> set ms" using k by simp
  then have "length ?bits < 2 ^ 32"
    using ms length_frame_bits [OF host] frame_words_less by (auto simp: nonempty_def)
  then have len: "unat (of_nat (length ?bits) :: u32) = length ?bits" by (simp add: unsigned_of_nat take_bit_nat_eq_self)
  have "pointers_to_stack_map s ! k = of_nat n" "k < length (pointers_to_stack_map s)" using s k by (simp_all add: sect_holds_def n_def)
  moreover have "drop n (stack_map_data s) = ?f (ms ! k) @ concat (map ?f (drop (Suc k) ms))" "n \<le> length (stack_map_data s)"
    using s split by (simp_all add: sect_holds_def n_def)
  ultimately show ?thesis using n len by (simp add: StackMap_get_def map_words_def Let_def)
qed

lemma parse_append_to:
  assumes "object_laws obj" "StackMapSection_append_to obj s = Ok (Some sect)" "length (pointers_to_stack_map s) = length (sm_pcs s)"
  shows "StackMap_parse obj sect =
    Some \<lparr>rd_pcs = sm_pcs s, rd_pointers_to_stack_map = pointers_to_stack_map s, rd_stack_map_data = stack_map_data s\<rparr>"
proof -
  let ?n = "of_nat (length (sm_pcs s)) :: u32"
  have lt: "length (sm_pcs s) < 2 ^ 32" and sect: "sect = to_le_bytes 4 ?n @ bytes_of_slice obj (sm_pcs s) @
      bytes_of_slice obj (pointers_to_stack_map s) @ bytes_of_slice obj (stack_map_data s)"
    using assms(2) by (auto simp: StackMapSection_append_to_def Let_def rust_assert_def split: if_splits)
  have "unat ?n = length (sm_pcs s)" using lt by (simp add: unsigned_of_nat take_bit_nat_eq_self)
  then show ?thesis
    using object_lawsD(2) [OF assms(1), of "pointers_to_stack_map s"]
    unfolding StackMap_parse_def sect by (simp add: object_lawsD [OF assms(1)] assms(3))
qed

text \<open>C15: The stack map section of a compilation round trips: recording frames in ascending order never panics and yields a
  section in which looking up the return address of a frame with references gives the frame's size and exactly its
  offsets in ascending order, whose addresses pass the bounds assertion of the collector, and in which every other
  address has no map.\<close>

theorem stack_maps_roundtrip:
  assumes "object_laws obj" "\<forall>k. host k" "maps_valid ms" "sum_list (map map_size (filter nonempty ms)) < 2 ^ 32" "filter nonempty ms \<noteq> []"
  shows "\<exists>s sect. push_all host ms StackMapSection_default = Ok s \<and> StackMapSection_append_to obj s = Ok (Some sect) \<and>
    (\<forall>(pc, sz, offsets) \<in> set ms. offsets \<noteq> [] \<longrightarrow>
       (\<exists>m xs. StackMap_lookup obj (ucast pc) sect = Ok m \<and> frame_size m = sz \<and> StackMap_offsets m = Some xs \<and>
          sorted_wrt (<) xs \<and> set xs = set offsets \<and>
          ((\<forall>f \<in> set offsets. f < sz) \<longrightarrow> live_gc_refs m sp = Ok (map (\<lambda>f. sp + ucast f) xs)))) \<and>
    (\<forall>pc. pc \<notin> (\<lambda>(pc, _). ucast pc) ` set (filter nonempty ms) \<longrightarrow> StackMap_lookup obj pc sect = Err ())"
proof -
  let ?ms = "filter nonempty ms"
  have v: "\<forall>m \<in> set ?ms. (\<forall>f \<in> set (snd (snd m)). f mod 4 = 0) \<and> nonempty m" using assms(3) by (auto simp: maps_valid_def)
  obtain s where s: "push_all host ms StackMapSection_default = Ok s" "sect_holds host ?ms s"
    using push_all_holds [OF assms(2,3), of "[]" StackMapSection_default] assms(4)
    by (auto simp: sect_holds_def StackMapSection_default_def)
  have "length ?ms \<le> sum_list (map map_size ?ms)" by (induction ms) (auto simp: map_size_def)
  then have len: "length (sm_pcs s) < 2 ^ 32" using s(2) assms(4) by (simp add: sect_holds_def)
  then obtain sect where sect: "StackMapSection_append_to obj s = Ok (Some sect)"
    using s(2) assms(5) by (simp add: StackMapSection_append_to_def sect_holds_def Let_def)
  let ?r = "\<lparr>rd_pcs = sm_pcs s, rd_pointers_to_stack_map = pointers_to_stack_map s, rd_stack_map_data = stack_map_data s\<rparr>"
  have parse: "StackMap_parse obj sect = Some ?r" using parse_append_to [OF assms(1) sect] s(2) by (simp add: sect_holds_def)
  have sorted: "sorted_wrt (<) (sm_pcs s)" using sect_holds_pcs_sorted [OF assms(3)] s(2) by (simp add: sect_holds_def)
  have found: "\<exists>m xs. StackMap_lookup obj (ucast pc) sect = Ok m \<and> frame_size m = sz \<and> StackMap_offsets m = Some xs \<and>
      sorted_wrt (<) xs \<and> set xs = set offsets \<and> ((\<forall>f \<in> set offsets. f < sz) \<longrightarrow> live_gc_refs m sp = Ok (map (\<lambda>f. sp + ucast f) xs))"
    if m: "(pc, sz, offsets) \<in> set ms" "offsets \<noteq> []" for pc sz offsets
  proof -
    obtain k where k: "k < length ?ms" "?ms ! k = (pc, sz, offsets)"
      using m unfolding in_set_conv_nth [of _ ?ms, symmetric] by (metis (mono_tags, lifting) in_set_conv_nth mem_Collect_eq nonempty_def set_filter snd_conv)
    let ?m = "\<lparr>frame_size = sz, sm_data = cbs_iter_scalars (frame_bits host offsets)\<rparr>"
    have "binary_search (sm_pcs s) (ucast pc) = Ok k"
      using binary_search_found [OF sorted, of k] k s(2) by (simp add: sect_holds_def)
    then have "StackMap_lookup obj (ucast pc) sect = Ok ?m"
      using get_holds [OF assms(2) s(2) k(1) v assms(4)] k(2) by (simp add: StackMap_lookup_def parse StackMapSection_lookup_def)
    moreover have d: "\<forall>f \<in> set offsets. f mod 4 = 0" using assms(3) m(1) by (auto simp: maps_valid_def)
    obtain xs where "StackMap_offsets ?m = Some xs" "sorted_wrt (<) xs" "set xs = set offsets"
      using StackMap_offsets_spec [OF frame_bits_spec(2,3) [OF assms(2) d] d] by blast
    moreover from this have "live_gc_refs ?m sp = Ok (map (\<lambda>f. sp + ucast f) xs)" if "\<forall>f \<in> set offsets. f < sz"
      using that refs_at_spec [of xs sz sp] by (simp add: live_gc_refs_def)
    ultimately show ?thesis by auto
  qed
  have "StackMap_lookup obj pc sect = Err ()" if "pc \<notin> (\<lambda>(pc, _). ucast pc) ` set ?ms" for pc
  proof -
    have "pc \<notin> set (sm_pcs s)" using that s(2) by (auto simp: sect_holds_def)
    moreover have "sorted (sm_pcs s)" using sorted by (simp add: strict_sorted_iff)
    ultimately obtain i where "binary_search (sm_pcs s) pc = Err i" using binary_search_missing by metis
    then show ?thesis by (simp add: StackMap_lookup_def parse StackMapSection_lookup_def)
  qed
  then show ?thesis using s(1) sect found by blast
qed

theorem stack_maps_roundtrip_witness:
  "\<exists>s sect m xs. push_all (\<lambda>_. True) [(16, 32, [8, 0]), (24, 32, []), (40, 64, [60])] StackMapSection_default = Ok s \<and>
     StackMapSection_append_to le_object s = Ok (Some sect) \<and> StackMap_lookup le_object 40 sect = Ok m \<and>
     frame_size m = 64 \<and> StackMap_offsets m = Some xs \<and> set xs = {60}"
proof -
  let ?ms = "[(16, 32, [8, 0]), (24, 32, []), (40, 64, [60])] :: frame_map list"
  have "maps_valid ?ms" "filter nonempty ?ms = [(16, 32, [8, 0]), (40, 64, [60])]" by (simp_all add: maps_valid_def nonempty_def)
  moreover have "sum_list (map map_size [(16, 32, [8, 0]), (40, 64, [60 :: u32])]) < 2 ^ 32" by (simp add: map_size_def frame_words_def)
  ultimately obtain s sect where "push_all (\<lambda>_. True) ?ms StackMapSection_default = Ok s" "StackMapSection_append_to le_object s = Ok (Some sect)"
    and l: "\<forall>(pc, sz, offsets) \<in> set ?ms. offsets \<noteq> [] \<longrightarrow> (\<exists>m xs. StackMap_lookup le_object (ucast pc) sect = Ok m \<and> frame_size m = sz \<and>
      StackMap_offsets m = Some xs \<and> sorted_wrt (<) xs \<and> set xs = set offsets \<and>
      ((\<forall>f \<in> set offsets. f < sz) \<longrightarrow> live_gc_refs m 0 = Ok (map (\<lambda>f. 0 + ucast f) xs)))"
    using stack_maps_roundtrip [OF object_laws_le_object, of "\<lambda>_. True" ?ms 0] by auto
  moreover have "\<exists>m xs. StackMap_lookup le_object 40 sect = Ok m \<and> frame_size m = 64 \<and> StackMap_offsets m = Some xs \<and> set xs = {60}"
    using bspec [OF l, of "(40, 64, [60])"] by auto
  ultimately show ?thesis by blast
qed

end
