(* ===== verification/Exception_Table.thy ===== *)
theory Exception_Table
  imports Code_Sections
begin

text \<open>
  The exception tables of compiled code, \<open>crates/unwinder/src/exception_table.rs\<close>: the builder that collects the
  handlers of every call site at compile time, the section it writes, and the lookup by return address that the
  unwinder makes when an exception is thrown. The call sites are those of \<open>cranelift/codegen/src/machinst/buffer.rs\<close>;
  a code offset and an exception tag are their 32-bit numbers. The last section shows that the table read back
  answers for every call site with exactly its handlers, when the search by tag is right, and what goes wrong when the
  handlers of a call site are not in the order it assumes.
\<close>

section \<open>Call sites\<close>

datatype ExceptionContextLoc = SPOffset u32 | GPR u8

datatype FinalizedMachExceptionHandler = Tag u32 u32 | Default u32 | Context ExceptionContextLoc

record FinalizedMachCallSite =
  ret_addr :: u32
  frame_offset :: "u32 option"
  exception_handlers :: "FinalizedMachExceptionHandler list"

section \<open>Building and writing the table\<close>

record ExceptionTableBuilder =
  b_callsites :: "u32 list"
  b_frame_offsets :: "u32 list"
  b_ranges :: "u32 list"
  b_tags :: "u32 list"
  b_contexts :: "u32 list"
  b_handlers :: "u32 list"
  last_start_offset :: u32

definition ExceptionTableBuilder_default :: ExceptionTableBuilder where
  "ExceptionTableBuilder_default =
     \<lparr>b_callsites = [], b_frame_offsets = [], b_ranges = [], b_tags = [], b_contexts = [], b_handlers = [], last_start_offset = 0\<rparr>"

definition push_handler :: "u32 \<Rightarrow> u32 \<Rightarrow> u32 \<Rightarrow> ExceptionTableBuilder \<Rightarrow> ExceptionTableBuilder" where
  "push_handler tag ctxt handler b =
     b\<lparr>b_tags := b_tags b @ [tag], b_contexts := b_contexts b @ [ctxt], b_handlers := b_handlers b @ [handler]\<rparr>"

fun add_handlers :: "u32 \<Rightarrow> u32 \<Rightarrow> FinalizedMachExceptionHandler list \<Rightarrow> ExceptionTableBuilder \<Rightarrow> (ExceptionTableBuilder, unit) res" where
  "add_handlers start_offset ctxt [] b = Ok b"
| "add_handlers start_offset ctxt (handler # handlers) b =
     (case handler of
        Tag tag offset \<Rightarrow>
          and_then (unwrap (checked_add offset start_offset)) (\<lambda>h.
          add_handlers start_offset ctxt handlers (push_handler tag ctxt h b))
      | Default offset \<Rightarrow>
          and_then (unwrap (checked_add offset start_offset)) (\<lambda>h.
          add_handlers start_offset ctxt handlers (push_handler 0xFFFFFFFF ctxt h b))
      | Context (SPOffset offset) \<Rightarrow> add_handlers start_offset offset handlers b
      | Context (GPR _) \<Rightarrow> Panic)"

definition add_call_site :: "u32 \<Rightarrow> FinalizedMachCallSite \<Rightarrow> ExceptionTableBuilder \<Rightarrow> (ExceptionTableBuilder, unit) res" where
  "add_call_site start_offset call_site b =
     and_then (unwrap (checked_add (ret_addr call_site) start_offset)) (\<lambda>ra.
     and_then (rust_assert (int (length (b_tags b)) < 2 ^ 32)) (\<lambda>_.
     let start_idx = length (b_tags b) in
     and_then (add_handlers start_offset 0xFFFFFFFF (exception_handlers call_site) b) (\<lambda>b.
     and_then (rust_assert (int (length (b_tags b)) < 2 ^ 32)) (\<lambda>_.
     let end_idx = length (b_tags b) in
     if start_idx < end_idx then
       Ok (b\<lparr>b_ranges := b_ranges b @ [of_nat end_idx],
            b_frame_offsets := b_frame_offsets b @ [case frame_offset call_site of Some f \<Rightarrow> f | None \<Rightarrow> 0xFFFFFFFF],
            b_callsites := b_callsites b @ [ra]\<rparr>)
     else Ok b))))"

fun add_call_sites :: "u32 \<Rightarrow> FinalizedMachCallSite list \<Rightarrow> ExceptionTableBuilder \<Rightarrow> (ExceptionTableBuilder, unit) res" where
  "add_call_sites start_offset [] b = Ok b"
| "add_call_sites start_offset (call_site # call_sites) b =
     and_then (add_call_site start_offset call_site b) (add_call_sites start_offset call_sites)"

definition add_func :: "u32 \<Rightarrow> FinalizedMachCallSite list \<Rightarrow> ExceptionTableBuilder \<Rightarrow> (ExceptionTableBuilder, unit) res" where
  "add_func start_offset call_sites b =
     and_then (rust_assert (last_start_offset b \<le> start_offset)) (\<lambda>_.
     add_call_sites start_offset call_sites (b\<lparr>last_start_offset := start_offset\<rparr>))"

text \<open>The slices handed to the closure, in order.\<close>

definition serialize :: "object_crate \<Rightarrow> ExceptionTableBuilder \<Rightarrow> (u8 list list, unit) res" where
  "serialize obj b =
     and_then (rust_assert (int (length (b_callsites b)) < 2 ^ 32)) (\<lambda>_.
     and_then (rust_assert (int (length (b_handlers b)) < 2 ^ 32)) (\<lambda>_.
     let callsite_count = of_nat (length (b_callsites b)) :: u32; handler_count = of_nat (length (b_handlers b)) :: u32
     in Ok [to_le_bytes 4 callsite_count, to_le_bytes 4 handler_count,
            bytes_of_slice obj (b_callsites b), bytes_of_slice obj (b_frame_offsets b), bytes_of_slice obj (b_ranges b),
            bytes_of_slice obj (b_tags b), bytes_of_slice obj (b_contexts b), bytes_of_slice obj (b_handlers b)]))"

definition to_vec :: "object_crate \<Rightarrow> ExceptionTableBuilder \<Rightarrow> (u8 list, unit) res" where
  "to_vec obj b = and_then (serialize obj b) (\<lambda>slices. Ok (concat slices))"

section \<open>Reading the table\<close>

record ExceptionTable =
  callsites :: "u32 list"
  ranges :: "u32 list"
  frame_offsets :: "u32 list"
  tags :: "u32 list"
  contexts :: "u32 list"
  handlers :: "u32 list"

record ExceptionHandler =
  tag :: "u32 option"
  context_sp_offset :: "u32 option"
  handler_offset :: u32

definition ExceptionTable_parse :: "object_crate \<Rightarrow> u8 list \<Rightarrow> (ExceptionTable, string) res" where
  "ExceptionTable_parse obj data =
     and_then (ok_or (Bytes_read obj data) ''Unable to read callsite count prefix'') (\<lambda>(callsite_count, data).
     and_then (ok_or (Bytes_read obj data) ''Unable to read handler count prefix'') (\<lambda>(handler_count, data).
     and_then (ok_or (slice_from_bytes obj data (unat callsite_count)) ''Unable to read callsites slice'') (\<lambda>(cs, data).
     and_then (ok_or (slice_from_bytes obj data (unat callsite_count)) ''Unable to read frame_offsets slice'') (\<lambda>(fs, data).
     and_then (ok_or (slice_from_bytes obj data (unat callsite_count)) ''Unable to read ranges slice'') (\<lambda>(rs, data).
     and_then (ok_or (slice_from_bytes obj data (unat handler_count)) ''Unable to read tags slice'') (\<lambda>(ts, data).
     and_then (ok_or (slice_from_bytes obj data (unat handler_count)) ''Unable to read contexts slice'') (\<lambda>(xs, data).
     and_then (ok_or (slice_from_bytes obj data (unat handler_count)) ''Unable to read handlers slice'') (\<lambda>(hs, data).
     if data \<noteq> [] then Err ''Unexpected data at end of serialized exception table''
     else Ok \<lparr>callsites = cs, ranges = rs, frame_offsets = fs, tags = ts, contexts = xs, handlers = hs\<rparr>))))))))"

definition option_from_u32 :: "u32 \<Rightarrow> u32 option" where
  "option_from_u32 value = (if value = 0xFFFFFFFF then None else Some value)"

definition sub_slice :: "u32 list \<Rightarrow> nat \<Rightarrow> nat \<Rightarrow> (u32 list, unit) res" where
  "sub_slice xs i j = and_then (rust_assert (i \<le> j \<and> j \<le> length xs)) (\<lambda>_. Ok (take (j - i) (drop i xs)))"

definition tags_contexts_handlers_for_callsite :: "ExceptionTable \<Rightarrow> nat \<Rightarrow> (u32 list \<times> u32 list \<times> u32 list, unit) res" where
  "tags_contexts_handlers_for_callsite t idx =
     and_then (rust_assert (idx < length (ranges t))) (\<lambda>_.
     let end_idx = unat (ranges t ! idx); start_idx = (if 0 < idx then unat (ranges t ! (idx - 1)) else 0) in
     and_then (sub_slice (tags t) start_idx end_idx) (\<lambda>ts.
     and_then (sub_slice (contexts t) start_idx end_idx) (\<lambda>cs.
     and_then (sub_slice (handlers t) start_idx end_idx) (\<lambda>hs.
     Ok (ts, cs, hs)))))"

definition handlers_for_callsite :: "ExceptionTable \<Rightarrow> nat \<Rightarrow> (ExceptionHandler list, unit) res" where
  "handlers_for_callsite t idx =
     and_then (tags_contexts_handlers_for_callsite t idx) (\<lambda>(ts, cs, hs).
     Ok (map (\<lambda>((tg, c), h). \<lparr>tag = option_from_u32 tg, context_sp_offset = option_from_u32 c, handler_offset = h\<rparr>)
          (zip (zip ts cs) hs)))"

text \<open>The iterator of handlers is the list of what it yields, its panics those of the whole call.\<close>

definition lookup_pc :: "ExceptionTable \<Rightarrow> u32 \<Rightarrow> (u32 option \<times> ExceptionHandler list, unit) res" where
  "lookup_pc t pc =
     (case binary_search (callsites t) pc of
        Ok idx \<Rightarrow>
          and_then (rust_assert (idx < length (frame_offsets t))) (\<lambda>_.
          and_then (handlers_for_callsite t idx) (\<lambda>hs. Ok (option_from_u32 (frame_offsets t ! idx), hs)))
      | _ \<Rightarrow> Ok (None, []))"

definition lookup_pc_tag :: "ExceptionTable \<Rightarrow> u32 \<Rightarrow> u32 \<Rightarrow> ((u32 \<times> u32) option, unit) res" where
  "lookup_pc_tag t pc tg =
     (case binary_search (callsites t) pc of
        Ok callsite_idx \<Rightarrow>
          and_then (rust_assert (callsite_idx < length (frame_offsets t))) (\<lambda>_.
          let f = (case option_from_u32 (frame_offsets t ! callsite_idx) of Some f \<Rightarrow> f | None \<Rightarrow> 0) in
          and_then (tags_contexts_handlers_for_callsite t callsite_idx) (\<lambda>(ts, _, hs).
          case binary_search ts tg of
            Ok handler_idx \<Rightarrow> and_then (rust_assert (handler_idx < length hs)) (\<lambda>_. Ok (Some (f, hs ! handler_idx)))
          | _ \<Rightarrow>
              if ts \<noteq> [] \<and> last ts = 0xFFFFFFFF then and_then (rust_assert (hs \<noteq> [])) (\<lambda>_. Ok (Some (f, last hs)))
              else Ok None))
      | _ \<Rightarrow> Ok None)"

fun callsite_entries :: "ExceptionTable \<Rightarrow> nat \<Rightarrow> u32 list \<Rightarrow> ((u32 \<times> u32 option \<times> ExceptionHandler list) list, unit) res" where
  "callsite_entries t i [] = Ok []"
| "callsite_entries t i (pc # pcs) =
     and_then (rust_assert (i < length (frame_offsets t))) (\<lambda>_.
     and_then (handlers_for_callsite t i) (\<lambda>hs.
     and_then (callsite_entries t (i + 1) pcs) (\<lambda>rest.
     Ok ((pc, option_from_u32 (frame_offsets t ! i), hs) # rest))))"

definition ExceptionTable_into_iter :: "ExceptionTable \<Rightarrow> ((u32 \<times> u32 option \<times> ExceptionHandler list) list, unit) res" where
  "ExceptionTable_into_iter t = callsite_entries t 0 (callsites t)"

section \<open>What a call site contributes\<close>

text \<open>The triples of tag, context and handler that a call site adds to the three arrays.\<close>

fun site_items :: "u32 \<Rightarrow> u32 \<Rightarrow> FinalizedMachExceptionHandler list \<Rightarrow> (u32 \<times> u32 \<times> u32) list" where
  "site_items start ctxt [] = []"
| "site_items start ctxt (Tag tg offset # hs) = (tg, ctxt, offset + start) # site_items start ctxt hs"
| "site_items start ctxt (Default offset # hs) = (0xFFFFFFFF, ctxt, offset + start) # site_items start ctxt hs"
| "site_items start ctxt (Context (SPOffset c) # hs) = site_items start c hs"
| "site_items start ctxt (Context (GPR r) # hs) = site_items start ctxt hs"

text \<open>The handlers a call site asks for: the contexts apply to what follows them, \<open>None\<close> is the catch-all tag.\<close>

fun site_handlers :: "u32 \<Rightarrow> u32 option \<Rightarrow> FinalizedMachExceptionHandler list \<Rightarrow> ExceptionHandler list" where
  "site_handlers start ctxt [] = []"
| "site_handlers start ctxt (Tag tg offset # hs) =
     \<lparr>tag = Some tg, context_sp_offset = ctxt, handler_offset = offset + start\<rparr> # site_handlers start ctxt hs"
| "site_handlers start ctxt (Default offset # hs) =
     \<lparr>tag = None, context_sp_offset = ctxt, handler_offset = offset + start\<rparr> # site_handlers start ctxt hs"
| "site_handlers start ctxt (Context (SPOffset c) # hs) = site_handlers start (Some c) hs"
| "site_handlers start ctxt (Context (GPR r) # hs) = site_handlers start ctxt hs"

text \<open>Handlers the format can represent: offsets that fit, contexts on the stack, and no tag or context that is the
  number reserved for none.\<close>

fun handler_ok :: "u32 \<Rightarrow> FinalizedMachExceptionHandler \<Rightarrow> bool" where
  "handler_ok start (Tag tg offset) \<longleftrightarrow> tg \<noteq> 0xFFFFFFFF \<and> checked_add offset start \<noteq> None"
| "handler_ok start (Default offset) \<longleftrightarrow> checked_add offset start \<noteq> None"
| "handler_ok start (Context (SPOffset c)) \<longleftrightarrow> c \<noteq> 0xFFFFFFFF"
| "handler_ok start (Context (GPR r)) \<longleftrightarrow> False"

definition site_ok :: "u32 \<Rightarrow> FinalizedMachCallSite \<Rightarrow> bool" where
  "site_ok start cs \<longleftrightarrow> checked_add (ret_addr cs) start \<noteq> None \<and> frame_offset cs \<noteq> Some 0xFFFFFFFF \<and>
     (\<forall>h \<in> set (exception_handlers cs). handler_ok start h)"

definition item_handler :: "u32 \<times> u32 \<times> u32 \<Rightarrow> ExceptionHandler" where
  "item_handler = (\<lambda>(tg, c, h). \<lparr>tag = option_from_u32 tg, context_sp_offset = option_from_u32 c, handler_offset = h\<rparr>)"

lemma checked_add_Some: "checked_add a b \<noteq> None \<Longrightarrow> checked_add a b = Some (a + b)"
  by (auto simp: checked_add_def split: if_splits)

lemma add_handlers_eq:
  assumes "\<forall>h \<in> set hs. handler_ok start h"
  shows "add_handlers start c hs b = Ok (b\<lparr>b_tags := b_tags b @ map fst (site_items start c hs),
    b_contexts := b_contexts b @ map (fst \<circ> snd) (site_items start c hs),
    b_handlers := b_handlers b @ map (snd \<circ> snd) (site_items start c hs)\<rparr>)"
  using assms
  by (induction start c hs arbitrary: b rule: site_items.induct) (auto simp: checked_add_Some unwrap_simps push_handler_def)

lemma item_handlers:
  assumes "\<forall>h \<in> set hs. handler_ok start h"
  shows "map item_handler (site_items start c hs) = site_handlers start (option_from_u32 c) hs"
  using assms by (induction start c hs rule: site_items.induct) (auto simp: item_handler_def option_from_u32_def)

section \<open>The entries of the table\<close>

text \<open>An entry is a return address, a frame offset and the items of the call site, which are never empty.\<close>

type_synonym table_entry = "u32 \<times> u32 \<times> (u32 \<times> u32 \<times> u32) list"

definition items_of :: "table_entry list \<Rightarrow> (u32 \<times> u32 \<times> u32) list" where
  "items_of es = concat (map (snd \<circ> snd) es)"

definition end_of :: "table_entry list \<Rightarrow> nat \<Rightarrow> nat" where
  "end_of es k = length (items_of (take k es))"

definition builder_holds :: "table_entry list \<Rightarrow> ExceptionTableBuilder \<Rightarrow> bool" where
  "builder_holds es b \<longleftrightarrow> b_callsites b = map fst es \<and> b_frame_offsets b = map (fst \<circ> snd) es \<and>
     b_ranges b = map (\<lambda>k. of_nat (end_of es (Suc k))) [0..<length es] \<and> b_tags b = map fst (items_of es) \<and>
     b_contexts b = map (fst \<circ> snd) (items_of es) \<and> b_handlers b = map (snd \<circ> snd) (items_of es)"

definition site_entry :: "u32 \<Rightarrow> FinalizedMachCallSite \<Rightarrow> table_entry" where
  "site_entry start cs = (ret_addr cs + start, case frame_offset cs of Some f \<Rightarrow> f | None \<Rightarrow> 0xFFFFFFFF,
     site_items start 0xFFFFFFFF (exception_handlers cs))"

definition site_entries :: "u32 \<Rightarrow> FinalizedMachCallSite list \<Rightarrow> table_entry list" where
  "site_entries start css = filter (\<lambda>e. snd (snd e) \<noteq> []) (map (site_entry start) css)"

lemma items_of_simps [simp]: "items_of [] = []" "items_of (e # es) = snd (snd e) @ items_of es" "items_of (es @ es') = items_of es @ items_of es'"
  by (simp_all add: items_of_def)

lemma site_entries_Cons:
  "site_entries start (cs # css) = (if snd (snd (site_entry start cs)) = [] then [] else [site_entry start cs]) @ site_entries start css"
  by (simp add: site_entries_def)

lemma builder_holds_snoc:
  assumes "builder_holds es b"
  shows "builder_holds (es @ [(ra, f, items)]) (b\<lparr>b_tags := b_tags b @ map fst items, b_contexts := b_contexts b @ map (fst \<circ> snd) items,
    b_handlers := b_handlers b @ map (snd \<circ> snd) items, b_ranges := b_ranges b @ [of_nat (length (items_of es) + length items)],
    b_frame_offsets := b_frame_offsets b @ [f], b_callsites := b_callsites b @ [ra]\<rparr>)"
proof -
  have "map (\<lambda>k. of_nat (end_of (es @ [(ra, f, items)]) (Suc k)) :: u32) [0..<length es] = map (\<lambda>k. of_nat (end_of es (Suc k))) [0..<length es]"
    by (rule map_cong) (auto simp: end_of_def)
  then show ?thesis using assms by (simp add: builder_holds_def) (simp add: end_of_def)
qed

lemma add_call_site_holds:
  assumes "builder_holds es b" "site_ok start cs" "length (items_of (es @ site_entries start [cs])) < 2 ^ 32"
  shows "\<exists>b'. add_call_site start cs b = Ok b' \<and> builder_holds (es @ site_entries start [cs]) b' \<and> last_start_offset b' = last_start_offset b"
proof -
  let ?items = "site_items start 0xFFFFFFFF (exception_handlers cs)"
  have hs: "\<forall>h \<in> set (exception_handlers cs). handler_ok start h" and ra: "checked_add (ret_addr cs) start = Some (ret_addr cs + start)"
    using assms(2) by (auto simp: site_ok_def checked_add_Some)
  have b: "length (b_tags b) = length (items_of es)" using assms(1) by (simp add: builder_holds_def)
  have len: "int (length (items_of es) + length ?items) < 2 ^ 32" "int (length (items_of es)) < 2 ^ 32"
    using assms(3) by (auto simp: site_entries_def site_entry_def items_of_def split: if_splits)
  show ?thesis
  proof (cases "?items = []")
    case True
    then show ?thesis using assms(1) len
      by (simp add: add_call_site_def ra unwrap_simps b rust_assert_simps add_handlers_eq [OF hs] site_entries_def site_entry_def builder_holds_def)
  next
    case False
    then have e: "site_entries start [cs] = [site_entry start cs]" by (simp add: site_entries_def site_entry_def)
    show ?thesis using builder_holds_snoc [OF assms(1), of "ret_addr cs + start" _ ?items] len False unfolding e
      by (simp add: add_call_site_def ra unwrap_simps b rust_assert_simps add_handlers_eq [OF hs] Let_def site_entry_def)
  qed
qed

lemma add_call_sites_holds:
  assumes "builder_holds es b" "\<forall>cs \<in> set css. site_ok start cs" "length (items_of (es @ site_entries start css)) < 2 ^ 32"
  shows "\<exists>b'. add_call_sites start css b = Ok b' \<and> builder_holds (es @ site_entries start css) b' \<and> last_start_offset b' = last_start_offset b"
  using assms
proof (induction css arbitrary: es b)
  case Nil
  then show ?case by (simp add: site_entries_def)
next
  case (Cons cs css)
  have split: "site_entries start (cs # css) = site_entries start [cs] @ site_entries start css" by (simp add: site_entries_def)
  obtain b' where b': "add_call_site start cs b = Ok b'" "builder_holds (es @ site_entries start [cs]) b'" "last_start_offset b' = last_start_offset b"
    using add_call_site_holds [OF Cons.prems(1), of start cs] Cons.prems(2,3) unfolding split by auto
  then show ?case using Cons.IH [OF b'(2)] Cons.prems(2,3) unfolding split by simp
qed

text \<open>The functions of a compilation, each with its offset and its call sites.\<close>

type_synonym code_func = "u32 \<times> FinalizedMachCallSite list"

fun add_funcs :: "code_func list \<Rightarrow> ExceptionTableBuilder \<Rightarrow> (ExceptionTableBuilder, unit) res" where
  "add_funcs [] b = Ok b"
| "add_funcs ((start, css) # fs) b = and_then (add_func start css b) (add_funcs fs)"

definition func_entries :: "code_func list \<Rightarrow> table_entry list" where
  "func_entries fs = concat (map (\<lambda>(start, css). site_entries start css) fs)"

lemma add_funcs_holds:
  assumes "builder_holds es b" "sorted (last_start_offset b # map fst fs)" "\<forall>(start, css) \<in> set fs. \<forall>cs \<in> set css. site_ok start cs"
    "length (items_of (es @ func_entries fs)) < 2 ^ 32"
  shows "\<exists>b'. add_funcs fs b = Ok b' \<and> builder_holds (es @ func_entries fs) b'"
  using assms
proof (induction fs arbitrary: es b)
  case Nil
  then show ?case by (simp add: func_entries_def)
next
  case (Cons f fs)
  obtain start css where f: "f = (start, css)" by (cases f)
  have split: "func_entries (f # fs) = site_entries start css @ func_entries fs" by (simp add: func_entries_def f)
  note prems = Cons.prems [unfolded split]
  let ?b = "b\<lparr>last_start_offset := start\<rparr>"
  have "builder_holds es ?b" using Cons.prems(1) by (simp add: builder_holds_def)
  then obtain b' where b': "add_call_sites start css ?b = Ok b'" "builder_holds (es @ site_entries start css) b'" "last_start_offset b' = start"
    using add_call_sites_holds [of es ?b css start] prems(3,4) by (auto simp: f)
  moreover have "last_start_offset b \<le> start" using Cons.prems(2) by (simp add: f)
  ultimately show ?case using Cons.IH [OF b'(2)] prems(2-4) unfolding split by (simp add: f add_func_def rust_assert_simps)
qed

section \<open>Reading back\<close>

definition table_of :: "ExceptionTableBuilder \<Rightarrow> ExceptionTable" where
  "table_of b = \<lparr>callsites = b_callsites b, ranges = b_ranges b, frame_offsets = b_frame_offsets b, tags = b_tags b,
     contexts = b_contexts b, handlers = b_handlers b\<rparr>"

lemma slices_append:
  assumes "object_laws obj"
  shows "length ws = n \<Longrightarrow> slice_from_bytes obj (bytes_of_slice obj ws @ bs) n = Some (ws, bs)"
    "length ws = n \<Longrightarrow> slice_from_bytes obj (bytes_of_slice obj ws) n = Some (ws, [])"
  using object_lawsD(2) [OF assms, of ws bs] object_lawsD(2) [OF assms, of ws "[]"] by auto

lemma parse_to_vec:
  assumes "object_laws obj" "builder_holds es b" "length es < 2 ^ 32" "length (items_of es) < 2 ^ 32"
  obtains data where "to_vec obj b = Ok data" "ExceptionTable_parse obj data = Ok (table_of b)"
proof -
  have l: "length (b_callsites b) = length es" "length (b_frame_offsets b) = length es" "length (b_ranges b) = length es"
    "length (b_tags b) = length (items_of es)" "length (b_contexts b) = length (items_of es)" "length (b_handlers b) = length (items_of es)"
    using assms(2) by (simp_all add: builder_holds_def)
  have n: "unat (of_nat (length es) :: u32) = length es" "unat (of_nat (length (items_of es)) :: u32) = length (items_of es)"
    using assms(3,4) by (simp_all add: unsigned_of_nat take_bit_nat_eq_self)
  obtain data where data: "to_vec obj b = Ok data" and eq: "data = to_le_bytes 4 (of_nat (length es) :: u32) @ to_le_bytes 4 (of_nat (length (items_of es)) :: u32) @
      bytes_of_slice obj (b_callsites b) @ bytes_of_slice obj (b_frame_offsets b) @ bytes_of_slice obj (b_ranges b) @
      bytes_of_slice obj (b_tags b) @ bytes_of_slice obj (b_contexts b) @ bytes_of_slice obj (b_handlers b)"
    using assms(3,4) by (simp add: to_vec_def serialize_def rust_assert_simps l Let_def)
  have "ExceptionTable_parse obj data = Ok (table_of b)"
    unfolding eq ExceptionTable_parse_def
    by (simp add: object_lawsD(1) [OF assms(1)] slices_append [OF assms(1)] l n ok_or_simps table_of_def)
  then show ?thesis using data that by blast
qed

lemma items_at:
  assumes "k < length es"
  shows "take (end_of es (Suc k) - end_of es k) (drop (end_of es k) (items_of es)) = snd (snd (es ! k))"
    "end_of es k \<le> end_of es (Suc k)" "end_of es (Suc k) \<le> length (items_of es)"
proof -
  have es: "items_of es = items_of (take k es) @ snd (snd (es ! k)) @ items_of (drop (Suc k) es)"
    using id_take_nth_drop [OF assms] by (metis items_of_simps(2,3))
  have "end_of es (Suc k) = end_of es k + length (snd (snd (es ! k)))" using assms by (simp add: end_of_def take_Suc_conv_app_nth)
  then show "take (end_of es (Suc k) - end_of es k) (drop (end_of es k) (items_of es)) = snd (snd (es ! k))"
    "end_of es k \<le> end_of es (Suc k)" "end_of es (Suc k) \<le> length (items_of es)"
    by (simp_all add: es, simp_all add: end_of_def)
qed

lemma items_for_callsite:
  assumes "builder_holds es b" "length (items_of es) < 2 ^ 32" "k < length es"
  shows "tags_contexts_handlers_for_callsite (table_of b) k =
    Ok (map fst (snd (snd (es ! k))), map (fst \<circ> snd) (snd (snd (es ! k))), map (snd \<circ> snd) (snd (snd (es ! k))))"
proof -
  have u: "unat (of_nat (end_of es j) :: u32) = end_of es j" if "j \<le> length es" for j
  proof -
    have "end_of es j \<le> length (items_of es)" using id_take_nth_drop that by (metis append_take_drop_id end_of_def items_of_simps(3) le_add1 length_append)
    then show ?thesis using assms(2) by (simp add: unsigned_of_nat take_bit_nat_eq_self)
  qed
  have r: "ranges (table_of b) ! j = of_nat (end_of es (Suc j))" if "j < length es" for j
    using assms(1) that by (simp add: builder_holds_def table_of_def)
  have s: "(if 0 < k then unat (ranges (table_of b) ! (k - 1)) else 0) = end_of es k"
    using r [of "k - 1"] u [of k] assms(3) by (cases k) (auto simp: end_of_def)
  have e: "unat (ranges (table_of b) ! k) = end_of es (Suc k)" using r u assms(3) by simp
  have l: "k < length (ranges (table_of b))" "tags (table_of b) = map fst (items_of es)"
    "contexts (table_of b) = map (fst \<circ> snd) (items_of es)" "handlers (table_of b) = map (snd \<circ> snd) (items_of es)"
    using assms(1,3) by (simp_all add: builder_holds_def table_of_def)
  show ?thesis
    unfolding tags_contexts_handlers_for_callsite_def Let_def s e l(2-4) sub_slice_def
    using l(1) items_at [OF assms(3)] by (simp add: rust_assert_simps drop_map take_map)
qed

lemma handlers_for_callsite_eq:
  assumes "builder_holds es b" "length (items_of es) < 2 ^ 32" "k < length es"
  shows "handlers_for_callsite (table_of b) k = Ok (map item_handler (snd (snd (es ! k))))"
proof -
  have "zip (zip (map fst xs) (map (fst \<circ> snd) xs)) (map (snd \<circ> snd) xs) = map (\<lambda>x. ((fst x, fst (snd x)), snd (snd x))) xs"
    for xs :: "(u32 \<times> u32 \<times> u32) list" by (induction xs) auto
  then show ?thesis
    by (simp add: handlers_for_callsite_def items_for_callsite [OF assms]) (simp add: item_handler_def split_beta)
qed

section \<open>Looking up\<close>

text \<open>What the table is meant to say: for every call site with handlers its return address in the section, its frame
  offset and its handlers, in the order of the code.\<close>

definition site_listing :: "u32 \<Rightarrow> FinalizedMachCallSite list \<Rightarrow> (u32 \<times> u32 option \<times> ExceptionHandler list) list" where
  "site_listing start css = filter (\<lambda>(_, _, hs). hs \<noteq> [])
     (map (\<lambda>cs. (ret_addr cs + start, frame_offset cs, site_handlers start None (exception_handlers cs))) css)"

definition listing :: "code_func list \<Rightarrow> (u32 \<times> u32 option \<times> ExceptionHandler list) list" where
  "listing fs = concat (map (\<lambda>(start, css). site_listing start css) fs)"

text \<open>Functions in ascending order, call sites the format can represent, and return addresses in strictly ascending order.\<close>

definition funcs_ok :: "code_func list \<Rightarrow> bool" where
  "funcs_ok fs \<longleftrightarrow> sorted (map fst fs) \<and> (\<forall>(start, css) \<in> set fs. \<forall>cs \<in> set css. site_ok start cs) \<and>
     sorted_wrt (<) (map fst (listing fs)) \<and> sum_list (map (\<lambda>(_, _, hs). length hs) (listing fs)) < 2 ^ 32"

definition entry_view :: "table_entry \<Rightarrow> u32 \<times> u32 option \<times> ExceptionHandler list" where
  "entry_view = (\<lambda>(pc, f, items). (pc, option_from_u32 f, map item_handler items))"

lemma site_listing_entries:
  assumes "\<forall>cs \<in> set css. site_ok start cs"
  shows "site_listing start css = map entry_view (site_entries start css)"
  using assms
proof (induction css)
  case (Cons cs css)
  have hs: "map item_handler (site_items start 0xFFFFFFFF (exception_handlers cs)) = site_handlers start None (exception_handlers cs)"
    using item_handlers [of "exception_handlers cs" start "0xFFFFFFFF"] Cons.prems by (simp add: site_ok_def option_from_u32_def)
  have f: "option_from_u32 (case frame_offset cs of None \<Rightarrow> 0xFFFFFFFF | Some f \<Rightarrow> f) = frame_offset cs"
    using Cons.prems by (auto simp: site_ok_def option_from_u32_def split: option.splits)
  have "site_items start 0xFFFFFFFF (exception_handlers cs) = [] \<longleftrightarrow> site_handlers start None (exception_handlers cs) = []"
    by (simp flip: hs)
  then show ?case using Cons by (simp add: site_listing_def site_entries_Cons) (simp add: site_entry_def entry_view_def hs f)
qed (simp add: site_listing_def site_entries_def)

lemma listing_entries:
  assumes "\<forall>(start, css) \<in> set fs. \<forall>cs \<in> set css. site_ok start cs"
  shows "listing fs = map entry_view (func_entries fs)"
  using assms by (induction fs) (auto simp: listing_def func_entries_def site_listing_entries)

lemma entry_view_simps [simp]:
  "fst (entry_view e) = fst e" "map fst (map entry_view es) = map fst es"
  "sum_list (map (\<lambda>(_, _, hs). length hs) (map entry_view es)) = length (items_of es)"
  by (auto simp: entry_view_def split_beta) (induction es, auto)

lemma length_func_entries: "length (func_entries fs) \<le> length (items_of (func_entries fs))"
proof -
  have "\<forall>e \<in> set es. snd (snd e) \<noteq> [] \<Longrightarrow> length es \<le> length (items_of es)" for es :: "table_entry list"
  proof (induction es)
    case (Cons e es)
    then have "0 < length (snd (snd e))" "length es \<le> length (items_of es)" by simp_all
    then have "Suc (length es) \<le> length (snd (snd e)) + length (items_of es)" by linarith
    then show ?case by simp
  qed simp
  moreover have "\<forall>e \<in> set (func_entries fs). snd (snd e) \<noteq> []" by (auto simp: func_entries_def site_entries_def)
  ultimately show ?thesis by blast
qed

lemma lookup_pc_entry:
  assumes "builder_holds es b" "length (items_of es) < 2 ^ 32" "sorted_wrt (<) (map fst es)" "k < length es"
  shows "lookup_pc (table_of b) (fst (es ! k)) = Ok (snd (entry_view (es ! k)))"
proof -
  have "binary_search (map fst es) (fst (es ! k)) = Ok k" using binary_search_found [OF assms(3), of k] assms(4) by simp
  moreover have "callsites (table_of b) = map fst es" "frame_offsets (table_of b) = map (fst \<circ> snd) es"
    using assms(1) by (simp_all add: builder_holds_def table_of_def)
  ultimately show ?thesis using assms(4)
    by (simp add: lookup_pc_def rust_assert_simps handlers_for_callsite_eq [OF assms(1,2,4)] entry_view_def split_beta)
qed

lemma callsite_entries_eq:
  assumes "builder_holds es b" "length (items_of es) < 2 ^ 32" "k \<le> length es"
  shows "callsite_entries (table_of b) k (map fst (drop k es)) = Ok (map entry_view (drop k es))"
  using assms(3)
proof (induction "length es - k" arbitrary: k)
  case (Suc n)
  then have k: "k < length es" by simp
  have f: "frame_offsets (table_of b) = map (fst \<circ> snd) es" using assms(1) by (simp add: builder_holds_def table_of_def)
  show ?case using Suc.hyps(1) [of "Suc k"] Suc.hyps(2) k
    by (simp add: Cons_nth_drop_Suc [OF k, symmetric] f rust_assert_simps handlers_for_callsite_eq [OF assms(1,2) k] entry_view_def split_beta)
qed simp

section \<open>Properties\<close>

text \<open>C14: The exception table of a compilation round trips: collecting the call sites of functions in ascending order never panics,
  and the table read back from the section it writes answers, for the return address of every call site with handlers,
  with the frame offset and exactly the handlers of the site in their order, each with the context in force; for every
  other address it has no handlers, and its iterator lists the sites in order.\<close>

theorem exception_table_roundtrip:
  assumes "object_laws obj" "funcs_ok fs"
  shows "\<exists>b data t. add_funcs fs ExceptionTableBuilder_default = Ok b \<and> to_vec obj b = Ok data \<and> ExceptionTable_parse obj data = Ok t \<and>
    (\<forall>(pc, f, hs) \<in> set (listing fs). lookup_pc t pc = Ok (f, hs)) \<and>
    (\<forall>pc. pc \<notin> fst ` set (listing fs) \<longrightarrow> lookup_pc t pc = Ok (None, [])) \<and>
    ExceptionTable_into_iter t = Ok (listing fs)"
proof -
  let ?es = "func_entries fs"
  have ok: "\<forall>(start, css) \<in> set fs. \<forall>cs \<in> set css. site_ok start cs" using assms(2) by (simp add: funcs_ok_def)
  note view = listing_entries [OF ok]
  have sorted: "sorted_wrt (<) (map fst ?es)" and len: "length (items_of ?es) < 2 ^ 32"
    using assms(2) by (simp_all add: funcs_ok_def view del: map_map)
  obtain b where b: "add_funcs fs ExceptionTableBuilder_default = Ok b" "builder_holds ?es b"
    using add_funcs_holds [of "[]" ExceptionTableBuilder_default fs] assms(2) len
    by (auto simp: funcs_ok_def builder_holds_def ExceptionTableBuilder_default_def)
  obtain data where data: "to_vec obj b = Ok data" "ExceptionTable_parse obj data = Ok (table_of b)"
    using parse_to_vec [OF assms(1) b(2)] len length_func_entries [of fs] by force
  have "lookup_pc (table_of b) pc = Ok (f, hs)" if "(pc, f, hs) \<in> set (listing fs)" for pc f hs
  proof -
    obtain k where k: "k < length ?es" "entry_view (?es ! k) = (pc, f, hs)" using \<open>(pc, f, hs) \<in> _\<close> by (auto simp: view in_set_conv_nth)
    then have "fst (?es ! k) = pc" by (metis entry_view_simps(1) fst_conv)
    then show ?thesis using lookup_pc_entry [OF b(2) len sorted k(1)] k(2) by simp
  qed
  moreover have "lookup_pc (table_of b) pc = Ok (None, [])" if "pc \<notin> fst ` set (listing fs)" for pc
  proof -
    have "pc \<notin> set (map fst ?es)" using \<open>pc \<notin> _\<close> by (auto simp: view image_iff)
    then obtain i where "binary_search (map fst ?es) pc = Err i" using binary_search_missing sorted by (metis strict_sorted_iff)
    then show ?thesis using b(2) by (simp add: lookup_pc_def table_of_def builder_holds_def)
  qed
  moreover have "callsites (table_of b) = map fst ?es" using b(2) by (simp add: builder_holds_def table_of_def)
  then have "ExceptionTable_into_iter (table_of b) = Ok (listing fs)"
    using callsite_entries_eq [OF b(2) len, of 0] by (simp add: ExceptionTable_into_iter_def view)
  ultimately show ?thesis using b(1) data by blast
qed

definition example_sites :: "FinalizedMachCallSite list" where
  "example_sites =
     [\<lparr>ret_addr = 0x10, frame_offset = None, exception_handlers = [Tag 1 0x20, Context (SPOffset 8), Tag 2 0x30, Default 0x40]\<rparr>,
      \<lparr>ret_addr = 0x48, frame_offset = None, exception_handlers = []\<rparr>,
      \<lparr>ret_addr = 0x50, frame_offset = Some 0x20, exception_handlers = [Default 0x60]\<rparr>]"

theorem exception_table_roundtrip_witness:
  "\<exists>b data t. add_funcs [(0x100, example_sites)] ExceptionTableBuilder_default = Ok b \<and> to_vec le_object b = Ok data \<and>
     ExceptionTable_parse le_object data = Ok t \<and>
     lookup_pc t 0x150 = Ok (Some 0x20, [\<lparr>tag = None, context_sp_offset = None, handler_offset = 0x160\<rparr>]) \<and>
     lookup_pc t 0x148 = Ok (None, [])"
proof -
  have l: "listing [(0x100, example_sites)] =
     [(0x110, None, [\<lparr>tag = Some 1, context_sp_offset = None, handler_offset = 0x120\<rparr>, \<lparr>tag = Some 2, context_sp_offset = Some 8, handler_offset = 0x130\<rparr>,
         \<lparr>tag = None, context_sp_offset = Some 8, handler_offset = 0x140\<rparr>]),
      (0x150, Some 0x20, [\<lparr>tag = None, context_sp_offset = None, handler_offset = 0x160\<rparr>])]"
    by (simp add: listing_def site_listing_def example_sites_def)
  have "funcs_ok [(0x100, example_sites)]"
    by (simp add: funcs_ok_def l) (simp add: example_sites_def site_ok_def checked_add_def)
  from exception_table_roundtrip [OF object_laws_le_object this] show ?thesis unfolding l by auto
qed

text \<open>The handler that catches a tag: the first one for the tag, else the catch-all.\<close>

definition best_match :: "u32 \<Rightarrow> ExceptionHandler list \<Rightarrow> ExceptionHandler option" where
  "best_match tg hs = (case find (\<lambda>h. tag h = Some tg) hs of Some h \<Rightarrow> Some h | None \<Rightarrow> find (\<lambda>h. tag h = None) hs)"

definition tag_key :: "ExceptionHandler \<Rightarrow> u32" where
  "tag_key h = (case tag h of Some tg \<Rightarrow> tg | None \<Rightarrow> 0xFFFFFFFF)"

lemma find_sorted_key:
  assumes "sorted_wrt (<) (map key hs)" "i < length hs" "P (hs ! i)" "\<And>h. P h \<Longrightarrow> key h = (key (hs ! i) :: u32)"
  shows "find P hs = Some (hs ! i)"
proof -
  have "\<not> P (hs ! j)" if "j < i" for j
    using assms(4) [of "hs ! j"] sorted_wrt_nth_less [OF assms(1), of j i] that assms(2) by auto
  then show ?thesis using assms(2,3) by (auto simp: find_Some_iff)
qed

lemma find_catch_all:
  assumes "sorted_wrt (<) (map tag_key hs)" "\<forall>h \<in> set hs. tag h \<noteq> Some 0xFFFFFFFF"
  shows "find (\<lambda>h. tag h = None) hs = (if hs \<noteq> [] \<and> last (map tag_key hs) = 0xFFFFFFFF then Some (last hs) else None)"
proof -
  have key: "tag_key h = 0xFFFFFFFF \<longleftrightarrow> tag h = None" if "h \<in> set hs" for h
    using assms(2) that by (auto simp: tag_key_def split: option.splits)
  show ?thesis
  proof (cases "\<exists>h \<in> set hs. tag h = None")
    case True
    then obtain j where j: "j < length hs" "tag_key (hs ! j) = 0xFFFFFFFF" using key by (metis in_set_conv_nth)
    have "\<not> j < length hs - 1"
    proof
      assume "j < length hs - 1"
      then have "tag_key (hs ! j) < tag_key (hs ! (length hs - 1))" using sorted_wrt_nth_less [OF assms(1), of j "length hs - 1"] by simp
      moreover have "(0xFFFFFFFF :: u32) = - 1" by simp
      ultimately show False using j(2) word_order.extremum_strict by metis
    qed
    then have "j = length hs - 1" "hs \<noteq> []" using j(1) by auto
    then have l: "hs \<noteq> []" "last hs = hs ! j" by (simp_all add: last_conv_nth)
    have "find (\<lambda>h. tag h = None) hs = Some (hs ! j)"
      using j key by (intro find_sorted_key [OF assms(1)]) (auto simp: tag_key_def)
    then show ?thesis using j(2) l by (simp add: last_map)
  next
    case False
    then have "find (\<lambda>h. tag h = None) hs = None" by (auto simp: find_None_iff)
    moreover have "tag_key (last hs) \<noteq> 0xFFFFFFFF" if "hs \<noteq> []" using key False that by (metis last_in_set)
    ultimately show ?thesis by (auto simp: last_map)
  qed
qed

lemma search_tags:
  assumes "sorted_wrt (<) (map tag_key hs)" "\<forall>h \<in> set hs. tag h \<noteq> Some 0xFFFFFFFF" "tg \<noteq> 0xFFFFFFFF"
  shows "(case binary_search (map tag_key hs) tg of
       Ok i \<Rightarrow> if i < length hs then Some (hs ! i) else None
     | _ \<Rightarrow> if hs \<noteq> [] \<and> last (map tag_key hs) = 0xFFFFFFFF then Some (last hs) else None) = best_match tg hs"
proof -
  have key: "tag_key h = tg \<longleftrightarrow> tag h = Some tg" for h using assms(3) by (auto simp: tag_key_def split: option.splits)
  note spec = binary_search_spec [of "map tag_key hs" tg]
  have s: "sorted (map tag_key hs)" using assms(1) by (simp add: strict_sorted_iff)
  show ?thesis
  proof (cases "binary_search (map tag_key hs) tg")
    case (Ok i)
    then have "i < length (map tag_key hs) \<and> map tag_key hs ! i = tg" using spec [OF s] by (simp only: res.case)
    then have i: "i < length hs" "tag (hs ! i) = Some tg" unfolding key [symmetric] by auto
    have "find (\<lambda>h. tag h = Some tg) hs = Some (hs ! i)" using i by (intro find_sorted_key [OF assms(1)]) (auto simp: tag_key_def)
    then show ?thesis using Ok i(1) by (simp add: best_match_def)
  next
    case (Err i)
    then have lo: "\<forall>j < i. map tag_key hs ! j < tg" and hi: "\<forall>j. i \<le> j \<longrightarrow> j < length (map tag_key hs) \<longrightarrow> tg < map tag_key hs ! j"
      using spec [OF s] by (simp_all only: res.case) blast+
    have "tag_key (hs ! j) \<noteq> tg" if "j < length hs" for j
    proof (cases "j < i")
      case True
      then show ?thesis using lo [rule_format, of j] that by simp
    next
      case False
      then show ?thesis using hi [rule_format, of j] that by simp
    qed
    then have "find (\<lambda>h. tag h = Some tg) hs = None" unfolding key find_None_iff by (metis in_set_conv_nth)
    then show ?thesis using Err find_catch_all [OF assms(1,2)] by (simp add: best_match_def)
  next
    case Panic
    then show ?thesis using spec [OF s] by simp
  qed
qed

text \<open>C29: On a call site whose tags are in strictly ascending order, the catch-all last, the search by return address and tag finds
  what a scan of the handlers of the address finds: the handler of the tag, else the catch-all, with the frame offset,
  which is 0 if it is not known.\<close>

theorem lookup_pc_tag_is_best_match:
  assumes "lookup_pc t pc = Ok (f, hs)" "sorted_wrt (<) (map tag_key hs)" "tg \<noteq> 0xFFFFFFFF"
  shows "lookup_pc_tag t pc tg = Ok (map_option (\<lambda>h. (case f of Some f \<Rightarrow> f | None \<Rightarrow> 0, handler_offset h)) (best_match tg hs))"
proof (cases "binary_search (callsites t) pc")
  case (Ok idx)
  then obtain ts cs os where o: "idx < length (frame_offsets t)" "f = option_from_u32 (frame_offsets t ! idx)"
      "tags_contexts_handlers_for_callsite t idx = Ok (ts, cs, os)"
    and hs: "hs = map (\<lambda>((tg, c), h). \<lparr>tag = option_from_u32 tg, context_sp_offset = option_from_u32 c, handler_offset = h\<rparr>) (zip (zip ts cs) os)"
    using assms(1) by (auto simp: lookup_pc_def handlers_for_callsite_def res_simps rust_assert_def split: if_splits)
  from o(3) have l: "length ts = length cs" "length cs = length os"
    by (auto simp: tags_contexts_handlers_for_callsite_def sub_slice_def Let_def res_simps rust_assert_def split: if_splits)
  have ts: "map tag_key hs = ts" unfolding hs using l
    by (intro nth_equalityI) (auto simp: tag_key_def option_from_u32_def)
  have os: "os = map handler_offset hs" unfolding hs using l by (intro nth_equalityI) auto
  have "\<forall>h \<in> set hs. tag h \<noteq> Some 0xFFFFFFFF" unfolding hs by (auto simp: option_from_u32_def split: if_splits)
  note best = search_tags [OF assms(2) this assms(3), symmetric]
  have "binary_search ts tg \<noteq> Panic" "\<And>i. binary_search ts tg = Ok i \<Longrightarrow> i < length hs"
    using binary_search_spec [of ts tg] assms(2) l ts by (auto simp: strict_sorted_iff)
  then show ?thesis using Ok o l
    by (cases "binary_search ts tg") (auto simp: lookup_pc_tag_def best ts os rust_assert_simps Let_def last_map)
next
  case (Err i)
  then show ?thesis using assms(1) by (auto simp: lookup_pc_def lookup_pc_tag_def best_match_def)
next
  case Panic
  then show ?thesis using assms(1) by (auto simp: lookup_pc_def lookup_pc_tag_def best_match_def)
qed

definition example_table :: ExceptionTable where
  "example_table = \<lparr>callsites = [0x110, 0x150], ranges = [3, 4], frame_offsets = [0xFFFFFFFF, 0x20], tags = [1, 5, 0xFFFFFFFF, 0xFFFFFFFF],
     contexts = [0xFFFFFFFF, 8, 8, 0xFFFFFFFF], handlers = [0x120, 0x130, 0x140, 0x160]\<rparr>"

theorem lookup_pc_tag_is_best_match_witness:
  "lookup_pc_tag example_table 0x110 5 = Ok (Some (0, 0x130)) \<and> lookup_pc_tag example_table 0x110 7 = Ok (Some (0, 0x140))"
proof -
  let ?hs = "[\<lparr>tag = Some 1, context_sp_offset = None, handler_offset = 0x120\<rparr>, \<lparr>tag = Some 5, context_sp_offset = Some 8, handler_offset = 0x130\<rparr>,
    \<lparr>tag = None, context_sp_offset = Some 8, handler_offset = 0x140\<rparr>]"
  have l: "lookup_pc example_table 0x110 = Ok (None, ?hs)" by code_simp
  have s: "sorted_wrt (<) (map tag_key ?hs)" by (simp add: tag_key_def)
  show ?thesis using lookup_pc_tag_is_best_match [OF l s, of 5] lookup_pc_tag_is_best_match [OF l s, of 7] by (simp add: best_match_def)
qed

text \<open>C30: The builder does not put the handlers of a call site into the order that both lookups rely on. With tags that are not ascending the
  search by tag misses a handler that the call site has, and a catch-all given first comes first, not last, in the
  handlers of an address.\<close>

theorem handler_order_not_enforced:
  "\<exists>b data t. add_func 0x100 [\<lparr>ret_addr = 0x10, frame_offset = None, exception_handlers = [Tag 5 0x20, Tag 1 0x30]\<rparr>,
       \<lparr>ret_addr = 0x50, frame_offset = Some 0x20, exception_handlers = [Default 0x60, Tag 1 0x70]\<rparr>] ExceptionTableBuilder_default = Ok b \<and>
     to_vec le_object b = Ok data \<and> ExceptionTable_parse le_object data = Ok t \<and>
     (\<exists>f hs. lookup_pc t 0x110 = Ok (f, hs) \<and> best_match 5 hs = Some (\<lparr>tag = Some 5, context_sp_offset = None, handler_offset = 0x120\<rparr>)) \<and>
     lookup_pc_tag t 0x110 5 = Ok None \<and>
     lookup_pc t 0x150 = Ok (Some 0x20, [\<lparr>tag = None, context_sp_offset = None, handler_offset = 0x160\<rparr>,
       \<lparr>tag = Some 1, context_sp_offset = None, handler_offset = 0x170\<rparr>])"
proof -
  let ?t = "\<lparr>callsites = [0x110, 0x150], ranges = [2, 4], frame_offsets = [0xFFFFFFFF, 0x20], tags = [5, 1, 0xFFFFFFFF, 1],
     contexts = [0xFFFFFFFF, 0xFFFFFFFF, 0xFFFFFFFF, 0xFFFFFFFF], handlers = [0x120, 0x130, 0x160, 0x170]\<rparr>"
  let ?b = "\<lparr>b_callsites = [0x110, 0x150], b_frame_offsets = [0xFFFFFFFF, 0x20], b_ranges = [2, 4], b_tags = [5, 1, 0xFFFFFFFF, 1],
     b_contexts = [0xFFFFFFFF, 0xFFFFFFFF, 0xFFFFFFFF, 0xFFFFFFFF], b_handlers = [0x120, 0x130, 0x160, 0x170], last_start_offset = 0x100\<rparr>"
  have "add_func 0x100 [\<lparr>ret_addr = 0x10, frame_offset = None, exception_handlers = [Tag 5 0x20, Tag 1 0x30]\<rparr>,
       \<lparr>ret_addr = 0x50, frame_offset = Some 0x20, exception_handlers = [Default 0x60, Tag 1 0x70]\<rparr>] ExceptionTableBuilder_default = Ok ?b"
    by code_simp
  moreover have "builder_holds [(0x110, 0xFFFFFFFF, [(5, 0xFFFFFFFF, 0x120), (1, 0xFFFFFFFF, 0x130)]),
      (0x150, 0x20, [(0xFFFFFFFF, 0xFFFFFFFF, 0x160), (1, 0xFFFFFFFF, 0x170)])] ?b" by (simp add: builder_holds_def end_of_def)
  then obtain data where "to_vec le_object ?b = Ok data" "ExceptionTable_parse le_object data = Ok (table_of ?b)"
    by (rule parse_to_vec [OF object_laws_le_object]) simp_all
  moreover have "table_of ?b = ?t" by (simp add: table_of_def)
  moreover have "lookup_pc ?t 0x110 = Ok (None, [\<lparr>tag = Some 5, context_sp_offset = None, handler_offset = 0x120\<rparr>,
      \<lparr>tag = Some 1, context_sp_offset = None, handler_offset = 0x130\<rparr>])" by code_simp
  moreover have "lookup_pc_tag ?t 0x110 5 = Ok None" by code_simp
  moreover have "lookup_pc ?t 0x150 = Ok (Some 0x20, [\<lparr>tag = None, context_sp_offset = None, handler_offset = 0x160\<rparr>,
       \<lparr>tag = Some 1, context_sp_offset = None, handler_offset = 0x170\<rparr>])" by code_simp
  ultimately show ?thesis by (fastforce simp: best_match_def)
qed

end
