(* ===== verification/Slot_Chain.thy ===== *)
theory Slot_Chain
  imports Prelude
begin

text \<open>
  Tables of slots that reuse vacated slots keep the vacant ones in a list that runs through the slots themselves: the
  table has the index of the first vacant slot, and a vacant slot the index of the next one. The contract \<open>slot_table\<close>
  says what a slot has to offer for that, and its lemmas say what the operations of such a table do to the list: taking
  the first vacant slot, vacating an occupied one, adding one at the end and changing one in place. The handle table
  of \<open>Handle_Table\<close> is the instance.
\<close>

fun chain :: "('e \<Rightarrow> nat option option) \<Rightarrow> 'e list \<Rightarrow> nat option \<Rightarrow> nat list \<Rightarrow> bool" where
  "chain link es h [] \<longleftrightarrow> h = None"
| "chain link es h (x # xs) \<longleftrightarrow> h = Some x \<and> x < length es \<and> (\<exists>n. link (es ! x) = Some n \<and> chain link es n xs)"

lemma chain_update:
  assumes "chain link es h xs" "i \<notin> set xs"
  shows "chain link (es[i := e]) h xs"
  using assms by (induction xs arbitrary: h) auto

lemma chain_append: "chain link es h xs \<Longrightarrow> chain link (es @ [e]) h xs"
  by (induction xs arbitrary: h) (auto simp: nth_append)

text \<open>The vacant slots are exactly those on the list.\<close>

definition slots_ok :: "('e \<Rightarrow> nat option option) \<Rightarrow> 'e list \<Rightarrow> nat option \<Rightarrow> bool" where
  "slots_ok link es h \<longleftrightarrow>
     (\<exists>xs. chain link es h xs \<and> distinct xs \<and> set xs = {i. i < length es \<and> link (es ! i) \<noteq> None})"

lemma slots_okI: "chain link es h xs \<Longrightarrow> distinct xs \<Longrightarrow> (\<And>i. i \<in> set xs \<longleftrightarrow> i < length es \<and> link (es ! i) \<noteq> None) \<Longrightarrow> slots_ok link es h"
  unfolding slots_ok_def by blast

lemma slots_okE:
  assumes "slots_ok link es h"
  obtains xs where "chain link es h xs" "distinct xs" "\<And>i. i \<in> set xs \<longleftrightarrow> i < length es \<and> link (es ! i) \<noteq> None"
  using assms unfolding slots_ok_def by blast

text \<open>
  \<open>link\<close> reads a slot: \<open>None\<close> if it is occupied, else what follows it on the list. \<open>vacant\<close> makes a vacant slot that is
  followed by a given one, out of those \<open>valid\<close> admits.
\<close>

locale slot_table =
  fixes link :: "'e \<Rightarrow> nat option option"
    and vacant :: "nat option \<Rightarrow> 'e"
    and valid :: "nat option \<Rightarrow> bool"
  assumes link_vacant: "valid h \<Longrightarrow> link (vacant h) = Some h"
begin

lemma slots_ok_empty: "slots_ok link [] None"
  by (rule slots_okI [where xs = "[]"]) simp_all

lemma take_first:
  assumes "slots_ok link es (Some i)" "link e = None"
  shows "\<exists>n. i < length es \<and> link (es ! i) = Some n \<and> slots_ok link (es[i := e]) n"
  using assms(1)
proof (rule slots_okE)
  fix xs
  assume xs: "chain link es (Some i) xs" "distinct xs" "\<And>j. j \<in> set xs \<longleftrightarrow> j < length es \<and> link (es ! j) \<noteq> None"
  then obtain ys n where ys: "xs = i # ys" "i < length es" "link (es ! i) = Some n" "chain link es n ys" by (cases xs) auto
  have "i \<notin> set ys" "distinct ys" using ys(1) xs(2) by simp_all
  have "slots_ok link (es[i := e]) n"
  proof (rule slots_okI)
    show "chain link (es[i := e]) n ys" using ys(4) \<open>i \<notin> set ys\<close> by (rule chain_update)
    show "j \<in> set ys \<longleftrightarrow> j < length (es[i := e]) \<and> link (es[i := e] ! j) \<noteq> None" for j
      using xs(3) [of j] ys(1) \<open>i \<notin> set ys\<close> assms(2) by (cases "j = i") simp_all
  qed (rule \<open>distinct ys\<close>)
  then show ?thesis using ys(2,3) by blast
qed

lemma give_back:
  assumes "slots_ok link es h" "i < length es" "link (es ! i) = None" "valid h"
  shows "slots_ok link (es[i := vacant h]) (Some i)"
  using assms(1)
proof (rule slots_okE)
  fix xs
  assume xs: "chain link es h xs" "distinct xs" "\<And>j. j \<in> set xs \<longleftrightarrow> j < length es \<and> link (es ! j) \<noteq> None"
  have i: "i \<notin> set xs" using xs(3) assms(3) by simp
  show ?thesis
  proof (rule slots_okI)
    show "chain link (es[i := vacant h]) (Some i) (i # xs)"
      using chain_update [OF xs(1) i] assms(2) by (simp add: link_vacant [OF assms(4)])
    show "distinct (i # xs)" using xs(2) i by simp
    show "j \<in> set (i # xs) \<longleftrightarrow> j < length (es[i := vacant h]) \<and> link (es[i := vacant h] ! j) \<noteq> None" for j
      using xs(3) [of j] assms(2) by (cases "j = i") (simp_all add: link_vacant [OF assms(4)])
  qed
qed

lemma add_last:
  assumes "slots_ok link es h" "link e = None"
  shows "slots_ok link (es @ [e]) h"
  using assms(1)
proof (rule slots_okE)
  fix xs
  assume xs: "chain link es h xs" "distinct xs" "\<And>j. j \<in> set xs \<longleftrightarrow> j < length es \<and> link (es ! j) \<noteq> None"
  show ?thesis
  proof (rule slots_okI [OF chain_append [OF xs(1)] xs(2)])
    show "j \<in> set xs \<longleftrightarrow> j < length (es @ [e]) \<and> link ((es @ [e]) ! j) \<noteq> None" for j
      using xs(3) [of j] assms(2) by (cases "j < length es"; cases "j = length es") (simp_all add: nth_append)
  qed
qed

lemma change:
  assumes "slots_ok link es h" "i < length es" "link (es ! i) = None" "link e = None"
  shows "slots_ok link (es[i := e]) h"
  using assms(1)
proof (rule slots_okE)
  fix xs
  assume xs: "chain link es h xs" "distinct xs" "\<And>j. j \<in> set xs \<longleftrightarrow> j < length es \<and> link (es ! j) \<noteq> None"
  have i: "i \<notin> set xs" using xs(3) assms(3) by simp
  show ?thesis
  proof (rule slots_okI [OF chain_update [OF xs(1) i] xs(2)])
    show "j \<in> set xs \<longleftrightarrow> j < length (es[i := e]) \<and> link (es[i := e] ! j) \<noteq> None" for j
      using xs(3) [of j] i assms(2,4) by (cases "j = i") simp_all
  qed
qed

lemma all_occupied:
  assumes "slots_ok link es None" "i < length es"
  shows "link (es ! i) = None"
  using assms(1)
proof (rule slots_okE)
  fix xs
  assume xs: "chain link es None xs" "\<And>j. j \<in> set xs \<longleftrightarrow> j < length es \<and> link (es ! j) \<noteq> None"
  then have "xs = []" by (cases xs) simp_all
  then show ?thesis using xs(2) [of i] assms(2) by simp
qed

end

end
