(* ===== verification/Handle_Table.thy ===== *)
theory Handle_Table
  imports Slot_Chain
begin

text \<open>
  The handle table of a component instance, \<open>HandleTable\<close> of \<open>crates/wasmtime/src/runtime/vm/component/handle_table.rs\<close>: the
  resources, streams, futures, tasks, waitable sets and error contexts a guest holds, by small numbers it cannot
  forge. A method that changes the table returns its result and the table, also when it fails; \<open>get_mut\<close> is the
  reading of a slot, and an assignment through the reference it returns is \<open>set_slot\<close>. Whether there is memory for a
  table of \<open>n\<close> slots is the parameter \<open>host\<close>. Errors keep the message of the source. \<open>TypedResource\<close> and
  \<open>TypedResourceIndex\<close> are those of \<open>resources.rs\<close> in the same directory; the type indices are their numbers.
\<close>

section \<open>Resources and slots\<close>

datatype TypedResource = HostResource u32 | ComponentResource u32 nat

datatype TypedResourceIndex = HostIndex u32 | ComponentIndex u32 nat

datatype handle_error =
    OutOfMemory
  | UnknownHandle u32
  | ResourceTypeMismatch TypedResourceIndex string
  | IndexIsNot u32 string
  | Message string

definition raw_index :: "TypedResourceIndex \<Rightarrow> u32" where
  "raw_index x = (case x of HostIndex i \<Rightarrow> i | ComponentIndex i ty \<Rightarrow> i)"

definition TypedResource_rep :: "TypedResource \<Rightarrow> TypedResourceIndex \<Rightarrow> (u32, handle_error) res" where
  "TypedResource_rep r access_ty =
     (case (r, access_ty) of
        (HostResource rep, HostIndex _) \<Rightarrow> Ok rep
      | (HostResource _, expected) \<Rightarrow> Err (ResourceTypeMismatch expected ''host resource'')
      | (ComponentResource rep ty, ComponentIndex _ expected) \<Rightarrow>
          if ty = expected then Ok rep else Err (ResourceTypeMismatch access_ty ''a different guest-defined resource'')
      | (ComponentResource _ _, expected) \<Rightarrow> Err (ResourceTypeMismatch expected ''guest-defined resource''))"

datatype TransmitLocalState = Write bool | Read bool | Busy

datatype RemovedResource = RemovedOwn u32 | RemovedBorrow u32

datatype Waitable = WaitSubtask bool | WaitFuture | WaitStream

datatype Slot =
    Free u32
  | ResourceOwn TypedResource u32
  | ResourceBorrow TypedResource u32
  | HostTask u32
  | GuestTask u32
  | GuestThread u32
  | Stream nat u32 TransmitLocalState
  | Future nat u32 TransmitLocalState
  | WaitableSet u32
  | ErrorContext u32

record HandleTable =
  ht_next :: u32
  ht_slots :: "Slot list"

definition MAX_HANDLE :: u32 where
  "MAX_HANDLE = 0x10000000"

definition HandleTable_default :: HandleTable where
  "HandleTable_default = \<lparr>ht_next = 0, ht_slots = []\<rparr>"

fun is_free :: "Slot \<Rightarrow> bool" where
  "is_free (Free n) \<longleftrightarrow> True"
| "is_free s \<longleftrightarrow> False"

definition ht_is_empty :: "HandleTable \<Rightarrow> bool" where
  "ht_is_empty t = list_all is_free (ht_slots t)"

section \<open>Slots\<close>

type_synonym 'a ht_result = "('a, handle_error) res \<times> HandleTable"

text \<open>Replacing the slot that \<open>next\<close> points at, which has to be a free one.\<close>

definition fill_slot :: "Slot \<Rightarrow> u32 \<Rightarrow> HandleTable \<Rightarrow> u32 ht_result" where
  "fill_slot slot next t =
     (if unat next < length (ht_slots t) then
        (case ht_slots t ! unat next of
           Free n \<Rightarrow> (Ok (next + 1), t\<lparr>ht_slots := (ht_slots t)[unat next := slot], ht_next := n\<rparr>)
         | _ \<Rightarrow> (Panic, t))
      else (Panic, t))"

definition ht_insert :: "(nat \<Rightarrow> bool) \<Rightarrow> Slot \<Rightarrow> HandleTable \<Rightarrow> u32 ht_result" where
  "ht_insert host slot t =
     (let next = ht_next t in
      if next + 1 \<ge> MAX_HANDLE then (Err (Message ''cannot allocate another handle: index overflow''), t)
      else if unat next = length (ht_slots t) then
        (case checked_add next 1 of
           None \<Rightarrow> (Panic, t)
         | Some n \<Rightarrow>
             if host (length (ht_slots t) + 1) then fill_slot slot next (t\<lparr>ht_slots := ht_slots t @ [Free n]\<rparr>)
             else (Err OutOfMemory, t))
      else fill_slot slot next t)"

definition handle_index_to_table_index :: "u32 \<Rightarrow> nat option" where
  "handle_index_to_table_index idx = map_option unat (checked_sub idx 1)"

definition ht_get_mut :: "u32 \<Rightarrow> HandleTable \<Rightarrow> (Slot, handle_error) res" where
  "ht_get_mut idx t =
     (case handle_index_to_table_index idx of
        None \<Rightarrow> Err (UnknownHandle idx)
      | Some i \<Rightarrow>
          if i < length (ht_slots t) then
            (case ht_slots t ! i of Free n \<Rightarrow> Err (UnknownHandle idx) | slot \<Rightarrow> Ok slot)
          else Err (UnknownHandle idx))"

definition set_slot :: "u32 \<Rightarrow> Slot \<Rightarrow> HandleTable \<Rightarrow> HandleTable" where
  "set_slot idx slot t =
     (case handle_index_to_table_index idx of
        None \<Rightarrow> t
      | Some i \<Rightarrow> t\<lparr>ht_slots := (ht_slots t)[i := slot]\<rparr>)"

definition ht_remove :: "u32 \<Rightarrow> HandleTable \<Rightarrow> unit ht_result" where
  "ht_remove idx t =
     (let to_fill = Free (ht_next t) in
      case ht_get_mut idx t of
        Ok _ \<Rightarrow> (Ok (), (set_slot idx to_fill t)\<lparr>ht_next := idx - 1\<rparr>)
      | Err e \<Rightarrow> (Err e, t)
      | Panic \<Rightarrow> (Panic, t))"

text \<open>Reading a slot with a function that may reject it, and removing the slot it accepts.\<close>

definition read_slot :: "(Slot \<Rightarrow> ('a, handle_error) res) \<Rightarrow> u32 \<Rightarrow> HandleTable \<Rightarrow> ('a, handle_error) res" where
  "read_slot f idx t = and_then (ht_get_mut idx t) f"

definition remove_slot :: "(Slot \<Rightarrow> ('a, handle_error) res) \<Rightarrow> u32 \<Rightarrow> HandleTable \<Rightarrow> 'a ht_result" where
  "remove_slot f idx t =
     (case read_slot f idx t of
        Ok ret \<Rightarrow> (case ht_remove idx t of (Ok _, t) \<Rightarrow> (Ok ret, t) | (Err e, t) \<Rightarrow> (Err e, t) | (Panic, t) \<Rightarrow> (Panic, t))
      | Err e \<Rightarrow> (Err e, t)
      | Panic \<Rightarrow> (Panic, t))"

section \<open>Resources\<close>

definition resource_own_insert :: "(nat \<Rightarrow> bool) \<Rightarrow> TypedResource \<Rightarrow> HandleTable \<Rightarrow> u32 ht_result" where
  "resource_own_insert host resource = ht_insert host (ResourceOwn resource 0)"

definition resource_borrow_insert :: "(nat \<Rightarrow> bool) \<Rightarrow> TypedResource \<Rightarrow> u32 \<Rightarrow> HandleTable \<Rightarrow> u32 ht_result" where
  "resource_borrow_insert host resource scope = ht_insert host (ResourceBorrow resource scope)"

definition ht_resource_rep :: "TypedResourceIndex \<Rightarrow> HandleTable \<Rightarrow> (u32, handle_error) res" where
  "ht_resource_rep idx =
     read_slot (\<lambda>slot. case slot of
         ResourceOwn resource _ \<Rightarrow> TypedResource_rep resource idx
       | ResourceBorrow resource _ \<Rightarrow> TypedResource_rep resource idx
       | _ \<Rightarrow> Err (Message ''index is not a resource'')) (raw_index idx)"

definition resource_lend :: "TypedResourceIndex \<Rightarrow> HandleTable \<Rightarrow> (u32 \<times> bool) ht_result" where
  "resource_lend idx t =
     (case ht_get_mut (raw_index idx) t of
        Ok (ResourceOwn resource lend_count) \<Rightarrow>
          (case TypedResource_rep resource idx of
             Ok rep \<Rightarrow>
               (case checked_add lend_count 1 of
                  Some n \<Rightarrow> (Ok (rep, True), set_slot (raw_index idx) (ResourceOwn resource n) t)
                | None \<Rightarrow> (Panic, t))
           | Err e \<Rightarrow> (Err e, t)
           | Panic \<Rightarrow> (Panic, t))
      | Ok (ResourceBorrow resource _) \<Rightarrow> (and_then (TypedResource_rep resource idx) (\<lambda>rep. Ok (rep, False)), t)
      | Ok _ \<Rightarrow> (Err (IndexIsNot (raw_index idx) ''a resource''), t)
      | Err e \<Rightarrow> (Err e, t)
      | Panic \<Rightarrow> (Panic, t))"

definition resource_undo_lend :: "TypedResourceIndex \<Rightarrow> HandleTable \<Rightarrow> unit ht_result" where
  "resource_undo_lend idx t =
     (case ht_get_mut (raw_index idx) t of
        Ok (ResourceOwn resource lend_count) \<Rightarrow> (Ok (), set_slot (raw_index idx) (ResourceOwn resource (lend_count - 1)) t)
      | Ok _ \<Rightarrow> (Err (IndexIsNot (raw_index idx) ''an own resource''), t)
      | Err e \<Rightarrow> (Err e, t)
      | Panic \<Rightarrow> (Panic, t))"

definition remove_resource :: "TypedResourceIndex \<Rightarrow> HandleTable \<Rightarrow> RemovedResource ht_result" where
  "remove_resource idx =
     remove_slot (\<lambda>slot. case slot of
         ResourceOwn resource lend_count \<Rightarrow>
           if lend_count \<noteq> 0 then Err (Message ''cannot remove owned resource while borrowed'')
           else and_then (TypedResource_rep resource idx) (\<lambda>rep. Ok (RemovedOwn rep))
       | ResourceBorrow resource scope \<Rightarrow>
           and_then (TypedResource_rep resource idx) (\<lambda>_. Ok (RemovedBorrow scope))
       | _ \<Rightarrow> Err (IndexIsNot (raw_index idx) ''a resource'')) (raw_index idx)"

section \<open>Streams and futures\<close>

definition stream_insert_read :: "(nat \<Rightarrow> bool) \<Rightarrow> nat \<Rightarrow> u32 \<Rightarrow> HandleTable \<Rightarrow> u32 ht_result" where
  "stream_insert_read host ty rep = ht_insert host (Stream ty rep (Read False))"

definition stream_insert_write :: "(nat \<Rightarrow> bool) \<Rightarrow> nat \<Rightarrow> u32 \<Rightarrow> HandleTable \<Rightarrow> u32 ht_result" where
  "stream_insert_write host ty rep = ht_insert host (Stream ty rep (Write False))"

definition stream_rep :: "nat \<Rightarrow> u32 \<Rightarrow> HandleTable \<Rightarrow> (u32 \<times> TransmitLocalState, handle_error) res" where
  "stream_rep expected_ty =
     read_slot (\<lambda>slot. case slot of
         Stream ty rep state \<Rightarrow>
           if ty \<noteq> expected_ty then Err (Message ''handle is a stream of a different type'') else Ok (rep, state)
       | _ \<Rightarrow> Err (Message ''handle is not a stream''))"

text \<open>Assigning through the reference to the state that \<open>stream_rep\<close> returns.\<close>

definition stream_set_state :: "nat \<Rightarrow> u32 \<Rightarrow> TransmitLocalState \<Rightarrow> HandleTable \<Rightarrow> unit ht_result" where
  "stream_set_state expected_ty idx state t =
     (case stream_rep expected_ty idx t of
        Ok (rep, _) \<Rightarrow> (Ok (), set_slot idx (Stream expected_ty rep state) t)
      | Err e \<Rightarrow> (Err e, t)
      | Panic \<Rightarrow> (Panic, t))"

definition stream_remove_readable :: "nat \<Rightarrow> u32 \<Rightarrow> HandleTable \<Rightarrow> (u32 \<times> bool) ht_result" where
  "stream_remove_readable expected_ty =
     remove_slot (\<lambda>slot. case slot of
         Stream ty rep state \<Rightarrow>
           if ty \<noteq> expected_ty then Err (Message ''handle is a stream of a different type'')
           else (case state of
               Read is_done \<Rightarrow> Ok (rep, is_done)
             | Write _ \<Rightarrow> Err (Message ''handle is not a readable end of a stream'')
             | Busy \<Rightarrow> Err (Message ''cannot remove busy stream''))
       | _ \<Rightarrow> Err (Message ''handle is not a stream''))"

definition stream_remove_writable :: "nat \<Rightarrow> u32 \<Rightarrow> HandleTable \<Rightarrow> u32 ht_result" where
  "stream_remove_writable expected_ty =
     remove_slot (\<lambda>slot. case slot of
         Stream ty rep state \<Rightarrow>
           if ty \<noteq> expected_ty then Err (Message ''handle is a stream of a different type'')
           else (case state of
               Write _ \<Rightarrow> Ok rep
             | Read _ \<Rightarrow> Err (Message ''passed read end to `stream.drop-writable`'')
             | Busy \<Rightarrow> Err (Message ''cannot drop busy stream''))
       | _ \<Rightarrow> Err (Message ''handle is not a stream''))"

definition future_insert_read :: "(nat \<Rightarrow> bool) \<Rightarrow> nat \<Rightarrow> u32 \<Rightarrow> HandleTable \<Rightarrow> u32 ht_result" where
  "future_insert_read host ty rep = ht_insert host (Future ty rep (Read False))"

definition future_insert_write :: "(nat \<Rightarrow> bool) \<Rightarrow> nat \<Rightarrow> u32 \<Rightarrow> HandleTable \<Rightarrow> u32 ht_result" where
  "future_insert_write host ty rep = ht_insert host (Future ty rep (Write False))"

definition future_rep :: "nat \<Rightarrow> u32 \<Rightarrow> HandleTable \<Rightarrow> (u32 \<times> TransmitLocalState, handle_error) res" where
  "future_rep expected_ty =
     read_slot (\<lambda>slot. case slot of
         Future ty rep state \<Rightarrow>
           if ty \<noteq> expected_ty then Err (Message ''handle is a future of a different type'') else Ok (rep, state)
       | _ \<Rightarrow> Err (Message ''handle is not a future''))"

text \<open>Assigning through the reference to the state that \<open>future_rep\<close> returns.\<close>

definition future_set_state :: "nat \<Rightarrow> u32 \<Rightarrow> TransmitLocalState \<Rightarrow> HandleTable \<Rightarrow> unit ht_result" where
  "future_set_state expected_ty idx state t =
     (case future_rep expected_ty idx t of
        Ok (rep, _) \<Rightarrow> (Ok (), set_slot idx (Future expected_ty rep state) t)
      | Err e \<Rightarrow> (Err e, t)
      | Panic \<Rightarrow> (Panic, t))"

definition future_remove_readable :: "nat \<Rightarrow> u32 \<Rightarrow> HandleTable \<Rightarrow> (u32 \<times> bool) ht_result" where
  "future_remove_readable expected_ty =
     remove_slot (\<lambda>slot. case slot of
         Future ty rep state \<Rightarrow>
           if ty \<noteq> expected_ty then Err (Message ''handle is a future of a different type'')
           else (case state of
               Read is_done \<Rightarrow> Ok (rep, is_done)
             | Write _ \<Rightarrow> Err (Message ''handle is not a readable end of a future'')
             | Busy \<Rightarrow> Err (Message ''cannot remove busy future''))
       | _ \<Rightarrow> Err (Message ''handle is not a future''))"

definition future_remove_writable :: "nat \<Rightarrow> u32 \<Rightarrow> HandleTable \<Rightarrow> u32 ht_result" where
  "future_remove_writable expected_ty =
     remove_slot (\<lambda>slot. case slot of
         Future ty rep state \<Rightarrow>
           if ty \<noteq> expected_ty then Err (Message ''handle is a future of a different type'')
           else (case state of
               Write _ \<Rightarrow> Ok rep
             | Read _ \<Rightarrow> Err (Message ''passed read end to `future.drop-writable`'')
             | Busy \<Rightarrow> Err (Message ''cannot drop busy future''))
       | _ \<Rightarrow> Err (Message ''handle is not a future''))"

section \<open>Error contexts, tasks, waitable sets and threads\<close>

definition error_context_insert :: "(nat \<Rightarrow> bool) \<Rightarrow> u32 \<Rightarrow> HandleTable \<Rightarrow> u32 ht_result" where
  "error_context_insert host rep = ht_insert host (ErrorContext rep)"

definition error_context_rep :: "u32 \<Rightarrow> HandleTable \<Rightarrow> (u32, handle_error) res" where
  "error_context_rep = read_slot (\<lambda>slot. case slot of ErrorContext rep \<Rightarrow> Ok rep | _ \<Rightarrow> Err (Message ''handle is not an error-context''))"

definition error_context_drop :: "u32 \<Rightarrow> HandleTable \<Rightarrow> u32 ht_result" where
  "error_context_drop = remove_slot (\<lambda>slot. case slot of ErrorContext rep \<Rightarrow> Ok rep | _ \<Rightarrow> Err (Message ''handle is not an error-context''))"

definition subtask_insert_guest :: "(nat \<Rightarrow> bool) \<Rightarrow> u32 \<Rightarrow> HandleTable \<Rightarrow> u32 ht_result" where
  "subtask_insert_guest host rep = ht_insert host (GuestTask rep)"

definition subtask_insert_host :: "(nat \<Rightarrow> bool) \<Rightarrow> u32 \<Rightarrow> HandleTable \<Rightarrow> u32 ht_result" where
  "subtask_insert_host host rep = ht_insert host (HostTask rep)"

definition subtask_rep :: "u32 \<Rightarrow> HandleTable \<Rightarrow> (u32 \<times> bool, handle_error) res" where
  "subtask_rep = read_slot (\<lambda>slot. case slot of
       GuestTask rep \<Rightarrow> Ok (rep, False)
     | HostTask rep \<Rightarrow> Ok (rep, True)
     | _ \<Rightarrow> Err (Message ''handle is not a subtask''))"

definition subtask_remove :: "u32 \<Rightarrow> HandleTable \<Rightarrow> (u32 \<times> bool) ht_result" where
  "subtask_remove = remove_slot (\<lambda>slot. case slot of
       GuestTask rep \<Rightarrow> Ok (rep, False)
     | HostTask rep \<Rightarrow> Ok (rep, True)
     | _ \<Rightarrow> Err (Message ''handle is not a subtask''))"

definition waitable_set_insert :: "(nat \<Rightarrow> bool) \<Rightarrow> u32 \<Rightarrow> HandleTable \<Rightarrow> u32 ht_result" where
  "waitable_set_insert host rep = ht_insert host (WaitableSet rep)"

definition waitable_set_rep :: "u32 \<Rightarrow> HandleTable \<Rightarrow> (u32, handle_error) res" where
  "waitable_set_rep = read_slot (\<lambda>slot. case slot of WaitableSet rep \<Rightarrow> Ok rep | _ \<Rightarrow> Err (Message ''handle is not an waitable-set''))"

definition waitable_set_remove :: "u32 \<Rightarrow> HandleTable \<Rightarrow> u32 ht_result" where
  "waitable_set_remove = remove_slot (\<lambda>slot. case slot of WaitableSet rep \<Rightarrow> Ok rep | _ \<Rightarrow> Err (Message ''handle is not a waitable-set''))"

definition waitable_rep :: "u32 \<Rightarrow> HandleTable \<Rightarrow> (u32 \<times> Waitable, handle_error) res" where
  "waitable_rep = read_slot (\<lambda>slot. case slot of
       GuestTask rep \<Rightarrow> Ok (rep, WaitSubtask False)
     | HostTask rep \<Rightarrow> Ok (rep, WaitSubtask True)
     | Future ty rep state \<Rightarrow> Ok (rep, WaitFuture)
     | Stream ty rep state \<Rightarrow> Ok (rep, WaitStream)
     | _ \<Rightarrow> Err (Message ''handle is not a waitable''))"

text \<open>\<open>ThreadHandleTable\<close> wraps a handle table that holds threads only.\<close>

definition guest_thread_insert :: "(nat \<Rightarrow> bool) \<Rightarrow> u32 \<Rightarrow> HandleTable \<Rightarrow> u32 ht_result" where
  "guest_thread_insert host rep = ht_insert host (GuestThread rep)"

definition guest_thread_rep :: "u32 \<Rightarrow> HandleTable \<Rightarrow> (u32, handle_error) res" where
  "guest_thread_rep = read_slot (\<lambda>slot. case slot of GuestThread rep \<Rightarrow> Ok rep | _ \<Rightarrow> Err (Message ''handle is not a guest thread''))"

definition guest_thread_remove :: "u32 \<Rightarrow> HandleTable \<Rightarrow> u32 ht_result" where
  "guest_thread_remove = remove_slot (\<lambda>slot. case slot of GuestThread rep \<Rightarrow> Ok rep | _ \<Rightarrow> Err (Message ''handle is not a guest thread''))"

section \<open>The table as a map from handles to slots\<close>

text \<open>A free slot names the next one by number; the number of slots stands for the end of the list.\<close>

definition ht_link :: "nat \<Rightarrow> Slot \<Rightarrow> nat option option" where
  "ht_link n slot = (case slot of Free k \<Rightarrow> Some (if unat k = n then None else Some (unat k)) | _ \<Rightarrow> None)"

definition ht_head :: "HandleTable \<Rightarrow> nat option" where
  "ht_head t = (if unat (ht_next t) = length (ht_slots t) then None else Some (unat (ht_next t)))"

definition ht_vacant :: "nat \<Rightarrow> nat option \<Rightarrow> Slot" where
  "ht_vacant n h = Free (case h of None \<Rightarrow> of_nat n | Some k \<Rightarrow> of_nat k)"

definition ht_valid :: "nat \<Rightarrow> nat option \<Rightarrow> bool" where
  "ht_valid n h \<longleftrightarrow> n < 2 ^ 28 \<and> (case h of None \<Rightarrow> True | Some k \<Rightarrow> k < n)"

interpretation ht: slot_table "ht_link n" "ht_vacant n" "ht_valid n" for n
  by unfold_locales (auto simp: ht_link_def ht_vacant_def ht_valid_def unsigned_of_nat take_bit_nat_eq_self split: option.splits)

definition ht_ok :: "HandleTable \<Rightarrow> bool" where
  "ht_ok t \<longleftrightarrow> length (ht_slots t) < 2 ^ 28 \<and> slots_ok (ht_link (length (ht_slots t))) (ht_slots t) (ht_head t)"

definition handles :: "HandleTable \<Rightarrow> u32 \<Rightarrow> Slot option" where
  "handles t h = (case ht_get_mut h t of Ok slot \<Rightarrow> Some slot | _ \<Rightarrow> None)"

lemma ht_link_None: "ht_link n slot = None \<longleftrightarrow> \<not> is_free slot"
  by (cases slot) (simp_all add: ht_link_def)

lemma is_free_iff: "is_free slot \<longleftrightarrow> (\<exists>n. slot = Free n)"
  by (cases slot) simp_all

lemma unat_pred: "(h :: u32) \<noteq> 0 \<Longrightarrow> unat (h - 1) = unat h - 1"
  by (simp add: unat_minus_one)

lemma handle_index_eq: "handle_index_to_table_index h = (if h = 0 then None else Some (unat h - 1))"
proof -
  have "(1 :: u32) \<le> h \<longleftrightarrow> h \<noteq> 0" by (auto simp: word_le_nat_alt Suc_le_eq unat_gt_0)
  then show ?thesis by (simp add: handle_index_to_table_index_def checked_sub_def unat_pred)
qed

lemma handles_eq:
  "handles t h = (if h \<noteq> 0 \<and> unat h - 1 < length (ht_slots t) \<and> \<not> is_free (ht_slots t ! (unat h - 1))
     then Some (ht_slots t ! (unat h - 1)) else None)"
  by (auto simp: handles_def ht_get_mut_def handle_index_eq split: Slot.splits)

lemma ht_get_mut_cases: "ht_get_mut h t = (case handles t h of Some slot \<Rightarrow> Ok slot | None \<Rightarrow> Err (UnknownHandle h))"
  by (auto simp: handles_def ht_get_mut_def handle_index_eq split: Slot.splits)

lemma handles_not_free: "handles t h = Some slot \<Longrightarrow> \<not> is_free slot"
  by (simp add: handles_eq split: if_splits)

lemma handles_range: "ht_ok t \<Longrightarrow> handles t h = Some slot \<Longrightarrow> 0 < unat h \<and> unat h < 2 ^ 28"
  by (auto simp: handles_eq ht_ok_def unat_gt_0 split: if_splits)

lemma ht_ok_default: "ht_ok HandleTable_default" "handles HandleTable_default = Map.empty"
  using ht.slots_ok_empty [of 0] by (auto simp: ht_ok_def HandleTable_default_def ht_head_def handles_eq)

lemma unat_pred_eq_iff: "h \<noteq> 0 \<Longrightarrow> k \<noteq> 0 \<Longrightarrow> unat (h :: u32) - Suc 0 = unat (k :: u32) - Suc 0 \<longleftrightarrow> h = k"
  by (metis Suc_pred' One_nat_def unat_gt_0 unsigned_word_eqI)

lemma handles_update:
  assumes "unat h - 1 < length (ht_slots t)" "h \<noteq> 0" "\<not> is_free slot"
  shows "handles (t\<lparr>ht_slots := (ht_slots t)[unat h - 1 := slot], ht_next := n\<rparr>) = (handles t)(h \<mapsto> slot)"
  using assms by (auto simp: handles_eq fun_eq_iff nth_list_update unat_pred_eq_iff)

lemma handles_free:
  assumes "unat h - 1 < length (ht_slots t)" "h \<noteq> 0"
  shows "handles (t\<lparr>ht_slots := (ht_slots t)[unat h - 1 := Free k], ht_next := n\<rparr>) = (handles t)(h := None)"
  using assms by (auto simp: handles_eq fun_eq_iff nth_list_update unat_pred_eq_iff)

text \<open>Changing an occupied slot in place.\<close>

lemma set_slot_ok:
  assumes "ht_ok t" "handles t h = Some old" "\<not> is_free slot"
  shows "ht_ok (set_slot h slot t)" "handles (set_slot h slot t) = (handles t)(h \<mapsto> slot)"
proof -
  have h: "h \<noteq> 0" "unat h - 1 < length (ht_slots t)" "ht_link (length (ht_slots t)) (ht_slots t ! (unat h - 1)) = None"
    using assms(2) by (auto simp: handles_eq ht_link_None split: if_splits)
  have "slots_ok (ht_link (length (ht_slots t))) ((ht_slots t)[unat h - 1 := slot]) (ht_head t)"
    using ht.change [OF _ h(2,3)] assms(1,3) by (simp add: ht_ok_def ht_link_None)
  moreover have "ht_head (set_slot h slot t) = ht_head t" "ht_slots (set_slot h slot t) = (ht_slots t)[unat h - 1 := slot]"
    using h(1) by (simp_all add: ht_head_def set_slot_def handle_index_eq)
  ultimately show "ht_ok (set_slot h slot t)" using assms(1) by (simp add: ht_ok_def)
  show "handles (set_slot h slot t) = (handles t)(h \<mapsto> slot)"
    using handles_update [OF h(2,1) assms(3), of "ht_next t"] h(1) by (simp add: set_slot_def handle_index_eq)
qed

text \<open>Removing a handle.\<close>

lemma ht_remove_ok:
  assumes "ht_ok t" "handles t h = Some slot"
  shows "\<exists>t'. ht_remove h t = (Ok (), t') \<and> ht_ok t' \<and> handles t' = (handles t)(h := None)"
proof -
  let ?n = "length (ht_slots t)"
  let ?t = "t\<lparr>ht_slots := (ht_slots t)[unat h - 1 := Free (ht_next t)], ht_next := h - 1\<rparr>"
  have h: "h \<noteq> 0" "unat h - 1 < ?n" "ht_link ?n (ht_slots t ! (unat h - 1)) = None"
    using assms(2) by (auto simp: handles_eq ht_link_None split: if_splits)
  have s: "slots_ok (ht_link ?n) (ht_slots t) (ht_head t)" "?n < 2 ^ 28" using assms(1) by (simp_all add: ht_ok_def)
  have "ht_head t = Some k \<Longrightarrow> k < ?n" for k using ht.take_first [of ?n "ht_slots t" k "ErrorContext 0"] s(1) by (auto simp: ht_link_def)
  then have v: "ht_valid ?n (ht_head t)" using s(2) by (auto simp: ht_valid_def split: option.splits)
  have "ht_vacant ?n (ht_head t) = Free (ht_next t)" by (auto simp: ht_vacant_def ht_head_def dest: sym)
  then have "slots_ok (ht_link ?n) ((ht_slots t)[unat h - 1 := Free (ht_next t)]) (Some (unat h - 1))"
    using ht.give_back [OF s(1) h(2,3) v] by simp
  then have "ht_ok ?t" using s(2) h by (simp add: ht_ok_def ht_head_def unat_pred)
  moreover have "ht_remove h t = (Ok (), ?t)"
    using assms(2) h(1) by (simp add: ht_remove_def ht_get_mut_cases set_slot_def handle_index_eq)
  ultimately show ?thesis using handles_free [OF h(2,1)] by blast
qed

lemma ht_remove_unknown: "handles t h = None \<Longrightarrow> ht_remove h t = (Err (UnknownHandle h), t)"
  by (simp add: ht_remove_def ht_get_mut_cases)

text \<open>Filling the slot that \<open>next\<close> points at.\<close>

lemma fill_slot_ok:
  assumes "slots_ok (ht_link n) (ht_slots t) (Some (unat k))" "n = length (ht_slots t)" "n < 2 ^ 28" "\<not> is_free slot"
  shows "\<exists>t'. fill_slot slot k t = (Ok (k + 1), t') \<and> ht_ok t' \<and> handles t (k + 1) = None \<and> handles t' = (handles t)(k + 1 \<mapsto> slot)"
proof -
  obtain h where h: "unat k < n" "ht_link n (ht_slots t ! unat k) = Some h" "slots_ok (ht_link n) ((ht_slots t)[unat k := slot]) h"
    using ht.take_first [OF assms(1), of slot] assms(2,4) by (auto simp: ht_link_None)
  then obtain m where m: "ht_slots t ! unat k = Free m" "h = (if unat m = n then None else Some (unat m))"
    by (auto simp: ht_link_def split: Slot.splits)
  have k: "unat (k + 1) = unat k + 1" using h(1) assms(3) by (simp add: unat_word_ariths take_bit_nat_eq_self mod_less)
  then have k1: "k + 1 \<noteq> 0" "unat (k + 1) - 1 = unat k" by (auto simp: unat_eq_0)
  let ?t = "t\<lparr>ht_slots := (ht_slots t)[unat k := slot], ht_next := m\<rparr>"
  have "fill_slot slot k t = (Ok (k + 1), ?t)" using h(1) assms(2) m(1) by (simp add: fill_slot_def)
  moreover have "ht_ok ?t" using h(3) m(2) assms(2,3) by (simp add: ht_ok_def ht_head_def split: if_splits)
  moreover have "handles t (k + 1) = None" using k1 m(1) by (simp add: handles_eq)
  moreover have "handles ?t = (handles t)(k + 1 \<mapsto> slot)"
    using handles_update [of "k + 1" t slot m] h(1) assms(2,4) k1 by simp
  ultimately show ?thesis by blast
qed

lemma grown_slots:
  assumes "ht_ok t" "unat (ht_next t) = length (ht_slots t)"
  shows "slots_ok (ht_link (Suc (length (ht_slots t)))) (ht_slots t @ [Free (ht_next t + 1)]) (Some (unat (ht_next t)))"
proof -
  let ?n = "length (ht_slots t)"
  have s: "slots_ok (ht_link ?n) (ht_slots t) None" "?n < 2 ^ 28" using assms by (simp_all add: ht_ok_def ht_head_def)
  have occupied: "\<not> is_free (ht_slots t ! j)" if "j < ?n" for j using ht.all_occupied [OF s(1) that] by (simp add: ht_link_None)
  have "unat (ht_next t + 1) = Suc ?n" using assms(2) s(2) by (simp add: unat_word_ariths)
  then have f: "ht_link (Suc ?n) (Free (ht_next t + 1)) = Some None" by (simp add: ht_link_def)
  show ?thesis
  proof (rule slots_okI [where xs = "[?n]"])
    show "chain (ht_link (Suc ?n)) (ht_slots t @ [Free (ht_next t + 1)]) (Some (unat (ht_next t))) [?n]" using f assms(2) by simp
    show "j \<in> set [?n] \<longleftrightarrow> j < length (ht_slots t @ [Free (ht_next t + 1)]) \<and> ht_link (Suc ?n) ((ht_slots t @ [Free (ht_next t + 1)]) ! j) \<noteq> None" for j
      using occupied [of j] f by (cases "j < ?n"; cases "j = ?n") (simp_all add: nth_append ht_link_None)
  qed simp
qed

lemma full_table:
  assumes "ht_ok t" "unat (ht_next t) = length (ht_slots t)"
  shows "card (dom (handles t)) = length (ht_slots t)"
proof -
  let ?n = "length (ht_slots t)"
  have s: "slots_ok (ht_link ?n) (ht_slots t) None" "?n < 2 ^ 28" using assms by (simp_all add: ht_ok_def ht_head_def)
  have "\<not> is_free (ht_slots t ! j)" if "j < ?n" for j using ht.all_occupied [OF s(1) that] by (simp add: ht_link_None)
  then have "dom (handles t) = {h. h \<noteq> 0 \<and> unat h - 1 < ?n}" by (auto simp: dom_def handles_eq)
  also have "\<dots> = (\<lambda>j. of_nat (Suc j)) ` {..<?n}"
  proof (intro set_eqI iffI)
    fix h :: u32
    assume h: "h \<in> {h. h \<noteq> 0 \<and> unat h - 1 < ?n}"
    then have "h = of_nat (Suc (unat h - 1))" by (simp add: unat_gt_0)
    then show "h \<in> (\<lambda>j. of_nat (Suc j)) ` {..<?n}" using h by blast
  next
    fix h :: u32
    assume "h \<in> (\<lambda>j. of_nat (Suc j)) ` {..<?n}"
    then obtain j where j: "h = of_nat (Suc j)" "j < ?n" by blast
    then have "unat h = Suc j" using s(2) by (simp only: unsigned_of_nat) (simp add: take_bit_nat_eq_self)
    then show "h \<in> {h. h \<noteq> 0 \<and> unat h - 1 < ?n}" using j(2) by auto
  qed
  also have "card \<dots> = ?n"
  proof -
    have "unat (of_nat (Suc j) :: u32) = Suc j" if "j < ?n" for j using s(2) that by (simp only: unsigned_of_nat) (simp add: take_bit_nat_eq_self)
    then have "inj_on (\<lambda>j. of_nat (Suc j) :: u32) {..<?n}" by (intro inj_onI) (metis Suc_inject lessThan_iff)
    then show ?thesis by (simp add: card_image)
  qed
  finally show ?thesis .
qed

text \<open>Inserting takes a handle that is not in use, and fails only if all handles are in use or there is no memory.\<close>

lemma ht_insert_ok:
  assumes "ht_ok t" "\<not> is_free slot"
  obtains (inserted) h t' where "ht_insert host slot t = (Ok h, t')" "ht_ok t'" "handles t h = None" "handles t' = (handles t)(h \<mapsto> slot)"
  | (full) e where "ht_insert host slot t = (Err (Message e), t)" "card (dom (handles t)) = 2 ^ 28 - 1"
  | (no_memory) "ht_insert host slot t = (Err OutOfMemory, t)" "\<not> host (length (ht_slots t) + 1)"
proof -
  let ?n = "length (ht_slots t)" and ?k = "ht_next t"
  have s: "slots_ok (ht_link ?n) (ht_slots t) (ht_head t)" "?n < 2 ^ 28" using assms(1) by (simp_all add: ht_ok_def)
  have k: "unat ?k \<le> ?n" using ht.take_first [of ?n "ht_slots t" "unat ?k" "ErrorContext 0"] s(1)
    by (cases "unat ?k = ?n") (auto simp: ht_head_def ht_link_def)
  have suc: "unat (?k + 1) = Suc (unat ?k)" using k s(2) by (simp add: unat_word_ariths)
  have max: "MAX_HANDLE \<le> ?k + 1 \<longleftrightarrow> 2 ^ 28 \<le> Suc (unat ?k)" by (simp add: MAX_HANDLE_def word_le_nat_alt suc)
  consider "MAX_HANDLE \<le> ?k + 1" | "\<not> MAX_HANDLE \<le> ?k + 1" "unat ?k = ?n" | "\<not> MAX_HANDLE \<le> ?k + 1" "unat ?k \<noteq> ?n" by blast
  then show ?thesis
  proof cases
    case 1
    then have "unat ?k = ?n" "?n = 2 ^ 28 - 1" using max k s(2) by auto
    then show ?thesis using 1 full_table [OF assms(1)] by (intro full) (auto simp: ht_insert_def Let_def)
  next
    case 2
    have add: "checked_add ?k 1 = Some (?k + 1)" using k s(2) by (simp add: checked_add_unat)
    show ?thesis
    proof (cases "host (?n + 1)")
      case True
      let ?t = "t\<lparr>ht_slots := ht_slots t @ [Free (?k + 1)]\<rparr>"
      have g: "slots_ok (ht_link (Suc ?n)) (ht_slots ?t) (Some (unat ?k))" "Suc ?n = length (ht_slots ?t)" "Suc ?n < 2 ^ 28"
        using grown_slots [OF assms(1) 2(2)] 2 max by simp_all
      obtain t' where "fill_slot slot ?k ?t = (Ok (?k + 1), t')" "ht_ok t'" "handles ?t (?k + 1) = None" "handles t' = (handles ?t)(?k + 1 \<mapsto> slot)"
        using fill_slot_ok [OF g assms(2)] by blast
      moreover have "handles ?t = handles t" by (auto simp: handles_eq fun_eq_iff nth_append)
      ultimately show ?thesis using 2 True add by (intro inserted [of "?k + 1" t']) (simp_all add: ht_insert_def Let_def)
    next
      case False
      then show ?thesis using 2 add by (intro no_memory) (simp_all add: ht_insert_def Let_def)
    qed
  next
    case 3
    then obtain t' where "fill_slot slot ?k t = (Ok (?k + 1), t')" "ht_ok t'" "handles t (?k + 1) = None" "handles t' = (handles t)(?k + 1 \<mapsto> slot)"
      using fill_slot_ok [of ?n t ?k slot] s assms(2) by (auto simp: ht_head_def)
    then show ?thesis using 3 by (intro inserted [of "?k + 1" t']) (simp_all add: ht_insert_def Let_def)
  qed
qed

lemma read_slot_eq: "read_slot f h t = (case handles t h of Some slot \<Rightarrow> f slot | None \<Rightarrow> Err (UnknownHandle h))"
  by (simp add: read_slot_def ht_get_mut_cases split: option.split)

lemma remove_slot_removes:
  assumes "ht_ok t" "handles t h = Some slot" "f slot = Ok r"
  shows "\<exists>t'. remove_slot f h t = (Ok r, t') \<and> ht_ok t' \<and> handles t' = (handles t)(h := None)"
  using ht_remove_ok [OF assms(1,2)] assms(2,3) by (auto simp: remove_slot_def read_slot_eq)

lemma remove_slot_rejects: "read_slot f h t = Err e \<Longrightarrow> remove_slot f h t = (Err e, t)"
  by (simp add: remove_slot_def)

section \<open>Operations\<close>

text \<open>The calls that change a table, with their results forgotten.\<close>

definition discard :: "('a, 'e) res \<times> 's \<Rightarrow> (unit, 'e) res \<times> 's" where
  "discard p = (case p of (r, t) \<Rightarrow> (and_then r (\<lambda>_. Ok ()), t))"

inductive ht_op :: "(nat \<Rightarrow> bool) \<Rightarrow> (HandleTable \<Rightarrow> unit ht_result) \<Rightarrow> bool" for host where
  "ht_op host (\<lambda>t. discard (resource_own_insert host r t))"
| "ht_op host (\<lambda>t. discard (resource_borrow_insert host r scope t))"
| "ht_op host (\<lambda>t. discard (resource_lend idx t))"
| "ht_op host (resource_undo_lend idx)"
| "ht_op host (\<lambda>t. discard (remove_resource idx t))"
| "ht_op host (\<lambda>t. discard (stream_insert_read host ty rep t))"
| "ht_op host (\<lambda>t. discard (stream_insert_write host ty rep t))"
| "ht_op host (stream_set_state ty h state)"
| "ht_op host (\<lambda>t. discard (stream_remove_readable ty h t))"
| "ht_op host (\<lambda>t. discard (stream_remove_writable ty h t))"
| "ht_op host (\<lambda>t. discard (future_insert_read host ty rep t))"
| "ht_op host (\<lambda>t. discard (future_insert_write host ty rep t))"
| "ht_op host (future_set_state ty h state)"
| "ht_op host (\<lambda>t. discard (future_remove_readable ty h t))"
| "ht_op host (\<lambda>t. discard (future_remove_writable ty h t))"
| "ht_op host (\<lambda>t. discard (error_context_insert host rep t))"
| "ht_op host (\<lambda>t. discard (error_context_drop h t))"
| "ht_op host (\<lambda>t. discard (subtask_insert_guest host rep t))"
| "ht_op host (\<lambda>t. discard (subtask_insert_host host rep t))"
| "ht_op host (\<lambda>t. discard (subtask_remove h t))"
| "ht_op host (\<lambda>t. discard (waitable_set_insert host rep t))"
| "ht_op host (\<lambda>t. discard (waitable_set_remove h t))"
| "ht_op host (\<lambda>t. discard (guest_thread_insert host rep t))"
| "ht_op host (\<lambda>t. discard (guest_thread_remove h t))"

inductive ht_reach :: "(nat \<Rightarrow> bool) \<Rightarrow> HandleTable \<Rightarrow> bool" for host where
  ht_new: "ht_reach host HandleTable_default"
| ht_call: "ht_reach host t \<Longrightarrow> ht_op host f \<Longrightarrow> f t = (r, t') \<Longrightarrow> ht_reach host t'"

text \<open>What a handle stands for: its slot without the parts that change, the count of lends and the state of a transfer.\<close>

fun stands_for :: "Slot \<Rightarrow> Slot" where
  "stands_for (ResourceOwn r c) = ResourceOwn r 0"
| "stands_for (Stream ty rep state) = Stream ty rep Busy"
| "stands_for (Future ty rep state) = Future ty rep Busy"
| "stands_for slot = slot"

text \<open>An operation that succeeds concerns one handle, and what a handle in use stands for stays; one that fails changes nothing.\<close>

definition one_handle :: "HandleTable \<Rightarrow> HandleTable \<Rightarrow> bool" where
  "one_handle t t' \<longleftrightarrow> (\<exists>h. (\<forall>k. k \<noteq> h \<longrightarrow> handles t' k = handles t k) \<and>
     (\<forall>a b. handles t h = Some a \<longrightarrow> handles t' h = Some b \<longrightarrow> stands_for a = stands_for b))"

definition op_ok :: "HandleTable \<Rightarrow> unit ht_result \<Rightarrow> bool" where
  "op_ok t = (\<lambda>(r, t'). ht_ok t' \<and> (case r of Ok _ \<Rightarrow> one_handle t t' | Err _ \<Rightarrow> t' = t
     | Panic \<Rightarrow> t' = t \<and> (\<exists>h r. handles t h = Some (ResourceOwn r 0xFFFFFFFF))))"

lemma one_handleI: "handles t' = (handles t)(h := s) \<Longrightarrow> (\<And>a b. handles t h = Some a \<Longrightarrow> s = Some b \<Longrightarrow> stands_for a = stands_for b) \<Longrightarrow> one_handle t t'"
  unfolding one_handle_def by (intro exI [of _ h]) simp

lemma op_ok_insert:
  assumes "ht_ok t" "\<not> is_free slot"
  shows "op_ok t (discard (ht_insert host slot t))"
  using assms
proof (cases rule: ht_insert_ok [where host = host])
  case (inserted h t')
  then have "one_handle t t'" by (intro one_handleI) auto
  then show ?thesis using inserted by (simp add: op_ok_def discard_def)
qed (use assms(1) in \<open>simp_all add: op_ok_def discard_def\<close>)

lemma op_ok_remove:
  assumes "ht_ok t" "\<And>slot. f slot \<noteq> Panic"
  shows "op_ok t (discard (remove_slot f h t))"
proof (cases "read_slot f h t")
  case (Ok r)
  then obtain slot where s: "handles t h = Some slot" "f slot = Ok r" by (auto simp: read_slot_eq split: option.splits)
  then obtain t' where t': "remove_slot f h t = (Ok r, t')" "ht_ok t'" "handles t' = (handles t)(h := None)"
    using remove_slot_removes [where f = f, OF assms(1)] by blast
  then have "one_handle t t'" by (intro one_handleI) auto
  then show ?thesis using t' by (simp add: op_ok_def discard_def)
next
  case (Err e)
  then show ?thesis using assms(1) by (simp add: remove_slot_rejects op_ok_def discard_def)
next
  case Panic
  then show ?thesis using assms(2) by (simp add: read_slot_eq split: option.splits)
qed

lemma op_ok_set:
  assumes "ht_ok t" "handles t h = Some old" "\<not> is_free slot" "stands_for slot = stands_for old"
  shows "op_ok t (Ok (), set_slot h slot t)"
proof -
  have "one_handle t (set_slot h slot t)" using assms(2,4) set_slot_ok(2) [OF assms(1-3)] by (intro one_handleI) auto
  then show ?thesis using set_slot_ok(1) [OF assms(1-3)] by (simp add: op_ok_def)
qed

lemma op_ok_fails: "ht_ok t \<Longrightarrow> op_ok t (Err e, t)"
  by (simp add: op_ok_def)

lemma TypedResource_rep_not_Panic [simp]: "TypedResource_rep r x \<noteq> Panic"
  by (simp add: TypedResource_rep_def split: TypedResource.split TypedResourceIndex.split)

lemma and_then_not_Panic: "r \<noteq> Panic \<Longrightarrow> (\<And>x. f x \<noteq> Panic) \<Longrightarrow> and_then r f \<noteq> Panic"
  by (cases r) simp_all

lemma lend_overflow: "checked_add c 1 = None \<Longrightarrow> c = (0xFFFFFFFF :: u32)"
proof -
  assume "checked_add c 1 = None"
  moreover have "unat c < 2 ^ LENGTH(32)" by (rule unsigned_less)
  ultimately have "unat c = unat (0xFFFFFFFF :: u32)" by (simp add: checked_add_unat split: if_splits)
  then show ?thesis by (rule unsigned_word_eqI)
qed

lemma op_ok_lend:
  assumes "ht_ok t"
  shows "op_ok t (discard (resource_lend idx t))" "op_ok t (resource_undo_lend idx t)"
proof -
  let ?h = "raw_index idx"
  show "op_ok t (discard (resource_lend idx t))"
  proof (cases "\<exists>r c rep. handles t ?h = Some (ResourceOwn r c) \<and> TypedResource_rep r idx = Ok rep")
    case True
    then obtain r c rep where s: "handles t ?h = Some (ResourceOwn r c)" "TypedResource_rep r idx = Ok rep" by blast
    show ?thesis
    proof (cases "checked_add c 1")
      case None
      then show ?thesis using assms s lend_overflow [OF None] by (auto simp: resource_lend_def ht_get_mut_cases discard_def op_ok_def)
    next
      case (Some n)
      then show ?thesis using op_ok_set [OF assms s(1), of "ResourceOwn r n"] s by (simp add: resource_lend_def ht_get_mut_cases discard_def)
    qed
  next
    case False
    then have "\<exists>e. discard (resource_lend idx t) = (e, t) \<and> e \<noteq> Panic"
      by (auto simp: resource_lend_def ht_get_mut_cases discard_def and_then_not_Panic split: option.split Slot.split res.split)
    then show ?thesis using assms by (auto simp: op_ok_def one_handle_def split: res.split)
  qed
  show "op_ok t (resource_undo_lend idx t)"
  proof (cases "handles t ?h")
    case (Some slot)
    then show ?thesis using op_ok_set [OF assms Some] op_ok_fails [OF assms] by (cases slot) (simp_all add: resource_undo_lend_def ht_get_mut_cases)
  qed (use op_ok_fails [OF assms] in \<open>simp add: resource_undo_lend_def ht_get_mut_cases\<close>)
qed

lemma op_ok_set_state:
  assumes "ht_ok t"
  shows "op_ok t (stream_set_state ty h state t)" "op_ok t (future_set_state ty h state t)"
proof -
  show "op_ok t (stream_set_state ty h state t)"
  proof (cases "handles t h")
    case (Some slot)
    then show ?thesis using op_ok_set [OF assms Some] op_ok_fails [OF assms]
      by (cases slot) (simp_all add: stream_set_state_def stream_rep_def read_slot_eq)
  qed (use op_ok_fails [OF assms] in \<open>simp add: stream_set_state_def stream_rep_def read_slot_eq\<close>)
  show "op_ok t (future_set_state ty h state t)"
  proof (cases "handles t h")
    case (Some slot)
    then show ?thesis using op_ok_set [OF assms Some] op_ok_fails [OF assms]
      by (cases slot) (simp_all add: future_set_state_def future_rep_def read_slot_eq)
  qed (use op_ok_fails [OF assms] in \<open>simp add: future_set_state_def future_rep_def read_slot_eq\<close>)
qed

lemmas insert_defs = resource_own_insert_def resource_borrow_insert_def stream_insert_read_def stream_insert_write_def
  future_insert_read_def future_insert_write_def error_context_insert_def subtask_insert_guest_def subtask_insert_host_def
  waitable_set_insert_def guest_thread_insert_def

lemmas remove_defs = remove_resource_def stream_remove_readable_def stream_remove_writable_def future_remove_readable_def
  future_remove_writable_def error_context_drop_def subtask_remove_def waitable_set_remove_def guest_thread_remove_def

lemma ht_op_ok:
  assumes "ht_op host f" "ht_ok t"
  shows "op_ok t (f t)"
  using assms(1)
  by cases (simp_all add: insert_defs remove_defs op_ok_insert [OF assms(2)] op_ok_lend [OF assms(2)] op_ok_set_state [OF assms(2)]
    op_ok_remove [OF assms(2)] and_then_not_Panic split: Slot.split TransmitLocalState.split)

lemma ht_reach_ok: "ht_reach host t \<Longrightarrow> ht_ok t"
proof (induction rule: ht_reach.induct)
  case (ht_call t f r t')
  then show ?case using ht_op_ok [of host f t] by (simp add: op_ok_def)
qed (rule ht_ok_default)

lemma ht_insert_length:
  assumes "ht_insert host slot t = (Ok h, t')"
  shows "h = ht_next t + 1" "length (ht_slots t') = max (length (ht_slots t)) (Suc (unat (ht_next t)))"
  using assms by (auto simp: ht_insert_def fill_slot_def Let_def split: if_splits option.splits Slot.splits)

text \<open>C8: Any handle table that the operations of the source can build, starting from an empty one, is such that every
  further operation behaves: one that succeeds concerns a single handle (every other handle keeps its slot, and the
  handle concerned goes on standing for the same thing if it is in use before and after), one that fails leaves the
  table as it was, and the only panic is the overflow of a lend count that stands at its maximum.\<close>

theorem handle_table_operations:
  assumes "ht_reach host t" "ht_op host f" "f t = (r, t')"
  shows "case r of
      Ok _ \<Rightarrow> one_handle t t'
    | Err _ \<Rightarrow> t' = t
    | Panic \<Rightarrow> t' = t \<and> (\<exists>h x. handles t h = Some (ResourceOwn x 0xFFFFFFFF))"
  using ht_op_ok [OF assms(2) ht_reach_ok [OF assms(1)]] assms(3) by (simp add: op_ok_def split: res.splits)

text \<open>A table with one resource, lent once, that a guest then tries to drop.\<close>

definition ht_demo :: HandleTable where
  "ht_demo = snd (resource_lend (HostIndex 1) (snd (resource_own_insert (\<lambda>_. True) (HostResource 7) HandleTable_default)))"

lemma ht_demo_eq: "ht_demo = \<lparr>ht_next = 1, ht_slots = [ResourceOwn (HostResource 7) 1]\<rparr>"
  by code_simp

lemma ht_demo_reach: "ht_reach (\<lambda>_. True) ht_demo"
proof -
  let ?host = "\<lambda>_. True"
  let ?t = "\<lparr>ht_next = 1, ht_slots = [ResourceOwn (HostResource 7) 0]\<rparr>"
  have "discard (resource_own_insert ?host (HostResource 7) HandleTable_default) = (Ok (), ?t)" by code_simp
  then have "ht_reach ?host ?t" by (rule ht_call [OF ht_new ht_op.intros(1)])
  moreover have "discard (resource_lend (HostIndex 1) ?t) = (Ok (), ht_demo)" by code_simp
  ultimately show ?thesis by (rule ht_call [OF _ ht_op.intros(3)])
qed

theorem handle_table_operations_witness:
  "discard (remove_resource (HostIndex 1) ht_demo) = (Err (Message ''cannot remove owned resource while borrowed''), ht_demo) \<and>
   one_handle ht_demo (snd (resource_undo_lend (HostIndex 1) ht_demo))"
proof -
  have "discard (remove_resource (HostIndex 1) ht_demo) = (Err (Message ''cannot remove owned resource while borrowed''), ht_demo)" by code_simp
  moreover have "resource_undo_lend (HostIndex 1) ht_demo = (Ok (), snd (resource_undo_lend (HostIndex 1) ht_demo))" by code_simp
  ultimately show ?thesis using handle_table_operations [OF ht_demo_reach ht_op.intros(4)] by fastforce
qed

text \<open>C19: A handle given out is one not in use, between 1 and the maximum, and stands for what was inserted, while every other
  handle keeps its slot; an insertion fails only when all the 2 to the 28 less one handles are in use, or when there is
  no memory for one more slot, and leaves the table as it was. It never panics.\<close>

theorem ht_insert_fresh:
  assumes "ht_reach host t" "\<not> is_free slot"
  shows "case ht_insert host slot t of
      (Ok h, t') \<Rightarrow> 0 < unat h \<and> unat h < 2 ^ 28 \<and> handles t h = None \<and> handles t' = (handles t)(h \<mapsto> slot)
    | (Err OutOfMemory, t') \<Rightarrow> t' = t \<and> \<not> host (length (ht_slots t) + 1)
    | (Err _, t') \<Rightarrow> t' = t \<and> card (dom (handles t)) = 2 ^ 28 - 1
    | (Panic, _) \<Rightarrow> False"
  using ht_reach_ok [OF assms(1)] assms(2)
proof (cases rule: ht_insert_ok [where host = host])
  case (inserted h t')
  then show ?thesis using handles_range [of t' h slot] by simp
qed simp_all

theorem ht_insert_fresh_witness:
  "fst (ht_insert (\<lambda>_. True) (ErrorContext 3) ht_demo) = Ok 2 \<and>
   handles (snd (ht_insert (\<lambda>_. True) (ErrorContext 3) ht_demo)) = (handles ht_demo)(2 \<mapsto> ErrorContext 3)"
proof -
  let ?i = "ht_insert (\<lambda>_. True) (ErrorContext 3) ht_demo"
  have "?i = (Ok 2, snd ?i)" by code_simp
  moreover have "case ?i of
      (Ok h, t') \<Rightarrow> 0 < unat h \<and> unat h < 2 ^ 28 \<and> handles ht_demo h = None \<and> handles t' = (handles ht_demo)(h \<mapsto> ErrorContext 3)
    | (Err OutOfMemory, t') \<Rightarrow> t' = ht_demo \<and> \<not> True
    | (Err _, t') \<Rightarrow> t' = ht_demo \<and> card (dom (handles ht_demo)) = 2 ^ 28 - 1
    | (Panic, _) \<Rightarrow> False" by (rule ht_insert_fresh [OF ht_demo_reach]) simp
  ultimately show ?thesis by (cases ?i) simp
qed

end
