(* ===== verification/Component_Resources.thy ===== *)
theory Component_Resources
  imports Handle_Table "HOL-Library.Multiset"
begin

text \<open>
  The handles of a component instance and of the host together: \<open>ResourceTables\<close> and \<open>CallContext\<close> of
  \<open>crates/wasmtime/src/runtime/vm/component/resources.rs\<close>, with the call scopes of a store that runs without
  concurrency support, from \<open>crates/wasmtime/src/runtime/component/store.rs\<close>. The state holds the tables of one component
  (the pair \<open>guest\<close>, a table for each of its instances and the table of its resource types), the table of the host and
  the stack of scopes. A method returns its result and the state, also when it fails. Arithmetic that the source leaves
  unchecked wraps, as in a release build; that it never does is one of the results. The allocations of the tables and of
  the stack of scopes are the parameters \<open>host\<close> and \<open>mem\<close>.
\<close>

section \<open>Tables and scopes\<close>

datatype TypeResourceTable = Concrete nat nat | Abstract nat

definition unwrap_concrete_instance :: "TypeResourceTable \<Rightarrow> (nat, handle_error) res" where
  "unwrap_concrete_instance t = (case t of Concrete ty instance \<Rightarrow> Ok instance | Abstract _ \<Rightarrow> Panic)"

record CallContext =
  lenders :: "TypedResourceIndex list"
  borrow_count :: u32

definition CallContext_default :: CallContext where
  "CallContext_default = \<lparr>lenders = [], borrow_count = 0\<rparr>"

record ResourceTables =
  rt_guest :: "(HandleTable list \<times> TypeResourceTable list) option"
  rt_host_table :: HandleTable
  rt_scopes :: "CallContext list"

type_synonym 'a rt_result = "('a, handle_error) res \<times> ResourceTables"

text \<open>Which of the tables of the state a reference to a table points at.\<close>

datatype table_ref = HostTable | GuestTable nat

definition guest_table :: "nat \<Rightarrow> ResourceTables \<Rightarrow> (table_ref, handle_error) res" where
  "guest_table ty s =
     (case rt_guest s of
        None \<Rightarrow> Panic
      | Some (states, types) \<Rightarrow>
          if ty < length types then
            and_then (unwrap_concrete_instance (types ! ty)) (\<lambda>i. if i < length states then Ok (GuestTable i) else Panic)
          else Panic)"

definition table_for_resource :: "TypedResource \<Rightarrow> ResourceTables \<Rightarrow> (table_ref, handle_error) res" where
  "table_for_resource r s = (case r of HostResource _ \<Rightarrow> Ok HostTable | ComponentResource _ ty \<Rightarrow> guest_table ty s)"

definition table_for_index :: "TypedResourceIndex \<Rightarrow> ResourceTables \<Rightarrow> (table_ref, handle_error) res" where
  "table_for_index x s = (case x of HostIndex _ \<Rightarrow> Ok HostTable | ComponentIndex _ ty \<Rightarrow> guest_table ty s)"

definition get_table :: "table_ref \<Rightarrow> ResourceTables \<Rightarrow> HandleTable" where
  "get_table r s = (case r of HostTable \<Rightarrow> rt_host_table s | GuestTable i \<Rightarrow> fst (the (rt_guest s)) ! i)"

definition put_table :: "table_ref \<Rightarrow> HandleTable \<Rightarrow> ResourceTables \<Rightarrow> ResourceTables" where
  "put_table r t s =
     (case r of
        HostTable \<Rightarrow> s\<lparr>rt_host_table := t\<rparr>
      | GuestTable i \<Rightarrow> s\<lparr>rt_guest := map_option (\<lambda>(states, types). (states[i := t], types)) (rt_guest s)\<rparr>)"

text \<open>A call on the table a reference points at, and going on after a call that succeeded.\<close>

definition on_table :: "(table_ref, handle_error) res \<Rightarrow> (HandleTable \<Rightarrow> 'a ht_result) \<Rightarrow> ResourceTables \<Rightarrow> 'a rt_result" where
  "on_table ref f s =
     (case ref of
        Ok r \<Rightarrow> (case f (get_table r s) of (x, t) \<Rightarrow> (x, put_table r t s))
      | Err e \<Rightarrow> (Err e, s)
      | Panic \<Rightarrow> (Panic, s))"

definition then_do :: "('a, 'e) res \<times> 's \<Rightarrow> ('a \<Rightarrow> 's \<Rightarrow> ('b, 'e) res \<times> 's) \<Rightarrow> ('b, 'e) res \<times> 's" where
  "then_do p f = (case p of (Ok x, s) \<Rightarrow> f x s | (Err e, s) \<Rightarrow> (Err e, s) | (Panic, s) \<Rightarrow> (Panic, s))"

text \<open>The scopes. The number of the current one is the length of the stack less one, which on an empty stack wraps and is then
  out of the range of the conversion.\<close>

definition call_context :: "u32 \<Rightarrow> ResourceTables \<Rightarrow> (CallContext, handle_error) res" where
  "call_context k s = (if unat k < length (rt_scopes s) then Ok (rt_scopes s ! unat k) else Panic)"

definition set_context :: "u32 \<Rightarrow> CallContext \<Rightarrow> ResourceTables \<Rightarrow> ResourceTables" where
  "set_context k cx s = s\<lparr>rt_scopes := (rt_scopes s)[unat k := cx]\<rparr>"

definition current_call_context_scope_id :: "ResourceTables \<Rightarrow> (u32, handle_error) res" where
  "current_call_context_scope_id s =
     (let n = int (length (rt_scopes s)) - 1 in
      if 0 \<le> n \<and> n < 0x100000000 then Ok (of_int n) else Err (Message ''out of range integral type conversion attempted''))"

definition enter_call_not_concurrent :: "(nat \<Rightarrow> bool) \<Rightarrow> ResourceTables \<Rightarrow> unit rt_result" where
  "enter_call_not_concurrent mem s =
     (if mem (length (rt_scopes s) + 1) then (Ok (), s\<lparr>rt_scopes := rt_scopes s @ [CallContext_default]\<rparr>)
      else (Err OutOfMemory, s))"

definition exit_call_not_concurrent :: "ResourceTables \<Rightarrow> ResourceTables" where
  "exit_call_not_concurrent s = s\<lparr>rt_scopes := butlast (rt_scopes s)\<rparr>"

section \<open>The operations on resources\<close>

definition resource_new :: "(nat \<Rightarrow> bool) \<Rightarrow> TypedResource \<Rightarrow> ResourceTables \<Rightarrow> u32 rt_result" where
  "resource_new host resource s = on_table (table_for_resource resource s) (resource_own_insert host resource) s"

definition resource_rep :: "TypedResourceIndex \<Rightarrow> ResourceTables \<Rightarrow> (u32, handle_error) res" where
  "resource_rep index s = and_then (table_for_index index s) (\<lambda>r. ht_resource_rep index (get_table r s))"

definition resource_drop :: "TypedResourceIndex \<Rightarrow> ResourceTables \<Rightarrow> u32 option rt_result" where
  "resource_drop index s =
     then_do (on_table (table_for_index index s) (remove_resource index) s) (\<lambda>removed s.
       case removed of
         RemovedOwn rep \<Rightarrow> (Ok (Some rep), s)
       | RemovedBorrow scope \<Rightarrow>
           then_do (call_context scope s, s) (\<lambda>cx s.
             (Ok None, set_context scope (cx\<lparr>borrow_count := borrow_count cx - 1\<rparr>) s)))"

definition resource_lower_own :: "(nat \<Rightarrow> bool) \<Rightarrow> TypedResource \<Rightarrow> ResourceTables \<Rightarrow> u32 rt_result" where
  "resource_lower_own host resource s = on_table (table_for_resource resource s) (resource_own_insert host resource) s"

definition resource_lift_own :: "TypedResourceIndex \<Rightarrow> ResourceTables \<Rightarrow> u32 rt_result" where
  "resource_lift_own index s =
     then_do (on_table (table_for_index index s) (remove_resource index) s) (\<lambda>removed s.
       case removed of
         RemovedOwn rep \<Rightarrow> (Ok rep, s)
       | RemovedBorrow _ \<Rightarrow> (Err (Message ''cannot lift own resource from a borrow''), s))"

definition resource_lift_borrow :: "TypedResourceIndex \<Rightarrow> ResourceTables \<Rightarrow> u32 rt_result" where
  "resource_lift_borrow index s =
     then_do (on_table (table_for_index index s) (resource_lend index) s) (\<lambda>(rep, is_own) s.
       if is_own then
         then_do (current_call_context_scope_id s, s) (\<lambda>scope s.
           then_do (call_context scope s, s) (\<lambda>cx s.
             (Ok rep, set_context scope (cx\<lparr>lenders := lenders cx @ [index]\<rparr>) s)))
       else (Ok rep, s))"

definition resource_lower_borrow :: "(nat \<Rightarrow> bool) \<Rightarrow> TypedResource \<Rightarrow> ResourceTables \<Rightarrow> u32 rt_result" where
  "resource_lower_borrow host resource s =
     then_do (current_call_context_scope_id s, s) (\<lambda>scope s.
       then_do (call_context scope s, s) (\<lambda>cx s.
         then_do (unwrap (checked_add (borrow_count cx) 1), s) (\<lambda>n s.
           let s = set_context scope (cx\<lparr>borrow_count := n\<rparr>) s
           in on_table (table_for_resource resource s) (resource_borrow_insert host resource scope) s)))"

fun undo_lends :: "TypedResourceIndex list \<Rightarrow> ResourceTables \<Rightarrow> unit rt_result" where
  "undo_lends [] s = (Ok (), s)"
| "undo_lends (lender # xs) s =
     (case on_table (table_for_index lender s) (resource_undo_lend lender) s of
        (Ok _, s) \<Rightarrow> undo_lends xs s
      | (_, s) \<Rightarrow> (Panic, s))"

definition validate_scope_exit :: "ResourceTables \<Rightarrow> unit rt_result" where
  "validate_scope_exit s =
     then_do (current_call_context_scope_id s, s) (\<lambda>current s.
       then_do (call_context current s, s) (\<lambda>cx s.
         if borrow_count cx > 0 then (Err (Message ''borrow handles still remain at the end of the call''), s)
         else undo_lends (lenders cx) (set_context current (cx\<lparr>lenders := []\<rparr>) s)))"

definition exit_sync_call :: "ResourceTables \<Rightarrow> unit rt_result" where
  "exit_sync_call s = then_do (validate_scope_exit s) (\<lambda>_ s. (Ok (), exit_call_not_concurrent s))"

section \<open>The slots of all the tables\<close>

definition valid_ref :: "table_ref \<Rightarrow> ResourceTables \<Rightarrow> bool" where
  "valid_ref r s = (case r of HostTable \<Rightarrow> True | GuestTable i \<Rightarrow> (case rt_guest s of None \<Rightarrow> False | Some (states, _) \<Rightarrow> i < length states))"

definition all_slots :: "ResourceTables \<Rightarrow> table_ref \<times> u32 \<Rightarrow> Slot option" where
  "all_slots s = (\<lambda>(r, h). if valid_ref r s then handles (get_table r s) h else None)"

definition tables_ok :: "ResourceTables \<Rightarrow> bool" where
  "tables_ok s \<longleftrightarrow> (\<forall>r. valid_ref r s \<longrightarrow> ht_ok (get_table r s))"

text \<open>What decides which table a type belongs to: no operation changes it.\<close>

definition shape :: "ResourceTables \<Rightarrow> (nat \<times> TypeResourceTable list) option" where
  "shape s = map_option (\<lambda>(states, types). (length states, types)) (rt_guest s)"

lemma guest_table_shape: "guest_table ty s =
    (case shape s of None \<Rightarrow> Panic | Some (n, types) \<Rightarrow>
       if ty < length types then and_then (unwrap_concrete_instance (types ! ty)) (\<lambda>i. if i < n then Ok (GuestTable i) else Panic) else Panic)"
  by (simp add: guest_table_def shape_def split: option.split)

lemma table_for_index_shape: "shape s' = shape s \<Longrightarrow> table_for_index x s' = table_for_index x s"
  by (simp add: table_for_index_def guest_table_shape split: TypedResourceIndex.split)

lemma table_for_resource_shape: "shape s' = shape s \<Longrightarrow> table_for_resource x s' = table_for_resource x s"
  by (simp add: table_for_resource_def guest_table_shape split: TypedResource.split)

lemma unwrap_concrete_not_Err: "unwrap_concrete_instance t \<noteq> Err e"
  by (simp add: unwrap_concrete_instance_def split: TypeResourceTable.split)

lemma guest_table_cases:
  obtains (table) i where "guest_table ty s = Ok (GuestTable i)" "valid_ref (GuestTable i) s" | (none) "guest_table ty s = Panic"
proof (cases "guest_table ty s")
  case (Ok r)
  then show ?thesis using table
    by (auto simp: guest_table_def valid_ref_def unwrap_concrete_instance_def split: option.splits if_splits TypeResourceTable.splits)
next
  case (Err e)
  then show ?thesis
    by (auto simp: guest_table_def unwrap_concrete_instance_def split: option.splits if_splits TypeResourceTable.splits)
qed (rule none)

lemma table_for_index_cases:
  obtains (table) r where "table_for_index x s = Ok r" "valid_ref r s" | (none) "table_for_index x s = Panic"
proof (cases x)
  case (HostIndex i)
  then show ?thesis using table [of HostTable] by (simp add: table_for_index_def valid_ref_def)
next
  case (ComponentIndex i ty)
  then show ?thesis using table none by (cases rule: guest_table_cases [of ty s]) (simp_all add: table_for_index_def)
qed

lemma table_for_resource_cases:
  obtains (table) r where "table_for_resource x s = Ok r" "valid_ref r s" | (none) "table_for_resource x s = Panic"
proof (cases x)
  case (HostResource i)
  then show ?thesis using table [of HostTable] by (simp add: table_for_resource_def valid_ref_def)
next
  case (ComponentResource i ty)
  then show ?thesis using table none by (cases rule: guest_table_cases [of ty s]) (simp_all add: table_for_resource_def)
qed

lemma valid_ref_put [simp]: "valid_ref r (put_table r' t s) = valid_ref r s"
  by (simp add: valid_ref_def put_table_def split: table_ref.split option.split)

lemma shape_put [simp]: "shape (put_table r t s) = shape s"
  by (cases "rt_guest s") (auto simp: shape_def put_table_def split: table_ref.split)

lemma rt_scopes_put [simp]: "rt_scopes (put_table r t s) = rt_scopes s"
  by (simp add: put_table_def split: table_ref.split)

lemma get_table_put: "valid_ref r s \<Longrightarrow> get_table r' (put_table r t s) = (if r' = r then t else get_table r' s)"
  by (auto simp: get_table_def put_table_def valid_ref_def split: table_ref.splits option.splits)

lemma put_table_same: "valid_ref r s \<Longrightarrow> put_table r (get_table r s) s = s"
  by (auto simp: get_table_def put_table_def valid_ref_def split: table_ref.splits option.splits)

lemma set_context_simps [simp]:
  "shape (set_context k cx s) = shape s" "valid_ref r (set_context k cx s) = valid_ref r s"
  "get_table r (set_context k cx s) = get_table r s" "all_slots (set_context k cx s) = all_slots s"
  "tables_ok (set_context k cx s) = tables_ok s"
  by (auto simp: shape_def set_context_def valid_ref_def get_table_def all_slots_def tables_ok_def split: table_ref.split)

text \<open>A table that differs in one handle, put back.\<close>

lemma put_table_ok:
  assumes "tables_ok s" "valid_ref r s" "ht_ok t" "handles t = (handles (get_table r s))(h := v)"
  shows "tables_ok (put_table r t s)" "all_slots (put_table r t s) = (all_slots s)((r, h) := v)"
  using assms by (auto simp: tables_ok_def all_slots_def get_table_put fun_eq_iff)

lemma finite_all_slots: "finite (dom (all_slots s))"
proof -
  let ?R = "insert HostTable (GuestTable ` {..< (case rt_guest s of None \<Rightarrow> 0 | Some (states, _) \<Rightarrow> length states)})"
  have "valid_ref r s \<Longrightarrow> r \<in> ?R" for r by (auto simp: valid_ref_def split: table_ref.splits option.splits)
  then have "p \<in> ?R \<times> UNIV" if "p \<in> dom (all_slots s)" for p
    using that by (cases p) (simp add: all_slots_def domIff split: if_splits)
  then have "dom (all_slots s) \<subseteq> ?R \<times> UNIV" by blast
  then show ?thesis by (rule finite_subset) simp
qed

section \<open>The accounts of lends and borrows\<close>

text \<open>How often a slot is lent, and the slots that borrow in the scope \<open>k\<close>.\<close>

fun lends :: "Slot option \<Rightarrow> nat" where
  "lends (Some (ResourceOwn x c)) = unat c"
| "lends _ = 0"

definition borrows :: "nat \<Rightarrow> (table_ref \<times> u32 \<Rightarrow> Slot option) \<Rightarrow> (table_ref \<times> u32) set" where
  "borrows k m = {p. \<exists>x scope. m p = Some (ResourceBorrow x scope) \<and> unat scope = k}"

definition place :: "ResourceTables \<Rightarrow> TypedResourceIndex \<Rightarrow> (table_ref \<times> u32) option" where
  "place s x = (case table_for_index x s of Ok r \<Rightarrow> Some (r, raw_index x) | _ \<Rightarrow> None)"

definition all_lenders :: "ResourceTables \<Rightarrow> TypedResourceIndex multiset" where
  "all_lenders s = mset (concat (map lenders (rt_scopes s)))"

definition allowed :: "nat \<Rightarrow> ResourceTables \<Rightarrow> nat" where
  "allowed k s = (if k < length (rt_scopes s) then unat (borrow_count (rt_scopes s ! k)) else 0)"

text \<open>The invariant, with lends \<open>xs\<close> that are still to be undone: a slot is lent at least as often as scopes say, and a scope counts
  at least the handles that borrow in it.\<close>

definition rt_inv :: "TypedResourceIndex multiset \<Rightarrow> ResourceTables \<Rightarrow> bool" where
  "rt_inv xs s \<longleftrightarrow> tables_ok s \<and> (\<forall>x. x \<in># xs + all_lenders s \<longrightarrow> place s x \<noteq> None) \<and>
     (\<forall>p. count (image_mset (place s) (xs + all_lenders s)) (Some p) \<le> lends (all_slots s p)) \<and>
     (\<forall>k. card (borrows k (all_slots s)) \<le> allowed k s)"

lemma place_shape: "shape s' = shape s \<Longrightarrow> place s' = place s"
  by (rule ext) (simp only: place_def table_for_index_shape [of s' s])

lemma borrows_finite: "finite (borrows k (all_slots s))"
  by (rule finite_subset [OF _ finite_all_slots [of s]]) (auto simp: borrows_def)

lemma borrows_upd:
  "borrows k (m(p := v)) = (case v of Some (ResourceBorrow x scope) \<Rightarrow> if unat scope = k then insert p (borrows k m) else borrows k m - {p}
     | _ \<Rightarrow> borrows k m - {p})"
  by (auto simp: borrows_def split: option.split Slot.split)

text \<open>A state with the same scopes where one slot has changed.\<close>

lemma rt_inv_slot:
  assumes "rt_inv xs s" "shape s' = shape s" "rt_scopes s' = rt_scopes s" "tables_ok s'" "all_slots s' = (all_slots s)(p := v)"
    and "lends (all_slots s p) \<le> lends v" "\<And>x scope. v \<noteq> Some (ResourceBorrow x scope)"
  shows "rt_inv xs s'"
proof -
  have l: "all_lenders s' = all_lenders s" using assms(3) by (simp add: all_lenders_def)
  have "borrows k (all_slots s') \<subseteq> borrows k (all_slots s)" for k using assms(5,7) by (auto simp: borrows_def)
  then have "card (borrows k (all_slots s')) \<le> card (borrows k (all_slots s))" for k by (intro card_mono borrows_finite)
  moreover have "allowed k s' = allowed k s" for k using assms(3) by (simp add: allowed_def)
  ultimately have c: "card (borrows k (all_slots s')) \<le> allowed k s'" for k using assms(1) by (metis rt_inv_def order_trans)
  have "lends (all_slots s q) \<le> lends (all_slots s' q)" for q using assms(5,6) by simp
  moreover have "count (image_mset (place s') (xs + all_lenders s')) (Some q) \<le> lends (all_slots s q)" for q
    using assms(1) l unfolding rt_inv_def place_shape [OF assms(2)] by metis
  ultimately have "count (image_mset (place s') (xs + all_lenders s')) (Some q) \<le> lends (all_slots s' q)" for q by (meson order_trans)
  then show ?thesis using assms(1,4) l c by (simp add: rt_inv_def place_shape [OF assms(2)])
qed

lemma rt_inv_context:
  assumes "rt_inv xs s" "xs' + all_lenders (set_context k cx s) = xs + all_lenders s"
    and "\<And>j. card (borrows j (all_slots s)) \<le> allowed j (set_context k cx s)"
  shows "rt_inv xs' (set_context k cx s)"
proof -
  have p: "place (set_context k cx s) = place s" by (rule place_shape) simp
  show ?thesis using assms(1,3) unfolding rt_inv_def p assms(2) by simp
qed

lemma allowed_set_context:
  "unat k < length (rt_scopes s) \<Longrightarrow> allowed j (set_context k cx s) = (if j = unat k then unat (borrow_count cx) else allowed j s)"
  by (simp add: allowed_def set_context_def)

lemma all_lenders_set_context:
  assumes "unat k < length (rt_scopes s)"
  shows "all_lenders (set_context k cx s) + mset (lenders (rt_scopes s ! unat k)) = all_lenders s + mset (lenders cx)"
proof -
  have s: "rt_scopes s = take (unat k) (rt_scopes s) @ rt_scopes s ! unat k # drop (Suc (unat k)) (rt_scopes s)"
    using assms by (rule id_take_nth_drop)
  have "rt_scopes (set_context k cx s) = take (unat k) (rt_scopes s) @ cx # drop (Suc (unat k)) (rt_scopes s)"
    using assms by (simp add: set_context_def upd_conv_take_nth_drop)
  moreover have "all_lenders s = mset (concat (map lenders (take (unat k) (rt_scopes s) @ rt_scopes s ! unat k # drop (Suc (unat k)) (rt_scopes s))))"
    unfolding all_lenders_def using arg_cong [OF s, of "\<lambda>xs. mset (concat (map lenders xs))"] .
  ultimately show ?thesis by (simp add: all_lenders_def)
qed

lemma current_cases:
  obtains (scope) k where "current_call_context_scope_id s = Ok k" "length (rt_scopes s) = Suc (unat k)" "call_context k s = Ok (rt_scopes s ! unat k)"
  | (none) e where "current_call_context_scope_id s = Err e"
proof (cases "rt_scopes s")
  case Nil
  then show ?thesis by (intro none) (simp add: current_call_context_scope_id_def)
next
  case (Cons cx scopes)
  let ?m = "length scopes"
  have m: "int (length (rt_scopes s)) - 1 = int ?m" using Cons by simp
  show ?thesis
  proof (cases "int ?m < 0x100000000")
    case True
    then have "?m < 2 ^ LENGTH(32)" by simp
    then have "unat (word_of_nat ?m :: u32) = ?m" by (simp only: unsigned_of_nat take_bit_nat_eq_self of_nat_id)
    moreover have "current_call_context_scope_id s = Ok (word_of_nat ?m)" using True unfolding current_call_context_scope_id_def Let_def m by simp
    ultimately show ?thesis using Cons by (intro scope [of "word_of_nat ?m"]) (simp_all add: call_context_def)
  next
    case False
    then show ?thesis unfolding current_call_context_scope_id_def Let_def m by (intro none) (simp add: m current_call_context_scope_id_def Let_def)
  qed
qed

section \<open>What the operations do with the slots\<close>

lemma all_slots_valid: "valid_ref r s \<Longrightarrow> all_slots s (r, h) = handles (get_table r s) h"
  by (simp add: all_slots_def)

lemma on_insert:
  assumes "tables_ok s" "valid_ref r s" "\<not> is_free slot"
  obtains (inserted) h s' where "on_table (Ok r) (ht_insert host slot) s = (Ok h, s')" "all_slots s (r, h) = None"
      "tables_ok s'" "all_slots s' = (all_slots s)((r, h) \<mapsto> slot)" "shape s' = shape s" "rt_scopes s' = rt_scopes s"
  | (failed) e where "on_table (Ok r) (ht_insert host slot) s = (Err e, s)"
proof -
  have t: "ht_ok (get_table r s)" using assms(1,2) by (simp add: tables_ok_def)
  show ?thesis
    using t assms(3)
  proof (cases rule: ht_insert_ok [where host = host])
    case (inserted h t')
    then show ?thesis using put_table_ok [OF assms(1,2) inserted(2,4)] assms(2)
      by (intro that(1) [of h "put_table r t' s"]) (simp_all add: on_table_def all_slots_valid)
  qed (use assms(2) that(2) in \<open>simp_all add: on_table_def put_table_same\<close>)
qed

lemma on_set:
  assumes "tables_ok s" "valid_ref r s" "all_slots s (r, h) = Some old" "\<not> is_free slot"
  shows "tables_ok (put_table r (set_slot h slot (get_table r s)) s)"
    "all_slots (put_table r (set_slot h slot (get_table r s)) s) = (all_slots s)((r, h) \<mapsto> slot)"
proof -
  have t: "ht_ok (get_table r s)" "handles (get_table r s) h = Some old" using assms(1-3) by (simp_all add: tables_ok_def all_slots_valid)
  show "tables_ok (put_table r (set_slot h slot (get_table r s)) s)"
    "all_slots (put_table r (set_slot h slot (get_table r s)) s) = (all_slots s)((r, h) \<mapsto> slot)"
    using put_table_ok [OF assms(1,2) set_slot_ok [OF t assms(4)]] .
qed

lemma on_lend:
  assumes "tables_ok s" "valid_ref r s"
  obtains (lent) y c rep s' where "on_table (Ok r) (resource_lend x) s = (Ok (rep, True), s')"
      "all_slots s (r, raw_index x) = Some (ResourceOwn y c)" "unat (c + 1) = unat c + 1" "tables_ok s'"
      "all_slots s' = (all_slots s)((r, raw_index x) \<mapsto> ResourceOwn y (c + 1))" "shape s' = shape s" "rt_scopes s' = rt_scopes s"
  | (overflow) y where "on_table (Ok r) (resource_lend x) s = (Panic, s)" "all_slots s (r, raw_index x) = Some (ResourceOwn y 0xFFFFFFFF)"
  | (again) rep where "on_table (Ok r) (resource_lend x) s = (Ok (rep, False), s)"
  | (failed) e where "on_table (Ok r) (resource_lend x) s = (Err e, s)"
proof -
  let ?t = "get_table r s" and ?h = "raw_index x"
  consider (own) y c rep where "handles ?t ?h = Some (ResourceOwn y c)" "TypedResource_rep y x = Ok rep"
    | (other) "\<nexists>y c rep. handles ?t ?h = Some (ResourceOwn y c) \<and> TypedResource_rep y x = Ok rep" by blast
  then show ?thesis
  proof cases
    case own
    show ?thesis
    proof (cases "checked_add c 1")
      case None
      then show ?thesis using own assms(2) lend_overflow [OF None]
        by (intro overflow) (simp_all add: on_table_def resource_lend_def ht_get_mut_cases put_table_same all_slots_valid)
    next
      case (Some n)
      then have n: "n = c + 1" "unat (c + 1) = unat c + 1" by (simp_all add: checked_add_unat unat_word_ariths split: if_splits)
      have a: "all_slots s (r, ?h) = Some (ResourceOwn y c)" using own(1) assms(2) by (simp add: all_slots_valid)
      show ?thesis
        by (rule lent [OF _ a n(2) on_set [OF assms a]]) (use Some own n in \<open>simp_all add: on_table_def resource_lend_def ht_get_mut_cases\<close>)
    qed
  next
    case other
    then have "\<exists>q. resource_lend x ?t = (q, ?t) \<and> (\<forall>rep b. q = Ok (rep, b) \<longrightarrow> \<not> b) \<and> q \<noteq> Panic"
      by (auto simp: resource_lend_def ht_get_mut_cases and_then_not_Panic and_then_Ok_iff split: option.split Slot.split res.split)
    then obtain q where q: "resource_lend x ?t = (q, ?t)" "\<forall>rep b. q = Ok (rep, b) \<longrightarrow> \<not> b" "q \<noteq> Panic" by blast
    have "on_table (Ok r) (resource_lend x) s = (q, s)" using q(1) put_table_same [OF assms(2)] by (simp add: on_table_def)
    then show ?thesis using q(2,3) again failed by (cases q) auto
  qed
qed

lemma on_remove:
  assumes "tables_ok s" "valid_ref r s"
  obtains (own) y rep s' where "on_table (Ok r) (remove_resource x) s = (Ok (RemovedOwn rep), s')"
      "all_slots s (r, raw_index x) = Some (ResourceOwn y 0)" "tables_ok s'"
      "all_slots s' = (all_slots s)((r, raw_index x) := None)" "shape s' = shape s" "rt_scopes s' = rt_scopes s"
  | (borrow) y scope s' where "on_table (Ok r) (remove_resource x) s = (Ok (RemovedBorrow scope), s')"
      "all_slots s (r, raw_index x) = Some (ResourceBorrow y scope)" "tables_ok s'"
      "all_slots s' = (all_slots s)((r, raw_index x) := None)" "shape s' = shape s" "rt_scopes s' = rt_scopes s"
  | (failed) e where "on_table (Ok r) (remove_resource x) s = (Err e, s)"
proof -
  let ?t = "get_table r s" and ?h = "raw_index x"
  let ?f = "\<lambda>slot. case slot of
         ResourceOwn resource lend_count \<Rightarrow>
           if lend_count \<noteq> 0 then Err (Message ''cannot remove owned resource while borrowed'')
           else and_then (TypedResource_rep resource x) (\<lambda>rep. Ok (RemovedOwn rep))
       | ResourceBorrow resource scope \<Rightarrow> and_then (TypedResource_rep resource x) (\<lambda>_. Ok (RemovedBorrow scope))
       | _ \<Rightarrow> Err (IndexIsNot (raw_index x) ''a resource'')"
  have t: "ht_ok ?t" using assms by (simp add: tables_ok_def)
  show ?thesis
  proof (cases "read_slot ?f ?h ?t")
    case (Ok q)
    then obtain slot where slot: "handles ?t ?h = Some slot" "?f slot = Ok q" by (auto simp: read_slot_eq split: option.splits)
    then obtain t' where t': "remove_resource x ?t = (Ok q, t')" "ht_ok t'" "handles t' = (handles ?t)(?h := None)"
      using remove_slot_removes [where f = ?f, OF t slot] by (auto simp: remove_resource_def)
    note p = put_table_ok [OF assms t'(2,3)]
    have "(\<exists>y rep. slot = ResourceOwn y 0 \<and> q = RemovedOwn rep) \<or> (\<exists>y scope. slot = ResourceBorrow y scope \<and> q = RemovedBorrow scope)"
      using slot(2) by (auto simp: and_then_Ok_iff split: Slot.splits if_splits)
    then show ?thesis using own [OF _ _ p] borrow [OF _ _ p] t'(1) slot(1) assms(2) by (auto simp: on_table_def all_slots_valid)
  next
    case (Err e)
    then show ?thesis using failed put_table_same [OF assms(2)] remove_slot_rejects [OF Err]
      by (simp add: on_table_def remove_resource_def)
  next
    case Panic
    then show ?thesis by (auto simp: read_slot_eq and_then_Panic_iff split: option.splits Slot.splits if_splits)
  qed
qed

lemma on_undo:
  assumes "tables_ok s" "valid_ref r s" "all_slots s (r, raw_index x) = Some (ResourceOwn y c)"
  obtains s' where "on_table (Ok r) (resource_undo_lend x) s = (Ok (), s')" "tables_ok s'"
    "all_slots s' = (all_slots s)((r, raw_index x) \<mapsto> ResourceOwn y (c - 1))" "shape s' = shape s" "rt_scopes s' = rt_scopes s"
proof -
  have "handles (get_table r s) (raw_index x) = Some (ResourceOwn y c)" using assms(2,3) by (simp add: all_slots_valid)
  then show ?thesis using that [OF _ on_set [OF assms, of "ResourceOwn y (c - 1)"]]
    by (simp add: on_table_def resource_undo_lend_def ht_get_mut_cases)
qed

section \<open>The operations keep the accounts\<close>

text \<open>The slot that a lender points at is a resource that is lent.\<close>

lemma lender_lent:
  assumes "rt_inv xs s" "x \<in># xs + all_lenders s"
  obtains r y c where "table_for_index x s = Ok r" "valid_ref r s" "all_slots s (r, raw_index x) = Some (ResourceOwn y c)" "0 < unat c"
    "count (image_mset (place s) (xs + all_lenders s)) (Some (r, raw_index x)) \<le> unat c"
proof -
  have "place s x \<noteq> None" using assms by (auto simp: rt_inv_def)
  then obtain r where r: "table_for_index x s = Ok r" "place s x = Some (r, raw_index x)" by (auto simp: place_def split: res.splits)
  then have v: "valid_ref r s" by (cases rule: table_for_index_cases [of x s]) auto
  have "Some (r, raw_index x) \<in># image_mset (place s) (xs + all_lenders s)" using assms(2) r(2) by (metis image_eqI set_image_mset)
  then have "0 < count (image_mset (place s) (xs + all_lenders s)) (Some (r, raw_index x))" by simp
  moreover have le: "count (image_mset (place s) (xs + all_lenders s)) (Some (r, raw_index x)) \<le> lends (all_slots s (r, raw_index x))"
    using assms(1) by (simp only: rt_inv_def)
  ultimately have "0 < lends (all_slots s (r, raw_index x))" by linarith
  then obtain y c where "all_slots s (r, raw_index x) = Some (ResourceOwn y c)" "0 < unat c" by (cases "all_slots s (r, raw_index x)" rule: lends.cases) auto
  then show ?thesis using that r(1) v le by simp
qed

lemma rt_inv_undo:
  assumes "rt_inv (add_mset x xs) s"
  obtains s' where "on_table (table_for_index x s) (resource_undo_lend x) s = (Ok (), s')" "rt_inv xs s'"
    "shape s' = shape s" "rt_scopes s' = rt_scopes s" "\<forall>k. borrows k (all_slots s') = borrows k (all_slots s)"
    "\<forall>q. lends (all_slots s' q) + count (image_mset (place s) {#x#}) (Some q) = lends (all_slots s q)"
proof -
  obtain r y c where x: "table_for_index x s = Ok r" "valid_ref r s" "all_slots s (r, raw_index x) = Some (ResourceOwn y c)" "0 < unat c"
    by (rule lender_lent [OF assms, of x]) simp_all
  have t: "tables_ok s" using assms by (simp add: rt_inv_def)
  obtain s' where s': "on_table (Ok r) (resource_undo_lend x) s = (Ok (), s')" "tables_ok s'"
    "all_slots s' = (all_slots s)((r, raw_index x) \<mapsto> ResourceOwn y (c - 1))" "shape s' = shape s" "rt_scopes s' = rt_scopes s"
    using on_undo [OF t x(2,3)] .
  have l: "all_lenders s' = all_lenders s" using s'(5) by (simp add: all_lenders_def)
  have b: "borrows k (all_slots s') = borrows k (all_slots s)" for k using x(3) by (auto simp: s'(3) borrows_def)
  have c: "unat (c - 1) = unat c - 1" using x(4) by (intro unat_pred) (auto simp: unat_eq_0)
  have p: "place s x = Some (r, raw_index x)" using x(1) by (simp add: place_def)
  have "count (image_mset (place s) (add_mset x xs + all_lenders s)) (Some q) \<le> lends (all_slots s q)" for q
    using assms by (simp only: rt_inv_def)
  then have "count (image_mset (place s) (xs + all_lenders s)) (Some q) \<le> lends (all_slots s' q)" for q
    using spec [of "\<lambda>q. count (image_mset (place s) (add_mset x xs + all_lenders s)) (Some q) \<le> lends (all_slots s q)" q] p x(3) c
    by (cases "q = (r, raw_index x)") (auto simp: s'(3))
  then have inv: "rt_inv xs s'" using assms s'(2) b
    unfolding rt_inv_def l place_shape [OF s'(4)] allowed_def s'(5) by simp
  have ln: "lends (all_slots s' q) + count (image_mset (place s) {#x#}) (Some q) = lends (all_slots s q)" for q
    using p x(3,4) c by (cases "q = (r, raw_index x)") (auto simp: s'(3))
  have "on_table (table_for_index x s) (resource_undo_lend x) s = (Ok (), s')" using s'(1) by (simp only: x(1))
  then show ?thesis using b ln by (intro that [OF _ inv s'(4,5)] allI)
qed

lemma undo_lends_ok: "rt_inv (mset xs + ys) s \<Longrightarrow> \<exists>s'. undo_lends xs s = (Ok (), s') \<and> rt_inv ys s' \<and> shape s' = shape s \<and> rt_scopes s' = rt_scopes s \<and>
    (\<forall>k. borrows k (all_slots s') = borrows k (all_slots s)) \<and>
    (\<forall>q. lends (all_slots s' q) + count (image_mset (place s) (mset xs)) (Some q) = lends (all_slots s q))"
proof (induction xs arbitrary: s)
  case (Cons x xs)
  then have i: "rt_inv (add_mset x (mset xs + ys)) s" by simp
  obtain s1 where s1: "on_table (table_for_index x s) (resource_undo_lend x) s = (Ok (), s1)" "rt_inv (mset xs + ys) s1"
    "shape s1 = shape s" "rt_scopes s1 = rt_scopes s" "\<forall>k. borrows k (all_slots s1) = borrows k (all_slots s)"
    "\<forall>q. lends (all_slots s1 q) + count (image_mset (place s) {#x#}) (Some q) = lends (all_slots s q)"
    using rt_inv_undo [OF i] .
  obtain s' where s': "undo_lends xs s1 = (Ok (), s')" "rt_inv ys s'" "shape s' = shape s1" "rt_scopes s' = rt_scopes s1"
    "\<forall>k. borrows k (all_slots s') = borrows k (all_slots s1)"
    "\<forall>q. lends (all_slots s' q) + count (image_mset (place s) (mset xs)) (Some q) = lends (all_slots s1 q)"
    using Cons.IH [OF s1(2)] place_shape [OF s1(3)] by auto
  have "lends (all_slots s' q) + count (image_mset (place s) (mset (x # xs))) (Some q) = lends (all_slots s q)" for q
    using spec [OF s1(6), of q] spec [OF s'(6), of q] by (cases "place s x = Some q") simp_all
  then show ?case using s1 s' by simp
qed simp

lemma rt_inv_borrowed:
  assumes "rt_inv xs s" "shape s' = shape s" "rt_scopes s' = rt_scopes s" "tables_ok s'"
    and "all_slots s' = (all_slots s)(p \<mapsto> ResourceBorrow y scope)" "all_slots s p = None"
    and "card (borrows (unat scope) (all_slots s)) < allowed (unat scope) s"
  shows "rt_inv xs s'"
proof -
  have l: "all_lenders s' = all_lenders s" using assms(3) by (simp add: all_lenders_def)
  have "card (borrows k (all_slots s')) \<le> allowed k s" for k
  proof (cases "k = unat scope")
    case True
    then show ?thesis using assms(7) card_insert_le_m1 [of "allowed k s" "borrows k (all_slots s)" p] by (simp add: assms(5) borrows_upd)
  next
    case False
    moreover have "p \<notin> borrows k (all_slots s)" using assms(6) by (simp add: borrows_def)
    ultimately have "borrows k (all_slots s') = borrows k (all_slots s)" by (simp add: assms(5) borrows_upd)
    then show ?thesis using assms(1) by (simp add: rt_inv_def)
  qed
  moreover have "count (image_mset (place s) (xs + all_lenders s)) (Some q) \<le> lends (all_slots s' q)" for q
  proof -
    have "count (image_mset (place s) (xs + all_lenders s)) (Some q) \<le> lends (all_slots s q)" using assms(1) by (simp only: rt_inv_def)
    then show ?thesis using assms(6) by (cases "q = p") (simp_all add: assms(5))
  qed
  ultimately show ?thesis using assms(1,4) unfolding rt_inv_def l place_shape [OF assms(2)] allowed_def assms(3) by simp
qed

lemma rt_inv_lent:
  assumes "rt_inv xs s" "shape s' = shape s" "rt_scopes s' = rt_scopes s" "tables_ok s'" "place s x = Some p"
    and "all_slots s p = Some (ResourceOwn y c)" "all_slots s' = (all_slots s)(p \<mapsto> ResourceOwn y (c + 1))" "unat (c + 1) = unat c + 1"
  shows "rt_inv (add_mset x xs) s'"
proof -
  have i: "rt_inv xs s'" by (rule rt_inv_slot [OF assms(1-4,7)]) (use assms(6,8) in auto)
  have l: "all_lenders s' = all_lenders s" using assms(3) by (simp add: all_lenders_def)
  have "count (image_mset (place s) (xs + all_lenders s)) (Some q) \<le> lends (all_slots s q)" for q using assms(1) by (simp only: rt_inv_def)
  then have "count (image_mset (place s) (add_mset x xs + all_lenders s)) (Some q) \<le> lends (all_slots s' q)" for q
    using spec [of "\<lambda>q. count (image_mset (place s) (xs + all_lenders s)) (Some q) \<le> lends (all_slots s q)" q] assms(5,6,8)
    by (cases "q = p") (auto simp: assms(7))
  then show ?thesis using i assms(5) unfolding rt_inv_def l place_shape [OF assms(2)] by auto
qed

text \<open>A count that cannot go up, the only reason for an operation to panic.\<close>

definition saturated :: "ResourceTables \<Rightarrow> bool" where
  "saturated s \<longleftrightarrow> (\<exists>p y. all_slots s p = Some (ResourceOwn y 0xFFFFFFFF)) \<or> (\<exists>cx \<in> set (rt_scopes s). borrow_count cx = 0xFFFFFFFF)"

definition rt_fine :: "ResourceTables \<Rightarrow> ('a, handle_error) res \<times> ResourceTables \<Rightarrow> bool" where
  "rt_fine s = (\<lambda>(x, s'). rt_inv {#} s' \<and> shape s' = shape s \<and> (x = Panic \<longrightarrow> s' = s \<and> saturated s))"

lemma rt_fine_discard: "rt_fine s p \<Longrightarrow> rt_fine s (discard p)"
  by (cases p; cases "fst p") (simp_all add: rt_fine_def discard_def)

lemma resource_new_fine:
  assumes "rt_inv {#} s" "table_for_resource x s \<noteq> Panic"
  shows "rt_fine s (resource_new host x s)" "rt_fine s (resource_lower_own host x s)"
proof -
  obtain r where r: "table_for_resource x s = Ok r" "valid_ref r s" using assms(2) by (cases rule: table_for_resource_cases [of x s]) simp_all
  have t: "tables_ok s" using assms(1) by (simp add: rt_inv_def)
  have n: "\<not> is_free (ResourceOwn x 0)" by simp
  show "rt_fine s (resource_new host x s)"
    using t r(2) n
  proof (cases rule: on_insert [where host = host])
    case (inserted h s')
    then have "rt_inv {#} s'" by (intro rt_inv_slot [OF assms(1) inserted(5,6,3,4)]) simp_all
    then show ?thesis using inserted by (simp add: resource_new_def r(1) resource_own_insert_def rt_fine_def)
  qed (use assms(1) in \<open>simp add: resource_new_def r(1) resource_own_insert_def rt_fine_def\<close>)
  then show "rt_fine s (resource_lower_own host x s)" by (simp add: resource_lower_own_def resource_new_def)
qed

text \<open>A borrow handle that is gone, and the count of its scope one less.\<close>

lemma rt_inv_released:
  assumes "rt_inv {#} s" "all_slots s p = Some (ResourceBorrow y scope)" "tables_ok s'" "all_slots s' = (all_slots s)(p := None)"
    and "shape s' = shape s" "rt_scopes s' = rt_scopes s"
  defines "cx \<equiv> rt_scopes s' ! unat scope"
  shows "rt_inv {#} s'" "unat scope < length (rt_scopes s')" "rt_inv {#} (set_context scope (cx\<lparr>borrow_count := borrow_count cx - 1\<rparr>) s')"
proof -
  let ?k = "unat scope" and ?cx = "cx\<lparr>borrow_count := borrow_count cx - 1\<rparr>"
  show i: "rt_inv {#} s'" by (rule rt_inv_slot [OF assms(1,5,6,3,4)]) (use assms(2) in simp_all)
  have p: "p \<in> borrows ?k (all_slots s)" using assms(2) by (simp add: borrows_def)
  then have b: "borrows ?k (all_slots s') = borrows ?k (all_slots s) - {p}" "0 < card (borrows ?k (all_slots s))"
    using borrows_finite [of ?k s] by (auto simp: assms(4) borrows_upd card_gt_0_iff)
  have a: "card (borrows ?k (all_slots s)) \<le> allowed ?k s" using assms(1) by (simp add: rt_inv_def)
  then show k: "?k < length (rt_scopes s')" using b(2) by (auto simp: allowed_def assms(6) split: if_splits)
  then have c: "allowed ?k s = unat (borrow_count cx)" by (simp add: allowed_def cx_def assms(6))
  have m: "unat (borrow_count cx - 1) = unat (borrow_count cx) - 1" using a b(2) c by (intro unat_pred) (auto simp: unat_eq_0)
  show "rt_inv {#} (set_context scope ?cx s')"
  proof (rule rt_inv_context [OF i])
    show "{#} + all_lenders (set_context scope ?cx s') = {#} + all_lenders s'"
      using all_lenders_set_context [OF k, of ?cx] by (simp add: cx_def)
    show "card (borrows j (all_slots s')) \<le> allowed j (set_context scope ?cx s')" for j
      using a b m p c i borrows_finite [of ?k s]
      by (cases "j = ?k") (simp_all add: allowed_set_context [OF k] card_Diff_singleton rt_inv_def)
  qed
qed

lemma resource_drop_fine:
  assumes "rt_inv {#} s" "table_for_index x s \<noteq> Panic"
  shows "rt_fine s (resource_drop x s)" "rt_fine s (resource_lift_own x s)"
proof -
  obtain r where r: "table_for_index x s = Ok r" "valid_ref r s" using assms(2) by (cases rule: table_for_index_cases [of x s]) simp_all
  have t: "tables_ok s" using assms(1) by (simp add: rt_inv_def)
  have "rt_fine s (resource_drop x s) \<and> rt_fine s (resource_lift_own x s)"
    using t r(2)
  proof (cases rule: on_remove [where x = x])
    case (own y rep s')
    then have "rt_inv {#} s'" by (intro rt_inv_slot [OF assms(1) own(5,6,3,4)]) simp_all
    then show ?thesis using own by (simp add: resource_drop_def resource_lift_own_def r(1) rt_fine_def then_do_def)
  next
    case (borrow y scope s')
    then show ?thesis using rt_inv_released [OF assms(1) borrow(2-6)]
      by (simp add: resource_drop_def resource_lift_own_def r(1) rt_fine_def then_do_def call_context_def)
  qed (use assms(1) in \<open>simp add: resource_drop_def resource_lift_own_def r(1) rt_fine_def then_do_def\<close>)
  then show "rt_fine s (resource_drop x s)" "rt_fine s (resource_lift_own x s)" by simp_all
qed

lemma allowed_here: "unat k < length (rt_scopes s) \<Longrightarrow> allowed (unat k) s = unat (borrow_count (rt_scopes s ! unat k))"
  by (simp add: allowed_def)

lemma resource_lift_borrow_fine:
  assumes "rt_inv {#} s" "table_for_index x s \<noteq> Panic"
  shows "rt_fine s (resource_lift_borrow x s)"
proof -
  obtain r where r: "table_for_index x s = Ok r" "valid_ref r s" using assms(2) by (cases rule: table_for_index_cases [of x s]) simp_all
  have t: "tables_ok s" using assms(1) by (simp add: rt_inv_def)
  have p: "place s x = Some (r, raw_index x)" using r(1) by (simp add: place_def)
  show ?thesis
    using t r(2)
  proof (cases rule: on_lend [where x = x])
    case (lent y c rep s')
    have i: "rt_inv {#x#} s'" using rt_inv_lent [OF assms(1) lent(6,7,4) p lent(2,5,3)] by simp
    have i0: "rt_inv {#} s'" by (rule rt_inv_slot [OF assms(1) lent(6,7,4,5)]) (use lent(2,3) in simp_all)
    show ?thesis
    proof (cases rule: current_cases [of s'])
      case (scope k)
      let ?cx = "(rt_scopes s' ! unat k)\<lparr>lenders := lenders (rt_scopes s' ! unat k) @ [x]\<rparr>"
      have k: "unat k < length (rt_scopes s')" using scope(2) by simp
      have "rt_inv {#} (set_context k ?cx s')"
      proof (rule rt_inv_context [OF i])
        show "{#} + all_lenders (set_context k ?cx s') = {#x#} + all_lenders s'" using all_lenders_set_context [OF k, of ?cx] by simp
        show "card (borrows j (all_slots s')) \<le> allowed j (set_context k ?cx s')" for j
          using i by (auto simp: allowed_set_context [OF k] rt_inv_def allowed_here [OF k, symmetric])
      qed
      then show ?thesis using lent scope by (simp add: resource_lift_borrow_def r(1) rt_fine_def then_do_def)
    next
      case (none e)
      then show ?thesis using i0 lent by (simp add: resource_lift_borrow_def r(1) rt_fine_def then_do_def)
    qed
  next
    case (overflow y)
    then show ?thesis using assms(1) by (auto simp: resource_lift_borrow_def r(1) rt_fine_def then_do_def saturated_def)
  qed (use assms(1) in \<open>simp_all add: resource_lift_borrow_def r(1) rt_fine_def then_do_def\<close>)
qed

lemma resource_lower_borrow_fine:
  assumes "rt_inv {#} s" "table_for_resource x s \<noteq> Panic"
  shows "rt_fine s (resource_lower_borrow host x s)"
proof (cases rule: current_cases [of s])
  case (scope k)
  let ?c = "borrow_count (rt_scopes s ! unat k)"
  have k: "unat k < length (rt_scopes s)" using scope(2) by simp
  show ?thesis
  proof (cases "checked_add ?c 1")
    case None
    then have "saturated s" using lend_overflow [OF None] k by (auto simp: saturated_def)
    then show ?thesis using assms(1) scope None by (simp add: resource_lower_borrow_def rt_fine_def then_do_def unwrap_def)
  next
    case (Some n)
    then have n: "unat n = unat ?c + 1" by (auto simp: checked_add_unat unat_word_ariths split: if_splits)
    let ?cx = "(rt_scopes s ! unat k)\<lparr>borrow_count := n\<rparr>"
    let ?s = "set_context k ?cx s"
    have le: "card (borrows j (all_slots s)) \<le> allowed j s" for j using assms(1) by (simp add: rt_inv_def)
    have kk: "card (borrows (unat k) (all_slots s)) < allowed (unat k) ?s" using le [of "unat k"] n by (simp add: allowed_set_context [OF k] allowed_here [OF k])
    have i: "rt_inv {#} ?s"
    proof (rule rt_inv_context [OF assms(1)])
      show "{#} + all_lenders ?s = {#} + all_lenders s" using all_lenders_set_context [OF k, of ?cx] by simp
      show "card (borrows j (all_slots s)) \<le> allowed j ?s" for j using le [of j] kk by (cases "j = unat k") (simp_all add: allowed_set_context [OF k])
    qed
    obtain r where r: "table_for_resource x ?s = Ok r" "valid_ref r ?s"
      using assms(2) table_for_resource_shape [of ?s s x] by (cases rule: table_for_resource_cases [of x ?s]) simp_all
    have t: "tables_ok ?s" "\<not> is_free (ResourceBorrow x k)" using i by (simp_all add: rt_inv_def)
    show ?thesis
      using t(1) r(2) t(2)
    proof (cases rule: on_insert [where host = host])
      case (inserted h s')
      have "rt_inv {#} s'" by (rule rt_inv_borrowed [OF i inserted(5,6,3,4,2)]) (use kk in simp)
      then show ?thesis using inserted scope Some
        by (simp add: resource_lower_borrow_def resource_borrow_insert_def r(1) rt_fine_def then_do_def unwrap_def)
    qed (use i scope Some in \<open>simp add: resource_lower_borrow_def resource_borrow_insert_def r(1) rt_fine_def then_do_def unwrap_def\<close>)
  qed
qed (use assms(1) in \<open>simp add: resource_lower_borrow_def rt_fine_def then_do_def\<close>)

lemma enter_call_fine:
  assumes "rt_inv {#} s"
  shows "rt_fine s (enter_call_not_concurrent mem s)"
proof -
  let ?s = "s\<lparr>rt_scopes := rt_scopes s @ [CallContext_default]\<rparr>"
  have [simp]: "shape ?s = shape s" "all_slots ?s = all_slots s" "tables_ok ?s = tables_ok s" "all_lenders ?s = all_lenders s"
    by (auto simp: shape_def all_slots_def valid_ref_def get_table_def tables_ok_def all_lenders_def CallContext_default_def fun_eq_iff split: table_ref.split)
  have "allowed k ?s = allowed k s" for k by (auto simp: allowed_def nth_append CallContext_default_def)
  then have "rt_inv {#} ?s" using assms by (simp add: rt_inv_def place_shape [of ?s s])
  then show ?thesis using assms by (simp add: enter_call_not_concurrent_def rt_fine_def)
qed

text \<open>Leaving a scope: it is refused while handles borrow in the scope, and undoes the lends of the scope, without a panic.\<close>

lemma validate_scope_exit_cases:
  assumes "rt_inv {#} s"
  obtains (left) k :: u32 and s' where "validate_scope_exit s = (Ok (), s')" "rt_inv {#} s'" "shape s' = shape s"
      "length (rt_scopes s) = Suc (unat k)" "rt_scopes s' = (rt_scopes s)[unat k := CallContext_default]"
      "\<forall>j. borrows j (all_slots s') = borrows j (all_slots s)" "borrows (unat k) (all_slots s) = {}"
      "\<forall>q. lends (all_slots s' q) + count (image_mset (place s) (mset (lenders (rt_scopes s ! unat k)))) (Some q) = lends (all_slots s q)"
  | (refused) e where "validate_scope_exit s = (Err e, s)"
proof (cases rule: current_cases [of s])
  case (scope k)
  let ?cx = "rt_scopes s ! unat k"
  show ?thesis
  proof (cases "borrow_count ?cx > 0")
    case True
    then show ?thesis using scope by (intro refused) (simp add: validate_scope_exit_def then_do_def)
  next
    case False
    let ?s = "set_context k (?cx\<lparr>lenders := []\<rparr>) s"
    have k: "unat k < length (rt_scopes s)" and z: "borrow_count ?cx = 0" using scope(2) False by (simp_all add: word_gt_0)
    have le: "card (borrows j (all_slots s)) \<le> allowed j s" for j using assms by (simp add: rt_inv_def)
    have "rt_inv (mset (lenders ?cx)) ?s"
    proof (rule rt_inv_context [OF assms])
      show "mset (lenders ?cx) + all_lenders ?s = {#} + all_lenders s"
        using all_lenders_set_context [OF k, of "?cx\<lparr>lenders := []\<rparr>"] by (simp add: add.commute)
      show "card (borrows j (all_slots s)) \<le> allowed j ?s" for j
        using le [of j] by (cases "j = unat k") (simp_all add: allowed_set_context [OF k] allowed_here [OF k])
    qed
    then obtain s' where s': "undo_lends (lenders ?cx) ?s = (Ok (), s')" "rt_inv {#} s'" "shape s' = shape ?s" "rt_scopes s' = rt_scopes ?s"
      "\<forall>j. borrows j (all_slots s') = borrows j (all_slots ?s)"
      "\<forall>q. lends (all_slots s' q) + count (image_mset (place s) (mset (lenders ?cx))) (Some q) = lends (all_slots s q)"
      using undo_lends_ok [of "lenders ?cx" "{#}" ?s] place_shape [of ?s s] by auto
    have "?cx\<lparr>lenders := []\<rparr> = CallContext_default" using z by (cases ?cx) (simp add: CallContext_default_def)
    then have "rt_scopes s' = (rt_scopes s)[unat k := CallContext_default]" using s'(4) by (simp add: set_context_def)
    moreover have "borrows (unat k) (all_slots s) = {}" using le [of "unat k"] z borrows_finite by (simp add: allowed_here [OF k])
    moreover have "validate_scope_exit s = (Ok (), s')" using scope False s'(1) by (simp add: validate_scope_exit_def then_do_def)
    ultimately show ?thesis using left [OF _ s'(2) _ scope(2)] s'(3,5,6) by simp
  qed
next
  case (none e)
  then show ?thesis by (intro refused) (simp add: validate_scope_exit_def then_do_def)
qed

lemma exit_fine:
  assumes "rt_inv {#} s"
  shows "rt_fine s (validate_scope_exit s)" "rt_fine s (exit_sync_call s)"
proof -
  have "rt_fine s (validate_scope_exit s) \<and> rt_fine s (exit_sync_call s)"
    using assms
  proof (cases rule: validate_scope_exit_cases [where s = s])
    case (left k s')
    let ?s = "s'\<lparr>rt_scopes := butlast (rt_scopes s')\<rparr>"
    have [simp]: "shape ?s = shape s'" "all_slots ?s = all_slots s'" "tables_ok ?s = tables_ok s'"
      by (auto simp: shape_def all_slots_def valid_ref_def get_table_def tables_ok_def fun_eq_iff split: table_ref.split)
    obtain zs where sc: "rt_scopes s' = zs @ [CallContext_default]"
      using left(4,5) by (metis Zero_not_Suc append_butlast_last_id diff_Suc_1 last_list_update length_list_update list.size(3))
    then have l: "all_lenders ?s = all_lenders s'" by (simp add: all_lenders_def CallContext_default_def)
    have "allowed j ?s = allowed j s'" for j using sc by (auto simp: allowed_def nth_append CallContext_default_def)
    then have "rt_inv {#} ?s" using left(2) l by (simp add: rt_inv_def place_shape [of ?s s'])
    then show ?thesis using left(1-3) by (simp add: exit_sync_call_def exit_call_not_concurrent_def rt_fine_def then_do_def)
  qed (use assms in \<open>simp add: exit_sync_call_def rt_fine_def then_do_def\<close>)
  then show "rt_fine s (validate_scope_exit s)" "rt_fine s (exit_sync_call s)" by simp_all
qed

text \<open>A scope is also left without being validated, after the destructor of a resource, the start function of a module and a
  \<open>post-return\<close> function: what it has lent then stays lent. The model makes that call on scopes that count
  no borrow, as the scope of such a function does, which takes no resource as an argument.\<close>

definition borrowing :: "ResourceTables \<Rightarrow> bool" where
  "borrowing s \<longleftrightarrow> rt_scopes s \<noteq> [] \<and> borrow_count (last (rt_scopes s)) \<noteq> 0"

lemma pop_fine:
  assumes "rt_inv {#} s" "\<not> borrowing s"
  shows "rt_fine s (Ok (), exit_call_not_concurrent s)"
proof -
  let ?s = "exit_call_not_concurrent s"
  have [simp]: "shape ?s = shape s" "all_slots ?s = all_slots s" "tables_ok ?s = tables_ok s"
    by (auto simp: exit_call_not_concurrent_def shape_def all_slots_def valid_ref_def get_table_def tables_ok_def fun_eq_iff split: table_ref.split)
  have sub: "all_lenders ?s \<subseteq># all_lenders s"
    by (cases "rt_scopes s" rule: rev_cases) (simp_all add: all_lenders_def exit_call_not_concurrent_def)
  have al: "allowed k ?s = allowed k s" for k
    using assms(2) by (cases "rt_scopes s" rule: rev_cases)
      (auto simp: exit_call_not_concurrent_def allowed_def borrowing_def nth_append)
  have c: "count (image_mset (place s) (all_lenders ?s)) x \<le> count (image_mset (place s) (all_lenders s)) x" for x
    using image_mset_subseteq_mono [OF sub] by (rule mset_subset_eq_count)
  have "count (image_mset (place s) (all_lenders s)) (Some p) \<le> lends (all_slots s p)" for p
    using assms(1) by (cases p) (simp add: rt_inv_def)
  then have "count (image_mset (place s) (all_lenders ?s)) (Some p) \<le> lends (all_slots s p)" for p
    using c order_trans by blast
  then show ?thesis
    using assms(1) mset_subset_eqD [OF sub] al by (simp add: rt_fine_def rt_inv_def place_shape [of ?s s])
qed

section \<open>The states a store goes through\<close>

inductive rt_call :: "(nat \<Rightarrow> bool) \<Rightarrow> (nat \<Rightarrow> bool) \<Rightarrow> ResourceTables \<Rightarrow> unit rt_result \<Rightarrow> bool" for host mem s where
  call_new: "table_for_resource x s \<noteq> Panic \<Longrightarrow> rt_call host mem s (discard (resource_new host x s))"
| call_drop: "table_for_index i s \<noteq> Panic \<Longrightarrow> rt_call host mem s (discard (resource_drop i s))"
| call_lower_own: "table_for_resource x s \<noteq> Panic \<Longrightarrow> rt_call host mem s (discard (resource_lower_own host x s))"
| call_lift_own: "table_for_index i s \<noteq> Panic \<Longrightarrow> rt_call host mem s (discard (resource_lift_own i s))"
| call_lower_borrow: "table_for_resource x s \<noteq> Panic \<Longrightarrow> rt_call host mem s (discard (resource_lower_borrow host x s))"
| call_lift_borrow: "table_for_index i s \<noteq> Panic \<Longrightarrow> rt_call host mem s (discard (resource_lift_borrow i s))"
| call_enter: "rt_call host mem s (enter_call_not_concurrent mem s)"
| call_validate: "rt_call host mem s (validate_scope_exit s)"
| call_exit: "rt_call host mem s (exit_sync_call s)"
| call_pop: "\<not> borrowing s \<Longrightarrow> rt_call host mem s (Ok (), exit_call_not_concurrent s)"

text \<open>The tables of a component of \<open>n\<close> instances before any call.\<close>

definition rt_start :: "nat \<Rightarrow> TypeResourceTable list \<Rightarrow> ResourceTables" where
  "rt_start n types = \<lparr>rt_guest = Some (replicate n HandleTable_default, types), rt_host_table = HandleTable_default, rt_scopes = []\<rparr>"

inductive rt_reach :: "(nat \<Rightarrow> bool) \<Rightarrow> (nat \<Rightarrow> bool) \<Rightarrow> ResourceTables \<Rightarrow> bool" for host mem where
  rt_begin: "rt_reach host mem (rt_start n types)"
| rt_next: "rt_reach host mem s \<Longrightarrow> rt_call host mem s (x, s') \<Longrightarrow> x \<noteq> Panic \<Longrightarrow> rt_reach host mem s'"

lemma rt_call_fine:
  assumes "rt_call host mem s p" "rt_inv {#} s"
  shows "rt_fine s p"
  using assms(1)
  by cases (simp_all add: rt_fine_discard resource_new_fine resource_drop_fine resource_lower_borrow_fine resource_lift_borrow_fine
    enter_call_fine exit_fine pop_fine assms(2))

lemma rt_start_inv: "rt_inv {#} (rt_start n types)"
proof -
  have "get_table r (rt_start n types) = HandleTable_default" if "valid_ref r (rt_start n types)" for r
    using that by (cases r) (simp_all add: get_table_def rt_start_def valid_ref_def)
  then have "tables_ok (rt_start n types)" "all_slots (rt_start n types) = Map.empty"
    by (auto simp: tables_ok_def all_slots_def ht_ok_default fun_eq_iff)
  moreover have "all_lenders (rt_start n types) = {#}" by (simp add: all_lenders_def rt_start_def)
  ultimately show ?thesis by (simp add: rt_inv_def borrows_def)
qed

lemma rt_reach_inv: "rt_reach host mem s \<Longrightarrow> rt_inv {#} s"
proof (induction rule: rt_reach.induct)
  case (rt_next s x s')
  then show ?case using rt_call_fine [of host mem s "(x, s')"] by (simp add: rt_fine_def)
qed (rule rt_start_inv)

text \<open>C6: Whatever calls a store makes on the tables of a component, in any order and whether they succeed or not, the accounts
  of lends and borrows are safe: a call panics only if a count stands at its maximum; every resource that the scopes
  record as lent is an own handle whose lend count is at least the number of those records; and every scope counts at
  least the handles that borrow in it. So no count ever wraps below zero.\<close>

theorem resource_accounts:
  assumes "rt_reach host mem s" "rt_call host mem s (x, s')"
  shows "(x = Panic \<longrightarrow> s' = s \<and> saturated s) \<and>
    (\<forall>p. count (image_mset (place s') (all_lenders s')) (Some p) \<le> lends (all_slots s' p)) \<and>
    (\<forall>k. card (borrows k (all_slots s')) \<le> allowed k s')"
  using rt_call_fine [OF assms(2) rt_reach_inv [OF assms(1)]] by (simp add: rt_fine_def rt_inv_def)

text \<open>C18: A resource that is lent in some scope cannot be dropped or given away: both calls are refused and change nothing.\<close>

theorem lent_resource_stays:
  assumes "rt_reach host mem s" "x \<in># all_lenders s"
  shows "resource_drop x s = (Err (Message ''cannot remove owned resource while borrowed''), s) \<and>
    resource_lift_own x s = (Err (Message ''cannot remove owned resource while borrowed''), s)"
proof -
  have "x \<in># {#} + all_lenders s" using assms(2) by simp
  then obtain r y c where x: "table_for_index x s = Ok r" "valid_ref r s" "all_slots s (r, raw_index x) = Some (ResourceOwn y c)" "0 < unat c"
    by (rule lender_lent [OF rt_reach_inv [OF assms(1)]])
  then have "c \<noteq> 0" "handles (get_table r s) (raw_index x) = Some (ResourceOwn y c)" by (auto simp: all_slots_valid)
  then have "remove_resource x (get_table r s) = (Err (Message ''cannot remove owned resource while borrowed''), get_table r s)"
    unfolding remove_resource_def by (intro remove_slot_rejects) (simp add: read_slot_eq)
  then show ?thesis using x(1,2) by (simp add: resource_drop_def resource_lift_own_def then_do_def on_table_def put_table_same)
qed

text \<open>C9: Leaving a scope never panics. When it succeeds the scope is gone, every resource is lent less often by exactly the number
  of times the scope had lent it, and no handle is left that borrows in the scope: the scopes of all borrow handles are
  still open. When it is refused nothing has changed.\<close>

theorem exit_sync_call_settles:
  assumes "rt_reach host mem s"
  shows "case exit_sync_call s of
      (Ok _, s') \<Rightarrow> rt_scopes s \<noteq> [] \<and> rt_scopes s' = butlast (rt_scopes s) \<and>
        (\<forall>p. lends (all_slots s' p) + count (image_mset (place s) (mset (lenders (last (rt_scopes s))))) (Some p) = lends (all_slots s p)) \<and>
        (\<forall>p y k. all_slots s' p = Some (ResourceBorrow y k) \<longrightarrow> unat k < length (rt_scopes s'))
    | (Err _, s') \<Rightarrow> s' = s
    | (Panic, _) \<Rightarrow> False"
  using rt_reach_inv [OF assms]
proof (cases rule: validate_scope_exit_cases [where s = s])
  case (left k s')
  let ?s = "exit_call_not_concurrent s'"
  have e: "exit_sync_call s = (Ok (), ?s)" using left(1) by (simp add: exit_sync_call_def then_do_def)
  have ne: "rt_scopes s \<noteq> []" using left(4) by auto
  have sc: "rt_scopes ?s = butlast (rt_scopes s)" using left(4,5) by (simp add: exit_call_not_concurrent_def butlast_list_update)
  have sl: "all_slots ?s = all_slots s'"
    by (auto simp: all_slots_def valid_ref_def get_table_def exit_call_not_concurrent_def fun_eq_iff split: table_ref.split)
  have last: "last (rt_scopes s) = rt_scopes s ! unat k" using left(4) ne by (simp add: last_conv_nth)
  have "rt_inv {#} ?s" using exit_fine(2) [OF rt_reach_inv [OF assms]] by (simp add: e rt_fine_def)
  then have le: "card (borrows j (all_slots ?s)) \<le> allowed j ?s" for j by (simp add: rt_inv_def)
  have "unat j < length (rt_scopes ?s)" if "all_slots ?s p = Some (ResourceBorrow y j)" for p y j
  proof -
    have "p \<in> borrows (unat j) (all_slots ?s)" using that by (simp add: borrows_def)
    then have "0 < card (borrows (unat j) (all_slots ?s))" using borrows_finite [of "unat j" ?s] by (auto simp: card_gt_0_iff)
    then show ?thesis using le [of "unat j"] by (auto simp: allowed_def split: if_splits)
  qed
  then show ?thesis using ne sc left(8) last by (simp add: e) (simp add: sl)
qed (simp add: exit_sync_call_def then_do_def)

text \<open>C21: A borrow that cannot be lowered because its table is full or memory has run out is counted all the same: no handle is
  made, and from then on the scope cannot be left, because its count of borrows stays above zero.\<close>

theorem failed_lower_borrow_blocks_exit:
  assumes "rt_reach host mem s" "rt_scopes s \<noteq> []" "length (rt_scopes s) \<le> 2 ^ 32"
    and "resource_lower_borrow host x s = (Err e, s')"
  shows "all_slots s' = all_slots s \<and> validate_scope_exit s' = (Err (Message ''borrow handles still remain at the end of the call''), s')"
proof -
  have inv: "rt_inv {#} s" using rt_reach_inv [OF assms(1)] .
  have "current_call_context_scope_id s = Ok (of_int (int (length (rt_scopes s)) - 1))"
    using assms(2,3) by (simp add: current_call_context_scope_id_def Let_def Suc_le_eq int_one_le_iff_zero_less nat_le_iff)
  then obtain k where scope: "current_call_context_scope_id s = Ok k" "length (rt_scopes s) = Suc (unat k)" "call_context k s = Ok (rt_scopes s ! unat k)"
    by (cases rule: current_cases [of s]) auto
  let ?c = "borrow_count (rt_scopes s ! unat k)"
  obtain n where n: "checked_add ?c 1 = Some n" using assms(4) scope by (auto simp: resource_lower_borrow_def then_do_def unwrap_def split: option.splits)
  then have pos: "0 < n" by (auto simp: checked_add_unat word_less_nat_alt unat_word_ariths split: if_splits)
  let ?s = "set_context k ((rt_scopes s ! unat k)\<lparr>borrow_count := n\<rparr>) s"
  have on: "on_table (table_for_resource x ?s) (resource_borrow_insert host x k) ?s = (Err e, s')"
    using assms(4) scope n by (simp add: resource_lower_borrow_def then_do_def unwrap_def Let_def)
  then obtain r where r: "table_for_resource x ?s = Ok r" "valid_ref r ?s" by (cases rule: table_for_resource_cases [of x ?s]) (auto simp: on_table_def)
  have t: "tables_ok ?s" "\<not> is_free (ResourceBorrow x k)" using inv by (simp_all add: rt_inv_def)
  have "s' = ?s" using t(1) r(2) t(2)
    by (cases rule: on_insert [where host = host]) (use on in \<open>simp_all add: r(1) resource_borrow_insert_def\<close>)
  moreover have "current_call_context_scope_id ?s = Ok k" "call_context k ?s = Ok ((rt_scopes s ! unat k)\<lparr>borrow_count := n\<rparr>)"
    using scope by (simp_all add: current_call_context_scope_id_def set_context_def call_context_def)
  ultimately show ?thesis using pos by (simp add: validate_scope_exit_def then_do_def)
qed

text \<open>A component with one instance and one resource type, with room for one handle, in a call that has lent its resource.\<close>

definition rt_demo :: ResourceTables where
  "rt_demo = snd (resource_lift_borrow (ComponentIndex 1 0) (snd (resource_new (\<lambda>n. n < 2) (ComponentResource 7 0)
     (snd (enter_call_not_concurrent (\<lambda>_. True) (rt_start 1 [Concrete 0 0]))))))"

lemma rt_demo_eq: "rt_demo = \<lparr>rt_guest = Some ([\<lparr>ht_next = 1, ht_slots = [ResourceOwn (ComponentResource 7 0) 1]\<rparr>], [Concrete 0 0]),
    rt_host_table = HandleTable_default, rt_scopes = [\<lparr>lenders = [ComponentIndex 1 0], borrow_count = 0\<rparr>]\<rparr>"
  by code_simp

lemma rt_reach_snd: "rt_reach host mem s \<Longrightarrow> rt_call host mem s p \<Longrightarrow> fst p \<noteq> Panic \<Longrightarrow> rt_reach host mem (snd p)"
  by (cases p) (auto intro: rt_next)

lemma snd_discard [simp]: "snd (discard p) = snd p"
  by (simp add: discard_def split: prod.split)

lemma fst_discard_Panic [simp]: "fst (discard p) = Panic \<longleftrightarrow> fst p = Panic"
  by (cases p; cases "fst p") (simp_all add: discard_def)

lemma rt_demo_reach: "rt_reach (\<lambda>n. n < 2) (\<lambda>_. True) rt_demo"
proof -
  let ?s0 = "rt_start 1 [Concrete 0 0]"
  let ?s1 = "snd (enter_call_not_concurrent (\<lambda>_. True) ?s0)"
  let ?s2 = "snd (resource_new (\<lambda>n. n < 2) (ComponentResource 7 0) ?s1)"
  have "fst (enter_call_not_concurrent (\<lambda>_. True) ?s0) \<noteq> Panic" by code_simp
  then have s1: "rt_reach (\<lambda>n. n < 2) (\<lambda>_. True) ?s1" by (rule rt_reach_snd [OF rt_begin call_enter])
  have "table_for_resource (ComponentResource 7 0) ?s1 \<noteq> Panic" "fst (resource_new (\<lambda>n. n < 2) (ComponentResource 7 0) ?s1) \<noteq> Panic" by code_simp+
  then have s2: "rt_reach (\<lambda>n. n < 2) (\<lambda>_. True) ?s2" using rt_reach_snd [OF s1 call_new] by simp
  have "table_for_index (ComponentIndex 1 0) ?s2 \<noteq> Panic" "fst (resource_lift_borrow (ComponentIndex 1 0) ?s2) \<noteq> Panic" by code_simp+
  then show ?thesis using rt_reach_snd [OF s2 call_lift_borrow] by (simp add: rt_demo_def)
qed

theorem resource_accounts_witness:
  "\<forall>k. card (borrows k (all_slots (snd (discard (resource_drop (ComponentIndex 1 0) rt_demo))))) \<le>
    allowed k (snd (discard (resource_drop (ComponentIndex 1 0) rt_demo)))"
proof -
  have "table_for_index (ComponentIndex 1 0) rt_demo \<noteq> Panic" by code_simp
  then have "rt_call (\<lambda>n. n < 2) (\<lambda>_. True) rt_demo
      (fst (discard (resource_drop (ComponentIndex 1 0) rt_demo)), snd (discard (resource_drop (ComponentIndex 1 0) rt_demo)))"
    unfolding prod.collapse by (rule call_drop)
  then show ?thesis using resource_accounts [OF rt_demo_reach] by blast
qed

theorem lent_resource_stays_witness:
  "fst (resource_drop (ComponentIndex 1 0) rt_demo) = Err (Message ''cannot remove owned resource while borrowed'')"
proof -
  have "ComponentIndex 1 0 \<in># all_lenders rt_demo" by (simp add: rt_demo_eq all_lenders_def)
  then show ?thesis using lent_resource_stays [OF rt_demo_reach] by simp
qed

theorem exit_sync_call_settles_witness:
  "fst (exit_sync_call rt_demo) = Ok () \<and> rt_scopes (snd (exit_sync_call rt_demo)) = butlast (rt_scopes rt_demo)"
proof -
  have e: "exit_sync_call rt_demo = (Ok (), snd (exit_sync_call rt_demo))" by code_simp
  then show ?thesis using exit_sync_call_settles [OF rt_demo_reach] by (cases "exit_sync_call rt_demo") simp
qed

theorem failed_lower_borrow_blocks_exit_witness:
  "fst (validate_scope_exit (snd (resource_lower_borrow (\<lambda>n. n < 2) (ComponentResource 7 0) rt_demo))) =
     Err (Message ''borrow handles still remain at the end of the call'')"
proof -
  let ?p = "resource_lower_borrow (\<lambda>n. n < 2) (ComponentResource 7 0) rt_demo"
  have "?p = (Err OutOfMemory, snd ?p)" by code_simp
  moreover have "rt_scopes rt_demo \<noteq> []" "length (rt_scopes rt_demo) \<le> 2 ^ 32" by (simp_all add: rt_demo_eq)
  ultimately show ?thesis using failed_lower_borrow_blocks_exit [OF rt_demo_reach] by simp
qed

end
