(* ===== verification/Host_Tables.thy ===== *)
theory Host_Tables
  imports Component_Resources
begin

unbundle bit_operations_syntax

text \<open>
  The resources the embedder of a store holds, \<open>HostResourceTables\<close> of
  \<open>crates/wasmtime/src/runtime/component/resources/host_tables.rs\<close>. The embedder gets an index that pairs a handle of the host's
  table with a generation, and beside the table stands a list with the generation of every slot, so that an index that
  outlives its handle is recognised. The allocations of that list are the parameter \<open>grow\<close>. Component instances and
  destructors only pass through and are numbers. The methods for guests are the operations of \<open>ResourceTables\<close> on
  component resources.
\<close>

section \<open>Indices with generations\<close>

type_synonym HostResourceIndex = u64

definition HostResourceIndex_new :: "u32 \<Rightarrow> u32 \<Rightarrow> HostResourceIndex" where
  "HostResourceIndex_new idx generation = ucast idx OR push_bit 32 (ucast generation)"

definition hri_index :: "HostResourceIndex \<Rightarrow> u32" where
  "hri_index x = ucast (x AND 0xffffffff)"

definition hri_generation :: "HostResourceIndex \<Rightarrow> u32" where
  "hri_generation x = ucast (drop_bit 32 x)"

record TableSlot =
  ts_generation :: u32
  ts_instance :: "nat option"
  ts_dtor :: "nat option"

record HostResourceData =
  cur_generation :: u32
  table_slot_metadata :: "TableSlot list"

record HostResourceTables =
  hr_tables :: ResourceTables
  hr_data :: HostResourceData

type_synonym 'a hr_result = "('a, handle_error) res \<times> HostResourceTables"

definition on_tables :: "(ResourceTables \<Rightarrow> 'a rt_result) \<Rightarrow> HostResourceTables \<Rightarrow> 'a hr_result" where
  "on_tables f s = (case f (hr_tables s) of (x, t) \<Rightarrow> (x, s\<lparr>hr_tables := t\<rparr>))"

definition validate_host_index :: "HostResourceIndex \<Rightarrow> bool \<Rightarrow> HostResourceTables \<Rightarrow> (u32 \<times> TableSlot option) hr_result" where
  "validate_host_index idx is_removal s =
     (let data = hr_data s;
          i = unat (hri_index idx);
          actual = (if i < length (table_slot_metadata data) then Some (table_slot_metadata data ! i) else None)
      in if (case actual of Some slot \<Rightarrow> ts_generation slot \<noteq> hri_generation idx | None \<Rightarrow> False)
         then (Err (Message ''host-owned resource was already de-allocated''), s)
         else (Ok (hri_index idx, actual),
               if is_removal then s\<lparr>hr_data := data\<lparr>cur_generation := cur_generation data + 1\<rparr>\<rparr> else s))"

definition set_metadata :: "TableSlot list \<Rightarrow> HostResourceTables \<Rightarrow> HostResourceTables" where
  "set_metadata xs s = s\<lparr>hr_data := (hr_data s)\<lparr>table_slot_metadata := xs\<rparr>\<rparr>"

definition new_host_index :: "(nat \<Rightarrow> bool) \<Rightarrow> u32 \<Rightarrow> nat option \<Rightarrow> nat option \<Rightarrow> HostResourceTables \<Rightarrow> HostResourceIndex hr_result" where
  "new_host_index grow idx dtor instance s =
     (let list = table_slot_metadata (hr_data s);
          info = \<lparr>ts_generation = cur_generation (hr_data s), ts_instance = instance, ts_dtor = dtor\<rparr>;
          index = HostResourceIndex_new idx (ts_generation info)
      in if unat idx < length list then (Ok index, set_metadata (list[unat idx := info]) s)
         else
           then_do
             (if list = [] then
                if idx \<noteq> 1 then (Panic, s)
                else if grow 1 then (Ok (), set_metadata [\<lparr>ts_generation = 0, ts_instance = None, ts_dtor = None\<rparr>] s)
                else (Err OutOfMemory, s)
              else (Ok (), s))
             (\<lambda>_ s.
               let list = table_slot_metadata (hr_data s) in
               if unat idx \<noteq> length list then (Panic, s)
               else if grow (length list + 1) then (Ok index, set_metadata (list @ [info]) s)
               else (Err OutOfMemory, s)))"

section \<open>The operations\<close>

definition host_resource_lift_own :: "HostResourceIndex \<Rightarrow> HostResourceTables \<Rightarrow> u32 hr_result" where
  "host_resource_lift_own idx s =
     then_do (validate_host_index idx True s) (\<lambda>(i, _). on_tables (resource_lift_own (HostIndex i)))"

definition host_resource_lift_borrow :: "HostResourceIndex \<Rightarrow> HostResourceTables \<Rightarrow> u32 hr_result" where
  "host_resource_lift_borrow idx s =
     then_do (validate_host_index idx False s) (\<lambda>(i, _). on_tables (resource_lift_borrow (HostIndex i)))"

definition host_resource_lower_own ::
    "(nat \<Rightarrow> bool) \<Rightarrow> (nat \<Rightarrow> bool) \<Rightarrow> u32 \<Rightarrow> nat option \<Rightarrow> nat option \<Rightarrow> HostResourceTables \<Rightarrow> HostResourceIndex hr_result" where
  "host_resource_lower_own host grow rep dtor instance s =
     then_do (on_tables (resource_lower_own host (HostResource rep)) s) (\<lambda>idx. new_host_index grow idx dtor instance)"

definition host_resource_lower_borrow :: "(nat \<Rightarrow> bool) \<Rightarrow> (nat \<Rightarrow> bool) \<Rightarrow> u32 \<Rightarrow> HostResourceTables \<Rightarrow> HostResourceIndex hr_result" where
  "host_resource_lower_borrow host grow rep s =
     then_do (on_tables (resource_lower_borrow host (HostResource rep)) s) (\<lambda>idx. new_host_index grow idx None None)"

definition host_resource_drop :: "HostResourceIndex \<Rightarrow> HostResourceTables \<Rightarrow> (u32 \<times> TableSlot) option hr_result" where
  "host_resource_drop idx s =
     then_do (validate_host_index idx True s) (\<lambda>(i, slot) s.
       then_do (on_tables (resource_drop (HostIndex i)) s) (\<lambda>dropped s.
         case dropped of
           Some rep \<Rightarrow> (case slot of Some slot \<Rightarrow> (Ok (Some (rep, slot)), s) | None \<Rightarrow> (Panic, s))
         | None \<Rightarrow> (Ok None, s)))"

definition guest_resource_lower_own :: "(nat \<Rightarrow> bool) \<Rightarrow> u32 \<Rightarrow> nat \<Rightarrow> HostResourceTables \<Rightarrow> u32 hr_result" where
  "guest_resource_lower_own host rep ty = on_tables (resource_lower_own host (ComponentResource rep ty))"

definition guest_resource_lower_borrow :: "(nat \<Rightarrow> bool) \<Rightarrow> u32 \<Rightarrow> nat \<Rightarrow> HostResourceTables \<Rightarrow> u32 hr_result" where
  "guest_resource_lower_borrow host rep ty = on_tables (resource_lower_borrow host (ComponentResource rep ty))"

definition guest_resource_lift_own :: "u32 \<Rightarrow> nat \<Rightarrow> HostResourceTables \<Rightarrow> u32 hr_result" where
  "guest_resource_lift_own index ty = on_tables (resource_lift_own (ComponentIndex index ty))"

definition guest_resource_lift_borrow :: "u32 \<Rightarrow> nat \<Rightarrow> HostResourceTables \<Rightarrow> u32 hr_result" where
  "guest_resource_lift_borrow index ty = on_tables (resource_lift_borrow (ComponentIndex index ty))"

definition host_validate_scope_exit :: "HostResourceTables \<Rightarrow> unit hr_result" where
  "host_validate_scope_exit = on_tables validate_scope_exit"

section \<open>What the calls leave of the host's table\<close>

lemma index_new [simp]: "hri_index (HostResourceIndex_new a g) = a" "hri_generation (HostResourceIndex_new a g) = g"
proof -
  have m: "(0xffffffff :: u64) = mask 32" by (simp add: mask_eq_exp_minus_1)
  show "hri_index (HostResourceIndex_new a g) = a" unfolding hri_index_def HostResourceIndex_new_def m
    by (rule bit_eqI) (auto simp: bit_simps)
  show "hri_generation (HostResourceIndex_new a g) = g" unfolding hri_generation_def HostResourceIndex_new_def
    by (rule bit_eqI) (auto simp: bit_simps dest: bit_imp_le_length)
qed

text \<open>A call on a handle table that gives out no handle and does not grow the table.\<close>

definition ht_keeps :: "(HandleTable \<Rightarrow> 'a ht_result) \<Rightarrow> bool" where
  "ht_keeps f \<longleftrightarrow> (\<forall>t. ht_ok t \<longrightarrow> ht_ok (snd (f t)) \<and> dom (handles (snd (f t))) \<subseteq> dom (handles t) \<and>
     length (ht_slots (snd (f t))) = length (ht_slots t))"

lemma length_set_slot [simp]: "length (ht_slots (set_slot h slot t)) = length (ht_slots t)"
  by (simp add: set_slot_def split: option.split)

lemma dom_set_slot:
  assumes "ht_ok t" "handles t h = Some old" "\<not> is_free slot"
  shows "ht_ok (set_slot h slot t)" "dom (handles (set_slot h slot t)) = dom (handles t)"
  using set_slot_ok [OF assms] assms(2) by auto

lemma keeps_undo: "ht_keeps (resource_undo_lend x)"
  using dom_set_slot by (auto simp: ht_keeps_def resource_undo_lend_def ht_get_mut_cases split: option.split Slot.split)

lemma keeps_lend: "ht_keeps (resource_lend x)"
  using dom_set_slot by (auto simp: ht_keeps_def resource_lend_def ht_get_mut_cases split: option.split Slot.split res.split)

lemma keeps_remove: "ht_keeps (remove_resource x)"
  unfolding ht_keeps_def
proof (intro allI impI)
  fix t
  assume t: "ht_ok t"
  have "length (ht_slots (snd (remove_slot f h t))) = length (ht_slots t)" for f :: "Slot \<Rightarrow> (RemovedResource, handle_error) res" and h
    by (auto simp: remove_slot_def ht_remove_def split: res.split)
  moreover have "ht_ok (snd (remove_slot f h t)) \<and> dom (handles (snd (remove_slot f h t))) \<subseteq> dom (handles t)"
    for f :: "Slot \<Rightarrow> (RemovedResource, handle_error) res" and h
  proof (cases "read_slot f h t")
    case (Ok r)
    then obtain slot where "handles t h = Some slot" "f slot = Ok r" by (auto simp: read_slot_eq split: option.splits)
    then obtain t' where "remove_slot f h t = (Ok r, t')" "ht_ok t'" "handles t' = (handles t)(h := None)"
      using remove_slot_removes [where f = f, OF t] by blast
    then show ?thesis by auto
  qed (use t in \<open>simp_all add: remove_slot_def\<close>)
  ultimately show "ht_ok (snd (remove_resource x t)) \<and> dom (handles (snd (remove_resource x t))) \<subseteq> dom (handles t) \<and>
      length (ht_slots (snd (remove_resource x t))) = length (ht_slots t)"
    unfolding remove_resource_def by blast
qed

text \<open>The same for a call on all the tables, as far as the table of the host is concerned.\<close>

definition rt_keeps :: "ResourceTables \<Rightarrow> ResourceTables \<Rightarrow> bool" where
  "rt_keeps s s' \<longleftrightarrow> tables_ok s' \<and> dom (handles (rt_host_table s')) \<subseteq> dom (handles (rt_host_table s)) \<and>
     length (ht_slots (rt_host_table s')) = length (ht_slots (rt_host_table s))"

lemma rt_keeps_refl: "tables_ok s \<Longrightarrow> rt_keeps s s"
  by (simp add: rt_keeps_def)

lemma rt_keeps_trans: "rt_keeps s s' \<Longrightarrow> rt_keeps s' s'' \<Longrightarrow> rt_keeps s s''"
  unfolding rt_keeps_def by (elim conjE, intro conjI) (assumption | simp | rule order_trans)+

lemma rt_keeps_context: "rt_keeps s (set_context k cx s') = rt_keeps s s'" "rt_keeps (set_context k cx s) s' = rt_keeps s s'"
  by (simp_all add: rt_keeps_def) (simp_all add: set_context_def)

lemma host_table_put: "rt_host_table (put_table r t s) = (if r = HostTable then t else rt_host_table s)"
  by (simp add: put_table_def split: table_ref.split)

lemma on_table_keeps:
  assumes "ht_keeps f" "tables_ok s" "\<And>r. ref = Ok r \<Longrightarrow> valid_ref r s"
  shows "rt_keeps s (snd (on_table ref f s))"
proof (cases ref)
  case (Ok r)
  let ?t = "snd (f (get_table r s))"
  have v: "valid_ref r s" using assms(3) Ok .
  then have k: "ht_ok ?t" "dom (handles ?t) \<subseteq> dom (handles (get_table r s))" "length (ht_slots ?t) = length (ht_slots (get_table r s))"
    using assms(1,2) by (simp_all add: ht_keeps_def tables_ok_def)
  have "tables_ok (put_table r ?t s)" using assms(2) k(1) by (simp add: tables_ok_def get_table_put [OF v])
  then have "rt_keeps s (put_table r ?t s)" using k(2,3) by (cases r) (simp_all add: rt_keeps_def host_table_put get_table_def)
  then show ?thesis using Ok by (simp add: on_table_def split: prod.split) (metis snd_conv)
qed (use assms(2) in \<open>simp_all add: on_table_def rt_keeps_refl\<close>)

lemma table_for_index_valid: "table_for_index x s = Ok r \<Longrightarrow> valid_ref r s"
  by (cases rule: table_for_index_cases [of x s]) simp_all

lemma on_index_keeps: "ht_keeps f \<Longrightarrow> tables_ok s \<Longrightarrow> rt_keeps s (snd (on_table (table_for_index x s) f s))"
  by (rule on_table_keeps) (auto intro: table_for_index_valid)

lemma then_do_keeps:
  assumes "rt_keeps s (snd p)" "\<And>x s'. p = (Ok x, s') \<Longrightarrow> rt_keeps s' (snd (f x s'))"
  shows "rt_keeps s (snd (then_do p f))"
  using assms by (cases p; cases "fst p") (auto simp: then_do_def intro: rt_keeps_trans)

lemma keeps_tables_ok: "rt_keeps s s' \<Longrightarrow> tables_ok s'"
  by (simp add: rt_keeps_def)

lemma removals_keep:
  assumes "tables_ok s"
  shows "rt_keeps s (snd (resource_drop x s))" "rt_keeps s (snd (resource_lift_own x s))"
proof -
  have k: "rt_keeps s (snd (on_table (table_for_index x s) (remove_resource x) s))" by (rule on_index_keeps [OF keeps_remove assms])
  then have t: "on_table (table_for_index x s) (remove_resource x) s = (q, s') \<Longrightarrow> tables_ok s'" for q s' by (auto dest: keeps_tables_ok)
  show "rt_keeps s (snd (resource_drop x s))" unfolding resource_drop_def
    by (rule then_do_keeps [OF k]) (auto simp: then_do_def call_context_def rt_keeps_context rt_keeps_refl t split: RemovedResource.split)
  show "rt_keeps s (snd (resource_lift_own x s))" unfolding resource_lift_own_def
    by (rule then_do_keeps [OF k]) (auto simp: rt_keeps_refl t split: RemovedResource.split)
qed

lemma lift_borrow_keeps:
  assumes "tables_ok s"
  shows "rt_keeps s (snd (resource_lift_borrow x s))"
proof -
  have k: "rt_keeps s (snd (on_table (table_for_index x s) (resource_lend x) s))" by (rule on_index_keeps [OF keeps_lend assms])
  then have t: "on_table (table_for_index x s) (resource_lend x) s = (q, s') \<Longrightarrow> tables_ok s'" for q s' by (auto dest: keeps_tables_ok)
  show ?thesis unfolding resource_lift_borrow_def
    by (rule then_do_keeps [OF k]) (auto simp: then_do_def call_context_def rt_keeps_context rt_keeps_refl t split: res.split)
qed

lemma undo_lends_keeps: "tables_ok s \<Longrightarrow> rt_keeps s (snd (undo_lends xs s))"
proof (induction xs arbitrary: s)
  case (Cons x xs)
  have k: "rt_keeps s (snd (on_table (table_for_index x s) (resource_undo_lend x) s))" by (rule on_index_keeps [OF keeps_undo Cons.prems])
  obtain q s' where q: "on_table (table_for_index x s) (resource_undo_lend x) s = (q, s')" by fastforce
  then show ?case using k Cons.IH [of s'] keeps_tables_ok [of s s'] rt_keeps_trans by (cases q) auto
qed (simp add: rt_keeps_refl)

lemma scopes_keep:
  assumes "tables_ok s"
  shows "rt_keeps s (snd (enter_call_not_concurrent mem s))" "rt_keeps s (snd (validate_scope_exit s))" "rt_keeps s (snd (exit_sync_call s))"
    "rt_keeps s (exit_call_not_concurrent s)"
proof -
  have *: "rt_keeps s (s'\<lparr>rt_scopes := xs\<rparr>) = rt_keeps s s'" for s' xs
    by (simp add: rt_keeps_def tables_ok_def valid_ref_def get_table_def cong: table_ref.case_cong)
  show "rt_keeps s (snd (enter_call_not_concurrent mem s))" using assms by (simp add: enter_call_not_concurrent_def * rt_keeps_refl)
  show v: "rt_keeps s (snd (validate_scope_exit s))"
    using assms undo_lends_keeps [of "set_context k cx s" for k cx]
    by (auto simp: validate_scope_exit_def then_do_def call_context_def rt_keeps_context rt_keeps_refl split: res.split)
  show "rt_keeps s (exit_call_not_concurrent s)" using assms by (simp add: exit_call_not_concurrent_def * rt_keeps_refl)
  show "rt_keeps s (snd (exit_sync_call s))" using v
    by (auto simp: exit_sync_call_def then_do_def exit_call_not_concurrent_def * split: prod.split res.split)
qed

text \<open>Giving out a handle \<open>h\<close> of the host's table.\<close>

definition rt_gives :: "u32 \<Rightarrow> ResourceTables \<Rightarrow> ResourceTables \<Rightarrow> bool" where
  "rt_gives h s s' \<longleftrightarrow> tables_ok s' \<and> handles (rt_host_table s) h = None \<and>
     dom (handles (rt_host_table s')) = insert h (dom (handles (rt_host_table s))) \<and>
     0 < unat h \<and> unat h \<le> Suc (length (ht_slots (rt_host_table s))) \<and>
     length (ht_slots (rt_host_table s')) = max (length (ht_slots (rt_host_table s))) (unat h)"

lemma ht_next_le: "ht_ok t \<Longrightarrow> unat (ht_next t) \<le> length (ht_slots t)"
  using ht.take_first [of "length (ht_slots t)" "ht_slots t" "unat (ht_next t)" "ErrorContext 0"]
  by (cases "unat (ht_next t) = length (ht_slots t)") (auto simp: ht_ok_def ht_head_def ht_link_def)

lemma rt_gives_context: "rt_gives h s (set_context k cx s') = rt_gives h s s'" "rt_gives h (set_context k cx s) s' = rt_gives h s s'"
  by (simp_all add: rt_gives_def) (simp_all add: set_context_def)

lemma on_host_insert:
  assumes "tables_ok s" "\<not> is_free slot" "on_table (Ok HostTable) (ht_insert host slot) s = (x, s')"
  shows "case x of Ok h \<Rightarrow> rt_gives h s s' | Err e \<Rightarrow> s' = s | Panic \<Rightarrow> False"
proof -
  let ?t = "rt_host_table s"
  have v: "valid_ref HostTable s" by (simp add: valid_ref_def)
  have t: "ht_ok ?t" using assms(1) v by (auto simp: tables_ok_def get_table_def)
  show ?thesis
    using t assms(2)
  proof (cases rule: ht_insert_ok [where host = host])
    case (inserted h t')
    then have r: "x = Ok h" "s' = put_table HostTable t' s" using assms(3) by (simp_all add: on_table_def get_table_def)
    have n: "h = ht_next ?t + 1" "length (ht_slots t') = max (length (ht_slots ?t)) (Suc (unat (ht_next ?t)))"
      using ht_insert_length [OF inserted(1)] by simp_all
    have "unat (ht_next ?t) \<le> length (ht_slots ?t)" "length (ht_slots ?t) < 2 ^ 28" using ht_next_le [OF t] t by (simp_all add: ht_ok_def)
    then have "unat h = Suc (unat (ht_next ?t))" "unat (ht_next ?t) \<le> length (ht_slots ?t)" by (simp_all add: n(1) unat_word_ariths)
    then show ?thesis using inserted(2-4) n(2) assms(1)
      by (auto simp: r rt_gives_def host_table_put tables_ok_def get_table_put [OF v])
  qed (use assms(3) put_table_same [OF v] in \<open>auto simp: on_table_def get_table_def\<close>)
qed

lemma host_lower_own:
  assumes "tables_ok s" "resource_lower_own host (HostResource rep) s = (x, s')"
  shows "case x of Ok h \<Rightarrow> rt_gives h s s' | _ \<Rightarrow> rt_keeps s s'"
  using on_host_insert [OF assms(1), of "ResourceOwn (HostResource rep) 0" host x s'] assms
  by (simp add: resource_lower_own_def table_for_resource_def resource_own_insert_def rt_keeps_refl split: res.splits)

lemma host_lower_borrow:
  assumes "tables_ok s" "resource_lower_borrow host (HostResource rep) s = (x, s')"
  shows "case x of Ok h \<Rightarrow> rt_gives h s s' | _ \<Rightarrow> rt_keeps s s'"
proof (cases rule: current_cases [of s])
  case (scope k)
  let ?cx = "rt_scopes s ! unat k"
  show ?thesis
  proof (cases "checked_add (borrow_count ?cx) 1")
    case None
    then show ?thesis using assms scope by (auto simp: resource_lower_borrow_def then_do_def unwrap_def rt_keeps_refl)
  next
    case (Some n)
    let ?s = "set_context k (?cx\<lparr>borrow_count := n\<rparr>) s"
    have "on_table (Ok HostTable) (ht_insert host (ResourceBorrow (HostResource rep) k)) ?s = (x, s')"
      using assms(2) scope Some by (simp add: resource_lower_borrow_def then_do_def unwrap_def table_for_resource_def resource_borrow_insert_def)
    then show ?thesis using on_host_insert [of ?s "ResourceBorrow (HostResource rep) k" host x s'] assms(1)
      by (auto simp: rt_gives_context rt_keeps_context rt_keeps_refl split: res.splits)
  qed
next
  case (none e)
  then have "x = Err e" "s' = s" using assms(2) by (simp_all add: resource_lower_borrow_def then_do_def)
  then show ?thesis using assms(1) by (simp add: rt_keeps_refl)
qed

text \<open>Calls on the tables of guests leave the host's table alone.\<close>

lemma guest_table_put: "guest_table ty s = Ok r \<Longrightarrow> rt_host_table (put_table r t s) = rt_host_table s"
  by (cases rule: guest_table_cases [of ty s]) (auto simp: host_table_put)

lemma host_table_on_guest: "rt_host_table (snd (on_table (guest_table ty s) f s)) = rt_host_table s"
  by (auto simp: on_table_def guest_table_put split: res.split prod.split)

lemma rt_keeps_host: "tables_ok s' \<Longrightarrow> rt_host_table s' = rt_host_table s \<Longrightarrow> rt_keeps s s'"
  by (simp add: rt_keeps_def)

lemma guest_lower_keeps:
  assumes "rt_inv {#} s" "guest_table ty s \<noteq> Panic"
  shows "rt_keeps s (snd (resource_new host (ComponentResource rep ty) s))" "rt_keeps s (snd (resource_lower_own host (ComponentResource rep ty) s))"
    "rt_keeps s (snd (resource_lower_borrow host (ComponentResource rep ty) s))"
proof -
  let ?r = "ComponentResource rep ty"
  have t: "table_for_resource ?r s \<noteq> Panic" using assms(2) by (simp add: table_for_resource_def)
  have ok: "rt_fine s p \<Longrightarrow> tables_ok (snd p)" for p :: "u32 rt_result" by (cases p) (simp add: rt_fine_def rt_inv_def)
  have h: "rt_host_table (snd (resource_new host ?r s)) = rt_host_table s" "rt_host_table (snd (resource_lower_own host ?r s)) = rt_host_table s"
    using host_table_on_guest by (simp_all add: resource_new_def resource_lower_own_def table_for_resource_def)
  have sc: "rt_host_table (set_context k cx s) = rt_host_table s" for k cx by (simp add: set_context_def)
  have b: "rt_host_table (snd (resource_lower_borrow host ?r s)) = rt_host_table s"
    by (auto simp: resource_lower_borrow_def then_do_def table_for_resource_def host_table_on_guest sc Let_def split: res.split)
  show "rt_keeps s (snd (resource_new host ?r s))" "rt_keeps s (snd (resource_lower_own host ?r s))" "rt_keeps s (snd (resource_lower_borrow host ?r s))"
    using rt_keeps_host [OF ok [OF resource_new_fine(1) [OF assms(1) t]] h(1)] rt_keeps_host [OF ok [OF resource_new_fine(2) [OF assms(1) t]] h(2)]
      rt_keeps_host [OF ok [OF resource_lower_borrow_fine [OF assms(1) t]] b] .
qed

section \<open>Stale indices\<close>

abbreviation metadata :: "HostResourceTables \<Rightarrow> TableSlot list" where
  "metadata s \<equiv> table_slot_metadata (hr_data s)"

abbreviation generation :: "HostResourceTables \<Rightarrow> u32" where
  "generation s \<equiv> cur_generation (hr_data s)"

abbreviation host_handles :: "HostResourceTables \<Rightarrow> u32 \<Rightarrow> Slot option" where
  "host_handles s \<equiv> handles (rt_host_table (hr_tables s))"

text \<open>No slot has a generation of the future. An index is stale if it was given out, a later generation has begun, and its handle is
  not in use or is of another generation.\<close>

definition hr_inv :: "HostResourceTables \<Rightarrow> bool" where
  "hr_inv s \<longleftrightarrow> rt_inv {#} (hr_tables s) \<and> (\<forall>slot \<in> set (metadata s). unat (ts_generation slot) \<le> unat (generation s))"

definition stale :: "HostResourceIndex \<Rightarrow> HostResourceTables \<Rightarrow> bool" where
  "stale i s \<longleftrightarrow> unat (hri_index i) < length (metadata s) \<and> unat (hri_generation i) < unat (generation s) \<and>
     (host_handles s (hri_index i) = None \<or> ts_generation (metadata s ! unat (hri_index i)) \<noteq> hri_generation i)"

text \<open>What a call does: it begins \<open>d\<close> generations, forgets no slot, and a stale index stays stale.\<close>

definition hr_moves :: "nat \<Rightarrow> HostResourceTables \<Rightarrow> HostResourceTables \<Rightarrow> bool" where
  "hr_moves d s s' \<longleftrightarrow> hr_inv s' \<and> unat (generation s') = unat (generation s) + d \<and> length (metadata s) \<le> length (metadata s') \<and>
     (\<forall>i. stale i s \<longrightarrow> stale i s')"

lemma hr_moves_refl: "hr_inv s \<Longrightarrow> hr_moves 0 s s"
  by (simp add: hr_moves_def)

lemma hr_moves_trans: "hr_moves d s s' \<Longrightarrow> hr_moves e s' s'' \<Longrightarrow> hr_moves (d + e) s s''"
  by (auto simp: hr_moves_def)

lemma hr_moves_inv: "hr_moves d s s' \<Longrightarrow> hr_inv s'"
  by (simp add: hr_moves_def)

lemma hr_inv_tables: "hr_inv s \<Longrightarrow> rt_inv {#} (hr_tables s)" "hr_inv s \<Longrightarrow> tables_ok (hr_tables s)"
  by (simp_all add: hr_inv_def rt_inv_def)

lemma hr_moves_tables:
  assumes "hr_inv s" "rt_fine (hr_tables s) p" "rt_keeps (hr_tables s) (snd p)"
  shows "hr_moves 0 s (s\<lparr>hr_tables := snd p\<rparr>)"
proof -
  have "rt_inv {#} (snd p)" using assms(2) by (cases p) (simp add: rt_fine_def)
  moreover have "handles (rt_host_table (snd p)) h = None" if "host_handles s h = None" for h
    using that assms(3) by (auto simp: rt_keeps_def dom_def)
  ultimately show ?thesis using assms(1) by (auto simp: hr_moves_def hr_inv_def stale_def)
qed

lemma on_tables_snd: "snd (on_tables f s) = s\<lparr>hr_tables := snd (f (hr_tables s))\<rparr>"
  by (simp add: on_tables_def split: prod.split)

lemma hr_moves_on_tables:
  "hr_inv s \<Longrightarrow> rt_fine (hr_tables s) (f (hr_tables s)) \<Longrightarrow> rt_keeps (hr_tables s) (snd (f (hr_tables s))) \<Longrightarrow> hr_moves 0 s (snd (on_tables f s))"
  unfolding on_tables_snd by (rule hr_moves_tables)

lemma validate_moves:
  assumes "hr_inv s" "unat (generation s) < 2 ^ 32 - 1"
  shows "\<exists>d \<le> 1. hr_moves d s (snd (validate_host_index i removal s))"
proof -
  have g: "unat (generation s + 1) = Suc (unat (generation s))" using assms(2) by (simp add: unat_word_ariths)
  let ?s = "s\<lparr>hr_data := (hr_data s)\<lparr>cur_generation := generation s + 1\<rparr>\<rparr>"
  have "hr_moves 1 s ?s" using assms(1) g by (auto simp: hr_moves_def hr_inv_def stale_def le_Suc_eq less_Suc_eq)
  then have *: "\<exists>d \<le> 1. hr_moves d s ?s" "\<exists>d \<le> 1. hr_moves d s s" using hr_moves_refl [OF assms(1)] by (metis order_refl, metis zero_le)
  have "snd (validate_host_index i removal s) = s \<or> snd (validate_host_index i removal s) = ?s"
    by (simp add: validate_host_index_def Let_def)
  then show ?thesis using * by metis
qed

lemma validate_ok:
  assumes "validate_host_index i removal s = (Ok (h, slot), s')"
  shows "h = hri_index i" "hr_tables s' = hr_tables s" "metadata s' = metadata s"
    "slot = (if unat h < length (metadata s) then Some (metadata s ! unat h) else None)"
    "unat h < length (metadata s) \<Longrightarrow> ts_generation (metadata s ! unat h) = hri_generation i"
    "generation s' = (if removal then generation s + 1 else generation s)"
  using assms by (auto simp: validate_host_index_def Let_def split: if_splits option.splits)

lemma stale_rejected:
  assumes "hr_inv s" "stale i s"
  shows "\<exists>e s'. host_resource_lift_own i s = (Err e, s')" "\<exists>e s'. host_resource_lift_borrow i s = (Err e, s')" "\<exists>e s'. host_resource_drop i s = (Err e, s')"
proof -
  let ?h = "hri_index i"
  have u: "\<exists>e s''. on_tables (resource_lift_own (HostIndex ?h)) s' = (Err e, s'')" "\<exists>e s''. on_tables (resource_lift_borrow (HostIndex ?h)) s' = (Err e, s'')"
      "\<exists>e s''. on_tables (resource_drop (HostIndex ?h)) s' = (Err e, s'')" if "host_handles s' ?h = None" for s'
    using that by (simp_all add: on_tables_def resource_lift_own_def resource_lift_borrow_def resource_drop_def table_for_index_def on_table_def
      get_table_def remove_resource_def remove_slot_def read_slot_eq raw_index_def resource_lend_def ht_get_mut_cases then_do_def)
  consider (old) "\<And>b. \<exists>e. validate_host_index i b s = (Err e, s)"
    | (free) "\<And>b. \<exists>slot s'. validate_host_index i b s = (Ok (?h, slot), s') \<and> host_handles s' ?h = None"
    using assms(2) by (cases "ts_generation (metadata s ! unat ?h) = hri_generation i") (simp_all add: stale_def validate_host_index_def Let_def)
  then have "(\<exists>e s'. host_resource_lift_own i s = (Err e, s')) \<and> (\<exists>e s'. host_resource_lift_borrow i s = (Err e, s')) \<and> (\<exists>e s'. host_resource_drop i s = (Err e, s'))"
  proof cases
    case old
    obtain d e where "validate_host_index i True s = (Err d, s)" "validate_host_index i False s = (Err e, s)" using old by blast
    then show ?thesis
      by (auto simp: host_resource_lift_own_def host_resource_lift_borrow_def host_resource_drop_def then_do_def)
  next
    case free
    obtain x s1 where 1: "validate_host_index i True s = (Ok (?h, x), s1)" "host_handles s1 ?h = None" using free [of True] by blast
    obtain y s2 where 2: "validate_host_index i False s = (Ok (?h, y), s2)" "host_handles s2 ?h = None" using free [of False] by blast
    show ?thesis using 1(1) u(1,3) [OF 1(2)] 2(1) u(2) [OF 2(2)]
      by (auto simp: host_resource_lift_own_def host_resource_lift_borrow_def host_resource_drop_def then_do_def)
  qed
  then show "\<exists>e s'. host_resource_lift_own i s = (Err e, s')" "\<exists>e s'. host_resource_lift_borrow i s = (Err e, s')" "\<exists>e s'. host_resource_drop i s = (Err e, s')"
    by blast+
qed

text \<open>A handle taken out of the table leaves a stale index behind.\<close>

lemma removed_unused:
  assumes "tables_ok s"
  shows "resource_drop (HostIndex h) s = (Ok x, s') \<Longrightarrow> handles (rt_host_table s') h = None"
    "resource_lift_own (HostIndex h) s = (Ok y, s') \<Longrightarrow> handles (rt_host_table s') h = None"
proof -
  have v: "valid_ref HostTable t" and sl: "all_slots t (HostTable, h) = handles (rt_host_table t) h" for t
    by (simp_all add: valid_ref_def all_slots_def get_table_def)
  have sc: "rt_host_table (set_context k cx t) = rt_host_table t" for k cx t by (simp add: set_context_def)
  have "(resource_drop (HostIndex h) s = (Ok x, s') \<longrightarrow> handles (rt_host_table s') h = None) \<and>
      (resource_lift_own (HostIndex h) s = (Ok y, s') \<longrightarrow> handles (rt_host_table s') h = None)"
    using assms v
  proof (cases rule: on_remove [where x = "HostIndex h"])
    case (own y rep t)
    then have "handles (rt_host_table t) h = None" using sl [of t] by (simp add: raw_index_def)
    then show ?thesis using own(1) by (auto simp: resource_drop_def resource_lift_own_def table_for_index_def then_do_def)
  next
    case (borrow y scope t)
    then have "handles (rt_host_table t) h = None" using sl [of t] by (simp add: raw_index_def)
    then show ?thesis using borrow(1)
      by (auto simp: resource_drop_def resource_lift_own_def table_for_index_def then_do_def call_context_def sc split: if_splits)
  qed (simp add: resource_drop_def resource_lift_own_def table_for_index_def then_do_def)
  then show "resource_drop (HostIndex h) s = (Ok x, s') \<Longrightarrow> handles (rt_host_table s') h = None"
    "resource_lift_own (HostIndex h) s = (Ok y, s') \<Longrightarrow> handles (rt_host_table s') h = None" by simp_all
qed

lemma stale_by_removal:
  assumes "hr_inv s" "unat (hri_index i) < length (metadata s)" "unat (generation s) < 2 ^ 32 - 1"
    and "validate_host_index i True s = (Ok (h, slot), s1)" "metadata s' = metadata s" "generation s' = generation s1" "host_handles s' (hri_index i) = None"
  shows "stale i s'"
proof -
  note v = validate_ok [OF assms(4)]
  have "ts_generation (metadata s ! unat (hri_index i)) = hri_generation i" using v(1,5) assms(2) by simp
  moreover have "unat (ts_generation (metadata s ! unat (hri_index i))) \<le> unat (generation s)" using assms(1,2) by (simp add: hr_inv_def)
  ultimately have "unat (hri_generation i) \<le> unat (generation s)" by simp
  moreover have "unat (generation s1) = Suc (unat (generation s))" using v(6) assms(3) by (simp add: unat_word_ariths)
  ultimately show ?thesis using assms(2,5-7) by (simp add: stale_def)
qed

lemma drop_makes_stale:
  assumes "hr_inv s" "unat (hri_index i) < length (metadata s)" "unat (generation s) < 2 ^ 32 - 1"
  shows "host_resource_drop i s = (Ok x, s') \<Longrightarrow> stale i s'" "host_resource_lift_own i s = (Ok y, s') \<Longrightarrow> stale i s'"
proof -
  assume "host_resource_drop i s = (Ok x, s')"
  then obtain h slot s1 d t where *: "validate_host_index i True s = (Ok (h, slot), s1)" "resource_drop (HostIndex h) (hr_tables s1) = (Ok d, t)" "s' = s1\<lparr>hr_tables := t\<rparr>"
    by (auto simp: host_resource_drop_def then_do_def on_tables_def split: prod.splits res.splits option.splits)
  note v = validate_ok [OF *(1)]
  have "handles (rt_host_table t) (hri_index i) = None" using removed_unused(1) [OF _ *(2)] hr_inv_tables [OF assms(1)] v(1,2) by simp
  then show "stale i s'" using stale_by_removal [OF assms *(1)] v(3) *(3) by simp
next
  assume "host_resource_lift_own i s = (Ok y, s')"
  then obtain h slot s1 t where *: "validate_host_index i True s = (Ok (h, slot), s1)" "resource_lift_own (HostIndex h) (hr_tables s1) = (Ok y, t)" "s' = s1\<lparr>hr_tables := t\<rparr>"
    by (auto simp: host_resource_lift_own_def then_do_def on_tables_def split: prod.splits res.splits)
  note v = validate_ok [OF *(1)]
  have "handles (rt_host_table t) (hri_index i) = None" using removed_unused(2) [OF _ *(2)] hr_inv_tables [OF assms(1)] v(1,2) by simp
  then show "stale i s'" using stale_by_removal [OF assms *(1)] v(3) *(3) by simp
qed

text \<open>Recording the generation of a handle.\<close>

lemma new_host_index_records:
  assumes "new_host_index grow h d n s = (x, s')"
  shows "hr_tables s' = hr_tables s" "generation s' = generation s" "length (metadata s) \<le> length (metadata s')"
    "\<And>j. j < length (metadata s) \<Longrightarrow> j \<noteq> unat h \<Longrightarrow> metadata s' ! j = metadata s ! j"
    "unat h < length (metadata s) \<Longrightarrow> ts_generation (metadata s' ! unat h) = generation s"
    "slot \<in> set (metadata s') \<Longrightarrow> slot \<in> set (metadata s) \<or> ts_generation slot = 0 \<or> ts_generation slot = generation s"
    "x = Ok i \<Longrightarrow> i = HostResourceIndex_new h (generation s) \<and> unat h < length (metadata s')"
  using assms by (auto simp: new_host_index_def Let_def set_metadata_def then_do_def nth_append nth_list_update split: if_splits dest!: set_update_subset_insert [THEN subsetD])

lemma hr_moves_new:
  assumes "hr_inv s" "rt_inv {#} t" "rt_gives h (hr_tables s) t" "new_host_index grow h d n (s\<lparr>hr_tables := t\<rparr>) = (x, s')"
  shows "hr_moves 0 s s'"
proof -
  note r = new_host_index_records [OF assms(4), simplified]
  have "unat (ts_generation slot) \<le> unat (generation s)" if "slot \<in> set (metadata s')" for slot
    using r(6) [OF that] assms(1) by (auto simp: hr_inv_def)
  moreover have "stale i s'" if "stale i s" for i
  proof (cases "hri_index i = h")
    case True
    then show ?thesis using that r by (auto simp: stale_def)
  next
    case False
    then have "unat (hri_index i) \<noteq> unat h" by (simp add: unsigned_word_eqI [of _ h] word_unat_eq_iff)
    moreover have "handles (rt_host_table t) (hri_index i) = None" if "host_handles s (hri_index i) = None"
      using that False assms(3) by (auto simp: rt_gives_def dom_def)
    ultimately show ?thesis using that r by (auto simp: stale_def)
  qed
  ultimately show ?thesis using assms(2) r(1-3) by (simp add: hr_moves_def hr_inv_def)
qed

lemma lower_moves:
  assumes "hr_inv s"
  shows "hr_moves 0 s (snd (host_resource_lower_own host grow rep d n s))" "hr_moves 0 s (snd (host_resource_lower_borrow host grow rep s))"
proof -
  have *: "hr_moves 0 s (snd (then_do (on_tables f s) (\<lambda>idx. new_host_index grow idx d n)))"
    if f: "rt_fine (hr_tables s) (f (hr_tables s))" "\<And>x t. f (hr_tables s) = (x, t) \<Longrightarrow> case x of Ok h \<Rightarrow> rt_gives h (hr_tables s) t | _ \<Rightarrow> rt_keeps (hr_tables s) t"
    for f d n
  proof -
    obtain x t where x: "f (hr_tables s) = (x, t)" by fastforce
    then have t: "rt_inv {#} t" using f(1) by (simp add: rt_fine_def)
    show ?thesis
    proof (cases x)
      case (Ok h)
      obtain y s' where y: "new_host_index grow h d n (s\<lparr>hr_tables := t\<rparr>) = (y, s')" by fastforce
      then show ?thesis using hr_moves_new [OF assms t _ y] f(2) [OF x] x Ok by (simp add: on_tables_def then_do_def)
    qed (use hr_moves_tables [OF assms f(1)] f(2) [OF x] x in \<open>simp_all add: on_tables_def then_do_def\<close>)
  qed
  have i: "rt_inv {#} (hr_tables s)" "tables_ok (hr_tables s)" "table_for_resource (HostResource rep) (hr_tables s) \<noteq> Panic"
    using hr_inv_tables [OF assms] by (simp_all add: table_for_resource_def)
  show "hr_moves 0 s (snd (host_resource_lower_own host grow rep d n s))" unfolding host_resource_lower_own_def
    by (rule * [where f = "resource_lower_own host (HostResource rep)", OF resource_new_fine(2) [OF i(1,3)]]) (rule host_lower_own [OF i(2)])
  show "hr_moves 0 s (snd (host_resource_lower_borrow host grow rep s))" unfolding host_resource_lower_borrow_def
    by (rule * [where f = "resource_lower_borrow host (HostResource rep)", OF resource_lower_borrow_fine [OF i(1,3)]]) (rule host_lower_borrow [OF i(2)])
qed

section \<open>The states a store goes through\<close>

inductive hr_call :: "(nat \<Rightarrow> bool) \<Rightarrow> (nat \<Rightarrow> bool) \<Rightarrow> (nat \<Rightarrow> bool) \<Rightarrow> HostResourceTables \<Rightarrow> unit hr_result \<Rightarrow> bool" for host mem grow s where
  hr_lift_own: "hr_call host mem grow s (discard (host_resource_lift_own i s))"
| hr_lift_borrow: "hr_call host mem grow s (discard (host_resource_lift_borrow i s))"
| hr_lower_own: "hr_call host mem grow s (discard (host_resource_lower_own host grow rep dtor instance s))"
| hr_lower_borrow: "hr_call host mem grow s (discard (host_resource_lower_borrow host grow rep s))"
| hr_drop: "hr_call host mem grow s (discard (host_resource_drop i s))"
| guest_lower_own: "guest_table ty (hr_tables s) \<noteq> Panic \<Longrightarrow> hr_call host mem grow s (discard (guest_resource_lower_own host rep ty s))"
| guest_lower_borrow: "guest_table ty (hr_tables s) \<noteq> Panic \<Longrightarrow> hr_call host mem grow s (discard (guest_resource_lower_borrow host rep ty s))"
| guest_lift_own: "guest_table ty (hr_tables s) \<noteq> Panic \<Longrightarrow> hr_call host mem grow s (discard (guest_resource_lift_own h ty s))"
| guest_lift_borrow: "guest_table ty (hr_tables s) \<noteq> Panic \<Longrightarrow> hr_call host mem grow s (discard (guest_resource_lift_borrow h ty s))"
| guest_new: "guest_table ty (hr_tables s) \<noteq> Panic \<Longrightarrow> hr_call host mem grow s (discard (on_tables (resource_new host (ComponentResource rep ty)) s))"
| guest_drop: "guest_table ty (hr_tables s) \<noteq> Panic \<Longrightarrow> hr_call host mem grow s (discard (on_tables (resource_drop (ComponentIndex h ty)) s))"
| hr_enter: "hr_call host mem grow s (on_tables (enter_call_not_concurrent mem) s)"
| hr_validate: "hr_call host mem grow s (host_validate_scope_exit s)"
| hr_exit: "hr_call host mem grow s (on_tables exit_sync_call s)"
| hr_pop: "\<not> borrowing (hr_tables s) \<Longrightarrow> hr_call host mem grow s (on_tables (\<lambda>t. (Ok (), exit_call_not_concurrent t)) s)"

text \<open>A number of calls, none of which panics.\<close>

inductive hr_steps :: "(nat \<Rightarrow> bool) \<Rightarrow> (nat \<Rightarrow> bool) \<Rightarrow> (nat \<Rightarrow> bool) \<Rightarrow> nat \<Rightarrow> HostResourceTables \<Rightarrow> HostResourceTables \<Rightarrow> bool" for host mem grow where
  hr_stop: "hr_steps host mem grow 0 s s"
| hr_step: "hr_steps host mem grow n s s' \<Longrightarrow> hr_call host mem grow s' (x, s'') \<Longrightarrow> x \<noteq> Panic \<Longrightarrow> hr_steps host mem grow (Suc n) s s''"

definition hr_start :: "nat \<Rightarrow> TypeResourceTable list \<Rightarrow> HostResourceTables" where
  "hr_start n types = \<lparr>hr_tables = rt_start n types, hr_data = \<lparr>cur_generation = 0, table_slot_metadata = []\<rparr>\<rparr>"

lemma hr_start_inv: "hr_inv (hr_start n types)"
  using rt_start_inv by (simp add: hr_inv_def hr_start_def)

text \<open>The calls that concern the tables only.\<close>

inductive plain :: "(nat \<Rightarrow> bool) \<Rightarrow> (nat \<Rightarrow> bool) \<Rightarrow> ResourceTables \<Rightarrow> unit rt_result \<Rightarrow> bool" for host mem t where
  "table_for_index i t \<noteq> Panic \<Longrightarrow> plain host mem t (discard (resource_drop i t))"
| "table_for_index i t \<noteq> Panic \<Longrightarrow> plain host mem t (discard (resource_lift_own i t))"
| "table_for_index i t \<noteq> Panic \<Longrightarrow> plain host mem t (discard (resource_lift_borrow i t))"
| "guest_table ty t \<noteq> Panic \<Longrightarrow> plain host mem t (discard (resource_new host (ComponentResource rep ty) t))"
| "guest_table ty t \<noteq> Panic \<Longrightarrow> plain host mem t (discard (resource_lower_own host (ComponentResource rep ty) t))"
| "guest_table ty t \<noteq> Panic \<Longrightarrow> plain host mem t (discard (resource_lower_borrow host (ComponentResource rep ty) t))"
| "plain host mem t (enter_call_not_concurrent mem t)"
| "plain host mem t (validate_scope_exit t)"
| "plain host mem t (exit_sync_call t)"
| "\<not> borrowing t \<Longrightarrow> plain host mem t (Ok (), exit_call_not_concurrent t)"

lemma plain_keeps:
  assumes "plain host mem t p" "rt_inv {#} t"
  shows "rt_fine t p" "rt_keeps t (snd p)"
proof -
  have t: "tables_ok t" using assms(2) by (simp add: rt_inv_def)
  have r: "guest_table ty t \<noteq> Panic \<Longrightarrow> table_for_resource (ComponentResource rep ty) t \<noteq> Panic" for rep ty by (simp add: table_for_resource_def)
  show "rt_fine t p" using assms(1)
    by cases (simp_all add: rt_fine_discard resource_new_fine resource_drop_fine resource_lower_borrow_fine resource_lift_borrow_fine
      enter_call_fine exit_fine pop_fine assms(2) r)
  show "rt_keeps t (snd p)" using assms(1)
    by cases (simp_all add: removals_keep [OF t] lift_borrow_keeps [OF t] guest_lower_keeps [OF assms(2)] scopes_keep [OF t])
qed

lemma discard_on_tables: "discard (on_tables f s) = on_tables (\<lambda>t. discard (f t)) s"
  by (simp add: discard_def on_tables_def split: prod.split)

lemma then_do_validate:
  assumes "\<And>h slot s'. hr_inv s' \<Longrightarrow> hr_moves 0 s' (snd (f (h, slot) s'))" "hr_inv s" "unat (generation s) < 2 ^ 32 - 1"
  shows "\<exists>d \<le> 1. hr_moves d s (snd (then_do (validate_host_index i b s) f))"
proof -
  obtain q s1 where q: "validate_host_index i b s = (q, s1)" by fastforce
  obtain d where d: "d \<le> 1" "hr_moves d s s1" using validate_moves [OF assms(2,3), of i b] q by auto
  show ?thesis
  proof (cases q)
    case (Ok x)
    then have "hr_moves 0 s1 (snd (f x s1))" using assms(1) hr_moves_inv [OF d(2)] by (cases x) simp
    then have "hr_moves d s (snd (f x s1))" using hr_moves_trans [OF d(2), of 0] by simp
    then show ?thesis using d(1) q Ok by (auto simp: then_do_def)
  qed (use d q in \<open>auto simp: then_do_def\<close>)
qed

lemma host_index_known: "table_for_index (HostIndex h) t \<noteq> Panic"
  by (simp add: table_for_index_def)

lemma hr_call_moves:
  assumes "hr_call host mem grow s p" "hr_inv s" "unat (generation s) < 2 ^ 32 - 1"
  shows "\<exists>d \<le> 1. hr_moves d s (snd p)"
proof -
  have pl: "hr_moves 0 s' (snd (on_tables f s'))" if "plain host mem (hr_tables s') (f (hr_tables s'))" "hr_inv s'" for f s'
    using hr_moves_on_tables [OF that(2), of f] plain_keeps [OF that(1) hr_inv_tables(1) [OF that(2)]] by simp
  have pl0: "\<exists>d \<le> 1. hr_moves d s (snd (on_tables f s))" if "plain host mem (hr_tables s) (f (hr_tables s))" for f
    using pl [where f = f and s' = s, OF that assms(2)] by (metis zero_le)
  have own: "hr_moves 0 s' (snd (on_tables (resource_lift_own (HostIndex h)) s'))" "hr_moves 0 s' (snd (on_tables (resource_lift_borrow (HostIndex h)) s'))"
      "hr_moves 0 s' (snd (on_tables (resource_drop (HostIndex h)) s'))" if "hr_inv s'" for h s'
    using pl [where f = "\<lambda>t. discard (resource_lift_own (HostIndex h) t)", OF plain.intros(2) [OF host_index_known] that]
      pl [where f = "\<lambda>t. discard (resource_lift_borrow (HostIndex h) t)", OF plain.intros(3) [OF host_index_known] that]
      pl [where f = "\<lambda>t. discard (resource_drop (HostIndex h) t)", OF plain.intros(1) [OF host_index_known] that]
    by (simp_all add: discard_on_tables [symmetric])
  have drop: "hr_moves 0 s' (snd (then_do (on_tables (resource_drop (HostIndex h)) s') (\<lambda>dropped s. case dropped of
        Some rep \<Rightarrow> (case slot of Some slot \<Rightarrow> (Ok (Some (rep, slot)), s) | None \<Rightarrow> (Panic, s)) | None \<Rightarrow> (Ok None, s))))" if "hr_inv s'" for h s' slot
    using own(3) [OF that, of h] by (auto simp: then_do_def split: prod.split res.split option.split)
  show ?thesis using assms(1)
  proof cases
    case (hr_lift_own i)
    then show ?thesis using then_do_validate [OF _ assms(2,3), of "\<lambda>(i, _). on_tables (resource_lift_own (HostIndex i))"] own(1) by (simp add: host_resource_lift_own_def)
  next
    case (hr_lift_borrow i)
    then show ?thesis using then_do_validate [OF _ assms(2,3), of "\<lambda>(i, _). on_tables (resource_lift_borrow (HostIndex i))"] own(2) by (simp add: host_resource_lift_borrow_def)
  next
    case (hr_drop i)
    then show ?thesis unfolding host_resource_drop_def by (simp only: snd_discard) (rule then_do_validate [OF _ assms(2,3)], simp add: drop)
  next
    case (hr_lower_own rep dtor inst)
    then show ?thesis using lower_moves(1) [OF assms(2)] by (metis snd_discard zero_le)
  next
    case (hr_lower_borrow rep)
    then show ?thesis using lower_moves(2) [OF assms(2)] by (metis snd_discard zero_le)
  qed (simp_all only: discard_on_tables guest_resource_lower_own_def guest_resource_lower_borrow_def guest_resource_lift_own_def guest_resource_lift_borrow_def
    host_validate_scope_exit_def, (rule pl0; rule plain.intros; simp add: table_for_index_def)+)
qed

lemma hr_steps_moves:
  assumes "hr_steps host mem grow n s s'" "hr_inv s" "unat (generation s) + n < 2 ^ 32"
  shows "\<exists>d \<le> n. hr_moves d s s'"
  using assms
proof (induction rule: hr_steps.induct)
  case (hr_step n s s' x s'')
  then obtain d where d: "d \<le> n" "hr_moves d s s'" by auto
  then have "unat (generation s') < 2 ^ 32 - 1" using hr_step.prems(2) by (simp add: hr_moves_def)
  then obtain e where "e \<le> 1" "hr_moves e s' s''" using hr_call_moves [OF hr_step.hyps(2) hr_moves_inv [OF d(2)]] by auto
  then show ?case using hr_moves_trans [OF d(2)] d(1) by (intro exI [of _ "d + e"]) simp
qed (auto intro: hr_moves_refl)

lemma lower_gives_index:
  assumes "host_resource_lower_own host grow rep dtor inst s = (Ok i, s')"
  shows "unat (hri_index i) < length (metadata s')"
proof -
  obtain h s1 where "new_host_index grow h dtor inst s1 = (Ok i, s')"
    using assms by (auto simp: host_resource_lower_own_def then_do_def split: prod.splits res.splits)
  then have "i = HostResourceIndex_new h (generation s1)" "unat h < length (metadata s')" using new_host_index_records(7) by blast+
  then show ?thesis by simp
qed

text \<open>C7: An index given out for a resource and used to take the resource back or to drop it stays dead: whatever happens
  afterwards, every use of it is an error, also when its slot holds another resource by then, as long as fewer than 2 to
  the 32 calls are made in all.\<close>

theorem removed_index_stays_dead:
  assumes "hr_steps host mem grow a (hr_start n types) s0"
    and "host_resource_lower_own host grow rep dtor inst s0 = (Ok i, s1)"
    and "hr_steps host mem grow b s1 s2"
    and "host_resource_lift_own i s2 = (Ok r, s3) \<or> host_resource_drop i s2 = (Ok r', s3)"
    and "hr_steps host mem grow c s3 s4"
    and "a + b + c + 2 < 2 ^ 32"
  shows "(\<exists>e s. host_resource_lift_own i s4 = (Err e, s)) \<and> (\<exists>e s. host_resource_lift_borrow i s4 = (Err e, s)) \<and>
    (\<exists>e s. host_resource_drop i s4 = (Err e, s))"
proof -
  obtain d0 where 0: "d0 \<le> a" "hr_moves d0 (hr_start n types) s0"
    using hr_steps_moves [OF assms(1) hr_start_inv] assms(6) by (auto simp: hr_start_def)
  have g0: "unat (generation s0) \<le> a" using 0 by (simp add: hr_moves_def hr_start_def)
  have 1: "hr_moves 0 s0 s1" using lower_moves(1) [OF hr_moves_inv [OF 0(2)]] assms(2) by (metis snd_conv)
  then have g1: "unat (generation s1) \<le> a" using g0 by (simp add: hr_moves_def)
  obtain d2 where 2: "d2 \<le> b" "hr_moves d2 s1 s2" using hr_steps_moves [OF assms(3) hr_moves_inv [OF 1]] g1 assms(6) by auto
  then have g2: "unat (generation s2) \<le> a + b" using g1 by (simp add: hr_moves_def)
  have i: "unat (hri_index i) < length (metadata s2)" using lower_gives_index [OF assms(2)] 2(2) by (simp add: hr_moves_def)
  have small: "unat (generation s2) < 2 ^ 32 - 1" using g2 assms(6) by simp
  have stale: "stale i s3" using drop_makes_stale [OF hr_moves_inv [OF 2(2)] i small] assms(4) by metis
  have "\<exists>d \<le> 1. hr_moves d s2 s3"
    using assms(4) hr_call_moves [OF hr_lift_own hr_moves_inv [OF 2(2)] small] hr_call_moves [OF hr_drop hr_moves_inv [OF 2(2)] small]
    by (metis snd_conv snd_discard)
  then obtain d3 where 3: "d3 \<le> 1" "hr_moves d3 s2 s3" by blast
  then have "unat (generation s3) + c < 2 ^ 32" using g2 assms(6) by (simp add: hr_moves_def)
  then obtain d4 where 4: "hr_moves d4 s3 s4" using hr_steps_moves [OF assms(5) hr_moves_inv [OF 3(2)]] by blast
  then have "stale i s4" "hr_inv s4" using stale by (simp_all add: hr_moves_def)
  then show ?thesis using stale_rejected by blast
qed

section \<open>The list of generations beside the table\<close>

text \<open>The list has an entry for every slot of the table, and one more for the handle 0.\<close>

definition host_size :: "ResourceTables \<Rightarrow> nat" where
  "host_size t = length (ht_slots (rt_host_table t))"

definition aligned :: "HostResourceTables \<Rightarrow> bool" where
  "aligned s \<longleftrightarrow> length (metadata s) = (if host_size (hr_tables s) = 0 then 0 else Suc (host_size (hr_tables s)))"

lemma rt_keeps_size: "rt_keeps s s' \<Longrightarrow> host_size s' = host_size s"
  by (simp add: rt_keeps_def host_size_def)

lemma rt_gives_size: "rt_gives h s s' \<Longrightarrow> 0 < unat h \<and> unat h \<le> Suc (host_size s) \<and> host_size s' = max (host_size s) (unat h)"
  by (simp add: rt_gives_def host_size_def)

definition hr_good :: "HostResourceTables \<Rightarrow> ('a, handle_error) res \<times> HostResourceTables \<Rightarrow> bool" where
  "hr_good s = (\<lambda>(x, s'). aligned s' \<and> (x = Panic \<longrightarrow> saturated (hr_tables s)))"

lemma hr_good_discard: "hr_good s p \<Longrightarrow> hr_good s (discard p)"
  by (cases p; cases "fst p") (simp_all add: hr_good_def discard_def)

lemma plain_good:
  assumes "aligned s" "rt_fine (hr_tables s) (f (hr_tables s))" "rt_keeps (hr_tables s) (snd (f (hr_tables s)))"
  shows "hr_good s (on_tables f s)"
proof -
  obtain x t where x: "f (hr_tables s) = (x, t)" by fastforce
  have "host_size t = host_size (hr_tables s)" using rt_keeps_size [OF assms(3)] x by simp
  then show ?thesis using assms(1,2) x by (simp add: on_tables_def hr_good_def rt_fine_def aligned_def)
qed

lemma new_index_good:
  assumes "aligned s" "rt_gives h (hr_tables s) t"
  shows "hr_good s (new_host_index (\<lambda>_. True) h d n (s\<lparr>hr_tables := t\<rparr>))"
proof -
  let ?n = "host_size (hr_tables s)"
  have h: "0 < unat h" "unat h \<le> Suc ?n" "host_size t = max ?n (unat h)" using rt_gives_size [OF assms(2)] by simp_all
  consider "unat h < length (metadata s)" | "metadata s = []" "?n = 0" | "unat h = length (metadata s)" "unat h = Suc ?n"
    using assms(1) h(1,2) by (cases "?n = 0"; cases "unat h = Suc ?n") (auto simp: aligned_def)
  then show ?thesis
  proof cases
    case 1
    then have "?n \<noteq> 0" "unat h \<le> ?n" using assms(1) by (auto simp: aligned_def split: if_splits)
    then show ?thesis using 1 h assms(1) by (simp add: new_host_index_def Let_def set_metadata_def hr_good_def aligned_def max_def)
  next
    case 2
    then have "unat h = unat (1 :: u32)" using h by simp
    then have "h = 1" by (rule unsigned_word_eqI)
    then show ?thesis using 2 h(3) by (simp add: new_host_index_def Let_def set_metadata_def hr_good_def aligned_def then_do_def)
  next
    case 3
    then have "metadata s \<noteq> []" by auto
    then show ?thesis using 3 h(3) by (simp add: new_host_index_def Let_def set_metadata_def hr_good_def aligned_def then_do_def)
  qed
qed

lemma lower_good:
  assumes "hr_inv s" "aligned s"
  shows "hr_good s (host_resource_lower_own host (\<lambda>_. True) rep d n s)" "hr_good s (host_resource_lower_borrow host (\<lambda>_. True) rep s)"
proof -
  have *: "hr_good s (then_do (on_tables f s) (\<lambda>idx. new_host_index (\<lambda>_. True) idx d n))"
    if f: "rt_fine (hr_tables s) (f (hr_tables s))" "\<And>x t. f (hr_tables s) = (x, t) \<Longrightarrow> case x of Ok h \<Rightarrow> rt_gives h (hr_tables s) t | _ \<Rightarrow> rt_keeps (hr_tables s) t"
    for f :: "ResourceTables \<Rightarrow> u32 rt_result" and d n
  proof -
    obtain x t where x: "f (hr_tables s) = (x, t)" by fastforce
    show ?thesis
    proof (cases x)
      case (Ok h)
      then show ?thesis using new_index_good [OF assms(2)] f(2) [OF x] x by (simp add: on_tables_def then_do_def)
    qed (use plain_good [where f = f, OF assms(2) f(1)] f(2) [OF x] x in \<open>simp_all add: on_tables_def then_do_def hr_good_def\<close>)
  qed
  have i: "rt_inv {#} (hr_tables s)" "tables_ok (hr_tables s)" "table_for_resource (HostResource rep) (hr_tables s) \<noteq> Panic"
    using hr_inv_tables [OF assms(1)] by (simp_all add: table_for_resource_def)
  show "hr_good s (host_resource_lower_own host (\<lambda>_. True) rep d n s)" unfolding host_resource_lower_own_def
    by (rule * [where f = "resource_lower_own host (HostResource rep)", OF resource_new_fine(2) [OF i(1,3)]]) (rule host_lower_own [OF i(2)])
  show "hr_good s (host_resource_lower_borrow host (\<lambda>_. True) rep s)" unfolding host_resource_lower_borrow_def
    by (rule * [where f = "resource_lower_borrow host (HostResource rep)", OF resource_lower_borrow_fine [OF i(1,3)]]) (rule host_lower_borrow [OF i(2)])
qed

lemma validate_good:
  assumes "aligned s" "hr_inv s" "\<And>h slot s'. hr_inv s' \<Longrightarrow> hr_tables s' = hr_tables s \<Longrightarrow> metadata s' = metadata s \<Longrightarrow>
      slot = (if unat h < length (metadata s) then Some (metadata s ! unat h) else None) \<Longrightarrow> hr_good s' (f (h, slot) s')"
    and "unat (generation s) < 2 ^ 32 - 1"
  shows "hr_good s (then_do (validate_host_index i b s) f)"
proof (cases "fst (validate_host_index i b s)")
  case (Ok q)
  then obtain h slot s1 where q: "validate_host_index i b s = (Ok (h, slot), s1)" by (cases q; cases "validate_host_index i b s") simp
  note v = validate_ok [OF q]
  have "hr_inv s1" using validate_moves [OF assms(2,4), of i b] q by (auto simp: hr_moves_def)
  then have "hr_good s1 (f (h, slot) s1)" using assms(3) v(2-4) by blast
  then show ?thesis using q v(2) by (simp add: then_do_def hr_good_def)
next
  case (Err e)
  then have "validate_host_index i b s = (Err e, s)" by (auto simp: validate_host_index_def Let_def split: if_splits)
  then show ?thesis using assms(1) by (simp add: then_do_def hr_good_def)
qed (auto simp: validate_host_index_def Let_def split: if_splits)

lemma drop_good:
  assumes "hr_inv s" "aligned s" "slot = (if unat h < length (metadata s) then Some (metadata s ! unat h) else None)"
  shows "hr_good s (then_do (on_tables (resource_drop (HostIndex h)) s) (\<lambda>dropped s. case dropped of
      Some rep \<Rightarrow> (case slot of Some slot \<Rightarrow> (Ok (Some (rep, slot)), s) | None \<Rightarrow> (Panic, s)) | None \<Rightarrow> (Ok None, s)))"
proof -
  have i: "rt_inv {#} (hr_tables s)" "tables_ok (hr_tables s)" using hr_inv_tables [OF assms(1)] .
  have g: "hr_good s (on_tables (resource_drop (HostIndex h)) s)"
    using plain_good [where f = "resource_drop (HostIndex h)", OF assms(2) resource_drop_fine(1) [OF i(1) host_index_known] removals_keep(1) [OF i(2)]] .
  have "slot \<noteq> None" if "fst (resource_drop (HostIndex h) (hr_tables s)) = Ok (Some rep)" for rep
  proof -
    have "fst (on_table (Ok HostTable) (remove_resource (HostIndex h)) (hr_tables s)) = Ok (RemovedOwn rep)"
      using that by (auto simp: resource_drop_def table_for_index_def then_do_def split: prod.splits res.splits RemovedResource.splits)
    then obtain q where "host_handles s h = Some q"
      by (auto simp: on_table_def get_table_def remove_resource_def remove_slot_def read_slot_eq raw_index_def split: prod.splits option.splits res.splits)
    then have "h \<noteq> 0" "unat h - 1 < host_size (hr_tables s)" by (auto simp: handles_eq host_size_def split: if_splits)
    then have "unat h < length (metadata s)" using assms(2) by (auto simp: aligned_def split: if_splits)
    then show ?thesis using assms(3) by simp
  qed
  then show ?thesis using g by (cases "resource_drop (HostIndex h) (hr_tables s)"; cases "fst (resource_drop (HostIndex h) (hr_tables s))")
    (auto simp: on_tables_def then_do_def hr_good_def split: option.split)
qed

lemma hr_call_good:
  assumes "hr_call host mem (\<lambda>_. True) s p" "hr_inv s" "aligned s" "unat (generation s) < 2 ^ 32 - 1"
  shows "hr_good s p"
proof -
  have pl: "hr_good s' (on_tables f s')" if "plain host mem (hr_tables s') (f (hr_tables s'))" "hr_inv s'" "aligned s'" for f s'
    using plain_good [where f = f, OF that(3)] plain_keeps [OF that(1) hr_inv_tables(1) [OF that(2)]] by simp
  have pl0: "hr_good s (on_tables f s)" if "plain host mem (hr_tables s) (f (hr_tables s))" for f
    using pl [where f = f and s' = s, OF that assms(2,3)] .
  have own: "hr_good s' (on_tables (\<lambda>t. discard (resource_lift_own (HostIndex h) t)) s')" "hr_good s' (on_tables (\<lambda>t. discard (resource_lift_borrow (HostIndex h) t)) s')"
    if "hr_inv s'" "aligned s'" for h s'
    using pl [where f = "\<lambda>t. discard (resource_lift_own (HostIndex h) t)", OF plain.intros(2) [OF host_index_known] that]
      pl [where f = "\<lambda>t. discard (resource_lift_borrow (HostIndex h) t)", OF plain.intros(3) [OF host_index_known] that] .
  have al: "aligned s'" if "hr_tables s' = hr_tables s" "metadata s' = metadata s" for s' using that assms(3) by (simp add: aligned_def)
  have un: "hr_good s' q" if "hr_good s' (discard q)" for s' and q :: "u32 hr_result"
    using that by (cases q; cases "fst q") (simp_all add: hr_good_def discard_def)
  have un': "hr_good s' (on_tables f s')" if "hr_good s' (on_tables (\<lambda>t. discard (f t)) s')" for s' and f :: "ResourceTables \<Rightarrow> u32 rt_result"
    using un that by (simp add: discard_on_tables [symmetric])
  show ?thesis using assms(1)
  proof cases
    case (hr_lift_own i)
    then show ?thesis unfolding host_resource_lift_own_def
      by (simp only:) (rule hr_good_discard, rule validate_good [OF assms(3,2) _ assms(4)], simp add: un' own al)
  next
    case (hr_lift_borrow i)
    then show ?thesis unfolding host_resource_lift_borrow_def
      by (simp only:) (rule hr_good_discard, rule validate_good [OF assms(3,2) _ assms(4)], simp add: un' own al)
  next
    case (hr_drop i)
    then show ?thesis unfolding host_resource_drop_def
      by (simp only:) (rule hr_good_discard, rule validate_good [OF assms(3,2) _ assms(4)], simp only: prod.case, rule drop_good, simp_all add: al)
  qed (simp_all only: hr_good_discard lower_good [OF assms(2,3)] discard_on_tables guest_resource_lower_own_def guest_resource_lower_borrow_def
    guest_resource_lift_own_def guest_resource_lift_borrow_def host_validate_scope_exit_def, (rule pl0; rule plain.intros; simp add: table_for_index_def)+)
qed

lemma hr_steps_aligned:
  assumes "hr_steps host mem (\<lambda>_. True) n s s'" "hr_inv s" "aligned s" "unat (generation s) + n < 2 ^ 32"
  shows "aligned s'"
  using assms
proof (induction rule: hr_steps.induct)
  case (hr_step n s s' x s'')
  obtain d where d: "d \<le> n" "hr_moves d s s'" using hr_steps_moves [OF hr_step.hyps(1)] hr_step.prems by auto
  have "unat (generation s') < 2 ^ 32 - 1" using d hr_step.prems(3) by (simp add: hr_moves_def)
  moreover have "aligned s'" using hr_step by simp
  ultimately show ?case using hr_call_good [OF hr_step.hyps(2) hr_moves_inv [OF d(2)]] by (simp add: hr_good_def)
qed simp

text \<open>C17: As long as the list of generations can grow and fewer than 2 to the 32 calls are made, no call of the embedder or of a guest
  panics, unless a count of lends or borrows stands at its maximum: every handle of the host's table has its entry in
  the list, so that the assertions about the length of the list hold and the metadata of a dropped resource is found.\<close>

theorem host_calls_do_not_panic:
  assumes "hr_steps host mem (\<lambda>_. True) n (hr_start m types) s" "n + 1 < 2 ^ 32" "hr_call host mem (\<lambda>_. True) s (x, s')"
  shows "x = Panic \<longrightarrow> saturated (hr_tables s)"
proof -
  have a: "aligned (hr_start m types)" by (simp add: aligned_def hr_start_def host_size_def rt_start_def HandleTable_default_def)
  obtain d where d: "d \<le> n" "hr_moves d (hr_start m types) s"
    using hr_steps_moves [OF assms(1) hr_start_inv] assms(2) by (auto simp: hr_start_def)
  have "unat (generation s) < 2 ^ 32 - 1" using d assms(2) by (simp add: hr_moves_def hr_start_def)
  moreover have "aligned s" using hr_steps_aligned [OF assms(1) hr_start_inv a] assms(2) by (simp add: hr_start_def)
  ultimately show ?thesis using hr_call_good [OF assms(3) hr_moves_inv [OF d(2)]] by (simp add: hr_good_def)
qed

lemma host_lower_own_insert:
  assumes "resource_lower_own host (HostResource rep) t = (Ok h, t')"
  shows "ht_insert host (ResourceOwn (HostResource rep) 0) (rt_host_table t) = (Ok h, rt_host_table t')"
  using assms by (auto simp: resource_lower_own_def table_for_resource_def resource_own_insert_def on_table_def get_table_def host_table_put split: prod.splits)

lemma ht_insert_grows:
  assumes "ht_insert host slot t = (Ok h, t')" "unat (ht_next t) = length (ht_slots t)"
  shows "ht_next t' = ht_next t + 1"
proof -
  obtain n where "checked_add (ht_next t) 1 = Some n" "fill_slot slot (ht_next t) (t\<lparr>ht_slots := ht_slots t @ [Free n]\<rparr>) = (Ok h, t')"
    using assms by (auto simp: ht_insert_def Let_def split: if_splits option.splits)
  then show ?thesis using assms(2) by (auto simp: fill_slot_def nth_append checked_add_unat split: if_splits)
qed

lemma new_host_index_full:
  assumes "metadata s = [] \<Longrightarrow> h = 1" "metadata s \<noteq> [] \<Longrightarrow> unat h = length (metadata s)" "\<not> grow (unat h + 1)"
  shows "\<exists>s'. new_host_index grow h d n s = (Err OutOfMemory, s') \<and> hr_tables s' = hr_tables s \<and>
    length (metadata s') \<le> unat h"
  using assms by (cases "metadata s = []") (auto simp: new_host_index_def Let_def set_metadata_def then_do_def)

lemma new_host_index_panics:
  "max 1 (length (metadata s)) < unat h \<Longrightarrow> fst (new_host_index grow h d n s) = Panic"
  by (auto simp: new_host_index_def Let_def then_do_def)

lemma lowered_beyond:
  assumes "tables_ok s" "resource_lower_own host (HostResource rep) s = (Ok h, t)" "unat h = Suc (host_size s)"
    and "resource_lower_own host' (HostResource rep') t = (Ok h', t')"
  shows "unat h' = Suc (unat h)"
proof -
  let ?s = "rt_host_table s" and ?t = "rt_host_table t"
  have g: "tables_ok t" "host_size t = unat h"
    using host_lower_own [OF assms(1,2)] rt_gives_size [of h s t] assms(3) by (auto simp: rt_gives_def)
  have ok: "ht_ok ?s" "ht_ok ?t" using assms(1) g(1) by (auto simp: tables_ok_def valid_ref_def get_table_def dest: spec [of _ HostTable])
  have i: "ht_insert host (ResourceOwn (HostResource rep) 0) ?s = (Ok h, ?t)" by (rule host_lower_own_insert [OF assms(2)])
  have "unat (ht_next ?s) = length (ht_slots ?s)"
    using assms(3) ht_insert_length(1) [OF i] ht_next_le [OF ok(1)] ok(1) by (simp add: host_size_def ht_ok_def unat_word_ariths)
  then have "ht_next ?t = h" using ht_insert_grows [OF i] ht_insert_length(1) [OF i] by simp
  moreover have "h' = ht_next ?t + 1" by (rule ht_insert_length(1) [OF host_lower_own_insert [OF assms(4)]])
  moreover have "unat h < 2 ^ 28" using ok(2) g(2) by (simp add: ht_ok_def host_size_def)
  ultimately show ?thesis by (simp add: unat_word_ariths)
qed

lemma host_lower_own_slot:
  assumes "tables_ok s" "resource_lower_own host (HostResource rep) s = (Ok h, t)"
  shows "handles (rt_host_table t) h = Some (ResourceOwn (HostResource rep) 0)"
proof -
  have "ht_ok (rt_host_table s)" using assms(1) by (auto simp: tables_ok_def valid_ref_def get_table_def dest: spec [of _ HostTable])
  then show ?thesis
    by (cases rule: ht_insert_ok [where host = host and slot = "ResourceOwn (HostResource rep) 0"])
       (use host_lower_own_insert [OF assms(2)] in auto)
qed

text \<open>C20: When the host's table has taken a resource under a handle that is new to the list of generations, and there is no memory
  for its entry in the list, the call fails for want of memory but the handle stays in the table, naming the resource,
  and has no entry in the list. The two are then out of step: in that state, lowering another owned resource panics
  whenever the table takes it, whether or not there is memory again.\<close>

theorem failed_metadata_then_panic:
  assumes "hr_steps host mem (\<lambda>_. True) n (hr_start m types) s" "n < 2 ^ 32"
    and took: "resource_lower_own host (HostResource rep) (hr_tables s) = (Ok h, t)"
    and new: "length (metadata s) \<le> unat h" and full: "\<not> grow (unat h + 1)"
  shows "\<exists>s'. host_resource_lower_own host grow rep dtor inst s = (Err OutOfMemory, s') \<and>
    host_handles s' h = Some (ResourceOwn (HostResource rep) 0) \<and> length (metadata s') \<le> unat h \<and>
    (\<forall>host' grow' rep' dtor' inst'. (\<exists>h' t'. resource_lower_own host' (HostResource rep') (hr_tables s') = (Ok h', t')) \<longrightarrow>
       fst (host_resource_lower_own host' grow' rep' dtor' inst' s') = Panic)"
proof -
  have "aligned (hr_start m types)" by (simp add: aligned_def hr_start_def host_size_def rt_start_def HandleTable_default_def)
  then have al: "aligned s" using hr_steps_aligned [OF assms(1) hr_start_inv] assms(2) by (simp add: hr_start_def)
  obtain d where "hr_moves d (hr_start m types) s" using hr_steps_moves [OF assms(1) hr_start_inv] assms(2) by (auto simp: hr_start_def)
  then have ok: "tables_ok (hr_tables s)" using hr_moves_inv hr_inv_tables(2) by blast
  have g: "0 < unat h" "unat h \<le> Suc (host_size (hr_tables s))" using host_lower_own [OF ok took] rt_gives_size by auto
  have n: "unat h = Suc (host_size (hr_tables s))" using new al g by (auto simp: aligned_def split: if_splits)
  have h: "h = 1" if "metadata s = []"
  proof (rule unsigned_word_eqI)
    show "unat h = unat (1 :: u32)" using that al n by (simp add: aligned_def split: if_splits)
  qed
  have l: "unat h = length (metadata s)" if "metadata s \<noteq> []" using that al n by (auto simp: aligned_def split: if_splits)
  obtain s' where s': "new_host_index grow h dtor inst (s\<lparr>hr_tables := t\<rparr>) = (Err OutOfMemory, s')" "hr_tables s' = t"
      "length (metadata s') \<le> unat h"
    using new_host_index_full [of "s\<lparr>hr_tables := t\<rparr>" h grow dtor inst] h l full by auto
  have "fst (host_resource_lower_own host' grow' rep' dtor' inst' s') = Panic"
    if "resource_lower_own host' (HostResource rep') (hr_tables s') = (Ok h', t')" for host' grow' rep' dtor' inst' h' t'
  proof -
    have "unat h' = Suc (unat h)" using lowered_beyond [OF ok took n] that s'(2) by simp
    then have "max 1 (length (metadata s')) < unat h'" using s'(3) g(1) by simp
    then show ?thesis using new_host_index_panics [of "s'\<lparr>hr_tables := t'\<rparr>"] that
      by (simp add: host_resource_lower_own_def on_tables_def then_do_def)
  qed
  moreover have "host_resource_lower_own host grow rep dtor inst s = (Err OutOfMemory, s')"
    using took s'(1) by (simp add: host_resource_lower_own_def on_tables_def then_do_def)
  ultimately show ?thesis using host_lower_own_slot [OF ok took] s'(2,3) by blast
qed

text \<open>A store whose embedder lowers a resource, takes it back, and lowers another one into the same slot.\<close>

lemma hr_steps_snd:
  "hr_steps host mem grow n s s' \<Longrightarrow> hr_call host mem grow s' p \<Longrightarrow> fst p \<noteq> Panic \<Longrightarrow> hr_steps host mem grow (Suc n) s (snd p)"
  by (cases p) (auto intro: hr_step)

definition hr_lowered :: "HostResourceIndex hr_result" where
  "hr_lowered = host_resource_lower_own (\<lambda>_. True) (\<lambda>_. True) 7 None None (hr_start 0 [])"

definition hr_taken :: "u32 hr_result" where
  "hr_taken = host_resource_lift_own (HostResourceIndex_new 1 0) (snd hr_lowered)"

definition hr_reused :: "HostResourceIndex hr_result" where
  "hr_reused = host_resource_lower_own (\<lambda>_. True) (\<lambda>_. True) 8 None None (snd hr_taken)"

lemma hr_demo_eq: "hr_lowered = (Ok (HostResourceIndex_new 1 0), snd hr_lowered)" "hr_taken = (Ok 7, snd hr_taken)"
  "hr_reused = (Ok (HostResourceIndex_new 1 1), snd hr_reused)"
  by code_simp+

theorem removed_index_stays_dead_witness:
  "\<exists>e s. host_resource_lift_own (HostResourceIndex_new 1 0) (snd hr_reused) = (Err e, s)"
proof -
  let ?T = "\<lambda>_ :: nat. True"
  have reuse: "hr_steps ?T ?T ?T 1 (snd hr_taken) (snd hr_reused)"
    using hr_steps_snd [OF hr_stop hr_lower_own, of ?T ?T 8 None None "snd hr_taken" ?T] hr_demo_eq(3) unfolding hr_reused_def [symmetric]
    by (metis One_nat_def fst_conv fst_discard_Panic res.distinct(3) snd_discard)
  have lowered: "host_resource_lower_own ?T ?T 7 None None (hr_start 0 []) = (Ok (HostResourceIndex_new 1 0), snd hr_lowered)"
    and taken: "host_resource_lift_own (HostResourceIndex_new 1 0) (snd hr_lowered) = (Ok 7, snd hr_taken)"
    using hr_demo_eq(1,2) by (simp_all add: hr_lowered_def [symmetric] hr_taken_def [symmetric])
  show ?thesis
    using removed_index_stays_dead [OF hr_stop lowered hr_stop disjI1 [OF taken] reuse] by simp
qed

theorem host_calls_do_not_panic_witness: "fst (discard hr_lowered) \<noteq> Panic"
proof -
  let ?T = "\<lambda>_ :: nat. True"
  have call: "hr_call ?T ?T ?T (hr_start 0 []) (fst (discard hr_lowered), snd (discard hr_lowered))"
    unfolding prod.collapse hr_lowered_def by (rule hr_lower_own)
  have "fst (discard hr_lowered) = Panic \<longrightarrow> saturated (hr_tables (hr_start 0 []))" by (rule host_calls_do_not_panic [OF hr_stop _ call]) simp
  moreover have "\<not> saturated (hr_tables (hr_start 0 []))"
    by (auto simp: saturated_def hr_start_def rt_start_def all_slots_def valid_ref_def get_table_def ht_ok_default split: if_splits table_ref.splits)
  ultimately show ?thesis by blast
qed

theorem failed_metadata_then_panic_witness:
  "\<exists>s'. host_resource_lower_own (\<lambda>_. True) (\<lambda>n. n < 2) 7 None None (hr_start 0 []) = (Err OutOfMemory, s') \<and>
     host_handles s' 1 = Some (ResourceOwn (HostResource 7) 0) \<and>
     fst (host_resource_lower_own (\<lambda>_. True) (\<lambda>_. True) 8 None None s') = Panic"
proof -
  let ?T = "\<lambda>_ :: nat. True"
  let ?t = "resource_lower_own ?T (HostResource 7) (hr_tables (hr_start 0 []))"
  let ?p = "host_resource_lower_own ?T (\<lambda>n. n < 2) 7 None None (hr_start 0 [])"
  let ?q = "resource_lower_own ?T (HostResource 8) (hr_tables (snd ?p))"
  have t: "?t = (Ok 1, snd ?t)" and q: "?q = (Ok 2, snd ?q)" by code_simp+
  have "length (metadata (hr_start 0 [])) \<le> unat (1 :: u32)" "\<not> unat (1 :: u32) + 1 < 2" by (simp_all add: hr_start_def)
  then show ?thesis
    using failed_metadata_then_panic [OF hr_stop [of ?T ?T ?T "hr_start 0 []"] _ t, of "\<lambda>n. n < 2" None None] q
    by (metis snd_conv zero_less_numeral zero_less_power)
qed

end
