(* ===== verification/Spec2Isabelle.thy ===== *)
theory Spec2Isabelle
  imports Pulley_Programs Pulley_Convert Pulley_Lanes Gc_Free_List_Use Stack_Maps Exception_Table Host_Tables
begin

text \<open>
  A verification development of self-contained parts of \<open>wasmtime\<close> (\<open>src/wasmtime\<close>): the interpreter of portable
  bytecode, the bit sets, the free list of the garbage collectors, the tables in which compiled code tells the
  runtime where references and exception handlers are, and the tables of handles of the component model. All file names below are relative to \<open>src/wasmtime\<close>.

  \<^bold>\<open>The parts and how they interact.\<close> Pulley is the bytecode that \<open>cranelift\<close> emits where it has no native back end and
  that \<open>pulley/src/interp.rs\<close> executes. An instruction is an entry of one of the two lists of \<open>pulley/src/lib.rs\<close>;
  macros make opcodes, encoder and decoder from the lists. The interpreter is a visitor of the decoder: each turn
  of its loop decodes one instruction from host memory and calls its handler, which reads and writes registers, the stack and
  memory, and says whether to go on. Lists of registers to save travel in instructions as scalar bit sets. Compound bit sets
  are arrays of scalar ones, and the stack maps of compiled code are compound bit sets written to a section and read back as scalar
  ones. A collector scans the frames with the stack maps and manages its heap with the free list; the
  unwinder finds the handler of an exception in the exception table. A component refers to resources by handles: numbers of
  slots in a table of its instance. The operations on resources work on those tables, the table of the host and
  the stack of open calls together: a handle lent to a call may not go away before the call returns, and a call may not return
  while handles borrow in it. The embedder holds handles of the host's table, paired with generations.

  \<^bold>\<open>What models what.\<close>
  \<^item> \<open>Prelude\<close>: machine integers, results with panics, integer primitives, host memory. \<open>BTree_Map\<close>: what is used of the
    ordered maps of the standard library. \<open>Code_Sections\<close>: the \<open>object\<close> crate as a parameter, and the binary search of the
    standard library with its specification.
  \<^item> \<open>Scalar_Bitset\<close>: \<open>cranelift/bitset/src/scalar.rs\<close>, a word of any byte-sized width, every operation \<open>f\<close> as \<open>bs_f\<close>.
    \<open>Compound_Bitset\<close>: \<open>cranelift/bitset/src/compound.rs\<close>, the record \<open>CompoundBitSet\<close> and \<open>cbs_f\<close>.
  \<^item> \<open>Pulley_Regs\<close>: \<open>pulley/src/regs.rs\<close> and \<open>imms.rs\<close>. \<open>Pulley_ISA\<close>: the instruction lists of \<open>lib.rs\<close>, entry by entry, and the
    opcodes of \<open>opcode.rs\<close>. \<open>Pulley_Encode\<close>: \<open>encode.rs\<close> and \<open>op.rs\<close>. \<open>Pulley_Decode\<close>: \<open>decode.rs\<close>, with both byte streams.
  \<^item> \<open>Pulley_Machine\<close>: state and helpers of \<open>interp.rs\<close> (\<open>MachineState\<close>, \<open>Interpreter\<close>, \<open>push\<close>, \<open>pop\<close>, \<open>done_trap\<close>, the
    \<open>AddressingMode\<close> implementations). \<open>Pulley_Control\<close>, \<open>Pulley_Integer\<close>, \<open>Pulley_Memory\<close>, \<open>Pulley_Extended\<close> and
    \<open>Pulley_Vector\<close>: the methods of \<open>impl OpVisitor\<close> and \<open>impl ExtendedOpVisitor for Interpreter\<close>, under their names; a method that
    the source repeats for each addressing mode, lane shape or immediate type is one definition with that as an argument.
    \<open>Wasm_Float\<close>: \<open>crates/core/src/math.rs\<close> over a model of IEEE 754. \<open>Pulley_Dispatch\<close>: the tables from
    instructions to handlers. \<open>Pulley_Interp\<close>: the loop of \<open>interp/match_loop.rs\<close> and \<open>Vm::call\<close>.
  \<^item> \<open>Gc_Free_List\<close> and \<open>Gc_Free_List_Use\<close>: \<open>crates/wasmtime/src/runtime/vm/gc/enabled/free_list.rs\<close>.
  \<^item> \<open>Stack_Maps\<close>: \<open>crates/environ/src/compile/stack_maps.rs\<close> and \<open>crates/environ/src/stack_map.rs\<close>. \<open>Exception_Table\<close>:
    \<open>crates/unwinder/src/exception_table.rs\<close>, with the call site types of \<open>cranelift/codegen/src/machinst/buffer.rs\<close>.
  \<^item> \<open>Slot_Chain\<close>: a list of slots in which the free ones form a chain. \<open>Handle_Table\<close>:
    \<open>crates/wasmtime/src/runtime/vm/component/handle_table.rs\<close>. \<open>Component_Resources\<close>: \<open>resources.rs\<close> beside it, with the scopes of
    \<open>crates/wasmtime/src/runtime/component/store.rs\<close>. \<open>Host_Tables\<close>: \<open>crates/wasmtime/src/runtime/component/resources/host_tables.rs\<close>.

  State is passed explicitly. A function that can fail returns \<open>Ok\<close>, \<open>Err\<close> or \<open>Panic\<close>; a handler returns a
  control flow, whose case \<open>Unwind\<close> stands for a panic, for an unreachable point reached and for an unchecked lane out of range.

  \<^bold>\<open>What is shown.\<close>
  \<^item> Encoding: decoding inverts encoding for all 543 instructions, through a slice and through a raw pointer; \<open>decode_all\<close>
    ends on every input; a truncated instruction and an unknown opcode are reported (\<open>Pulley_Decode\<close>). The contract
    of a stream is the locale \<open>bytecode_stream\<close>, that of a register class \<open>reg\<close>, that of a visitor \<open>op_visitor\<close>, each
    interpreted for every implementation.
  \<^item> Execution: every handler continues or stops with a recorded reason, without a panic, on operands of its types and provided that the
    pointers it uses are valid (\<open>Pulley_Sound\<close>, by the table; loads and stores through the locale \<open>addressing_mode\<close>); this lifts to the loop
    and to \<open>Vm::call\<close> on bytecode that is valid wherever the program counter gets to, and a counting loop is shown to
    return (\<open>Pulley_Programs\<close>). The bounds check of a memory access is exact (\<open>Pulley_Machine\<close>), frames are restored
    (\<open>Pulley_Control\<close>) around a body that keeps the saved slots, division, wide arithmetic, the vector instructions on integer lanes and the
    trapping conversions compute what they should over the integers and the reals (\<open>Pulley_Integer\<close>, \<open>Pulley_Extended\<close>, \<open>Pulley_Lanes\<close>,
    \<open>Float_Laws\<close>, \<open>Pulley_Convert\<close>). \<open>Pulley_Lanes\<close> runs the instructions through the dispatcher, against a specification of
    each by its name.
  \<^item> Bit sets: every operation is the operation on the set of elements (locale \<open>popping_set\<close> for draining and iteration). Two
    defects are theorems: a range that starts and ends at the capacity is the full set, and a growth that fails for want of memory loses
    the elements.
  \<^item> Free list: in every state reachable by allocating, releasing and growing, blocks in use are disjoint from each other
    and from free memory, the integrity check of the source passes, no operation panics, memory released
    comes back, and allocation fails only for want of memory. The one exception is a theorem too: the slow path of
    allocation can lose the memory at the start of the heap. The contracts \<open>freed\<close> and \<open>took\<close> say what an operation does to
    the free bytes; \<open>fl_reach\<close> is the step relation.
  \<^item> Tables: stack maps and exception tables answer, after being written and read, exactly what was recorded. The
    search of exception handlers by tag is right if the tags are in order, and a theorem shows that nothing puts them in order.
  \<^item> Handles: the free slots of a table are one chain (locale \<open>slot_table\<close>, interpreted for the handle table), so a table is a map from
    handles to slots; \<open>ht_op\<close> lists its operations and \<open>ht_reach\<close> the tables they build. Over the calls \<open>rt_call\<close> on the tables of a
    component the invariant \<open>rt_inv\<close> bounds lends and borrows by their counts, failing calls included, from which follows
    that lent resources stay, that leaving a call is safe and that nothing panics. Among the calls is leaving a scope unvalidated, as after a destructor, when
    the scope counts no borrow. Over the calls \<open>hr_call\<close> of an embedder an index whose
    resource is gone stays invalid. Two defects are theorems: a borrow whose handle cannot be allocated blocks its scope, and
    an allocation that fails beside the host's table leads to a panic later.

  \<^bold>\<open>Bounds and fuel.\<close> The loops \<open>run\<close> and \<open>decode_all_loop\<close> are partial functions, whose \<open>None\<close> is not returning; \<open>decode_all\<close> is
    proved to return. Iterating a scalar bit set by repeated removal takes its width plus one steps of fuel, one more than it can have elements.
    The generations of the host's table are 32 bits wide, so what is
    shown about stale indices is for fewer than 2 to the 32 calls, counted by \<open>hr_steps\<close>. Lengths that the source stores in 32 bits are hypotheses of the two table properties, since the source panics above them.

  \<^bold>\<open>Assumptions.\<close> A 64-bit little-endian host and a release build: arithmetic wraps, debug assertions are absent. Raw pointers are valid: the memory of the
    interpreter has a byte at every address and any address can be jumped to, so nothing is shown about which addresses a program touches
    beyond the bounds checks. The binary search of the standard library is its bisection also where the slice is not sorted, where the
    library leaves the result open; only the theorem about unordered handlers depends on that. Which NaN a
    float operation returns is a parameter (\<open>NaNs\<close>). Whether the host has memory is a parameter of the compound bit
    set and of the tables of handles. The store has no concurrency support, so that the open calls are a stack, and its calls concern one component. The \<open>object\<close> crate is a parameter with its documented laws \<open>object_laws\<close>, which \<open>le_object\<close> satisfies.

  \<^bold>\<open>Not modelled.\<close> The optimising and baseline compilers (\<open>cranelift/codegen\<close> and around it, \<open>winch\<close>): hundreds of thousands of lines, much
    of them generated from rules. The embedding API and most of the runtime under \<open>crates/wasmtime\<close>: unsafe code over host memory,
    signals and assembly. WASI, the command line, the C and Python bindings, caches and fibers: input and output, operating system
    interfaces and foreign functions. Of the modelled parts: text output, profiling, serialisation traits, the tail-call loop
    of the interpreter, which needs an unstable feature of the language, the iterator over all stack maps, and the tasks of a store with concurrency support.
\<close>

end
